(* ===== verification/Prelude.thy ===== *)
theory Prelude
  imports Main "HOL-Library.Word" "HOL-Library.AList"
begin

unbundle bit_operations_syntax

section \<open>Prelude: bytes, errors, results and generic lemmas\<close>

text \<open>
  Types and lemmas every component shares: Go's \<^verbatim>\<open>[]byte\<close> as a list of 8-bit words and
  Go's \<^verbatim>\<open>string\<close> as a list of 8-bit characters; Go's \<^verbatim>\<open>error\<close> values; the
  result of a call that may return a value, an error or panic; big-endian conversion between byte
  lists and numbers; and the facts about association lists that the components use for Go maps
  they iterate over.
\<close>

named_theorems go_text "facts about the text functions of Go's standard library"
named_theorems frame "facts that an operation leaves a part of the state alone"

subsection \<open>Bytes and strings\<close>

type_synonym byte = "8 word"
type_synonym bytes = "byte list"

lemma unat_less_size: "unat (w :: 'a :: len word) < 2 ^ LENGTH('a)"
  by (rule unsigned_less)

lemma unat_byte_less: "unat (b :: byte) < 256"
  using unsigned_less [of b] by simp

lemma unat_byte_mod [simp]: "unat (b :: byte) mod 256 = unat b"
  using unat_byte_less [of b] by simp

text \<open>The conversions \<^verbatim>\<open>[]byte(s)\<close> and \<^verbatim>\<open>string(b)\<close>.\<close>

definition bytes_of :: "string \<Rightarrow> bytes" where
  "bytes_of s = map (\<lambda>c. word_of_nat (of_char c)) s"

definition string_of :: "bytes \<Rightarrow> string" where
  "string_of bs = map (\<lambda>b. char_of (unat b)) bs"

lemma char_of_byte [simp]: "char_of (unat (word_of_nat (of_char c) :: byte)) = c"
proof -
  have "of_char c < (256 :: nat)"
    by (rule nat_of_char_less_256)
  then have "unat (word_of_nat (of_char c) :: byte) = of_char c"
    by (simp add: unat_of_nat take_bit_eq_mod)
  then show ?thesis
    by simp
qed

lemma byte_of_char [simp]: "word_of_nat (of_char (char_of (unat b))) = (b :: byte)"
  by (simp add: of_char_of)

lemma string_of_bytes_of [simp]: "string_of (bytes_of s) = s"
  by (simp add: string_of_def bytes_of_def comp_def)

lemma bytes_of_string_of [simp]: "bytes_of (string_of bs) = bs"
  by (simp add: string_of_def bytes_of_def comp_def)

lemma length_bytes_of [simp]: "length (bytes_of s) = length s"
  by (simp add: bytes_of_def)

lemma length_string_of [simp]: "length (string_of bs) = length bs"
  by (simp add: string_of_def)

lemma bytes_of_append: "bytes_of (s @ t) = bytes_of s @ bytes_of t"
  by (simp add: bytes_of_def)

lemma string_of_append: "string_of (s @ t) = string_of s @ string_of t"
  by (simp add: string_of_def)

lemma string_of_take: "string_of (take n bs) = take n (string_of bs)"
  by (simp add: string_of_def take_map)

lemma bytes_of_eq_iff [simp]: "bytes_of s = bytes_of t \<longleftrightarrow> s = t"
  by (metis string_of_bytes_of)

lemma string_of_eq_iff [simp]: "string_of s = string_of t \<longleftrightarrow> s = t"
  by (metis bytes_of_string_of)

subsection \<open>Errors\<close>

text \<open>
  A Go \<^verbatim>\<open>error\<close>: \<open>Msg\<close> is one with a fixed text (or one that an external function
  returned), \<open>Fmt\<close> one that \<^verbatim>\<open>fmt.Errorf\<close> or \<^verbatim>\<open>errors.Wrap\<close> made from a
  format and its arguments, \<open>Coded\<close> one of Burrow's \<^verbatim>\<open>errors.ErrorCodef\<close>.
  The formats are kept as the source writes them; their arguments stay values.
\<close>

datatype error_code =
    ErrorCodeGeneric
  | ErrorCodeUnknownAddress
  | ErrorCodeInsufficientBalance
  | ErrorCodeInvalidJumpDest
  | ErrorCodeInsufficientGas
  | ErrorCodeMemoryOutOfBounds
  | ErrorCodeCodeOutOfBounds
  | ErrorCodeInputOutOfBounds
  | ErrorCodeReturnDataOutOfBounds
  | ErrorCodeCallStackOverflow
  | ErrorCodeCallStackUnderflow
  | ErrorCodeDataStackOverflow
  | ErrorCodeDataStackUnderflow
  | ErrorCodeInvalidContract
  | ErrorCodeNativeContractCodeCopy
  | ErrorCodeExecutionAborted
  | ErrorCodeExecutionReverted
  | ErrorCodePermissionDenied
  | ErrorCodeNativeFunction
  | ErrorCodeEventPublish
  | ErrorCodeInvalidString
  | ErrorCodeEventMapping
  | ErrorCodeInvalidAddress
  | ErrorCodeDuplicateAddress
  | ErrorCodeInsufficientFunds
  | ErrorCodeOverpayment
  | ErrorCodeZeroPayment
  | ErrorCodeInvalidSequence
  | ErrorCodeReservedAddress
  | ErrorCodeIllegalWrite
  | ErrorCodeIntegerOverflow
  | ErrorCodeInvalidProposal
  | ErrorCodeExpiredProposal
  | ErrorCodeProposalExecuted
  | ErrorCodeNoInputPermission
  | ErrorCodeInvalidBlockNumber
  | ErrorCodeBlockNumberOutOfRange
  | ErrorCodeAlreadyVoted

text \<open>\<^verbatim>\<open>Code.String\<close>.\<close>

fun Code_String :: "error_code \<Rightarrow> string" where
  "Code_String ErrorCodeGeneric = ''generic error''"
| "Code_String ErrorCodeUnknownAddress = ''unknown address''"
| "Code_String ErrorCodeInsufficientBalance = ''insufficient balance''"
| "Code_String ErrorCodeInvalidJumpDest = ''invalid jump dest''"
| "Code_String ErrorCodeInsufficientGas = ''insufficient gas''"
| "Code_String ErrorCodeMemoryOutOfBounds = ''memory out of bounds''"
| "Code_String ErrorCodeCodeOutOfBounds = ''code out of bounds''"
| "Code_String ErrorCodeInputOutOfBounds = ''input out of bounds''"
| "Code_String ErrorCodeReturnDataOutOfBounds = ''return data out of bounds''"
| "Code_String ErrorCodeCallStackOverflow = ''call stack overflow''"
| "Code_String ErrorCodeCallStackUnderflow = ''call stack underflow''"
| "Code_String ErrorCodeDataStackOverflow = ''data stack overflow''"
| "Code_String ErrorCodeDataStackUnderflow = ''data stack underflow''"
| "Code_String ErrorCodeInvalidContract = ''invalid contract''"
| "Code_String ErrorCodeNativeContractCodeCopy = ''tried to copy native contract code''"
| "Code_String ErrorCodeExecutionAborted = ''execution aborted''"
| "Code_String ErrorCodeExecutionReverted = ''execution reverted''"
| "Code_String ErrorCodePermissionDenied = ''permission denied''"
| "Code_String ErrorCodeNativeFunction = ''native function error''"
| "Code_String ErrorCodeEventPublish = ''event publish error''"
| "Code_String ErrorCodeInvalidString = ''invalid string''"
| "Code_String ErrorCodeEventMapping = ''event mapping error''"
| "Code_String ErrorCodeInvalidAddress = ''invalid address''"
| "Code_String ErrorCodeDuplicateAddress = ''duplicate address''"
| "Code_String ErrorCodeInsufficientFunds = ''insufficient funds''"
| "Code_String ErrorCodeOverpayment = ''overpayment''"
| "Code_String ErrorCodeZeroPayment = ''zero payment error''"
| "Code_String ErrorCodeInvalidSequence = ''invalid sequence number''"
| "Code_String ErrorCodeReservedAddress = ''address is reserved for SNative or internal use''"
| "Code_String ErrorCodeIllegalWrite = ''callee attempted to illegally modify state''"
| "Code_String ErrorCodeIntegerOverflow = ''integer overflow''"
| "Code_String ErrorCodeInvalidProposal = ''proposal is invalid''"
| "Code_String ErrorCodeExpiredProposal = ''proposal is expired since sequence number does not match''"
| "Code_String ErrorCodeProposalExecuted = ''proposal has already been executed''"
| "Code_String ErrorCodeNoInputPermission = ''account has no input permission''"
| "Code_String ErrorCodeInvalidBlockNumber = ''invalid block number''"
| "Code_String ErrorCodeBlockNumberOutOfRange = ''block number out of range''"
| "Code_String ErrorCodeAlreadyVoted = ''vote already registered for this address''"

lemma Code_String_nonempty [simp]: "Code_String c \<noteq> []"
  by (cases c) simp_all

datatype go_error =
    Msg string
  | Fmt string "fmt_arg list"
  | Coded error_code string "fmt_arg list"
and fmt_arg = ANat nat | AInt int | AStr string | ABytes bytes | AErr go_error

text \<open>The result of a call that may panic.\<close>

datatype 'a res = Ok 'a | Err go_error | Panic string

definition res_of_sum :: "go_error + 'a \<Rightarrow> 'a res" where
  "res_of_sum r = (case r of Inl e \<Rightarrow> Err e | Inr x \<Rightarrow> Ok x)"

lemma res_of_sum_simps [simp]:
  "res_of_sum (Inl e) = Err e" "res_of_sum (Inr x) = Ok x"
  by (simp_all add: res_of_sum_def)

lemma res_of_sum_not_panic [simp]: "res_of_sum r \<noteq> Panic p"
  by (cases r) simp_all

text \<open>Go on where a call returned, and \<^verbatim>\<open>errors.Wrap\<close>-like wrapping of its error.\<close>

definition res_bind :: "'a res \<Rightarrow> ('a \<Rightarrow> 'b res) \<Rightarrow> 'b res" where
  "res_bind r f = (case r of Ok x \<Rightarrow> f x | Err e \<Rightarrow> Err e | Panic p \<Rightarrow> Panic p)"

definition wrap_err :: "string \<Rightarrow> 'a res \<Rightarrow> 'a res" where
  "wrap_err m r = (case r of Ok x \<Rightarrow> Ok x | Err e \<Rightarrow> Err (Fmt m [AErr e]) | Panic p \<Rightarrow> Panic p)"

lemma res_bind_simps [simp]:
  "res_bind (Ok x) f = f x" "res_bind (Err e) f = Err e" "res_bind (Panic p) f = Panic p"
  by (simp_all add: res_bind_def)

lemma wrap_err_simps [simp]:
  "wrap_err m (Ok x) = Ok x" "wrap_err m (Err e) = Err (Fmt m [AErr e])" "wrap_err m (Panic p) = Panic p"
  by (simp_all add: wrap_err_def)

lemma res_bind_Ok: "res_bind r f = Ok y \<longleftrightarrow> (\<exists>x. r = Ok x \<and> f x = Ok y)"
  by (cases r) simp_all

lemma wrap_err_Ok [simp]: "wrap_err m r = Ok x \<longleftrightarrow> r = Ok x"
  by (cases r) simp_all

subsection \<open>Big-endian byte strings\<close>

fun be_bytes :: "nat \<Rightarrow> nat \<Rightarrow> bytes" where
  "be_bytes 0 v = []"
| "be_bytes (Suc n) v = be_bytes n (v div 256) @ [word_of_nat v]"

definition be_nat :: "bytes \<Rightarrow> nat" where
  "be_nat bs = foldl (\<lambda>n b. n * 256 + unat b) 0 bs"

lemma be_nat_Nil [simp]: "be_nat [] = 0"
  by (simp add: be_nat_def)

lemma be_nat_snoc [simp]: "be_nat (bs @ [b]) = be_nat bs * 256 + unat b"
  by (simp add: be_nat_def)

lemma length_be_bytes [simp]: "length (be_bytes n v) = n"
  by (induction n v rule: be_bytes.induct) simp_all

lemma be_nat_be_bytes: "be_nat (be_bytes n v) = v mod 256 ^ n"
proof (induction n v rule: be_bytes.induct)
  case (1 v)
  show ?case by simp
next
  case (2 n v)
  have "be_nat (be_bytes (Suc n) v) = (v div 256 mod 256 ^ n) * 256 + v mod 256"
    by (simp add: "2.IH" unat_of_nat take_bit_eq_mod)
  also have "\<dots> = v mod (256 * 256 ^ n)"
    by (simp add: mod_mult2_eq)
  finally show ?case by simp
qed

lemma be_nat_less: "be_nat bs < 256 ^ length bs"
proof (induction bs rule: rev_induct)
  case Nil
  show ?case by simp
next
  case (snoc b bs)
  have "be_nat bs * 256 + unat b < (be_nat bs + 1) * 256"
    using unat_byte_less [of b] by simp
  also have "\<dots> \<le> 256 ^ length bs * 256"
    using snoc.IH by (intro mult_right_mono) simp_all
  finally show ?case by simp
qed

lemma be_bytes_be_nat: "be_bytes (length bs) (be_nat bs) = bs"
proof (induction bs rule: rev_induct)
  case Nil
  show ?case by simp
next
  case (snoc b bs)
  have div: "(be_nat bs * 256 + unat b) div 256 = be_nat bs"
    using unat_byte_less [of b] by simp
  have mod: "(be_nat bs * 256 + unat b) mod 256 = unat b"
    using unat_byte_less [of b] by simp
  have "(word_of_nat (be_nat bs * 256 + unat b) :: byte) = b"
    by (rule word_unat_eq_iff [THEN iffD2])
      (simp add: unat_of_nat take_bit_eq_mod mod del: of_nat_add of_nat_mult)
  with snoc.IH div show ?case by simp
qed

lemma be_nat_inject: "length as = length bs \<Longrightarrow> be_nat as = be_nat bs \<Longrightarrow> as = bs"
  by (metis be_bytes_be_nat)

text \<open>Numeric order on equally long strings is their lexicographic order on the first byte.\<close>

lemma be_nat_replicate_zero [simp]: "be_nat (replicate n 0) = 0"
  by (induction n) (simp_all flip: replicate_append_same)

lemma be_nat_append: "be_nat (as @ bs) = be_nat as * 256 ^ length bs + be_nat bs"
proof (induction bs rule: rev_induct)
  case Nil
  show ?case by simp
next
  case (snoc b bs)
  have "be_nat (as @ bs @ [b]) = be_nat (as @ bs) * 256 + unat b"
    using be_nat_snoc [of "as @ bs" b] by simp
  with snoc.IH show ?case by (simp add: algebra_simps)
qed

subsection \<open>Association lists as Go maps\<close>

text \<open>
  A Go map whose keys the code enumerates is an association list with distinct keys, updated by
  \<^const>\<open>AList.update\<close>.
\<close>

lemma map_of_update [simp]: "map_of (AList.update k v m) = (map_of m)(k \<mapsto> v)"
  by (rule update_conv')

lemma distinct_keys_update [intro]:
  "distinct (map fst m) \<Longrightarrow> distinct (map fst (AList.update k v m))"
  by (rule distinct_update)

lemma set_map_fst_dom: "set (map fst m) = dom (map_of m)"
  by (simp add: dom_map_of_conv_image_fst)

lemma map_of_Some_in_keys: "map_of m k = Some v \<Longrightarrow> k \<in> fst ` set m"
  by (metis domI dom_map_of_conv_image_fst)

subsection \<open>Lists\<close>

lemma concat_map_singleton_length:
  assumes "\<And>x. x \<in> set xs \<Longrightarrow> length (f x) = k"
  shows "length (concat (map f xs)) = k * length xs"
  using assms by (induction xs) simp_all

lemma same_length_append_eq_iff:
  "length a = length c \<Longrightarrow> a @ b = c @ d \<longleftrightarrow> a = c \<and> b = d"
  by simp

subsection \<open>Loops that stop at the first failure\<close>

text \<open>
  \<^verbatim>\<open>for _, x := range xs { if err := f(x); err != nil { return err } }\<close> over a state: the
  steps run in order, and the first that does not return \<open>Ok\<close> ends the loop with its state.
\<close>

fun run_all :: "('s \<Rightarrow> 'x \<Rightarrow> unit res \<times> 's) \<Rightarrow> 'x list \<Rightarrow> 's \<Rightarrow> unit res \<times> 's" where
  "run_all f [] s = (Ok (), s)"
| "run_all f (x # xs) s =
     (case f s x of (Ok _, s') \<Rightarrow> run_all f xs s' | (r, s') \<Rightarrow> (r, s'))"

lemma run_all_Ok_Cons:
  "run_all f (x # xs) s = (Ok (), t) \<longleftrightarrow> (\<exists>u. f s x = (Ok (), u) \<and> run_all f xs u = (Ok (), t))"
proof (cases "f s x")
  case (Pair r u)
  then show ?thesis by (cases r) simp_all
qed

lemma run_all_inv:
  assumes step: "\<And>s x r t. P s \<Longrightarrow> x \<in> A \<Longrightarrow> f s x = (r, t) \<Longrightarrow> P t"
  shows "set xs \<subseteq> A \<Longrightarrow> P s \<Longrightarrow> run_all f xs s = (r, t) \<Longrightarrow> P t"
proof (induction xs arbitrary: s)
  case Nil
  then show ?case by simp
next
  case (Cons x xs)
  obtain r' u where u: "f s x = (r', u)"
    by (cases "f s x")
  have x: "x \<in> A" and xs: "set xs \<subseteq> A"
    using Cons.prems(1) by auto
  have Pu: "P u"
    using Cons.prems(2) x u by (rule step)
  show ?case
  proof (cases r')
    case (Ok z)
    with Cons.prems(3) u have "run_all f xs u = (r, t)"
      by simp
    with xs Pu show ?thesis
      by (rule Cons.IH)
  next
    case (Err e)
    with Cons.prems(3) u Pu show ?thesis
      by simp
  next
    case (Panic p)
    with Cons.prems(3) u Pu show ?thesis
      by simp
  qed
qed

text \<open>A loop over an embedded state is the embedded loop.\<close>

lemma run_all_lift:
  assumes "\<And>s x. f (h s) x = apsnd h (g s x)"
  shows "run_all f xs (h s) = apsnd h (run_all g xs s)"
proof (induction xs arbitrary: s)
  case Nil
  show ?case by simp
next
  case (Cons x xs)
  obtain r u where "g s x = (r, u)"
    by (cases "g s x")
  then show ?case
    using assms [of s x] Cons.IH [of u] by (cases r) simp_all
qed

lemma run_all_Ok:
  assumes "\<And>s x. P s \<Longrightarrow> x \<in> set xs \<Longrightarrow> \<exists>t. f s x = (Ok (), t) \<and> P t" and "P s"
  shows "\<exists>t. run_all f xs s = (Ok (), t) \<and> P t"
  using assms
proof (induction xs arbitrary: s)
  case Nil
  then show ?case by auto
next
  case (Cons x xs)
  then obtain u where u: "f s x = (Ok (), u)" "P u"
    by (meson list.set_intros(1))
  moreover from Cons.prems(1) have "\<And>s y. P s \<Longrightarrow> y \<in> set xs \<Longrightarrow> \<exists>t. f s y = (Ok (), t) \<and> P t"
    by (meson list.set_intros(2))
  ultimately obtain t where "run_all f xs u = (Ok (), t)" "P t"
    using Cons.IH [of u] by blast
  with u show ?case by simp
qed

end
