(* ===== verification/Go_Text.thy ===== *)
theory Go_Text
  imports Prelude
begin

unbundle bit_operations_syntax

section \<open>The text functions of Go's standard library\<close>

text \<open>
  What the program uses of \<^verbatim>\<open>encoding/hex\<close>, \<^verbatim>\<open>strings\<close> and
  \<^verbatim>\<open>strconv\<close> (and of \<^verbatim>\<open>tmthrgd/go-hex\<close>, whose decoder and upper-case
  encoder agree with them), with the round trips between printing and parsing. A Go string is a
  sequence of bytes, so all functions work on 8-bit characters. Only the treatment of text
  outside ASCII by \<^verbatim>\<open>strings.ToLower\<close> and \<^verbatim>\<open>strings.Title\<close> (the Unicode
  tables) is a parameter.
\<close>

subsection \<open>A printer and the parser that inverts it\<close>

locale print_parse =
  fixes print :: "'a \<Rightarrow> 't" and parse :: "'t \<Rightarrow> 'a option"
  assumes parse_print: "parse (print x) = Some x"
begin

lemma print_inject: "print x = print y \<longleftrightarrow> x = y"
  by (metis option.inject parse_print)

lemma inj_print: "inj print"
  by (simp add: inj_def print_inject)

end

subsection \<open>Hexadecimal digits\<close>

definition hextable :: string where
  "hextable = ''0123456789abcdef''"

definition upper_hextable :: string where
  "upper_hextable = ''0123456789ABCDEF''"

definition fromHexChar :: "char \<Rightarrow> byte option" where
  "fromHexChar c = (let n = of_char c :: nat in
     if 48 \<le> n \<and> n \<le> 57 then Some (word_of_nat (n - 48))
     else if 97 \<le> n \<and> n \<le> 102 then Some (word_of_nat (n - 97 + 10))
     else if 65 \<le> n \<and> n \<le> 70 then Some (word_of_nat (n - 65 + 10))
     else None)"

definition ascii_lower :: "char \<Rightarrow> char" where
  "ascii_lower c = (let n = of_char c :: nat in
     if 65 \<le> n \<and> n \<le> 90 then char_of (n + 32) else c)"

definition ascii_upper :: "char \<Rightarrow> char" where
  "ascii_upper c = (let n = of_char c :: nat in
     if 97 \<le> n \<and> n \<le> 122 then char_of (n - 32) else c)"

lemma less_16_cases: "P (n :: nat)"
  if "n < 16" "P 0" "P 1" "P 2" "P 3" "P 4" "P 5" "P 6" "P 7" "P 8" "P 9" "P 10" "P 11"
    "P 12" "P 13" "P 14" "P 15"
  using that by (auto simp: numeral_eq_Suc less_Suc_eq)

lemma fromHexChar_hextable [simp]: "n < 16 \<Longrightarrow> fromHexChar (hextable ! n) = Some (word_of_nat n)"
  by (erule less_16_cases) (simp_all add: fromHexChar_def hextable_def)

lemma fromHexChar_upper_hextable [simp]:
  "n < 16 \<Longrightarrow> fromHexChar (upper_hextable ! n) = Some (word_of_nat n)"
  by (erule less_16_cases) (simp_all add: fromHexChar_def upper_hextable_def)

lemma ascii_lower_upper_hextable [simp]: "n < 16 \<Longrightarrow> ascii_lower (upper_hextable ! n) = hextable ! n"
  by (erule less_16_cases) (simp_all add: ascii_lower_def hextable_def upper_hextable_def char_of_def bit_0)

lemma ascii_lower_hextable [simp]: "n < 16 \<Longrightarrow> ascii_lower (hextable ! n) = hextable ! n"
  by (erule less_16_cases) (simp_all add: ascii_lower_def hextable_def)

definition is_ascii :: "char \<Rightarrow> bool" where
  "is_ascii c \<longleftrightarrow> (of_char c :: nat) < 128"

lemma is_ascii_hextable [simp]: "n < 16 \<Longrightarrow> is_ascii (hextable ! n)"
  by (erule less_16_cases) (simp_all add: is_ascii_def hextable_def)

lemma is_ascii_upper_hextable [simp]: "n < 16 \<Longrightarrow> is_ascii (upper_hextable ! n)"
  by (erule less_16_cases) (simp_all add: is_ascii_def upper_hextable_def)

lemma hextable_inject: "m < 16 \<Longrightarrow> n < 16 \<Longrightarrow> hextable ! m = hextable ! n \<longleftrightarrow> m = n"
proof
  assume "m < 16" "n < 16" "hextable ! m = hextable ! n"
  moreover have "distinct hextable" "length hextable = 16"
    by (simp_all add: hextable_def)
  ultimately show "m = n"
    by (simp add: nth_eq_iff_index_eq)
qed simp

subsection \<open>encoding/hex\<close>

text \<open>One byte is printed as \<^verbatim>\<open>hextable[v>>4]\<close> and \<^verbatim>\<open>hextable[v&0x0f]\<close>.\<close>

definition hex_digits :: "string \<Rightarrow> byte \<Rightarrow> string" where
  "hex_digits table v = [table ! unat (drop_bit 4 v), table ! unat (v AND 15)]"

definition hex_EncodeToString :: "bytes \<Rightarrow> string" where
  "hex_EncodeToString bs = concat (map (hex_digits hextable) bs)"

definition hex_EncodeUpperToString :: "bytes \<Rightarrow> string" where
  "hex_EncodeUpperToString bs = concat (map (hex_digits upper_hextable) bs)"

definition hex_InvalidByteError :: "char \<Rightarrow> go_error" where
  "hex_InvalidByteError c = Fmt ''encoding/hex: invalid byte: %#U'' [ANat (of_char c)]"

definition hex_ErrLength :: go_error where
  "hex_ErrLength = Msg ''encoding/hex: odd length hex string''"

fun hex_DecodeString :: "string \<Rightarrow> go_error + bytes" where
  "hex_DecodeString [] = Inr []"
| "hex_DecodeString [c] =
     (case fromHexChar c of None \<Rightarrow> Inl (hex_InvalidByteError c) | Some _ \<Rightarrow> Inl hex_ErrLength)"
| "hex_DecodeString (c # d # s) =
     (case fromHexChar c of
        None \<Rightarrow> Inl (hex_InvalidByteError c)
      | Some a \<Rightarrow>
          (case fromHexChar d of
             None \<Rightarrow> Inl (hex_InvalidByteError d)
           | Some b \<Rightarrow>
               (case hex_DecodeString s of
                  Inl e \<Rightarrow> Inl e
                | Inr bs \<Rightarrow> Inr ((push_bit 4 a OR b) # bs))))"

lemma unat_high_nibble: "unat (drop_bit 4 (v :: byte)) = unat v div 16"
  by (simp add: unat_div_distrib drop_bit_eq_div)

lemma low_nibble: "(v :: byte) AND 15 = take_bit 4 v"
  by (simp add: take_bit_eq_mask mask_numeral)

lemma unat_low_nibble: "unat ((v :: byte) AND 15) = unat v mod 16"
  by (simp add: low_nibble unat_mod_distrib take_bit_eq_mod)

lemma nibbles_less: "unat (v :: byte) div 16 < 16" "unat (v :: byte) mod 16 < 16"
  using unat_byte_less [of v] by auto

lemma combine_nibbles:
  "push_bit 4 (word_of_nat (unat v div 16)) OR word_of_nat (unat v mod 16) = (v :: byte)"
proof -
  have hi: "(word_of_nat (unat v div 16) :: byte) = drop_bit 4 v"
    by (simp flip: unat_high_nibble)
  have lo: "(word_of_nat (unat v mod 16) :: byte) = take_bit 4 v"
    by (simp flip: unat_low_nibble low_nibble)
  show ?thesis
    unfolding hi lo by (rule bit_eqI) (auto simp: bit_simps)
qed

lemma hex_digits_eq: "hex_digits table v = [table ! (unat v div 16), table ! (unat v mod 16)]"
  by (simp only: hex_digits_def unat_high_nibble unat_low_nibble)

lemma length_hex [simp]:
  "length (hex_EncodeToString bs) = 2 * length bs"
  "length (hex_EncodeUpperToString bs) = 2 * length bs"
  by (induction bs) (simp_all add: hex_EncodeToString_def hex_EncodeUpperToString_def hex_digits_def)

lemma hex_Nil [simp]: "hex_EncodeToString [] = []" "hex_EncodeUpperToString [] = []"
  by (simp_all add: hex_EncodeToString_def hex_EncodeUpperToString_def)

lemma hex_eq_Nil [simp]: "hex_EncodeToString bs = [] \<longleftrightarrow> bs = []" "hex_EncodeUpperToString bs = [] \<longleftrightarrow> bs = []"
  using length_hex [of bs] by (metis length_0_conv mult_is_0 zero_neq_numeral hex_Nil)+

lemma hex_Cons:
  "hex_EncodeToString (b # bs) = hextable ! (unat b div 16) # hextable ! (unat b mod 16) # hex_EncodeToString bs"
  "hex_EncodeUpperToString (b # bs) =
     upper_hextable ! (unat b div 16) # upper_hextable ! (unat b mod 16) # hex_EncodeUpperToString bs"
  by (simp_all add: hex_EncodeToString_def hex_EncodeUpperToString_def hex_digits_eq)

lemma hex_decode_encode [go_text, simp]: "hex_DecodeString (hex_EncodeToString bs) = Inr bs"
  by (induction bs) (simp_all add: hex_Cons nibbles_less combine_nibbles)

lemma hex_decode_encode_upper [go_text, simp]: "hex_DecodeString (hex_EncodeUpperToString bs) = Inr bs"
  by (induction bs) (simp_all add: hex_Cons nibbles_less combine_nibbles)

definition inr_option :: "'e + 'a \<Rightarrow> 'a option" where
  "inr_option r = (case r of Inl _ \<Rightarrow> None | Inr x \<Rightarrow> Some x)"

interpretation hex: print_parse hex_EncodeToString "\<lambda>s. inr_option (hex_DecodeString s)"
  by unfold_locales (simp add: inr_option_def)

interpretation upper_hex: print_parse hex_EncodeUpperToString "\<lambda>s. inr_option (hex_DecodeString s)"
  by unfold_locales (simp add: inr_option_def)

lemma map_lower_hex_upper: "map ascii_lower (hex_EncodeUpperToString bs) = hex_EncodeToString bs"
  by (induction bs) (simp_all add: hex_Cons nibbles_less)

lemma map_lower_hex: "map ascii_lower (hex_EncodeToString bs) = hex_EncodeToString bs"
  by (induction bs) (simp_all add: hex_Cons nibbles_less)

lemma hex_ascii [simp]:
  "list_all is_ascii (hex_EncodeToString bs)" "list_all is_ascii (hex_EncodeUpperToString bs)"
  by (induction bs) (simp_all add: hex_Cons nibbles_less)

lemma take_hex: "take (2 * n) (hex_EncodeToString bs) = hex_EncodeToString (take n bs)"
proof (induction n arbitrary: bs)
  case 0
  show ?case by simp
next
  case (Suc n)
  then show ?case by (cases bs) (simp_all add: hex_Cons)
qed

text \<open>The decoder accepts the printed form in either case, and nothing else.\<close>

lemma fromHexChar_Some_lower:
  assumes "fromHexChar c = Some v"
  shows "unat v < 16 \<and> hextable ! unat v = ascii_lower c"
proof -
  define n where "n = (of_char c :: nat)"
  have c: "c = char_of n"
    by (simp add: n_def)
  have "n \<in> {48..57} \<union> {97..102} \<union> {65..70}"
    using assms by (auto simp: fromHexChar_def n_def Let_def split: if_splits)
  then have "n \<in> {48, 49, 50, 51, 52, 53, 54, 55, 56, 57, 97, 98, 99, 100, 101, 102, 65, 66, 67, 68, 69, 70}"
    by simp arith
  then show ?thesis
    using assms unfolding c
    by (elim insertE emptyE)
      (simp_all add: fromHexChar_def hextable_def ascii_lower_def char_of_def bit_0 flip: n_def)
qed

lemma nibbles_of_combined:
  assumes "unat (a :: byte) < 16" "unat (b :: byte) < 16"
  shows "unat (push_bit 4 a OR b) div 16 = unat a" "unat (push_bit 4 a OR b) mod 16 = unat b"
proof -
  have "push_bit 4 a AND b = 0"
  proof (rule bit_eqI)
    fix n
    have "take_bit 4 b = b"
      using assms(2) by (simp add: word_unat_eq_iff unat_mod_distrib take_bit_eq_mod)
    then have "bit b n \<Longrightarrow> n < 4"
      by (metis bit_take_bit_iff)
    then show "bit (push_bit 4 a AND b) n = bit (0 :: byte) n"
      by (auto simp: bit_simps)
  qed
  then have "push_bit 4 a OR b = push_bit 4 a + b"
    by (simp add: disjunctive_add_eq_or)
  moreover have "push_bit 4 a = word_of_nat (16 * unat a)"
    by (simp add: push_bit_eq_mult)
  ultimately have "unat (push_bit 4 a OR b) = (16 * unat a + unat b) mod 256"
    by (simp add: unat_word_ariths unat_of_nat take_bit_eq_mod mod_simps)
  then have "unat (push_bit 4 a OR b) = 16 * unat a + unat b"
    using assms by simp
  with assms(2) show "unat (push_bit 4 a OR b) div 16 = unat a" "unat (push_bit 4 a OR b) mod 16 = unat b"
    by simp_all
qed

lemma hex_encode_decode:
  "hex_DecodeString s = Inr bs \<Longrightarrow> hex_EncodeToString bs = map ascii_lower s"
proof (induction s arbitrary: bs rule: hex_DecodeString.induct)
  case (3 c d s)
  from "3.prems" obtain a b bs' where
    a: "fromHexChar c = Some a" and b: "fromHexChar d = Some b"
    and s: "hex_DecodeString s = Inr bs'" and bs: "bs = (push_bit 4 a OR b) # bs'"
    by (auto split: option.splits sum.splits)
  from "3.IH" [OF a b s] have "hex_EncodeToString bs' = map ascii_lower s" .
  moreover note a = fromHexChar_Some_lower [OF a] and b = fromHexChar_Some_lower [OF b]
  ultimately show ?case
    unfolding bs by (simp add: hex_Cons nibbles_of_combined)
qed (auto split: option.splits)

lemma hex_decode_length: "hex_DecodeString s = Inr bs \<Longrightarrow> length s = 2 * length bs"
  by (metis hex_encode_decode length_hex(1) length_map)

subsection \<open>strings\<close>

text \<open>
  \<^verbatim>\<open>strings.ToLower\<close> maps ASCII text byte by byte; \<open>uni\<close> is what it does to other
  text (it maps the Unicode code points one by one).
\<close>

definition strings_ToLower :: "(string \<Rightarrow> string) \<Rightarrow> string \<Rightarrow> string" where
  "strings_ToLower uni s = (if list_all is_ascii s then map ascii_lower s else uni s)"

lemma ToLower_hex [go_text, simp]:
  "strings_ToLower uni (hex_EncodeUpperToString bs) = hex_EncodeToString bs"
  "strings_ToLower uni (hex_EncodeToString bs) = hex_EncodeToString bs"
  by (simp_all add: strings_ToLower_def map_lower_hex_upper map_lower_hex)

definition strings_HasPrefix :: "string \<Rightarrow> string \<Rightarrow> bool" where
  "strings_HasPrefix s prefix \<longleftrightarrow> length prefix \<le> length s \<and> take (length prefix) s = prefix"

definition strings_TrimPrefix :: "string \<Rightarrow> string \<Rightarrow> string" where
  "strings_TrimPrefix s prefix = (if strings_HasPrefix s prefix then drop (length prefix) s else s)"

lemma TrimPrefix_append [simp]: "strings_TrimPrefix (p @ s) p = s"
  by (simp add: strings_TrimPrefix_def strings_HasPrefix_def)

text \<open>\<^verbatim>\<open>strings.Split(s, sep)\<close> for a separator of one byte: one piece more than separators.\<close>

fun strings_Split :: "string \<Rightarrow> char \<Rightarrow> string list" where
  "strings_Split [] sep = [[]]"
| "strings_Split (c # s) sep =
     (if c = sep then [] # strings_Split s sep
      else (case strings_Split s sep of [] \<Rightarrow> [[c]] | p # ps \<Rightarrow> (c # p) # ps))"

lemma Split_not_Nil [simp]: "strings_Split s sep \<noteq> []"
  by (cases s) (simp_all split: list.splits)

lemma length_Split: "length (strings_Split s sep) = count_list s sep + 1"
  by (induction s sep rule: strings_Split.induct) (auto split: list.splits)

lemma Split_no_sep: "sep \<notin> set s \<Longrightarrow> strings_Split s sep = [s]"
  by (induction s sep rule: strings_Split.induct) auto

lemma Split_append_sep:
  "sep \<notin> set a \<Longrightarrow> strings_Split (a @ sep # b) sep = a # strings_Split b sep"
  by (induction a) auto

text \<open>
  \<^verbatim>\<open>strings.Title\<close> maps the first letter of every word to title case, where a word starts
  after a byte that is not a letter, a digit or an underscore.
\<close>

definition ascii_isSeparator :: "char \<Rightarrow> bool" where
  "ascii_isSeparator c = (let n = of_char c :: nat in
     \<not> (48 \<le> n \<and> n \<le> 57 \<or> 97 \<le> n \<and> n \<le> 122 \<or> 65 \<le> n \<and> n \<le> 90 \<or> c = CHR ''_''))"

fun title_from :: "char \<Rightarrow> string \<Rightarrow> string" where
  "title_from prev [] = []"
| "title_from prev (c # s) = (if ascii_isSeparator prev then ascii_upper c else c) # title_from c s"

definition strings_Title :: "(string \<Rightarrow> string) \<Rightarrow> string \<Rightarrow> string" where
  "strings_Title uni s = (if list_all is_ascii s then title_from CHR '' '' s else uni s)"

lemma length_title_from [simp]: "length (title_from p s) = length s"
  by (induction s arbitrary: p) simp_all

lemma title_from_no_separator:
  "\<not> ascii_isSeparator p \<Longrightarrow> list_all (\<lambda>c. \<not> ascii_isSeparator c) s \<Longrightarrow> title_from p s = s"
  by (induction s arbitrary: p) simp_all

lemma Title_word:
  assumes "is_ascii c" "list_all is_ascii s" "\<not> ascii_isSeparator c"
    "list_all (\<lambda>c. \<not> ascii_isSeparator c) s"
  shows "strings_Title uni (c # s) = ascii_upper c # s"
  using assms by (simp add: strings_Title_def title_from_no_separator ascii_isSeparator_def)

subsection \<open>strconv\<close>

text \<open>
  \<^verbatim>\<open>strconv.ParseUint(s, 16, 64)\<close> returns a value even when it returns an error: 0 for a
  syntax error, the largest value for a number out of range. Its loop checks the next digit, then
  whether \<open>n * 16\<close> would overflow, then whether adding the digit did.
\<close>

definition strconv_ErrSyntax :: go_error where "strconv_ErrSyntax = Msg ''invalid syntax''"
definition strconv_ErrRange :: go_error where "strconv_ErrRange = Msg ''value out of range''"

fun parse_hex_loop :: "64 word \<Rightarrow> string \<Rightarrow> 64 word \<times> go_error option" where
  "parse_hex_loop n [] = (n, None)"
| "parse_hex_loop n (c # s) =
     (case fromHexChar c of
        None \<Rightarrow> (0, Some strconv_ErrSyntax)
      | Some d \<Rightarrow>
          (if n \<ge> 2 ^ 60 then (- 1, Some strconv_ErrRange)
           else (let m = n * 16; n1 = m + ucast d in
             if n1 < m then (- 1, Some strconv_ErrRange) else parse_hex_loop n1 s)))"

definition strconv_ParseUint16 :: "string \<Rightarrow> 64 word \<times> go_error option" where
  "strconv_ParseUint16 s = (if s = [] then (0, Some strconv_ErrSyntax) else parse_hex_loop 0 s)"

text \<open>\<^verbatim>\<open>strconv.FormatUint(n, 16)\<close>: the digits without leading zeros.\<close>

fun format_hex :: "nat \<Rightarrow> string" where
  "format_hex n = (if n < 16 then [hextable ! n] else format_hex (n div 16) @ [hextable ! (n mod 16)])"

declare format_hex.simps [simp del]

definition strconv_FormatUint16 :: "64 word \<Rightarrow> string" where
  "strconv_FormatUint16 n = format_hex (unat n)"

lemma format_hex_not_Nil [simp]: "format_hex n \<noteq> []"
  by (subst format_hex.simps) simp

lemma unat_ucast_byte [simp]: "unat (ucast (d :: byte) :: 64 word) = unat d"
  using unat_byte_less [of d] by (simp add: unsigned_ucast_eq take_bit_eq_mod)

text \<open>One step of the loop, on numbers.\<close>

lemma parse_hex_step:
  assumes "k < 2 ^ 60" and "fromHexChar c = Some d" and "unat d < 16"
  shows "parse_hex_loop (word_of_nat k) (c # s) = parse_hex_loop (word_of_nat (16 * k + unat d)) s"
proof -
  have k: "unat (word_of_nat k :: 64 word) = k"
    using assms(1) by (simp add: unat_of_nat take_bit_eq_mod)
  have m: "unat (word_of_nat k * 16 :: 64 word) = 16 * k"
    using assms(1) by (simp add: unat_word_ariths k)
  have n1: "unat (word_of_nat k * 16 + ucast d :: 64 word) = 16 * k + unat d"
    using assms(1,3) by (simp add: unat_plus_if' m del: unat_mult_lem)
  have "\<not> (2 ^ 60 \<le> (word_of_nat k :: 64 word))"
    using assms(1) by (simp add: word_le_nat_alt k)
  moreover have "\<not> (word_of_nat k * 16 + ucast d < (word_of_nat k * 16 :: 64 word))"
    by (simp add: word_less_nat_alt m n1)
  moreover have "word_of_nat k * 16 + ucast d = (word_of_nat (16 * k + unat d) :: 64 word)"
    by (simp flip: n1)
  ultimately show ?thesis
    using assms(2) by (simp only: parse_hex_loop.simps Let_def option.case if_False)
qed

lemma parse_hex_loop_format:
  "v < 2 ^ 64 \<Longrightarrow> parse_hex_loop 0 (format_hex v @ s) = parse_hex_loop (word_of_nat v) s"
proof (induction v arbitrary: s rule: format_hex.induct)
  case (1 v)
  have digit: "unat (word_of_nat (v mod 16) :: byte) = v mod 16"
    by (simp add: unat_of_nat take_bit_eq_mod)
  have step: "k < 2 ^ 60 \<Longrightarrow> parse_hex_loop (word_of_nat k) (hextable ! (v mod 16) # s) =
      parse_hex_loop (word_of_nat (16 * k + v mod 16)) s" for k
    using parse_hex_step [of k "hextable ! (v mod 16)" "word_of_nat (v mod 16)" s] digit by simp
  show ?case
  proof (cases "v < 16")
    case True
    with step [of 0] show ?thesis
      by (subst format_hex.simps) simp
  next
    case False
    have "v div 16 < 2 ^ 60" "v div 16 < 2 ^ 64"
      using "1.prems" by (simp_all add: div_less_iff_less_mult)
    moreover have "16 * (v div 16) + v mod 16 = v"
      by simp
    ultimately show ?thesis
      using "1.IH" [OF False] step [of "v div 16"] False
      by (subst format_hex.simps) simp
  qed
qed

lemma ParseUint_FormatUint [go_text, simp]: "strconv_ParseUint16 (strconv_FormatUint16 n) = (n, None)"
proof -
  have "unat n < 2 ^ 64"
    using unsigned_less [of n] by simp
  then show ?thesis
    using parse_hex_loop_format [of "unat n" "[]"]
    by (simp add: strconv_ParseUint16_def strconv_FormatUint16_def)
qed

interpretation hex_number: print_parse strconv_FormatUint16
  "\<lambda>s. case strconv_ParseUint16 s of (n, None) \<Rightarrow> Some n | (n, Some e) \<Rightarrow> None"
  by unfold_locales simp

lemma format_hex_hextable: "set (format_hex n) \<subseteq> set hextable"
proof (induction n rule: format_hex.induct)
  case (1 n)
  have "hextable ! (n mod 16) \<in> set hextable"
    by (rule nth_mem) (simp add: hextable_def)
  then show ?case
    using 1 by (subst format_hex.simps) auto
qed

lemma format_hex_no_x: "CHR ''x'' \<notin> set (format_hex n)"
  using format_hex_hextable [of n] by (auto simp: hextable_def)

lemma FormatUint_not_Nil [simp]: "strconv_FormatUint16 n \<noteq> []"
  by (simp add: strconv_FormatUint16_def)

end
