(* ===== verification/Permissions.thy ===== *)
theory Permissions
  imports Go_Text
begin

unbundle bit_operations_syntax

section \<open>Account permissions\<close>

text \<open>
  Burrow's permission flags (\<^verbatim>\<open>permission/perm_flag.go\<close>,
  \<^verbatim>\<open>base_permissions.go\<close>, \<^verbatim>\<open>account_permissions.go\<close>): a 64-bit set of
  flags with a second set that says which of them are set at all, so that an account's own
  permissions can fall through to the global ones.
\<close>

type_synonym perm_flag = "64 word"

definition perm_Send :: perm_flag where "perm_Send = push_bit 1 1"
definition perm_Call :: perm_flag where "perm_Call = push_bit 2 1"
definition perm_CreateContract :: perm_flag where "perm_CreateContract = push_bit 3 1"
definition perm_CreateAccount :: perm_flag where "perm_CreateAccount = push_bit 4 1"
definition perm_HasBase :: perm_flag where "perm_HasBase = push_bit 10 1"
definition perm_SetBase :: perm_flag where "perm_SetBase = push_bit 11 1"
definition perm_UnsetBase :: perm_flag where "perm_UnsetBase = push_bit 12 1"
definition perm_SetGlobal :: perm_flag where "perm_SetGlobal = push_bit 13 1"
definition perm_HasRole :: perm_flag where "perm_HasRole = push_bit 14 1"
definition perm_AddRole :: perm_flag where "perm_AddRole = push_bit 15 1"
definition perm_RemoveRole :: perm_flag where "perm_RemoveRole = push_bit 16 1"

definition TopPermFlag :: perm_flag where "TopPermFlag = push_bit 16 1"
definition AllPermFlags :: perm_flag where "AllPermFlags = TopPermFlag OR (TopPermFlag - 1)"

definition IsValid :: "perm_flag \<Rightarrow> bool" where
  "IsValid pf = (pf \<le> AllPermFlags)"

record base_permissions =
  Perms :: perm_flag
  SetBit :: perm_flag

record account_permissions =
  Base :: base_permissions
  Roles :: "string list"

definition ErrInvalidPermission :: "perm_flag \<Rightarrow> go_error" where
  "ErrInvalidPermission ty = Fmt ''invalid permission %d'' [ANat (unat ty)]"

definition ErrValueNotSet :: "perm_flag \<Rightarrow> go_error" where
  "ErrValueNotSet ty = Fmt ''the value for permission %d is not set'' [ANat (unat ty)]"

definition IsSet :: "base_permissions \<Rightarrow> perm_flag \<Rightarrow> bool" where
  "IsSet bp ty = (if ty = 0 then False else SetBit bp AND ty = ty)"

definition perm_Get :: "base_permissions \<Rightarrow> perm_flag \<Rightarrow> go_error + bool" where
  "perm_Get bp ty =
     (if ty = 0 then Inl (ErrInvalidPermission ty)
      else if \<not> IsSet bp ty then Inl (ErrValueNotSet ty)
      else Inr (Perms bp AND ty = ty))"

definition perm_Set :: "base_permissions \<Rightarrow> perm_flag \<Rightarrow> bool \<Rightarrow> go_error option \<times> base_permissions" where
  "perm_Set bp ty value =
     (if ty = 0 then (Some (ErrInvalidPermission ty), bp)
      else (None, bp\<lparr>SetBit := SetBit bp OR ty,
                     Perms := (if value then Perms bp OR ty else Perms bp AND NOT ty)\<rparr>))"

definition perm_Unset :: "base_permissions \<Rightarrow> perm_flag \<Rightarrow> go_error option \<times> base_permissions" where
  "perm_Unset bp ty =
     (if ty = 0 then (Some (ErrInvalidPermission ty), bp)
      else (None, bp\<lparr>SetBit := SetBit bp AND NOT ty\<rparr>))"

definition ResultantPerms :: "base_permissions \<Rightarrow> perm_flag" where
  "ResultantPerms bp = Perms bp AND SetBit bp"

definition perm_Compose :: "base_permissions \<Rightarrow> base_permissions \<Rightarrow> base_permissions" where
  "perm_Compose bp bpFallthrough =
     \<lparr>Perms = (Perms bp AND SetBit bp) OR (Perms bpFallthrough AND (NOT (SetBit bp) AND SetBit bpFallthrough)),
      SetBit = SetBit bp OR SetBit bpFallthrough\<rparr>"

text \<open>Roles are compared and stored padded on the right to 32 bytes.\<close>

definition RightPadBytes :: "string \<Rightarrow> nat \<Rightarrow> string" where
  "RightPadBytes s n = s @ replicate (n - length s) (CHR 0x00)"

definition HasRole :: "account_permissions \<Rightarrow> string \<Rightarrow> bool" where
  "HasRole ap role = (RightPadBytes role 32 \<in> set (Roles ap))"

definition AddRole :: "account_permissions \<Rightarrow> string \<Rightarrow> bool \<times> account_permissions" where
  "AddRole ap role = (let r = RightPadBytes role 32 in
     if r \<in> set (Roles ap) then (False, ap) else (True, ap\<lparr>Roles := Roles ap @ [r]\<rparr>))"

definition RemoveRole :: "account_permissions \<Rightarrow> string \<Rightarrow> bool \<times> account_permissions" where
  "RemoveRole ap role = (let r = RightPadBytes role 32 in
     if r \<in> set (Roles ap) then (True, ap\<lparr>Roles := remove1 r (Roles ap)\<rparr>) else (False, ap))"

subsection \<open>Laws\<close>

lemma and_eq_iff_subset: "(a AND t = t) \<longleftrightarrow> (\<forall>n. bit t n \<longrightarrow> bit a n)" for a t :: perm_flag
proof
  assume "a AND t = t"
  then have "bit (a AND t) n = bit t n" for n
    by simp
  then show "\<forall>n. bit t n \<longrightarrow> bit a n"
    by (auto simp: bit_and_iff)
qed (auto intro!: bit_eqI simp: bit_simps)

lemma perm_Get_Set:
  assumes "ty \<noteq> 0"
  shows "perm_Get (snd (perm_Set bp ty v)) ty = Inr v"
proof -
  have set: "IsSet (snd (perm_Set bp ty v)) ty"
    using assms by (auto simp: IsSet_def perm_Set_def and_eq_iff_subset bit_simps)
  obtain n where n: "bit ty n"
    using assms by (auto simp: bit_eq_iff)
  have "(Perms (snd (perm_Set bp ty v)) AND ty = ty) = v"
    using assms n by (auto simp: perm_Set_def and_eq_iff_subset bit_simps)
  with assms set show ?thesis
    by (simp add: perm_Get_def)
qed

lemma perm_Get_Unset: "ty \<noteq> 0 \<Longrightarrow> perm_Get (snd (perm_Unset bp ty)) ty = Inl (ErrValueNotSet ty)"
proof -
  assume ty: "ty \<noteq> 0"
  then obtain n where "bit ty n"
    by (auto simp: bit_eq_iff)
  then have "\<not> IsSet (snd (perm_Unset bp ty)) ty"
    using ty by (auto simp: IsSet_def perm_Unset_def and_eq_iff_subset bit_simps)
  with ty show ?thesis
    by (simp add: perm_Get_def)
qed

text \<open>A single flag set on the account wins; otherwise the fall-through decides.\<close>

lemma perm_Get_Compose_set:
  assumes "IsSet bp ty"
  shows "perm_Get (perm_Compose bp g) ty = perm_Get bp ty"
proof -
  have sub: "bit (SetBit bp) n" if "bit ty n" for n
    using assms that by (auto simp: IsSet_def and_eq_iff_subset split: if_splits)
  then have "IsSet (perm_Compose bp g) ty"
    using assms by (auto simp: IsSet_def perm_Compose_def and_eq_iff_subset bit_simps split: if_splits)
  moreover have "(Perms (perm_Compose bp g) AND ty = ty) = (Perms bp AND ty = ty)"
    using sub by (auto simp: perm_Compose_def and_eq_iff_subset bit_simps)
  ultimately show ?thesis
    using assms by (simp add: perm_Get_def)
qed

lemma perm_Get_Compose_unset:
  assumes "SetBit bp AND ty = 0"
  shows "perm_Get (perm_Compose bp g) ty = perm_Get g ty"
proof -
  have no: "\<not> bit (SetBit bp) n" if "bit ty n" for n
    using assms that by (metis bit_0_eq bit_and_iff bot_apply bot_bool_def)
  have "IsSet (perm_Compose bp g) ty = IsSet g ty"
    using no by (auto simp: IsSet_def perm_Compose_def and_eq_iff_subset bit_simps)
  moreover have "IsSet g ty \<Longrightarrow> (Perms (perm_Compose bp g) AND ty = ty) = (Perms g AND ty = ty)"
    using no by (auto simp: IsSet_def perm_Compose_def and_eq_iff_subset bit_simps
        split: if_splits dest: bit_imp_le_length)
  ultimately show ?thesis
    by (simp add: perm_Get_def)
qed

lemma HasRole_AddRole: "HasRole (snd (AddRole ap role)) role"
  by (simp add: HasRole_def AddRole_def Let_def)

lemma HasRole_RemoveRole: "distinct (Roles ap) \<Longrightarrow> \<not> HasRole (snd (RemoveRole ap role)) role"
  by (simp add: HasRole_def RemoveRole_def Let_def)

end
