(* ===== verification/Burrow_Words.thy ===== *)
theory Burrow_Words
  imports Go_Text
begin

section \<open>Addresses and 256-bit words\<close>

text \<open>
  Burrow's \<^verbatim>\<open>crypto.Address\<close> (20 bytes) and \<^verbatim>\<open>binary.Word256\<close> (32 bytes), from
  \<^verbatim>\<open>crypto/address.go\<close> and \<^verbatim>\<open>binary/word256.go\<close> of the vendored Burrow. Both are
  big-endian, so an array of n bytes is a word of 8n bits: equality of arrays is equality of words
  and \<^verbatim>\<open>bytes.Compare\<close> is the order of words (\<open>Address_Compare\<close>,
  \<open>Word256_Compare\<close>). The hash function SHA-256 is a parameter.
\<close>

type_synonym address = "160 word"
type_synonym word256 = "256 word"

definition Address_Bytes :: "address \<Rightarrow> bytes" where
  "Address_Bytes a = be_bytes 20 (unat a)"

text \<open>Go's \<^verbatim>\<open>copy(address[:], bs)\<close> into a zeroed array.\<close>

definition copy_to_address :: "bytes \<Rightarrow> address" where
  "copy_to_address bs = word_of_nat (be_nat (take 20 (bs @ replicate 20 0)))"

text \<open>The address is returned even when the length is wrong, beside the error.\<close>

definition AddressFromBytes :: "bytes \<Rightarrow> address \<times> go_error option" where
  "AddressFromBytes bs = (copy_to_address bs,
     if length bs \<noteq> 20
     then Some (Fmt ''slice passed as address '%X' has %d bytes but should have %d bytes''
                 [ABytes bs, ANat (length bs), ANat 20])
     else None)"

definition ZeroAddress :: address where
  "ZeroAddress = 0"

definition Address_String :: "address \<Rightarrow> string" where
  "Address_String a = hex_EncodeUpperToString (Address_Bytes a)"

definition Nonce :: "(bytes \<Rightarrow> bytes) \<Rightarrow> address \<Rightarrow> bytes \<Rightarrow> bytes" where
  "Nonce sha256 caller nonce = sha256 (Address_Bytes caller @ nonce)"

definition NewContractAddress :: "(bytes \<Rightarrow> bytes) \<Rightarrow> address \<Rightarrow> bytes \<Rightarrow> address" where
  "NewContractAddress sha256 caller nonce = copy_to_address (Nonce sha256 caller nonce)"

definition Word256_Bytes :: "word256 \<Rightarrow> bytes" where
  "Word256_Bytes w = be_bytes 32 (unat w)"

definition Zero256 :: word256 where
  "Zero256 = 0"

definition RightPadWord256 :: "bytes \<Rightarrow> word256" where
  "RightPadWord256 bz = word_of_nat (be_nat (take 32 (bz @ replicate 32 0)))"

text \<open>
  \<^verbatim>\<open>copy(word[32-len(bz):], bz)\<close> panics on a negative slice bound when \<^verbatim>\<open>bz\<close> is
  longer than the word.
\<close>

definition LeftPadWord256 :: "bytes \<Rightarrow> word256 res" where
  "LeftPadWord256 bz =
     (if length bz > 32 then Panic ''slice bounds out of range''
      else Ok (word_of_nat (be_nat (replicate (32 - length bz) 0 @ bz))))"

definition Word256_MarshalText :: "word256 \<Rightarrow> go_error + bytes" where
  "Word256_MarshalText w = Inr (bytes_of (hex_EncodeUpperToString (Word256_Bytes w)))"

definition HexBytes_String :: "bytes \<Rightarrow> string" where
  "HexBytes_String hb = hex_EncodeUpperToString hb"

subsection \<open>Conversion lemmas\<close>

lemma length_Address_Bytes [simp]: "length (Address_Bytes a) = 20"
  by (simp add: Address_Bytes_def)

lemma length_Word256_Bytes [simp]: "length (Word256_Bytes w) = 32"
  by (simp add: Word256_Bytes_def)

lemma be_nat_Address_Bytes [simp]: "be_nat (Address_Bytes a) = unat a"
  using unat_less_size [of a] by (simp add: Address_Bytes_def be_nat_be_bytes)

lemma be_nat_Word256_Bytes [simp]: "be_nat (Word256_Bytes w) = unat w"
  using unat_less_size [of w] by (simp add: Word256_Bytes_def be_nat_be_bytes)

lemma Address_Bytes_not_Nil [simp]: "Address_Bytes a \<noteq> []"
  by (auto dest: arg_cong [where f = length])

text \<open>The hex form of an address has 40 digits, so it is no other word the chaincode knows.\<close>

lemma Address_hex_not_query [simp]: "hex_EncodeToString (Address_Bytes a) \<noteq> ''getCode''"
  by (auto dest: arg_cong [where f = length])

lemma copy_to_address_Bytes [simp]: "copy_to_address (Address_Bytes a) = a"
  by (simp add: copy_to_address_def)

lemma AddressFromBytes_Bytes [simp]: "AddressFromBytes (Address_Bytes a) = (a, None)"
  by (simp add: AddressFromBytes_def)

lemma Address_Bytes_copy:
  assumes "length bs = 20"
  shows "Address_Bytes (copy_to_address bs) = bs"
proof -
  have "unat (word_of_nat (be_nat bs) :: address) = be_nat bs"
    using be_nat_less [of bs] assms by (simp add: unat_of_nat take_bit_eq_mod)
  then show ?thesis
    using be_bytes_be_nat [of bs] assms by (simp add: Address_Bytes_def copy_to_address_def)
qed

lemma AddressFromBytes_None_iff: "snd (AddressFromBytes bs) = None \<longleftrightarrow> length bs = 20"
  by (simp add: AddressFromBytes_def)

lemma Word256_Bytes_of:
  assumes "length bs = 32"
  shows "Word256_Bytes (word_of_nat (be_nat bs)) = bs"
proof -
  have "be_nat bs < 2 ^ 256"
    using be_nat_less [of bs] assms by simp
  then show ?thesis
    using be_bytes_be_nat [of bs] assms by (simp add: Word256_Bytes_def unat_of_nat take_bit_eq_mod)
qed

lemma Address_Bytes_inject [simp]: "Address_Bytes a = Address_Bytes b \<longleftrightarrow> a = b"
  by (metis copy_to_address_Bytes)

lemma Word256_Bytes_inject [simp]: "Word256_Bytes a = Word256_Bytes b \<longleftrightarrow> a = b"
  by (metis be_nat_Word256_Bytes word_unat_eq_iff)

lemma LeftPad_Word256_Bytes [simp]: "LeftPadWord256 (Word256_Bytes w) = Ok w"
  by (simp add: LeftPadWord256_def)

lemma LeftPad_Nil [simp]: "LeftPadWord256 [] = Ok Zero256"
  by (simp add: LeftPadWord256_def Zero256_def)

lemma be_nat_pad: "be_nat (replicate k 0 @ bs) = be_nat bs"
  by (simp add: be_nat_append)

lemma LeftPad_Ok_iff: "(\<exists>w. LeftPadWord256 bz = Ok w) \<longleftrightarrow> length bz \<le> 32"
  by (auto simp: LeftPadWord256_def)

subsection \<open>Byte order\<close>

fun bytes_Compare :: "bytes \<Rightarrow> bytes \<Rightarrow> int" where
  "bytes_Compare [] [] = 0"
| "bytes_Compare [] (_ # _) = - 1"
| "bytes_Compare (_ # _) [] = 1"
| "bytes_Compare (a # as) (b # bs) =
     (if a < b then - 1 else if b < a then 1 else bytes_Compare as bs)"

lemma be_nat_Cons: "be_nat (b # bs) = unat b * 256 ^ length bs + be_nat bs"
  using be_nat_append [of "[b]" bs] be_nat_snoc [of "[]" b] by simp

lemma bytes_Compare_less:
  "length as = length bs \<Longrightarrow> bytes_Compare as bs < 0 \<longleftrightarrow> be_nat as < be_nat bs"
proof (induction as bs rule: bytes_Compare.induct)
  case (4 a as b bs)
  have lt: "unat x < unat y \<Longrightarrow> length xs = length ys \<Longrightarrow> be_nat (x # xs) < be_nat (y # ys)"
    for x y :: byte and xs ys
  proof -
    assume "unat x < unat y" and l: "length xs = length ys"
    then have "(unat x + 1) * 256 ^ length xs \<le> unat y * 256 ^ length xs"
      by (intro mult_right_mono) simp_all
    with be_nat_less [of xs] l show ?thesis
      by (simp add: be_nat_Cons algebra_simps)
  qed
  show ?case
  proof (cases "a = b")
    case True
    with 4 show ?thesis by (simp add: be_nat_Cons)
  next
    case False
    then consider "unat a < unat b" | "unat b < unat a"
      by (metis linorder_neqE_nat word_unat_eq_iff)
    then show ?thesis
    proof cases
      case 1
      with lt [OF 1] "4.prems" show ?thesis by (simp add: word_less_nat_alt)
    next
      case 2
      with lt [OF 2, of bs as] "4.prems" show ?thesis by (simp add: word_less_nat_alt)
    qed
  qed
qed simp_all

lemma Address_Compare: "bytes_Compare (Address_Bytes a) (Address_Bytes b) < 0 \<longleftrightarrow> a < b"
  by (simp add: bytes_Compare_less word_less_nat_alt)

lemma Word256_Compare: "bytes_Compare (Word256_Bytes a) (Word256_Bytes b) < 0 \<longleftrightarrow> a < b"
  by (simp add: bytes_Compare_less word_less_nat_alt)

end
