(* ===== verification/Address_Converter.thy ===== *)
theory Address_Converter
  imports Burrow_Words
begin

section \<open>From a Fabric identity to an address\<close>

text \<open>
  \<^verbatim>\<open>evmcc/address/converter.go\<close>. The protobuf, PEM, X.509 and SHA-3 functions are
  parameters; \<open>'pk\<close> stands for the public keys of certificates.
\<close>

record 'pk identity_ext =
  unmarshal_identity :: "bytes \<Rightarrow> go_error + bytes"
  pem_Decode :: "bytes \<Rightarrow> bytes option"
  x509_ParseCertificate :: "bytes \<Rightarrow> go_error + 'pk"
  x509_MarshalPKIXPublicKey :: "'pk \<Rightarrow> go_error + bytes"
  sha3_Sum256 :: "bytes \<Rightarrow> bytes"

definition IdentityToAddr :: "('pk, 'z) identity_ext_scheme \<Rightarrow> bytes \<Rightarrow> go_error + bytes" where
  "IdentityToAddr X creator =
     (case unmarshal_identity X creator of
        Inl e \<Rightarrow> Inl (Fmt ''failed to unmarshal serialized identity: %s'' [AErr e])
      | Inr id_bytes \<Rightarrow>
     (case pem_Decode X id_bytes of
        None \<Rightarrow> Inl (Msg ''no pem data found'')
      | Some bl \<Rightarrow>
     (case x509_ParseCertificate X bl of
        Inl e \<Rightarrow> Inl (Fmt ''failed to parse certificate: %s'' [AErr e])
      | Inr pk \<Rightarrow>
     (case x509_MarshalPKIXPublicKey X pk of
        Inl e \<Rightarrow> Inl (Fmt ''unable to marshal public key: %s'' [AErr e])
      | Inr pubkeyBytes \<Rightarrow> Inr (drop 12 (sha3_Sum256 X pubkeyBytes))))))"

text \<open>SHA-3-256 returns 32 bytes, whatever its input.\<close>

definition sha3_ok :: "('pk, 'z) identity_ext_scheme \<Rightarrow> bool" where
  "sha3_ok X \<longleftrightarrow> (\<forall>bs. length (sha3_Sum256 X bs) = 32)"

lemma IdentityToAddr_length: "sha3_ok X \<Longrightarrow> IdentityToAddr X c = Inr a \<Longrightarrow> length a = 20"
  by (auto simp: IdentityToAddr_def sha3_ok_def split: sum.splits option.splits)

text \<open>Only the public key matters: certificates with the same key give the same address.\<close>

lemma IdentityToAddr_public_key:
  assumes "unmarshal_identity X c = Inr i" "pem_Decode X i = Some bl" "x509_ParseCertificate X bl = Inr pk"
    and "unmarshal_identity X c' = Inr i'" "pem_Decode X i' = Some bl'"
    and "x509_ParseCertificate X bl' = Inr pk"
  shows "IdentityToAddr X c = IdentityToAddr X c'"
  using assms by (simp add: IdentityToAddr_def)

end
