(* ===== verification/Chaincode_Stub.thy ===== *)
theory Chaincode_Stub
  imports Burrow_Words
begin

section \<open>The chaincode stub\<close>

text \<open>
  The part of Fabric's \<^verbatim>\<open>shim.ChaincodeStubInterface\<close> the chaincode calls, with the
  behaviour \<^verbatim>\<open>shim/interfaces.go\<close> documents and \<^verbatim>\<open>shim/chaincode.go\<close>
  implements: \<^verbatim>\<open>GetState\<close> reads the committed ledger and never the transaction's own
  writes; \<^verbatim>\<open>PutState\<close> and \<^verbatim>\<open>DelState\<close> record a write; \<^verbatim>\<open>SetEvent\<close>
  keeps one event. The peer may refuse any of the three ledger calls: which calls fail is the
  arbitrary \<open>get_fault\<close>, \<open>put_fault\<close> and \<open>del_fault\<close> of the stub.
  \<open>commit\<close> is what the ledger becomes when the transaction is committed.
\<close>

datatype ledger_write = Put bytes | Delete

text \<open>
  A Go slice: its elements, and the bytes of the same array between its length and its capacity,
  which a slice expression may reach.
\<close>

record go_slice =
  contents :: bytes
  spare :: bytes

definition slice_to :: "go_slice \<Rightarrow> nat \<Rightarrow> bytes res" where
  "slice_to s n =
     (if n \<le> length (contents s @ spare s) then Ok (take n (contents s @ spare s))
      else Panic ''slice bounds out of range'')"

record stub =
  stub_args :: "go_slice list"
  stub_creator :: "go_error + bytes"
  stub_txid :: string
  ledger :: "string \<rightharpoonup> bytes"
  write_set :: "string \<rightharpoonup> ledger_write"
  chaincode_event :: "(string \<times> bytes) option"
  get_fault :: "string \<Rightarrow> go_error option"
  put_fault :: "string \<Rightarrow> go_error option"
  del_fault :: "string \<Rightarrow> go_error option"

text \<open>An absent key is \<^verbatim>\<open>(nil, nil)\<close>, the empty value.\<close>

definition GetState :: "stub \<Rightarrow> string \<Rightarrow> go_error + bytes" where
  "GetState s key =
     (case get_fault s key of
        Some e \<Rightarrow> Inl e
      | None \<Rightarrow> Inr (case ledger s key of None \<Rightarrow> [] | Some v \<Rightarrow> v))"

definition PutState :: "stub \<Rightarrow> string \<Rightarrow> bytes \<Rightarrow> go_error option \<times> stub" where
  "PutState s key value =
     (if key = [] then (Some (Msg ''key must not be an empty string''), s)
      else (case put_fault s key of
        Some e \<Rightarrow> (Some e, s)
      | None \<Rightarrow> (None, s\<lparr>write_set := (write_set s)(key \<mapsto> Put value)\<rparr>)))"

definition DelState :: "stub \<Rightarrow> string \<Rightarrow> go_error option \<times> stub" where
  "DelState s key =
     (case del_fault s key of
        Some e \<Rightarrow> (Some e, s)
      | None \<Rightarrow> (None, s\<lparr>write_set := (write_set s)(key \<mapsto> Delete)\<rparr>))"

definition SetEvent :: "stub \<Rightarrow> string \<Rightarrow> bytes \<Rightarrow> go_error option \<times> stub" where
  "SetEvent s name payload =
     (if name = [] then (Some (Msg ''event name can not be nil string''), s)
      else (None, s\<lparr>chaincode_event := Some (name, payload)\<rparr>))"

definition commit :: "stub \<Rightarrow> string \<rightharpoonup> bytes" where
  "commit s key =
     (case write_set s key of None \<Rightarrow> ledger s key | Some (Put v) \<Rightarrow> Some v | Some Delete \<Rightarrow> None)"

definition faultless :: "stub \<Rightarrow> bool" where
  "faultless s \<longleftrightarrow> get_fault s = (\<lambda>_. None) \<and> put_fault s = (\<lambda>_. None) \<and> del_fault s = (\<lambda>_. None)"

subsection \<open>What each call leaves alone\<close>

text \<open>Every field but the write set and the event is constant during a transaction.\<close>

definition same_context :: "stub \<Rightarrow> stub \<Rightarrow> bool" where
  "same_context s t \<longleftrightarrow>
     t\<lparr>write_set := write_set s, chaincode_event := chaincode_event s\<rparr> = s"

lemma same_context_refl [simp]: "same_context s s"
  by (simp add: same_context_def)

lemma same_context_iff:
  "same_context s t \<longleftrightarrow>
     stub_args t = stub_args s \<and> stub_creator t = stub_creator s \<and> stub_txid t = stub_txid s \<and>
     ledger t = ledger s \<and> get_fault t = get_fault s \<and> put_fault t = put_fault s \<and>
     del_fault t = del_fault s"
  by (cases s; cases t) (auto simp: same_context_def)

lemma same_context_trans [trans]: "same_context s t \<Longrightarrow> same_context t u \<Longrightarrow> same_context s u"
  by (simp add: same_context_iff)

lemma same_context_GetState: "same_context s t \<Longrightarrow> GetState t k = GetState s k"
  by (simp add: same_context_iff GetState_def split: option.splits)

lemma same_context_faultless: "same_context s t \<Longrightarrow> faultless t = faultless s"
  by (simp add: same_context_iff faultless_def)

lemma PutState_context [frame]: "PutState s k v = (e, t) \<Longrightarrow> same_context s t"
  by (auto simp: PutState_def same_context_iff split: if_splits option.splits)

lemma DelState_context [frame]: "DelState s k = (e, t) \<Longrightarrow> same_context s t"
  by (auto simp: DelState_def same_context_iff split: option.splits)

lemma SetEvent_context [frame]: "SetEvent s n p = (e, t) \<Longrightarrow> same_context s t"
  by (auto simp: SetEvent_def same_context_iff split: if_splits)

lemma PutState_event [frame]: "PutState s k v = (e, t) \<Longrightarrow> chaincode_event t = chaincode_event s"
  by (auto simp: PutState_def split: if_splits option.splits)

lemma DelState_event [frame]: "DelState s k = (e, t) \<Longrightarrow> chaincode_event t = chaincode_event s"
  by (auto simp: DelState_def split: option.splits)

lemma SetEvent_writes [frame]: "SetEvent s n p = (e, t) \<Longrightarrow> write_set t = write_set s"
  by (auto simp: SetEvent_def split: if_splits)

subsection \<open>The ledger after the commit\<close>

lemma commit_PutState: "PutState s k v = (None, t) \<Longrightarrow> commit t = (commit s)(k \<mapsto> v)"
  by (auto simp: PutState_def commit_def fun_eq_iff split: if_splits option.splits)

lemma commit_DelState: "DelState s k = (None, t) \<Longrightarrow> commit t = (commit s)(k := None)"
  by (auto simp: DelState_def commit_def fun_eq_iff split: option.splits)

lemma PutState_error: "PutState s k v = (Some e, t) \<Longrightarrow> t = s"
  by (auto simp: PutState_def split: if_splits option.splits)

lemma DelState_error: "DelState s k = (Some e, t) \<Longrightarrow> t = s"
  by (auto simp: DelState_def split: option.splits)

lemma commit_SetEvent: "SetEvent s n p = (e, t) \<Longrightarrow> commit t = commit s"
  by (auto simp: SetEvent_def commit_def fun_eq_iff split: if_splits option.splits ledger_write.splits)

lemma commit_initial: "write_set s = Map.empty \<Longrightarrow> commit s = ledger s"
  by (simp add: commit_def fun_eq_iff)

lemma PutState_faultless:
  "faultless s \<Longrightarrow> k \<noteq> [] \<Longrightarrow> PutState s k v = (None, s\<lparr>write_set := (write_set s)(k \<mapsto> Put v)\<rparr>)"
  by (simp add: PutState_def faultless_def)

lemma DelState_faultless:
  "faultless s \<Longrightarrow> DelState s k = (None, s\<lparr>write_set := (write_set s)(k \<mapsto> Delete)\<rparr>)"
  by (simp add: DelState_def faultless_def)

lemma GetState_faultless:
  "faultless s \<Longrightarrow> GetState s k = Inr (case ledger s k of None \<Rightarrow> [] | Some v \<Rightarrow> v)"
  by (simp add: GetState_def faultless_def)

end
