(* ===== verification/Externals.thy ===== *)
theory Externals
  imports Permissions Address_Converter Chaincode_Stub
begin

section \<open>Accounts, events and the functions the chaincode takes from outside\<close>

text \<open>
  The data the chaincode exchanges with its surroundings: Burrow's \<^verbatim>\<open>acm.Account\<close>
  (\<^verbatim>\<open>acm/acm.pb.go\<close>) and the event of \<^verbatim>\<open>evmcc/event/event.go\<close>; and the
  record of the functions it calls that are not modelled: the account codec (amino), the JSON
  encoder, SHA-256 and the Unicode part of \<^verbatim>\<open>strings.ToLower\<close>.
\<close>

text \<open>
  \<^verbatim>\<open>Code\<close> is \<open>None\<close> where the Go slice is nil: \<^verbatim>\<open>InitCode\<close> tells a
  nil code from an empty one.
\<close>

record account =
  acc_Address :: address
  acc_PublicKey :: "32 word \<times> bytes"
  acc_Sequence :: "64 word"
  acc_Balance :: "64 word"
  acc_Code :: "bytes option"
  acc_Permissions :: account_permissions

text \<open>The zero value \<^verbatim>\<open>acm.Account{Address: address}\<close>.\<close>

definition new_account :: "address \<Rightarrow> account" where
  "new_account a =
     \<lparr>acc_Address = a, acc_PublicKey = (0, []), acc_Sequence = 0, acc_Balance = 0, acc_Code = None,
      acc_Permissions = \<lparr>Base = \<lparr>Perms = 0, SetBit = 0\<rparr>, Roles = []\<rparr>\<rparr>"

text \<open>\<^verbatim>\<open>Code.Bytes()\<close>: a nil slice has no bytes.\<close>

definition code_bytes :: "bytes option \<Rightarrow> bytes" where
  "code_bytes c = (case c of None \<Rightarrow> [] | Some bs \<Rightarrow> bs)"

record event =
  ev_Address :: string
  ev_Data :: string
  ev_Topics :: "string list"

text \<open>
  What the codec keeps of an account: an empty code and no code are the same bytes (amino leaves
  empty fields out), so both are read back as no code.
\<close>

definition stored_account :: "account \<Rightarrow> account" where
  "stored_account acc = (if acc_Code acc = Some [] then acc\<lparr>acc_Code := None\<rparr> else acc)"

lemma stored_account_simps [simp]:
  "acc_Address (stored_account acc) = acc_Address acc"
  "code_bytes (acc_Code (stored_account acc)) = code_bytes (acc_Code acc)"
  "acc_Permissions (stored_account acc) = acc_Permissions acc"
  "acc_Balance (stored_account acc) = acc_Balance acc"
  "stored_account (stored_account acc) = stored_account acc"
  by (simp_all add: stored_account_def code_bytes_def)

lemma stored_account_code: "acc_Code acc \<noteq> Some [] \<Longrightarrow> stored_account acc = acc"
  by (simp add: stored_account_def)

record 'pk externals = "'pk identity_ext" +
  account_Encode :: "account \<Rightarrow> go_error + bytes"
  account_Decode :: "bytes \<Rightarrow> go_error + account"
  json_Marshal_events :: "event list \<Rightarrow> go_error + bytes"
  sha256_Sum :: "bytes \<Rightarrow> bytes"
  unicode_ToLower :: "string \<Rightarrow> string"

text \<open>
  The codec's contract: an encoding is decoded to what it keeps of the account, and is never empty
  (the address, an array, is always written).
\<close>

definition codec_ok :: "('pk, 'z) externals_scheme \<Rightarrow> bool" where
  "codec_ok X \<longleftrightarrow>
     (\<forall>acc bs. account_Encode X acc = Inr bs \<longrightarrow> bs \<noteq> [] \<and> account_Decode X bs = Inr (stored_account acc))"

lemma codec_okD:
  assumes "codec_ok X" and "account_Encode X acc = Inr bs"
  shows "bs \<noteq> []" and "account_Decode X bs = Inr (stored_account acc)"
  using assms by (auto simp: codec_ok_def)

subsection \<open>A concrete set of externals\<close>

text \<open>
  Witnesses run the model on concrete inputs, so they need concrete externals that meet the
  contracts: a tagged encoding of accounts whose code is the interesting part, an event
  serialisation and constant hashes.
\<close>

definition demo_encode :: "account \<Rightarrow> go_error + bytes" where
  "demo_encode acc =
     (if acc = (new_account (acc_Address acc))
          \<lparr>acc_Code := acc_Code acc,
           acc_Permissions := \<lparr>Base = \<lparr>Perms = 14, SetBit = 14\<rparr>, Roles = []\<rparr>\<rparr>
      then Inr ((if code_bytes (acc_Code acc) = [] then [0] else 1 # code_bytes (acc_Code acc))
             @ Address_Bytes (acc_Address acc))
      else Inl (Msg ''unsupported account''))"

definition demo_decode :: "bytes \<Rightarrow> go_error + account" where
  "demo_decode bs =
     (if length bs < 21 then Inl (Msg ''short account'')
      else Inr ((new_account (copy_to_address (drop (length bs - 20) bs)))
             \<lparr>acc_Code := (if hd bs = 0 then None else Some (take (length bs - 21) (tl bs))),
              acc_Permissions := \<lparr>Base = \<lparr>Perms = 14, SetBit = 14\<rparr>, Roles = []\<rparr>\<rparr>))"

definition demo_marshal :: "event list \<Rightarrow> go_error + bytes" where
  "demo_marshal evs = Inr (bytes_of (concat (map (\<lambda>e. ev_Address e @ ev_Data e @ concat (ev_Topics e)) evs)))"

definition demo_externals :: "unit externals" where
  "demo_externals =
     \<lparr>unmarshal_identity = (\<lambda>bs. Inr bs), pem_Decode = (\<lambda>bs. Some bs),
      x509_ParseCertificate = (\<lambda>_. Inr ()), x509_MarshalPKIXPublicKey = (\<lambda>_. Inr []),
      sha3_Sum256 = (\<lambda>_. replicate 32 7),
      account_Encode = demo_encode, account_Decode = demo_decode, json_Marshal_events = demo_marshal,
      sha256_Sum = (\<lambda>_. replicate 32 9), unicode_ToLower = (\<lambda>s. s)\<rparr>"

lemma demo_codec: "demo_encode acc = Inr bs \<Longrightarrow> bs \<noteq> [] \<and> demo_decode bs = Inr (stored_account acc)"
proof -
  assume enc: "demo_encode acc = Inr bs"
  let ?t = "(new_account (acc_Address acc))
    \<lparr>acc_Code := acc_Code acc, acc_Permissions := \<lparr>Base = \<lparr>Perms = 14, SetBit = 14\<rparr>, Roles = []\<rparr>\<rparr>"
  have acc: "acc = ?t"
    using enc by (simp add: demo_encode_def split: if_splits)
  have bs: "bs = (if code_bytes (acc_Code acc) = [] then [0] else 1 # code_bytes (acc_Code acc))
      @ Address_Bytes (acc_Address acc)"
    using enc by (simp add: demo_encode_def split: if_splits)
  have "demo_decode bs = Inr (stored_account ?t)"
    unfolding bs by (cases "acc_Code acc")
      (auto simp: demo_decode_def new_account_def stored_account_def code_bytes_def)
  with acc bs show ?thesis
    by (simp split: if_splits)
qed

lemma demo_codec_ok: "codec_ok demo_externals"
  using demo_codec by (auto simp: codec_ok_def demo_externals_def)

lemma demo_sha3_ok: "sha3_ok demo_externals"
  by (simp add: sha3_ok_def demo_externals_def)

end
