(* ===== verification/State_Manager.thy ===== *)
theory State_Manager
  imports Externals
begin

section \<open>The state manager\<close>

text \<open>
  \<^verbatim>\<open>evmcc/statemanager/statemanager.go\<close>: the EVM's accounts and storage on the Fabric
  ledger. An account is stored under the 40 hex digits of its address, a storage word under those
  of its address followed by the 64 digits of its key. A method that returns only an error has the
  type \<open>unit res\<close>.
\<close>

record state_manager =
  sm_stub :: stub
  sm_cache :: "string \<rightharpoonup> word256"

definition NewStateManager :: "stub \<Rightarrow> state_manager" where
  "NewStateManager stub = \<lparr>sm_stub = stub, sm_cache = Map.empty\<rparr>"

definition res_of_error :: "go_error option \<Rightarrow> unit res" where
  "res_of_error e = (case e of None \<Rightarrow> Ok () | Some e \<Rightarrow> Err e)"

definition account_key :: "('pk, 'z) externals_scheme \<Rightarrow> address \<Rightarrow> string" where
  "account_key X a = strings_ToLower (unicode_ToLower X) (Address_String a)"

definition storage_key :: "('pk, 'z) externals_scheme \<Rightarrow> address \<Rightarrow> word256 \<Rightarrow> string" where
  "storage_key X a key =
     strings_ToLower (unicode_ToLower X) (Address_String a) @ hex_EncodeToString (Word256_Bytes key)"

definition sm_GetAccount ::
    "('pk, 'z) externals_scheme \<Rightarrow> state_manager \<Rightarrow> address \<Rightarrow> go_error + account option" where
  "sm_GetAccount X s a =
     (case GetState (sm_stub s) (account_key X a) of
        Inl e \<Rightarrow> Inl e
      | Inr acctBytes \<Rightarrow>
          (if length acctBytes = 0 then Inr None
           else (case account_Decode X acctBytes of Inl e \<Rightarrow> Inl e | Inr acc \<Rightarrow> Inr (Some acc))))"

definition sm_GetStorage ::
    "('pk, 'z) externals_scheme \<Rightarrow> state_manager \<Rightarrow> address \<Rightarrow> word256 \<Rightarrow> word256 res" where
  "sm_GetStorage X s a key =
     (let compKey = storage_key X a key in
      case sm_cache s compKey of
        Some val \<Rightarrow> Ok val
      | None \<Rightarrow>
          (case GetState (sm_stub s) compKey of Inl e \<Rightarrow> Err e | Inr val \<Rightarrow> LeftPadWord256 val))"

text \<open>The codec panics on a nil account.\<close>

definition sm_UpdateAccount ::
    "('pk, 'z) externals_scheme \<Rightarrow> state_manager \<Rightarrow> account option \<Rightarrow> unit res \<times> state_manager" where
  "sm_UpdateAccount X s updatedAccount =
     (case updatedAccount of
        None \<Rightarrow> (Panic ''MarshalBinaryBare cannot marshal a nil pointer directly'', s)
      | Some acc \<Rightarrow>
          (case account_Encode X acc of
             Inl e \<Rightarrow> (Err e, s)
           | Inr encodedAcct \<Rightarrow>
               (case PutState (sm_stub s) (hex_EncodeToString (Address_Bytes (acc_Address acc))) encodedAcct of
                  (e, stub) \<Rightarrow> (res_of_error e, s\<lparr>sm_stub := stub\<rparr>))))"

definition sm_RemoveAccount ::
    "('pk, 'z) externals_scheme \<Rightarrow> state_manager \<Rightarrow> address \<Rightarrow> unit res \<times> state_manager" where
  "sm_RemoveAccount X s a =
     (case DelState (sm_stub s) (account_key X a) of (e, stub) \<Rightarrow> (res_of_error e, s\<lparr>sm_stub := stub\<rparr>))"

text \<open>Setting a word to zero deletes its key and leaves the cache as it is.\<close>

definition sm_SetStorage ::
    "('pk, 'z) externals_scheme \<Rightarrow> state_manager \<Rightarrow> address \<Rightarrow> word256 \<Rightarrow> word256 \<Rightarrow>
     unit res \<times> state_manager" where
  "sm_SetStorage X s a key val =
     (let compKey = storage_key X a key in
      if val = Zero256
      then (case DelState (sm_stub s) compKey of (e, stub) \<Rightarrow> (res_of_error e, s\<lparr>sm_stub := stub\<rparr>))
      else (case PutState (sm_stub s) compKey (Word256_Bytes val) of
              (None, stub) \<Rightarrow>
                (Ok (), s\<lparr>sm_stub := stub, sm_cache := (sm_cache s)(compKey \<mapsto> val)\<rparr>)
            | (Some e, stub) \<Rightarrow> (Err e, s\<lparr>sm_stub := stub\<rparr>)))"

subsection \<open>The keys\<close>

lemma account_key_eq: "account_key X a = hex_EncodeToString (Address_Bytes a)"
  by (simp add: account_key_def Address_String_def)

lemma storage_key_eq:
  "storage_key X a k = hex_EncodeToString (Address_Bytes a) @ hex_EncodeToString (Word256_Bytes k)"
  by (simp add: storage_key_def Address_String_def)

lemma length_account_key [simp]: "length (account_key X a) = 40"
  by (simp add: account_key_eq)

lemma length_storage_key [simp]: "length (storage_key X a k) = 104"
  by (simp add: storage_key_eq)

lemma account_key_inject [simp]: "account_key X a = account_key X b \<longleftrightarrow> a = b"
  by (simp add: account_key_eq hex.print_inject)

lemma storage_key_inject [simp]: "storage_key X a k = storage_key X b l \<longleftrightarrow> a = b \<and> k = l"
  by (simp add: storage_key_eq hex.print_inject)

lemma account_storage_key_disjoint [simp]:
  "account_key X a \<noteq> storage_key X b k" "storage_key X b k \<noteq> account_key X a"
  by (auto dest: arg_cong [where f = length])

lemma keys_not_Nil [simp]: "account_key X a \<noteq> []" "storage_key X a k \<noteq> []"
  by (auto dest: arg_cong [where f = length])

lemmas state_manager_defs =
  sm_GetAccount_def sm_GetStorage_def sm_UpdateAccount_def sm_RemoveAccount_def sm_SetStorage_def

subsection \<open>The ledger as the EVM's world state\<close>

text \<open>
  What a ledger says of the world: the account and the storage words it holds. A transaction
  starts from the view of its committed ledger and its write set turns that into the view of
  \<^const>\<open>commit\<close>.
\<close>

definition ledger_account ::
    "('pk, 'z) externals_scheme \<Rightarrow> (string \<rightharpoonup> bytes) \<Rightarrow> address \<Rightarrow> go_error + account option" where
  "ledger_account X L a =
     (case L (account_key X a) of
        None \<Rightarrow> Inr None
      | Some bs \<Rightarrow>
          (if bs = [] then Inr None
           else (case account_Decode X bs of Inl e \<Rightarrow> Inl e | Inr acc \<Rightarrow> Inr (Some acc))))"

definition ledger_storage ::
    "('pk, 'z) externals_scheme \<Rightarrow> (string \<rightharpoonup> bytes) \<Rightarrow> address \<Rightarrow> word256 \<Rightarrow> word256 res" where
  "ledger_storage X L a k =
     (case L (storage_key X a k) of None \<Rightarrow> Ok Zero256 | Some bs \<Rightarrow> LeftPadWord256 bs)"

lemma sm_GetAccount_ledger:
  "get_fault (sm_stub s) (account_key X a) = None \<Longrightarrow>
   sm_GetAccount X s a = ledger_account X (ledger (sm_stub s)) a"
  by (simp add: sm_GetAccount_def ledger_account_def GetState_def split: option.splits)

lemma sm_GetStorage_ledger:
  "get_fault (sm_stub s) (storage_key X a k) = None \<Longrightarrow> sm_cache s (storage_key X a k) = None \<Longrightarrow>
   sm_GetStorage X s a k = ledger_storage X (ledger (sm_stub s)) a k"
  by (simp add: sm_GetStorage_def ledger_storage_def GetState_def split: option.splits)

text \<open>The two views a store offers: accounts and storage words.\<close>

definition put_account ::
    "(address \<Rightarrow> go_error + account option) \<Rightarrow> address \<Rightarrow> account option \<Rightarrow>
     (address \<Rightarrow> go_error + account option)" where
  "put_account f a acc = f(a := Inr acc)"

definition put_word ::
    "(address \<Rightarrow> word256 \<Rightarrow> word256 res) \<Rightarrow> address \<Rightarrow> word256 \<Rightarrow> word256 \<Rightarrow>
     (address \<Rightarrow> word256 \<Rightarrow> word256 res)" where
  "put_word g a k v = g(a := (g a)(k := Ok v))"

lemma put_account_apply: "put_account f a acc b = (if b = a then Inr acc else f b)"
  by (simp add: put_account_def)

lemma put_word_apply: "put_word g a k v b l = (if b = a \<and> l = k then Ok v else g b l)"
  by (simp add: put_word_def)

subsection \<open>Each write is one change of the committed world\<close>

lemma sm_UpdateAccount_commit:
  assumes "codec_ok X" and "sm_UpdateAccount X s acc = (Ok (), t)"
  obtains x where "acc = Some x"
    and "ledger_account X (commit (sm_stub t)) =
           put_account (ledger_account X (commit (sm_stub s))) (acc_Address x) (Some (stored_account x))"
    and "ledger_storage X (commit (sm_stub t)) = ledger_storage X (commit (sm_stub s))"
proof -
  from assms(2) obtain x bs stub where x: "acc = Some x"
    and bs: "account_Encode X x = Inr bs"
    and put: "PutState (sm_stub s) (account_key X (acc_Address x)) bs = (None, stub)"
    and t: "t = s\<lparr>sm_stub := stub\<rparr>"
    by (auto simp: sm_UpdateAccount_def account_key_eq res_of_error_def
        split: sum.splits option.splits prod.splits)
  note ok = codec_okD [OF assms(1) bs]
  note commit = commit_PutState [OF put]
  have "ledger_account X (commit (sm_stub t)) =
      put_account (ledger_account X (commit (sm_stub s))) (acc_Address x) (Some (stored_account x))"
    using ok by (simp add: t commit ledger_account_def put_account_def fun_eq_iff)
  moreover have "ledger_storage X (commit (sm_stub t)) = ledger_storage X (commit (sm_stub s))"
    by (simp add: t commit ledger_storage_def fun_eq_iff)
  ultimately show ?thesis
    using that x by blast
qed

lemma sm_RemoveAccount_commit:
  assumes "sm_RemoveAccount X s a = (Ok (), t)"
  shows "ledger_account X (commit (sm_stub t)) = put_account (ledger_account X (commit (sm_stub s))) a None"
    and "ledger_storage X (commit (sm_stub t)) = ledger_storage X (commit (sm_stub s))"
proof -
  from assms obtain stub where "DelState (sm_stub s) (account_key X a) = (None, stub)"
    and t: "t = s\<lparr>sm_stub := stub\<rparr>"
    by (auto simp: sm_RemoveAccount_def res_of_error_def split: option.splits prod.splits)
  note commit = commit_DelState [OF this(1)]
  show "ledger_account X (commit (sm_stub t)) = put_account (ledger_account X (commit (sm_stub s))) a None"
    by (simp add: t commit ledger_account_def put_account_def fun_eq_iff)
  show "ledger_storage X (commit (sm_stub t)) = ledger_storage X (commit (sm_stub s))"
    by (simp add: t commit ledger_storage_def fun_eq_iff)
qed

lemma sm_SetStorage_commit:
  assumes "sm_SetStorage X s a k v = (Ok (), t)"
  shows "ledger_storage X (commit (sm_stub t)) = put_word (ledger_storage X (commit (sm_stub s))) a k v"
    and "ledger_account X (commit (sm_stub t)) = ledger_account X (commit (sm_stub s))"
proof -
  obtain stub where c: "commit stub = (commit (sm_stub s))
      (storage_key X a k := (if v = Zero256 then None else Some (Word256_Bytes v)))"
    and t: "sm_stub t = stub"
    using assms commit_DelState [of "sm_stub s" "storage_key X a k"]
      commit_PutState [of "sm_stub s" "storage_key X a k" "Word256_Bytes v"]
    by (fastforce simp: sm_SetStorage_def Let_def res_of_error_def
        split: if_splits option.splits prod.splits)
  show "ledger_storage X (commit (sm_stub t)) = put_word (ledger_storage X (commit (sm_stub s))) a k v"
    by (auto simp: t c ledger_storage_def put_word_def fun_eq_iff)
  show "ledger_account X (commit (sm_stub t)) = ledger_account X (commit (sm_stub s))"
    by (simp add: t c ledger_account_def fun_eq_iff)
qed

lemma sm_context:
  "sm_UpdateAccount X s acc = (r, t) \<Longrightarrow> same_context (sm_stub s) (sm_stub t)"
  "sm_RemoveAccount X s a = (r, t) \<Longrightarrow> same_context (sm_stub s) (sm_stub t)"
  "sm_SetStorage X s a k v = (r, t) \<Longrightarrow> same_context (sm_stub s) (sm_stub t)"
  by (auto simp: state_manager_defs Let_def
      split: sum.splits option.splits prod.splits if_splits dest: frame)

lemma sm_event:
  "sm_UpdateAccount X s acc = (r, t) \<Longrightarrow> chaincode_event (sm_stub t) = chaincode_event (sm_stub s)"
  "sm_RemoveAccount X s a = (r, t) \<Longrightarrow> chaincode_event (sm_stub t) = chaincode_event (sm_stub s)"
  "sm_SetStorage X s a k v = (r, t) \<Longrightarrow> chaincode_event (sm_stub t) = chaincode_event (sm_stub s)"
  by (auto simp: state_manager_defs Let_def
      split: sum.splits option.splits prod.splits if_splits dest: frame)

subsection \<open>What the methods return\<close>

lemma sm_GetStorage_after_SetStorage:
  assumes "v \<noteq> Zero256" and "sm_SetStorage X s a k v = (Ok (), t)"
  shows "sm_GetStorage X t a k = Ok v"
  using assms by (auto simp: sm_SetStorage_def sm_GetStorage_def Let_def
      split: option.splits prod.splits if_splits)

lemma sm_GetStorage_after_zero:
  assumes "sm_SetStorage X s a k Zero256 = (r, t)"
  shows "sm_GetStorage X t a k = sm_GetStorage X s a k"
proof -
  from assms have "same_context (sm_stub s) (sm_stub t)"
    by (rule sm_context)
  moreover from assms have "sm_cache t = sm_cache s"
    by (auto simp: sm_SetStorage_def Let_def split: prod.splits)
  ultimately show ?thesis
    by (simp add: sm_GetStorage_def Let_def same_context_GetState split: option.split)
qed

end
