(* ===== verification/State_Cache.thy ===== *)
theory State_Cache
  imports State_Manager
begin

section \<open>The account cache of the EVM\<close>

text \<open>
  Burrow's \<^verbatim>\<open>acm/acmstate/state_cache.go\<close>: a write-back cache of accounts and storage over
  a reader, which is the state manager or another cache (a call of the EVM that may be reverted runs
  in a cache over its caller's). \<open>backend\<close> is that chain; reading through it fills the
  caches on the way. The mutexes are left out: one transaction runs on one thread.
\<close>

record account_info =
  ai_account :: "account option"
  ai_storage :: "(word256 \<times> word256) list"
  ai_removed :: bool
  ai_updated :: bool

record cache =
  c_accounts :: "(address \<times> account_info) list"
  c_readonly :: bool

datatype backend = Manager state_manager | Layer cache backend

fun depth :: "backend \<Rightarrow> nat" where
  "depth (Manager m) = 0"
| "depth (Layer c b) = Suc (depth b)"

definition NewCache :: "bool \<Rightarrow> cache" where
  "NewCache readonly = \<lparr>c_accounts = [], c_readonly = readonly\<rparr>"

definition set_info :: "cache \<Rightarrow> address \<Rightarrow> account_info \<Rightarrow> cache" where
  "set_info c a i = c\<lparr>c_accounts := AList.update a i (c_accounts c)\<rparr>"

definition illegal_write :: "string \<Rightarrow> fmt_arg list \<Rightarrow> go_error" where
  "illegal_write fmt args = Coded ErrorCodeIllegalWrite fmt args"

subsection \<open>Reading\<close>

function backend_GetAccount ::
    "('pk, 'z) externals_scheme \<Rightarrow> backend \<Rightarrow> address \<Rightarrow> (go_error + account option) \<times> backend"
and cache_get ::
    "('pk, 'z) externals_scheme \<Rightarrow> cache \<Rightarrow> backend \<Rightarrow> address \<Rightarrow>
     (go_error + account_info) \<times> cache \<times> backend" where
  "backend_GetAccount X (Manager m) a = (sm_GetAccount X m a, Manager m)"
| "backend_GetAccount X (Layer c b) a =
     (case cache_get X c b a of
        (Inl e, c', b') \<Rightarrow> (Inl e, Layer c' b')
      | (Inr accInfo, c', b') \<Rightarrow>
          (Inr (if ai_removed accInfo then None else ai_account accInfo), Layer c' b'))"
| "cache_get X c b a =
     (case map_of (c_accounts c) a of
        Some accInfo \<Rightarrow> (Inr accInfo, c, b)
      | None \<Rightarrow>
          (case backend_GetAccount X b a of
             (Inl e, b') \<Rightarrow> (Inl e, c, b')
           | (Inr account, b') \<Rightarrow>
               (let accInfo = \<lparr>ai_account = account, ai_storage = [], ai_removed = False, ai_updated = False\<rparr>
                in (Inr accInfo, set_info c a accInfo, b'))))"
  by pat_completeness auto
termination
  by (relation "measure (case_sum (\<lambda>(X, b, a). 2 * depth b) (\<lambda>(X, c, b, a). 2 * depth b + 1))") auto

lemma depth_GetAccount:
  "backend_GetAccount X b a = (r, b') \<Longrightarrow> depth b' = depth b"
  "cache_get X c b a = (i, c', b') \<Longrightarrow> depth b' = depth b"
  by (induction X b a and X c b a arbitrary: r b' and i c' b' rule: backend_GetAccount_cache_get.induct)
    (fastforce split: prod.splits sum.splits option.splits simp: Let_def)+

function backend_GetStorage ::
    "('pk, 'z) externals_scheme \<Rightarrow> backend \<Rightarrow> address \<Rightarrow> word256 \<Rightarrow> word256 res \<times> backend" where
  "backend_GetStorage X (Manager m) a key = (sm_GetStorage X m a key, Manager m)"
| "backend_GetStorage X (Layer c b) a key =
     (case cache_get X c b a of
        (Inl e, c', b') \<Rightarrow> (Err e, Layer c' b')
      | (Inr accInfo, c', b') \<Rightarrow>
          (case map_of (ai_storage accInfo) key of
             Some val \<Rightarrow> (Ok val, Layer c' b')
           | None \<Rightarrow>
               (case backend_GetStorage X b' a key of
                  (Ok val, b'') \<Rightarrow>
                    (Ok val, Layer (set_info c' a
                       (accInfo\<lparr>ai_storage := AList.update key val (ai_storage accInfo)\<rparr>)) b'')
                | (r, b'') \<Rightarrow> (r, Layer c' b''))))"
  by pat_completeness auto
termination
  by (relation "measure (\<lambda>(X, b, a, k). depth b)") (auto simp del: cache_get.simps dest!: depth_GetAccount(2) [OF sym])

subsection \<open>Writing\<close>

fun backend_UpdateAccount ::
    "('pk, 'z) externals_scheme \<Rightarrow> backend \<Rightarrow> account option \<Rightarrow> unit res \<times> backend" where
  "backend_UpdateAccount X (Manager m) account =
     (case sm_UpdateAccount X m account of (r, m') \<Rightarrow> (r, Manager m'))"
| "backend_UpdateAccount X (Layer c b) account =
     (case account of
        None \<Rightarrow> (Err (illegal_write ''UpdateAccount called with nil account'' []), Layer c b)
      | Some acc \<Rightarrow>
          (if c_readonly c
           then (Err (illegal_write ''UpdateAccount called in a read-only context on account %v''
                   [AStr (Address_String (acc_Address acc))]), Layer c b)
           else (case cache_get X c b (acc_Address acc) of
               (Inl e, c', b') \<Rightarrow> (Err e, Layer c' b')
             | (Inr accInfo, c', b') \<Rightarrow>
                 (if ai_removed accInfo
                  then (Err (illegal_write ''UpdateAccount on a removed account: %s''
                          [AStr (Address_String (acc_Address acc))]), Layer c' b')
                  else (Ok (), Layer (set_info c' (acc_Address acc)
                          (accInfo\<lparr>ai_account := Some acc, ai_updated := True\<rparr>)) b')))))"

fun backend_RemoveAccount ::
    "('pk, 'z) externals_scheme \<Rightarrow> backend \<Rightarrow> address \<Rightarrow> unit res \<times> backend" where
  "backend_RemoveAccount X (Manager m) a =
     (case sm_RemoveAccount X m a of (r, m') \<Rightarrow> (r, Manager m'))"
| "backend_RemoveAccount X (Layer c b) a =
     (if c_readonly c
      then (Err (illegal_write ''RemoveAccount called on read-only account %v''
              [AStr (Address_String a)]), Layer c b)
      else (case cache_get X c b a of
          (Inl e, c', b') \<Rightarrow> (Err e, Layer c' b')
        | (Inr accInfo, c', b') \<Rightarrow>
            (if ai_removed accInfo
             then (Err (Fmt ''RemoveAccount on a removed account: %s'' [AStr (Address_String a)]), Layer c' b')
             else (Ok (), Layer (set_info c' a (accInfo\<lparr>ai_removed := True\<rparr>)) b'))))"

text \<open>
  The cache's \<^verbatim>\<open>SetStorage\<close> looks at \<^verbatim>\<open>accInfo.account\<close> before it looks at the
  error of \<^verbatim>\<open>cache.get\<close>, so a failed read dereferences nil.
\<close>

fun backend_SetStorage ::
    "('pk, 'z) externals_scheme \<Rightarrow> backend \<Rightarrow> address \<Rightarrow> word256 \<Rightarrow> word256 \<Rightarrow> unit res \<times> backend" where
  "backend_SetStorage X (Manager m) a key val =
     (case sm_SetStorage X m a key val of (r, m') \<Rightarrow> (r, Manager m'))"
| "backend_SetStorage X (Layer c b) a key val =
     (if c_readonly c
      then (Err (illegal_write ''SetStorage called in a read-only context on account %v''
              [AStr (Address_String a)]), Layer c b)
      else (case cache_get X c b a of
          (Inl e, c', b') \<Rightarrow> (Panic ''nil pointer dereference'', Layer c' b')
        | (Inr accInfo, c', b') \<Rightarrow>
            (if ai_account accInfo = None
             then (Err (illegal_write ''SetStorage called on an account that does not exist: %v''
                     [AStr (Address_String a)]), Layer c' b')
             else if ai_removed accInfo
             then (Err (illegal_write ''SetStorage on a removed account: %s'' [AStr (Address_String a)]),
                   Layer c' b')
             else (Ok (), Layer (set_info c' a
                     (accInfo\<lparr>ai_storage := AList.update key val (ai_storage accInfo),
                              ai_updated := True\<rparr>)) b'))))"

subsection \<open>Writing back\<close>

text \<open>
  \<^verbatim>\<open>Sync\<close> takes any \<^verbatim>\<open>Writer\<close>: its three methods are the arguments. Accounts are
  written in the order of their addresses, the storage of each in the order of the keys.
\<close>

definition Sync_account ::
    "('s \<Rightarrow> account option \<Rightarrow> unit res \<times> 's) \<Rightarrow> ('s \<Rightarrow> address \<Rightarrow> unit res \<times> 's) \<Rightarrow>
     ('s \<Rightarrow> address \<Rightarrow> word256 \<Rightarrow> word256 \<Rightarrow> unit res \<times> 's) \<Rightarrow>
     address \<Rightarrow> account_info \<Rightarrow> 's \<Rightarrow> unit res \<times> 's" where
  "Sync_account update remove set_storage a accInfo st =
     (if ai_removed accInfo then remove st a
      else if ai_updated accInfo
      then (case update st (ai_account accInfo) of
              (Ok _, st') \<Rightarrow>
                run_all (\<lambda>st key. case map_of (ai_storage accInfo) key of
                            None \<Rightarrow> (Ok (), st)
                          | Some val \<Rightarrow> set_storage st a key val)
                  (sort (map fst (ai_storage accInfo))) st'
            | (r, st') \<Rightarrow> (r, st'))
      else (Ok (), st))"

definition Cache_Sync ::
    "('s \<Rightarrow> account option \<Rightarrow> unit res \<times> 's) \<Rightarrow> ('s \<Rightarrow> address \<Rightarrow> unit res \<times> 's) \<Rightarrow>
     ('s \<Rightarrow> address \<Rightarrow> word256 \<Rightarrow> word256 \<Rightarrow> unit res \<times> 's) \<Rightarrow> cache \<Rightarrow> 's \<Rightarrow> unit res \<times> 's" where
  "Cache_Sync update remove set_storage c st =
     (if c_readonly c then (Ok (), st)
      else run_all (\<lambda>st a. case map_of (c_accounts c) a of
                      None \<Rightarrow> (Ok (), st)
                    | Some accInfo \<Rightarrow> Sync_account update remove set_storage a accInfo st)
             (sort (map fst (c_accounts c))) st)"

definition backend_Sync ::
    "('pk, 'z) externals_scheme \<Rightarrow> cache \<Rightarrow> backend \<Rightarrow> unit res \<times> backend" where
  "backend_Sync X c b =
     Cache_Sync (backend_UpdateAccount X) (backend_RemoveAccount X) (backend_SetStorage X) c b"

end
