(* ===== verification/Cache_Views.thy ===== *)
theory Cache_Views
  imports State_Cache
begin

section \<open>What a chain of caches shows\<close>

text \<open>
  The accounts and words that reading through a chain of caches returns, as pure functions of the
  chain; reading changes neither (it only fills the caches), and each write changes one entry.
\<close>

declare cache_get.simps [simp del]

fun acc_view :: "('pk, 'z) externals_scheme \<Rightarrow> backend \<Rightarrow> address \<Rightarrow> go_error + account option" where
  "acc_view X (Manager m) a = sm_GetAccount X m a"
| "acc_view X (Layer c b) a =
     (case map_of (c_accounts c) a of
        Some i \<Rightarrow> Inr (if ai_removed i then None else ai_account i)
      | None \<Rightarrow> acc_view X b a)"

fun sto_view :: "('pk, 'z) externals_scheme \<Rightarrow> backend \<Rightarrow> address \<Rightarrow> word256 \<Rightarrow> word256 res" where
  "sto_view X (Manager m) a k = sm_GetStorage X m a k"
| "sto_view X (Layer c b) a k =
     (case map_of (c_accounts c) a of
        Some i \<Rightarrow> (case map_of (ai_storage i) k of Some v \<Rightarrow> Ok v | None \<Rightarrow> sto_view X b a k)
      | None \<Rightarrow> (case acc_view X b a of Inl e \<Rightarrow> Err e | Inr _ \<Rightarrow> sto_view X b a k))"

text \<open>The state manager under the chain.\<close>

fun base_manager :: "backend \<Rightarrow> state_manager" where
  "base_manager (Manager m) = m"
| "base_manager (Layer c b) = base_manager b"

lemma map_of_set_info [simp]: "map_of (c_accounts (set_info c a i)) = (map_of (c_accounts c))(a \<mapsto> i)"
  by (simp add: set_info_def)

lemma readonly_set_info [simp]: "c_readonly (set_info c a i) = c_readonly c"
  by (simp add: set_info_def)

definition clean_info :: "account option \<Rightarrow> account_info" where
  "clean_info acc = \<lparr>ai_account = acc, ai_storage = [], ai_removed = False, ai_updated = False\<rparr>"

lemma clean_info_simps [simp]:
  "ai_account (clean_info acc) = acc" "ai_storage (clean_info acc) = []"
  "\<not> ai_removed (clean_info acc)" "\<not> ai_updated (clean_info acc)"
  by (simp_all add: clean_info_def)

subsection \<open>Reading is pure\<close>

text \<open>Two chains that show the same and write to the same manager.\<close>

definition same_view :: "('pk, 'z) externals_scheme \<Rightarrow> backend \<Rightarrow> backend \<Rightarrow> bool" where
  "same_view X b b' \<longleftrightarrow>
     acc_view X b' = acc_view X b \<and> sto_view X b' = sto_view X b \<and> base_manager b' = base_manager b"

lemma same_view_refl [simp]: "same_view X b b"
  by (simp add: same_view_def)

lemma same_view_trans: "same_view X a b \<Longrightarrow> same_view X b c \<Longrightarrow> same_view X a c"
  by (simp add: same_view_def)

lemma same_view_Layer: "same_view X b b' \<Longrightarrow> same_view X (Layer c b) (Layer c b')"
  by (auto simp: same_view_def fun_eq_iff split: option.splits sum.splits)

lemma same_view_load:
  assumes "map_of (c_accounts c) a = None" and "acc_view X b a = Inr acc"
  shows "same_view X (Layer c b) (Layer (set_info c a (clean_info acc)) b)"
  using assms by (auto simp: same_view_def fun_eq_iff split: option.splits sum.splits)

lemma same_view_fill:
  assumes "map_of (c_accounts c) a = Some i" and "map_of (ai_storage i) k = None"
    and "sto_view X b a k = Ok v"
  shows "same_view X (Layer c b)
    (Layer (set_info c a (i\<lparr>ai_storage := AList.update k v (ai_storage i)\<rparr>)) b)"
  using assms by (auto simp: same_view_def fun_eq_iff split: option.splits sum.splits)

text \<open>
  \<^const>\<open>cache_get\<close> fails as the backend fails, and otherwise returns the entry that the cache
  then has; a new entry is a clean copy of the backend's account.
\<close>

lemma cache_get_cases:
  assumes "cache_get X c b a = (r, c', b')"
  obtains (hit) i where "map_of (c_accounts c) a = Some i" "r = Inr i" "c' = c" "b' = b"
  | (fail) e where "map_of (c_accounts c) a = None" "backend_GetAccount X b a = (Inl e, b')"
      "r = Inl e" "c' = c"
  | (load) acc where "map_of (c_accounts c) a = None" "backend_GetAccount X b a = (Inr acc, b')"
      "r = Inr (clean_info acc)" "c' = set_info c a (clean_info acc)"
  using assms
  by (auto simp: cache_get.simps Let_def clean_info_def split: option.splits sum.splits prod.splits)

lemma GetAccount_view:
  "backend_GetAccount X b a = (r, b') \<Longrightarrow> r = acc_view X b a \<and> same_view X b b'"
proof (induction b arbitrary: r b')
  case (Manager m)
  then show ?case by auto
next
  case (Layer c b)
  obtain r' c' b1 where get: "cache_get X c b a = (r', c', b1)"
    by (cases "cache_get X c b a")
  from get show ?case
  proof (cases rule: cache_get_cases)
    case (hit i)
    with Layer.prems get show ?thesis by auto
  next
    case (fail e)
    with Layer.IH [OF fail(2)] Layer.prems get show ?thesis
      by (auto intro: same_view_Layer)
  next
    case (load acc)
    with Layer.IH [OF load(2)] have "same_view X (Layer c b) (Layer c' b1)"
      by (auto intro: same_view_trans [OF same_view_load same_view_Layer])
    with load Layer.IH [OF load(2)] Layer.prems get show ?thesis
      by auto
  qed
qed

lemma cache_get_view:
  assumes "cache_get X c b a = (r, c', b')"
  shows "same_view X b b'" and "same_view X (Layer c b) (Layer c' b')"
    and "r = Inl e \<Longrightarrow> acc_view X b a = Inl e \<and> c' = c"
    and "r = Inr i \<Longrightarrow> map_of (c_accounts c') a = Some i"
    and "c_readonly c' = c_readonly c"
proof -
  from assms have b: "same_view X b b'"
    by (cases rule: cache_get_cases) (auto dest: GetAccount_view)
  moreover from assms have "same_view X (Layer c b) (Layer c' b')"
  proof (cases rule: cache_get_cases)
    case (load acc)
    with b GetAccount_view [OF load(2)] show ?thesis
      by (auto intro: same_view_trans [OF same_view_load same_view_Layer])
  qed (use b in \<open>auto intro: same_view_Layer\<close>)
  moreover from assms have "r = Inl e \<Longrightarrow> acc_view X b a = Inl e \<and> c' = c"
    by (cases rule: cache_get_cases) (auto dest: GetAccount_view)
  moreover from assms have "r = Inr i \<Longrightarrow> map_of (c_accounts c') a = Some i"
    by (cases rule: cache_get_cases) auto
  moreover from assms have "c_readonly c' = c_readonly c"
    by (cases rule: cache_get_cases) auto
  ultimately show "same_view X b b'" "same_view X (Layer c b) (Layer c' b')"
    "r = Inl e \<Longrightarrow> acc_view X b a = Inl e \<and> c' = c"
    "r = Inr i \<Longrightarrow> map_of (c_accounts c') a = Some i" "c_readonly c' = c_readonly c"
    by blast+
qed

lemma GetStorage_view:
  "backend_GetStorage X b a k = (r, b') \<Longrightarrow> r = sto_view X b a k \<and> same_view X b b'"
proof (induction X b a k arbitrary: r b' rule: backend_GetStorage.induct)
  case (1 X m a k)
  then show ?case by auto
next
  case (2 X c b a k)
  obtain q c1 b1 where get: "cache_get X c b a = (q, c1, b1)"
    by (cases "cache_get X c b a")
  note view = cache_get_view [OF get]
  show ?case
  proof (cases q)
    case (Inl e)
    with "2.prems" get have "r = Err e" "b' = Layer c1 b1" by auto
    moreover have "map_of (c_accounts c) a = None"
      using get Inl by (cases rule: cache_get_cases) auto
    ultimately show ?thesis
      using view Inl by simp
  next
    case (Inr i)
    note entry = view(4) [OF Inr]
    have shown: "sto_view X (Layer c b) a k = sto_view X (Layer c1 b1) a k"
      using view(2) by (simp add: same_view_def)
    show ?thesis
    proof (cases "map_of (ai_storage i) k")
      case (Some v)
      with "2.prems" get Inr have "r = Ok v" "b' = Layer c1 b1" by auto
      with view(2) shown entry Some show ?thesis by simp
    next
      case None
      obtain s b2 where st: "backend_GetStorage X b1 a k = (s, b2)"
        by (cases "backend_GetStorage X b1 a k")
      from "2.IH" [OF get [symmetric] Inr refl None st]
      have s: "s = sto_view X b1 a k" and b2: "same_view X b1 b2"
        by auto
      have r: "r = sto_view X (Layer c b) a k"
        using "2.prems" get Inr None st s shown entry by (auto split: res.splits)
      show ?thesis
      proof (cases s)
        case (Ok v)
        with "2.prems" get Inr None st have b': "b' = Layer (set_info c1 a
            (i\<lparr>ai_storage := AList.update k v (ai_storage i)\<rparr>)) b2"
          by auto
        have "same_view X (Layer c1 b1) b'"
          using b2 entry None Ok s unfolding b'
          by (intro same_view_trans [OF same_view_fill same_view_Layer]) auto
        with r view(2) show ?thesis
          by (blast intro: same_view_trans)
      next
        case (Err e)
        with "2.prems" get Inr None st have "b' = Layer c1 b2" by auto
        with b2 r view(2) show ?thesis
          by (blast intro: same_view_trans same_view_Layer)
      next
        case (Panic p)
        with "2.prems" get Inr None st have "b' = Layer c1 b2" by auto
        with b2 r view(2) show ?thesis
          by (blast intro: same_view_trans same_view_Layer)
      qed
    qed
  qed
qed

end
