(* ===== verification/Cache_Refinement.thy ===== *)
theory Cache_Refinement
  imports Cache_Views
begin

section \<open>Writing a cache back\<close>

text \<open>
  The interface a cache writes back to (\<open>state_writer\<close>, Burrow's
  \<^verbatim>\<open>acmstate.Writer\<close>), what \<^verbatim>\<open>Sync\<close> does to any store that keeps its
  laws, and its two providers: the state manager, whose accounts and words are those of the committed
  ledger, and a cache, whose accounts and words are those it shows.
\<close>

subsection \<open>The interface and its client\<close>

text \<open>
  What a cache makes of the accounts and words of the store under it when it is written back;
  \<open>keep\<close> is what the store keeps of an account.
\<close>

definition overlay_account ::
    "(account \<Rightarrow> account) \<Rightarrow> cache \<Rightarrow> (address \<Rightarrow> go_error + account option) \<Rightarrow>
     address \<Rightarrow> go_error + account option" where
  "overlay_account keep c f a =
     (case map_of (c_accounts c) a of
        None \<Rightarrow> f a
      | Some i \<Rightarrow> if ai_removed i then Inr None else if ai_updated i then Inr (map_option keep (ai_account i)) else f a)"

definition overlay_storage ::
    "cache \<Rightarrow> (address \<Rightarrow> word256 \<Rightarrow> word256 res) \<Rightarrow> address \<Rightarrow> word256 \<Rightarrow> word256 res" where
  "overlay_storage c g a k =
     (case map_of (c_accounts c) a of
        None \<Rightarrow> g a k
      | Some i \<Rightarrow>
          if ai_removed i \<or> \<not> ai_updated i then g a k
          else (case map_of (ai_storage i) k of None \<Rightarrow> g a k | Some v \<Rightarrow> Ok v))"

lemma overlay_local:
  "f b = f' b \<Longrightarrow> overlay_account keep c f b = overlay_account keep c f' b"
  "g b = g' b \<Longrightarrow> overlay_storage c g b = overlay_storage c g' b"
  by (simp_all add: overlay_account_def overlay_storage_def fun_eq_iff split: option.split)

text \<open>Every account a cache has to write is there and is kept under its own address.\<close>

definition writable :: "cache \<Rightarrow> bool" where
  "writable c \<longleftrightarrow> distinct (map fst (c_accounts c)) \<and>
     (\<forall>a i. map_of (c_accounts c) a = Some i \<longrightarrow> ai_updated i \<longrightarrow>
        (\<exists>acc. ai_account i = Some acc \<and> acc_Address acc = a))"

locale state_writer =
  fixes update :: "'s \<Rightarrow> account option \<Rightarrow> unit res \<times> 's"
    and remove :: "'s \<Rightarrow> address \<Rightarrow> unit res \<times> 's"
    and set_storage :: "'s \<Rightarrow> address \<Rightarrow> word256 \<Rightarrow> word256 \<Rightarrow> unit res \<times> 's"
    and accounts :: "'s \<Rightarrow> address \<Rightarrow> go_error + account option"
    and storage :: "'s \<Rightarrow> address \<Rightarrow> word256 \<Rightarrow> word256 res"
    and invar :: "'s \<Rightarrow> bool"
    and keep :: "account \<Rightarrow> account"
  assumes update_Ok: "\<lbrakk>invar s; update s (Some acc) = (Ok (), t)\<rbrakk> \<Longrightarrow>
      invar t \<and> accounts t = put_account (accounts s) (acc_Address acc) (Some (keep acc)) \<and> storage t = storage s"
    and remove_Ok: "\<lbrakk>invar s; remove s a = (Ok (), t)\<rbrakk> \<Longrightarrow>
      invar t \<and> accounts t = put_account (accounts s) a None \<and> storage t = storage s"
    and set_storage_Ok: "\<lbrakk>invar s; set_storage s a k v = (Ok (), t)\<rbrakk> \<Longrightarrow>
      invar t \<and> accounts t = accounts s \<and> storage t = put_word (storage s) a k v"
begin

lemma storage_loop:
  assumes "invar s"
    and "run_all (\<lambda>st key. case map_of sto key of None \<Rightarrow> (Ok (), st) | Some v \<Rightarrow> set_storage st a key v) ks s
      = (Ok (), t)"
  shows "invar t \<and> accounts t = accounts s \<and>
    storage t = (\<lambda>b l. if b = a \<and> l \<in> set ks
      then (case map_of sto l of None \<Rightarrow> storage s b l | Some v \<Rightarrow> Ok v) else storage s b l)"
  using assms
proof (induction ks arbitrary: s)
  case Nil
  then show ?case by simp
next
  case (Cons k ks)
  show ?case
  proof (cases "map_of sto k")
    case None
    with Cons.prems(2) have run: "run_all (\<lambda>st key. case map_of sto key of None \<Rightarrow> (Ok (), st)
        | Some v \<Rightarrow> set_storage st a key v) ks s = (Ok (), t)"
      by simp
    show ?thesis
      using Cons.IH [OF Cons.prems(1) run] None by (auto simp: fun_eq_iff)
  next
    case (Some v)
    with Cons.prems(2) obtain u where set: "set_storage s a k v = (Ok (), u)"
      and run: "run_all (\<lambda>st key. case map_of sto key of None \<Rightarrow> (Ok (), st)
        | Some v \<Rightarrow> set_storage st a key v) ks u = (Ok (), t)"
      by (auto simp del: run_all.simps simp: run_all_Ok_Cons)
    note u = set_storage_Ok [OF Cons.prems(1) set]
    from Cons.IH [OF conjunct1 [OF u] run] u Some show ?thesis
      by (auto simp: fun_eq_iff put_word_apply split: option.split)
  qed
qed

lemma Sync_account_Ok:
  assumes inv: "invar s" and ok: "ai_updated i \<Longrightarrow> \<exists>acc. ai_account i = Some acc \<and> acc_Address acc = a"
    and sync: "Sync_account update remove set_storage a i s = (Ok (), t)"
  shows "invar t"
    and "accounts t = (accounts s)(a := (if ai_removed i then Inr None
          else if ai_updated i then Inr (map_option keep (ai_account i)) else accounts s a))"
    and "storage t = (storage s)(a := (\<lambda>k. if ai_removed i \<or> \<not> ai_updated i then storage s a k
          else (case map_of (ai_storage i) k of None \<Rightarrow> storage s a k | Some v \<Rightarrow> Ok v)))"
proof -
  have "invar t \<and> accounts t = (accounts s)(a := (if ai_removed i then Inr None
      else if ai_updated i then Inr (map_option keep (ai_account i)) else accounts s a)) \<and>
    storage t = (storage s)(a := (\<lambda>k. if ai_removed i \<or> \<not> ai_updated i then storage s a k
      else (case map_of (ai_storage i) k of None \<Rightarrow> storage s a k | Some v \<Rightarrow> Ok v)))"
  proof (cases "ai_removed i")
    case True
    with sync remove_Ok [OF inv] show ?thesis
      by (auto simp: Sync_account_def put_account_def)
  next
    case live: False
    show ?thesis
    proof (cases "ai_updated i")
      case False
      with live sync inv show ?thesis
        by (auto simp: Sync_account_def fun_eq_iff)
    next
      case True
      then obtain acc where acc: "ai_account i = Some acc" "acc_Address acc = a"
        using ok by blast
      obtain r u where upd: "update s (Some acc) = (r, u)"
        by (cases "update s (Some acc)")
      then have r: "r = Ok ()" and run: "run_all (\<lambda>st key. case map_of (ai_storage i) key of
            None \<Rightarrow> (Ok (), st) | Some v \<Rightarrow> set_storage st a key v) (sort (map fst (ai_storage i))) u = (Ok (), t)"
        using sync live True acc by (auto simp: Sync_account_def split: res.splits)
      note u = update_Ok [OF inv upd [unfolded r]]
      from storage_loop [OF conjunct1 [OF u] run] u live True acc show ?thesis
        by (auto simp: fun_eq_iff put_account_apply split: option.split dest: map_of_Some_in_keys)
    qed
  qed
  then show "invar t"
    and "accounts t = (accounts s)(a := (if ai_removed i then Inr None
          else if ai_updated i then Inr (map_option keep (ai_account i)) else accounts s a))"
    and "storage t = (storage s)(a := (\<lambda>k. if ai_removed i \<or> \<not> ai_updated i then storage s a k
          else (case map_of (ai_storage i) k of None \<Rightarrow> storage s a k | Some v \<Rightarrow> Ok v)))"
    by blast+
qed

text \<open>The loop over the addresses changes exactly those it has passed.\<close>

lemma sync_loop:
  assumes "writable c" and "invar s" and "distinct as"
    and "run_all (\<lambda>st a. case map_of (c_accounts c) a of None \<Rightarrow> (Ok (), st)
          | Some i \<Rightarrow> Sync_account update remove set_storage a i st) as s = (Ok (), t)"
  shows "invar t \<and>
    accounts t = (\<lambda>a. if a \<in> set as then overlay_account keep c (accounts s) a else accounts s a) \<and>
    storage t = (\<lambda>a. if a \<in> set as then overlay_storage c (storage s) a else storage s a)"
  using assms(2-)
proof (induction as arbitrary: s)
  case Nil
  then show ?case by simp
next
  case (Cons a as)
  let ?f = "\<lambda>st a. case map_of (c_accounts c) a of None \<Rightarrow> (Ok (), st)
    | Some i \<Rightarrow> Sync_account update remove set_storage a i st"
  have a: "a \<notin> set as" and as: "distinct as"
    using Cons.prems(2) by auto
  show ?case
  proof (cases "map_of (c_accounts c) a")
    case None
    with Cons.prems(3) have "run_all ?f as s = (Ok (), t)" by simp
    from Cons.IH [OF Cons.prems(1) as this] None show ?thesis
      by (auto simp: fun_eq_iff overlay_account_def overlay_storage_def)
  next
    case (Some i)
    with Cons.prems(3) obtain u where step: "Sync_account update remove set_storage a i s = (Ok (), u)"
      and run: "run_all ?f as u = (Ok (), t)"
      by (auto simp del: run_all.simps simp: run_all_Ok_Cons)
    have "ai_updated i \<Longrightarrow> \<exists>acc. ai_account i = Some acc \<and> acc_Address acc = a"
      using assms(1) Some by (auto simp: writable_def)
    note u = Sync_account_Ok [OF Cons.prems(1) this step]
    have other: "accounts u b = accounts s b" "storage u b = storage s b" if "b \<noteq> a" for b
      using u(2,3) that by auto
    have this_one: "accounts u a = overlay_account keep c (accounts s) a"
      "storage u a = overlay_storage c (storage s) a"
      using u(2,3) Some by (auto simp: overlay_account_def overlay_storage_def fun_eq_iff)
    note IH = Cons.IH [OF u(1) as run]
    have "accounts t b = (if b \<in> set (a # as) then overlay_account keep c (accounts s) b else accounts s b) \<and>
        storage t b = (if b \<in> set (a # as) then overlay_storage c (storage s) b else storage s b)" for b
    proof (cases "b = a")
      case True
      with IH a this_one show ?thesis by simp
    next
      case False
      with IH other [OF False] overlay_local(1) [of "accounts u" b "accounts s" keep c]
        overlay_local(2) [of "storage u" b "storage s" c]
      show ?thesis by simp
    qed
    with IH show ?thesis
      by (simp add: fun_eq_iff)
  qed
qed

theorem Cache_Sync_Ok:
  assumes "writable c" and "invar s" and "\<not> c_readonly c"
    and "Cache_Sync update remove set_storage c s = (Ok (), t)"
  shows "invar t" and "accounts t = overlay_account keep c (accounts s)"
    and "storage t = overlay_storage c (storage s)"
proof -
  have "distinct (sort (map fst (c_accounts c)))"
    using assms(1) by (simp add: writable_def)
  from sync_loop [OF assms(1,2) this] assms(3,4)
  have "invar t \<and>
      accounts t = (\<lambda>a. if a \<in> set (sort (map fst (c_accounts c))) then overlay_account keep c (accounts s) a else accounts s a) \<and>
      storage t = (\<lambda>a. if a \<in> set (sort (map fst (c_accounts c))) then overlay_storage c (storage s) a else storage s a)"
    by (simp add: Cache_Sync_def)
  moreover have "map_of (c_accounts c) a = None" if "a \<notin> set (sort (map fst (c_accounts c)))" for a
    using that by (simp add: map_of_eq_None_iff)
  ultimately show "invar t" and "accounts t = overlay_account keep c (accounts s)"
    and "storage t = overlay_storage c (storage s)"
    by (auto simp: fun_eq_iff overlay_account_def overlay_storage_def)
qed

end

text \<open>The first provider: the state manager, through the ledger after the commit.\<close>

interpretation manager_writer: state_writer "sm_UpdateAccount X" "sm_RemoveAccount X" "sm_SetStorage X"
    "\<lambda>m. ledger_account X (commit (sm_stub m))" "\<lambda>m. ledger_storage X (commit (sm_stub m))"
    "\<lambda>m. codec_ok X" stored_account for X
proof
  fix s t and acc :: account
  assume "codec_ok X" and "sm_UpdateAccount X s (Some acc) = (Ok (), t)"
  then show "codec_ok X \<and>
      ledger_account X (commit (sm_stub t)) =
        put_account (ledger_account X (commit (sm_stub s))) (acc_Address acc) (Some (stored_account acc)) \<and>
      ledger_storage X (commit (sm_stub t)) = ledger_storage X (commit (sm_stub s))"
    by (auto elim: sm_UpdateAccount_commit)
qed (auto simp: sm_RemoveAccount_commit sm_SetStorage_commit)

end
