(* ===== verification/Cache_Coherence.thy ===== *)
theory Cache_Coherence
  imports Cache_Refinement
begin

section \<open>Coherent caches\<close>

text \<open>
  The invariant of a chain of caches: an entry that was not updated holds what the backend shows,
  an updated entry has an account, and every account is kept under its own address. Every operation
  keeps it, so a cache is a provider of \<open>state_writer\<close> for the cache above it.
\<close>

definition info_ok :: "('pk, 'z) externals_scheme \<Rightarrow> backend \<Rightarrow> address \<Rightarrow> account_info \<Rightarrow> bool" where
  "info_ok X b a i \<longleftrightarrow>
     (\<forall>acc. ai_account i = Some acc \<longrightarrow> acc_Address acc = a) \<and>
     (ai_updated i \<longrightarrow> ai_account i \<noteq> None) \<and>
     (\<not> ai_updated i \<longrightarrow> acc_view X b a = Inr (ai_account i) \<and>
        (\<forall>k v. map_of (ai_storage i) k = Some v \<longrightarrow> sto_view X b a k = Ok v))"

definition cache_ok :: "('pk, 'z) externals_scheme \<Rightarrow> cache \<Rightarrow> backend \<Rightarrow> bool" where
  "cache_ok X c b \<longleftrightarrow> distinct (map fst (c_accounts c)) \<and>
     (\<forall>a i. map_of (c_accounts c) a = Some i \<longrightarrow> info_ok X b a i)"

fun coherent :: "('pk, 'z) externals_scheme \<Rightarrow> backend \<Rightarrow> bool" where
  "coherent X (Manager m) = (\<forall>a acc. sm_GetAccount X m a = Inr (Some acc) \<longrightarrow> acc_Address acc = a)"
| "coherent X (Layer c b) = (coherent X b \<and> cache_ok X c b)"

lemma coherent_NewCache [simp]: "coherent X (Layer (NewCache ro) b) = coherent X b"
  by (simp add: cache_ok_def NewCache_def)

lemma coherent_addressed: "coherent X b \<Longrightarrow> acc_view X b a = Inr (Some acc) \<Longrightarrow> acc_Address acc = a"
proof (induction b)
  case (Layer c b)
  then show ?case
    by (auto simp: cache_ok_def info_ok_def split: option.splits if_splits)
qed simp

lemma cache_ok_same_view: "same_view X b b' \<Longrightarrow> cache_ok X c b' = cache_ok X c b"
  by (simp add: cache_ok_def info_ok_def same_view_def)

lemma cache_ok_set_info:
  "cache_ok X c b \<Longrightarrow> info_ok X b a i \<Longrightarrow> cache_ok X (set_info c a i) b"
  by (auto simp: cache_ok_def set_info_def distinct_update)

lemma cache_ok_info: "cache_ok X c b \<Longrightarrow> map_of (c_accounts c) a = Some i \<Longrightarrow> info_ok X b a i"
  by (simp add: cache_ok_def)

lemma info_ok_clean:
  "coherent X b \<Longrightarrow> acc_view X b a = Inr acc \<Longrightarrow> info_ok X b a (clean_info acc)"
  by (auto simp: info_ok_def dest: coherent_addressed)

subsection \<open>Reading keeps coherence\<close>

lemma GetAccount_coherent: "coherent X b \<Longrightarrow> backend_GetAccount X b a = (r, b') \<Longrightarrow> coherent X b'"
proof (induction b arbitrary: r b')
  case (Layer c b)
  obtain q c1 b1 where get: "cache_get X c b a = (q, c1, b1)"
    by (cases "cache_get X c b a")
  with Layer.prems have b': "b' = Layer c1 b1"
    by (auto split: sum.splits)
  from get show ?case
  proof (cases rule: cache_get_cases)
    case (load acc)
    with Layer have "coherent X b1" by auto
    moreover note GetAccount_view [OF load(2)]
    moreover have "info_ok X b a (clean_info acc)"
      using Layer.prems(1) GetAccount_view [OF load(2)] by (auto intro: info_ok_clean)
    ultimately show ?thesis
      using Layer.prems(1) load(4) unfolding b' by (auto simp: cache_ok_same_view intro: cache_ok_set_info)
  next
    case (fail e)
    with Layer GetAccount_view [OF fail(2)] show ?thesis
      unfolding b' by (auto simp: cache_ok_same_view)
  qed (use Layer b' in auto)
qed auto

lemma cache_get_coherent:
  assumes "coherent X (Layer c b)" and "cache_get X c b a = (r, c', b')"
  shows "coherent X (Layer c' b')"
proof -
  have "\<exists>q. backend_GetAccount X (Layer c b) a = (q, Layer c' b')"
    using assms(2) by (cases r) auto
  with assms(1) show ?thesis
    by (blast intro: GetAccount_coherent)
qed

lemma GetStorage_coherent: "coherent X b \<Longrightarrow> backend_GetStorage X b a k = (r, b') \<Longrightarrow> coherent X b'"
proof (induction X b a k arbitrary: r b' rule: backend_GetStorage.induct)
  case (1 X m a k)
  then show ?case by auto
next
  case (2 X c b a k)
  obtain q c1 b1 where get: "cache_get X c b a = (q, c1, b1)"
    by (cases "cache_get X c b a")
  have co: "coherent X (Layer c1 b1)"
    using cache_get_coherent [OF "2.prems"(1) get] .
  show ?case
  proof (cases q)
    case (Inl e)
    with "2.prems"(2) get co show ?thesis by auto
  next
    case (Inr i)
    have i: "map_of (c_accounts c1) a = Some i"
      using cache_get_view(4) [OF get] Inr by simp
    show ?thesis
    proof (cases "map_of (ai_storage i) k")
      case (Some v)
      with "2.prems"(2) get co Inr show ?thesis by auto
    next
      case None
      obtain s b2 where st: "backend_GetStorage X b1 a k = (s, b2)"
        by (cases "backend_GetStorage X b1 a k")
      have b2: "coherent X b2" "cache_ok X c1 b2"
        using "2.IH" [OF get [symmetric] Inr refl None _ st] co GetStorage_view [OF st]
        by (auto simp: cache_ok_same_view)
      show ?thesis
      proof (cases s)
        case (Ok v)
        let ?i = "i\<lparr>ai_storage := AList.update k v (ai_storage i)\<rparr>"
        have "sto_view X b2 a k = Ok v"
          using GetStorage_view [OF st] Ok by (auto simp: same_view_def)
        then have "info_ok X b2 a ?i"
          using cache_ok_info [OF b2(2) i] by (auto simp: info_ok_def)
        moreover have "b' = Layer (set_info c1 a ?i) b2"
          using "2.prems"(2) get Inr None st Ok by simp
        ultimately show ?thesis
          using b2 by (simp add: cache_ok_set_info)
      qed (use "2.prems"(2) get Inr None st b2 in auto)
    qed
  qed
qed

subsection \<open>A write changes one entry of what a cache shows\<close>

lemma Layer_UpdateAccount_Ok:
  assumes co: "coherent X (Layer c b)"
    and upd: "backend_UpdateAccount X (Layer c b) (Some acc) = (Ok (), t)"
  shows "\<exists>c' b'. t = Layer c' b'" and "coherent X t"
    and "acc_view X t = put_account (acc_view X (Layer c b)) (acc_Address acc) (Some acc)"
    and "sto_view X t = sto_view X (Layer c b)" and "base_manager t = base_manager b"
proof -
  let ?a = "acc_Address acc"
  obtain i c1 b1 where get: "cache_get X c b ?a = (Inr i, c1, b1)" and live: "\<not> ai_removed i"
    and t: "t = Layer (set_info c1 ?a (i\<lparr>ai_account := Some acc, ai_updated := True\<rparr>)) b1"
    using upd by (auto split: if_splits prod.splits sum.splits)
  note view = cache_get_view [OF get]
  have i: "map_of (c_accounts c1) ?a = Some i"
    using view(4) by simp
  show "\<exists>c' b'. t = Layer c' b'"
    using t by simp
  have "info_ok X b1 ?a (i\<lparr>ai_account := Some acc, ai_updated := True\<rparr>)"
    by (simp add: info_ok_def)
  with cache_get_coherent [OF co get] show "coherent X t"
    by (simp add: t cache_ok_set_info)
  have "acc_view X t = put_account (acc_view X (Layer c1 b1)) ?a (Some acc)"
    using live by (auto simp: t put_account_def fun_eq_iff split: option.splits)
  then show "acc_view X t = put_account (acc_view X (Layer c b)) ?a (Some acc)"
    using view(2) by (simp add: same_view_def)
  have "sto_view X t = sto_view X (Layer c1 b1)"
    using i by (auto simp: t fun_eq_iff)
  then show "sto_view X t = sto_view X (Layer c b)"
    using view(2) by (simp add: same_view_def)
  show "base_manager t = base_manager b"
    using view(1) by (simp add: t same_view_def)
qed

lemma Layer_RemoveAccount_Ok:
  assumes co: "coherent X (Layer c b)" and rem: "backend_RemoveAccount X (Layer c b) a = (Ok (), t)"
  shows "\<exists>c' b'. t = Layer c' b'" and "coherent X t"
    and "acc_view X t = put_account (acc_view X (Layer c b)) a None"
    and "sto_view X t = sto_view X (Layer c b)" and "base_manager t = base_manager b"
proof -
  obtain i c1 b1 where get: "cache_get X c b a = (Inr i, c1, b1)"
    and t: "t = Layer (set_info c1 a (i\<lparr>ai_removed := True\<rparr>)) b1"
    using rem by (auto split: if_splits prod.splits sum.splits)
  note view = cache_get_view [OF get]
  have i: "map_of (c_accounts c1) a = Some i"
    using view(4) by simp
  note co1 = cache_get_coherent [OF co get]
  show "\<exists>c' b'. t = Layer c' b'"
    using t by simp
  have "info_ok X b1 a (i\<lparr>ai_removed := True\<rparr>)"
    using co1 cache_ok_info [of X c1 b1 a i] i by (simp add: info_ok_def)
  with co1 show "coherent X t"
    by (simp add: t cache_ok_set_info)
  have "acc_view X t = put_account (acc_view X (Layer c1 b1)) a None"
    by (auto simp: t put_account_def fun_eq_iff split: option.splits)
  then show "acc_view X t = put_account (acc_view X (Layer c b)) a None"
    using view(2) by (simp add: same_view_def)
  have "sto_view X t = sto_view X (Layer c1 b1)"
    using i by (auto simp: t fun_eq_iff)
  then show "sto_view X t = sto_view X (Layer c b)"
    using view(2) by (simp add: same_view_def)
  show "base_manager t = base_manager b"
    using view(1) by (simp add: t same_view_def)
qed

lemma Layer_SetStorage_Ok:
  assumes co: "coherent X (Layer c b)" and set: "backend_SetStorage X (Layer c b) a k v = (Ok (), t)"
  shows "\<exists>c' b'. t = Layer c' b'" and "coherent X t"
    and "acc_view X t = acc_view X (Layer c b)"
    and "sto_view X t = put_word (sto_view X (Layer c b)) a k v" and "base_manager t = base_manager b"
proof -
  obtain i c1 b1 where get: "cache_get X c b a = (Inr i, c1, b1)" and acc: "ai_account i \<noteq> None"
    and t: "t = Layer (set_info c1 a
      (i\<lparr>ai_storage := AList.update k v (ai_storage i), ai_updated := True\<rparr>)) b1"
    using set by (auto split: if_splits prod.splits sum.splits)
  note view = cache_get_view [OF get]
  have i: "map_of (c_accounts c1) a = Some i"
    using view(4) by simp
  note co1 = cache_get_coherent [OF co get]
  show "\<exists>c' b'. t = Layer c' b'"
    using t by simp
  have "info_ok X b1 a (i\<lparr>ai_storage := AList.update k v (ai_storage i), ai_updated := True\<rparr>)"
    using co1 cache_ok_info [of X c1 b1 a i] i acc by (simp add: info_ok_def)
  with co1 show "coherent X t"
    by (simp add: t cache_ok_set_info)
  have "acc_view X t = acc_view X (Layer c1 b1)"
    using i by (auto simp: t fun_eq_iff)
  then show "acc_view X t = acc_view X (Layer c b)"
    using view(2) by (simp add: same_view_def)
  have "sto_view X t = put_word (sto_view X (Layer c1 b1)) a k v"
    using i by (auto simp: t put_word_apply fun_eq_iff split: option.splits sum.splits)
  then show "sto_view X t = put_word (sto_view X (Layer c b)) a k v"
    using view(2) by (simp add: same_view_def)
  show "base_manager t = base_manager b"
    using view(1) by (simp add: t same_view_def)
qed

end
