(* ===== verification/World_State.thy ===== *)
theory World_State
  imports Cache_Coherence
begin

section \<open>From the cache to the ledger\<close>

text \<open>
  The cache is the second provider of \<open>state_writer\<close>. With both providers in place,
  \<^verbatim>\<open>Sync\<close> is a refinement: writing a coherent cache back makes the store below show what
  the cache showed, in the caller's cache for a nested call and on the committed ledger for the
  transaction's own cache.
\<close>

interpretation layer_writer: state_writer "backend_UpdateAccount X" "backend_RemoveAccount X"
    "backend_SetStorage X" "acc_view X" "sto_view X"
    "\<lambda>b. (\<exists>c' b'. b = Layer c' b') \<and> coherent X b \<and> base_manager b = m" id for X m
proof
  fix s t and acc :: account
  assume "(\<exists>c b. s = Layer c b) \<and> coherent X s \<and> base_manager s = m"
    and upd: "backend_UpdateAccount X s (Some acc) = (Ok (), t)"
  then obtain c b where "s = Layer c b" "coherent X (Layer c b)" "base_manager b = m"
    by auto
  with Layer_UpdateAccount_Ok [of X c b acc t] upd
  show "((\<exists>c b. t = Layer c b) \<and> coherent X t \<and> base_manager t = m) \<and>
      acc_view X t = put_account (acc_view X s) (acc_Address acc) (Some (id acc)) \<and> sto_view X t = sto_view X s"
    unfolding id_apply by blast
next
  fix s t a
  assume "(\<exists>c b. s = Layer c b) \<and> coherent X s \<and> base_manager s = m"
    and rem: "backend_RemoveAccount X s a = (Ok (), t)"
  then obtain c b where "s = Layer c b" "coherent X (Layer c b)" "base_manager b = m"
    by auto
  with Layer_RemoveAccount_Ok [of X c b a t] rem
  show "((\<exists>c b. t = Layer c b) \<and> coherent X t \<and> base_manager t = m) \<and>
      acc_view X t = put_account (acc_view X s) a None \<and> sto_view X t = sto_view X s"
    by blast
next
  fix s t a k v
  assume "(\<exists>c b. s = Layer c b) \<and> coherent X s \<and> base_manager s = m"
    and set: "backend_SetStorage X s a k v = (Ok (), t)"
  then obtain c b where "s = Layer c b" "coherent X (Layer c b)" "base_manager b = m"
    by auto
  with Layer_SetStorage_Ok [of X c b a k v t] set
  show "((\<exists>c b. t = Layer c b) \<and> coherent X t \<and> base_manager t = m) \<and>
      acc_view X t = acc_view X s \<and> sto_view X t = put_word (sto_view X s) a k v"
    by blast
qed

subsection \<open>What is written back is what the cache showed\<close>

definition removed_in :: "cache \<Rightarrow> address \<Rightarrow> bool" where
  "removed_in c a \<longleftrightarrow> (\<exists>i. map_of (c_accounts c) a = Some i \<and> ai_removed i)"

lemma cache_ok_writable: "cache_ok X c b \<Longrightarrow> writable c"
  unfolding cache_ok_def writable_def info_ok_def by fastforce

lemma overlay_account_view: "cache_ok X c b \<Longrightarrow> overlay_account id c (acc_view X b) = acc_view X (Layer c b)"
  by (auto simp: overlay_account_def option.map_id cache_ok_def info_ok_def fun_eq_iff split: option.splits)

text \<open>Accounts up to what the ledger keeps of them.\<close>

definition kept :: "go_error + account option \<Rightarrow> go_error + account option" where
  "kept = map_sum id (map_option stored_account)"

lemma kept_simps [simp]:
  "kept (Inl e) = Inl e" "kept (Inr None) = Inr None" "kept (Inr (Some acc)) = Inr (Some (stored_account acc))"
  by (simp_all add: kept_def)

lemma kept_Inr: "kept r = kept (Inr (Some acc)) \<longleftrightarrow> (\<exists>acc'. r = Inr (Some acc') \<and> stored_account acc' = stored_account acc)"
  by (cases r rule: sum.exhaust; cases "projr r") (auto simp: kept_def)

lemma kept_overlay: "kept (overlay_account stored_account c f a) = kept (overlay_account id c f a)"
  by (auto simp: overlay_account_def kept_def option.map_comp comp_def option.map_id split: option.split)

lemma overlay_storage_view:
  assumes "cache_ok X c b" and "acc_view X (Layer c b) a = Inr acc" and "\<not> removed_in c a"
  shows "overlay_storage c (sto_view X b) a = sto_view X (Layer c b) a"
  using assms
  by (auto simp: overlay_storage_def removed_in_def cache_ok_def info_ok_def fun_eq_iff
      split: option.splits)

lemma overlay_storage_removed: "removed_in c a \<Longrightarrow> overlay_storage c g a = g a"
  by (auto simp: overlay_storage_def removed_in_def fun_eq_iff)

text \<open>Into the caller's cache, when a nested call returns.\<close>

lemma Sync_into_cache:
  assumes co: "coherent X (Layer c (Layer c2 b))" and "\<not> c_readonly c"
    and sync: "backend_Sync X c (Layer c2 b) = (Ok (), t)"
  shows "coherent X t" and "\<exists>c' b'. t = Layer c' b'" and "base_manager t = base_manager b"
    and "acc_view X t = acc_view X (Layer c (Layer c2 b))"
    and "acc_view X t a = Inr acc \<Longrightarrow> \<not> removed_in c a \<Longrightarrow>
      sto_view X t a = sto_view X (Layer c (Layer c2 b)) a"
proof -
  from co have ok: "cache_ok X c (Layer c2 b)" by simp
  have inv: "(\<exists>c' b'. Layer c2 b = Layer c' b') \<and> coherent X (Layer c2 b) \<and>
      base_manager (Layer c2 b) = base_manager b"
    using co by simp
  note synced = layer_writer.Cache_Sync_Ok [OF cache_ok_writable [OF ok] inv assms(2)
      sync [unfolded backend_Sync_def]]
  show "coherent X t" and "\<exists>c' b'. t = Layer c' b'" and "base_manager t = base_manager b"
    using synced(1) by blast+
  show acc: "acc_view X t = acc_view X (Layer c (Layer c2 b))"
    using synced(2) overlay_account_view [OF ok] by (simp del: acc_view.simps)
  show "acc_view X t a = Inr acc \<Longrightarrow> \<not> removed_in c a \<Longrightarrow>
      sto_view X t a = sto_view X (Layer c (Layer c2 b)) a"
    using synced(3) overlay_storage_view [OF ok] by (simp del: acc_view.simps sto_view.simps add: acc)
qed

text \<open>Into the state manager, at the end of the transaction.\<close>

lemma backend_Sync_Manager:
  "backend_Sync X c (Manager m) =
     apsnd Manager (Cache_Sync (sm_UpdateAccount X) (sm_RemoveAccount X) (sm_SetStorage X) c m)"
proof -
  have upd: "backend_UpdateAccount X (Manager s) acc = apsnd Manager (sm_UpdateAccount X s acc)" for s acc
    by (simp split: prod.splits)
  have rem: "backend_RemoveAccount X (Manager s) a = apsnd Manager (sm_RemoveAccount X s a)" for s a
    by (simp split: prod.splits)
  have set: "backend_SetStorage X (Manager s) a k v = apsnd Manager (sm_SetStorage X s a k v)" for s a k v
    by (simp split: prod.splits)
  have words: "run_all (\<lambda>st key. case map_of sto key of None \<Rightarrow> (Ok (), st)
        | Some val \<Rightarrow> backend_SetStorage X st a key val) ks (Manager s) =
      apsnd Manager (run_all (\<lambda>st key. case map_of sto key of None \<Rightarrow> (Ok (), st)
        | Some val \<Rightarrow> sm_SetStorage X st a key val) ks s)" for sto a ks s
    by (rule run_all_lift) (simp add: set del: backend_SetStorage.simps split: option.split)
  have acc: "Sync_account (backend_UpdateAccount X) (backend_RemoveAccount X) (backend_SetStorage X) a i (Manager s) =
      apsnd Manager (Sync_account (sm_UpdateAccount X) (sm_RemoveAccount X) (sm_SetStorage X) a i s)" for a i s
    by (cases "sm_UpdateAccount X s (ai_account i)")
      (auto simp: Sync_account_def upd rem words split: res.split
        simp del: backend_UpdateAccount.simps backend_RemoveAccount.simps backend_SetStorage.simps)
  show ?thesis
    unfolding backend_Sync_def Cache_Sync_def
    by (auto intro!: run_all_lift simp: acc split: option.split)
qed

text \<open>A state manager whose transaction has not written anything yet.\<close>

definition fresh_manager :: "state_manager \<Rightarrow> bool" where
  "fresh_manager m \<longleftrightarrow>
     sm_cache m = Map.empty \<and> write_set (sm_stub m) = Map.empty \<and> get_fault (sm_stub m) = (\<lambda>_. None)"

lemma fresh_views:
  assumes "fresh_manager m"
  shows "acc_view X (Manager m) = ledger_account X (ledger (sm_stub m))"
    and "sto_view X (Manager m) = ledger_storage X (ledger (sm_stub m))"
    and "commit (sm_stub m) = ledger (sm_stub m)"
  using assms
  by (auto simp: fresh_manager_def fun_eq_iff sm_GetAccount_ledger sm_GetStorage_ledger commit_initial)

lemma Sync_to_ledger:
  assumes "codec_ok X" and fresh: "fresh_manager m" and co: "coherent X (Layer c (Manager m))"
    and "\<not> c_readonly c" and sync: "backend_Sync X c (Manager m) = (Ok (), Manager m')"
  shows "kept (ledger_account X (commit (sm_stub m')) a) = kept (acc_view X (Layer c (Manager m)) a)"
    and "acc_view X (Layer c (Manager m)) a = Inr acc \<Longrightarrow> \<not> removed_in c a \<Longrightarrow>
      ledger_storage X (commit (sm_stub m')) a = sto_view X (Layer c (Manager m)) a"
    and "removed_in c a \<Longrightarrow>
      ledger_storage X (commit (sm_stub m')) a = ledger_storage X (ledger (sm_stub m)) a"
proof -
  from co have ok: "cache_ok X c (Manager m)" by simp
  have "Cache_Sync (sm_UpdateAccount X) (sm_RemoveAccount X) (sm_SetStorage X) c m = (Ok (), m')"
    using sync unfolding backend_Sync_Manager
    by (cases "Cache_Sync (sm_UpdateAccount X) (sm_RemoveAccount X) (sm_SetStorage X) c m") simp
  note synced = manager_writer.Cache_Sync_Ok [OF cache_ok_writable [OF ok] assms(1,4) this]
  show "kept (ledger_account X (commit (sm_stub m')) a) = kept (acc_view X (Layer c (Manager m)) a)"
    using synced(2) overlay_account_view [OF ok] fresh_views(1,2) [OF fresh, of X] fresh_views(3) [OF fresh]
    by (simp add: kept_overlay)
  show "acc_view X (Layer c (Manager m)) a = Inr acc \<Longrightarrow> \<not> removed_in c a \<Longrightarrow>
      ledger_storage X (commit (sm_stub m')) a = sto_view X (Layer c (Manager m)) a"
    using synced(3) overlay_storage_view [OF ok] fresh_views(1,2) [OF fresh, of X] fresh_views(3) [OF fresh]
    by (simp del: acc_view.simps(2) sto_view.simps(2))
  show "removed_in c a \<Longrightarrow>
      ledger_storage X (commit (sm_stub m')) a = ledger_storage X (ledger (sm_stub m)) a"
    using synced(3) overlay_storage_removed fresh_views(1,2) [OF fresh, of X] fresh_views(3) [OF fresh] by simp
qed

subsection \<open>The order of the writes\<close>

text \<open>Two caches with the same contents, whatever the order in which Go's maps hold them.\<close>

definition same_info :: "account_info \<Rightarrow> account_info \<Rightarrow> bool" where
  "same_info i j \<longleftrightarrow> ai_account i = ai_account j \<and> ai_removed i = ai_removed j \<and>
     ai_updated i = ai_updated j \<and> map_of (ai_storage i) = map_of (ai_storage j) \<and>
     distinct (map fst (ai_storage i)) \<and> distinct (map fst (ai_storage j))"

definition same_contents :: "cache \<Rightarrow> cache \<Rightarrow> bool" where
  "same_contents c d \<longleftrightarrow> c_readonly c = c_readonly d \<and>
     distinct (map fst (c_accounts c)) \<and> distinct (map fst (c_accounts d)) \<and>
     (\<forall>a. rel_option same_info (map_of (c_accounts c) a) (map_of (c_accounts d) a))"

lemma sorted_keys_eq:
  fixes m :: "('k :: linorder \<times> 'v) list" and n :: "('k \<times> 'w) list"
  assumes "distinct (map fst m)" "distinct (map fst n)" "dom (map_of m) = dom (map_of n)"
  shows "sort (map fst m) = sort (map fst n)"
proof (rule map_sorted_distinct_set_unique [of id, simplified])
  show "set (sort (map fst m)) = set (sort (map fst n))"
    using assms(3) by (simp add: dom_map_of_conv_image_fst)
qed (use assms in simp_all)

lemma Sync_account_contents:
  assumes "same_info i j"
  shows "Sync_account upd rem put a i s = Sync_account upd rem put a j s"
proof -
  have "sort (map fst (ai_storage i)) = sort (map fst (ai_storage j))"
    by (rule sorted_keys_eq) (use assms in \<open>simp_all add: same_info_def\<close>)
  then show ?thesis
    using assms by (simp only: Sync_account_def same_info_def)
qed

lemma Cache_Sync_contents:
  assumes "same_contents c d"
  shows "Cache_Sync upd rem put c s = Cache_Sync upd rem put d s"
proof -
  have rel: "rel_option same_info (map_of (c_accounts c) a) (map_of (c_accounts d) a)" for a
    using assms by (simp add: same_contents_def)
  have "map_of (c_accounts c) a = None \<longleftrightarrow> map_of (c_accounts d) a = None" for a
    using rel [of a] by (cases rule: option.rel_cases) simp_all
  then have "dom (map_of (c_accounts c)) = dom (map_of (c_accounts d))"
    unfolding dom_def by simp
  then have "sort (map fst (c_accounts c)) = sort (map fst (c_accounts d))"
    by (intro sorted_keys_eq) (use assms in \<open>simp_all add: same_contents_def\<close>)
  moreover have "(case map_of (c_accounts c) a of None \<Rightarrow> (Ok (), st)
        | Some i \<Rightarrow> Sync_account upd rem put a i st) =
      (case map_of (c_accounts d) a of None \<Rightarrow> (Ok (), st)
        | Some i \<Rightarrow> Sync_account upd rem put a i st)" for a st
    using rel [of a] by (cases rule: option.rel_cases) (auto intro: Sync_account_contents)
  ultimately show ?thesis
    using assms by (simp add: Cache_Sync_def same_contents_def)
qed

end
