(* ===== verification/Evm_State.thy ===== *)
theory Evm_State
  imports World_State
begin

section \<open>The EVM's state\<close>

text \<open>
  Burrow's \<^verbatim>\<open>execution/evm/state.go\<close>: the state the EVM runs on is a cache over a
  backend and the first error that any access raised. Its methods return no error: a read that
  failed returns the zero value, and the error stays until \<^verbatim>\<open>Sync\<close>, which then refuses.
  The chain of the state's own cache over its backend is \<open>chain\<close>; \<open>evm_step\<close> is the
  relation of everything a user of the interface can do to it.
\<close>

datatype cache_option = Named string | ReadOnly

record evm_state =
  st_backend :: backend
  st_cache :: cache
  st_error :: "go_error option"
  st_options :: "cache_option list"

definition NewState :: "backend \<Rightarrow> cache_option list \<Rightarrow> evm_state" where
  "NewState b opts =
     \<lparr>st_backend = b, st_cache = NewCache (ReadOnly \<in> set opts), st_error = None, st_options = opts\<rparr>"

definition chain :: "evm_state \<Rightarrow> backend" where
  "chain st = Layer (st_cache st) (st_backend st)"

definition es_NewCache :: "evm_state \<Rightarrow> cache_option list \<Rightarrow> evm_state" where
  "es_NewCache st opts = NewState (chain st) (st_options st @ opts)"

text \<open>
  An operation on the cache leaves the chain with the entries it filled. The chain of a state is
  always a layer.
\<close>

definition set_chain :: "evm_state \<Rightarrow> backend \<Rightarrow> evm_state" where
  "set_chain st b =
     (case b of Layer c b' \<Rightarrow> st\<lparr>st_cache := c, st_backend := b'\<rparr> | Manager _ \<Rightarrow> st)"

text \<open>
  \<^verbatim>\<open>errors.AsException\<close> makes nil of an error without text, so such an error is not kept.
\<close>

definition has_text :: "go_error \<Rightarrow> bool" where
  "has_text e = (case e of Msg s \<Rightarrow> s \<noteq> [] | Fmt f _ \<Rightarrow> f \<noteq> [] | Coded _ f _ \<Rightarrow> f \<noteq> [])"

definition es_PushError :: "evm_state \<Rightarrow> go_error option \<Rightarrow> evm_state" where
  "es_PushError st err =
     (case st_error st of
        Some _ \<Rightarrow> st
      | None \<Rightarrow> (case err of
            None \<Rightarrow> st
          | Some e \<Rightarrow> if has_text e then st\<lparr>st_error := Some e\<rparr> else st))"

text \<open>\<^verbatim>\<open>Sync\<close> hands an error of the cache on even when it has no text (a nil exception in a
  non-nil interface).\<close>

definition es_Sync :: "('pk, 'z) externals_scheme \<Rightarrow> evm_state \<Rightarrow> unit res \<times> evm_state" where
  "es_Sync X st =
     (case st_error st of
        Some e \<Rightarrow> (Err e, st)
      | None \<Rightarrow> (case backend_Sync X (st_cache st) (st_backend st) of (r, b) \<Rightarrow> (r, st\<lparr>st_backend := b\<rparr>)))"

subsection \<open>Reading\<close>

definition es_account ::
    "('pk, 'z) externals_scheme \<Rightarrow> evm_state \<Rightarrow> address \<Rightarrow> account option \<times> evm_state" where
  "es_account X st a =
     (case backend_GetAccount X (chain st) a of
        (Inl e, b) \<Rightarrow> (None, es_PushError (set_chain st b) (Some e))
      | (Inr acc, b) \<Rightarrow> (acc, set_chain st b))"

definition es_GetStorage ::
    "('pk, 'z) externals_scheme \<Rightarrow> evm_state \<Rightarrow> address \<Rightarrow> word256 \<Rightarrow> word256 res \<times> evm_state" where
  "es_GetStorage X st a key =
     (case backend_GetStorage X (chain st) a key of
        (Ok v, b) \<Rightarrow> (Ok v, set_chain st b)
      | (Err e, b) \<Rightarrow> (Ok Zero256, es_PushError (set_chain st b) (Some e))
      | (Panic p, b) \<Rightarrow> (Panic p, set_chain st b))"

definition es_GetBalance ::
    "('pk, 'z) externals_scheme \<Rightarrow> evm_state \<Rightarrow> address \<Rightarrow> 64 word \<times> evm_state" where
  "es_GetBalance X st a = apfst (\<lambda>acc. case acc of None \<Rightarrow> 0 | Some acc \<Rightarrow> acc_Balance acc) (es_account X st a)"

definition es_GetPermissions ::
    "('pk, 'z) externals_scheme \<Rightarrow> evm_state \<Rightarrow> address \<Rightarrow> account_permissions \<times> evm_state" where
  "es_GetPermissions X st a = apfst (\<lambda>acc. case acc of
        None \<Rightarrow> \<lparr>Base = \<lparr>Perms = 0, SetBit = 0\<rparr>, Roles = []\<rparr>
      | Some acc \<Rightarrow> acc_Permissions acc) (es_account X st a)"

definition es_GetCode ::
    "('pk, 'z) externals_scheme \<Rightarrow> evm_state \<Rightarrow> address \<Rightarrow> bytes option \<times> evm_state" where
  "es_GetCode X st a = apfst (\<lambda>acc. case acc of None \<Rightarrow> None | Some acc \<Rightarrow> acc_Code acc) (es_account X st a)"

definition es_GetSequence ::
    "('pk, 'z) externals_scheme \<Rightarrow> evm_state \<Rightarrow> address \<Rightarrow> 64 word \<times> evm_state" where
  "es_GetSequence X st a = apfst (\<lambda>acc. case acc of None \<Rightarrow> 0 | Some acc \<Rightarrow> acc_Sequence acc) (es_account X st a)"

definition es_Exists :: "('pk, 'z) externals_scheme \<Rightarrow> evm_state \<Rightarrow> address \<Rightarrow> bool \<times> evm_state" where
  "es_Exists X st a =
     (case backend_GetAccount X (chain st) a of
        (Inl e, b) \<Rightarrow> (False, es_PushError (set_chain st b) (Some e))
      | (Inr acc, b) \<Rightarrow> (acc \<noteq> None, set_chain st b))"

text \<open>The block hash getter is the state's; an empty hash is an error and is still padded.\<close>

definition es_GetBlockHash ::
    "(64 word \<Rightarrow> bytes res) \<Rightarrow> evm_state \<Rightarrow> 64 word \<Rightarrow> word256 res \<times> evm_state" where
  "es_GetBlockHash blockHashGetter st height =
     (case blockHashGetter height of
        Ok hash \<Rightarrow> (LeftPadWord256 hash,
          if length hash = 0
          then es_PushError st (Some (Msg ''got empty BlockHash from blockHashGetter'')) else st)
      | Err e \<Rightarrow> (Err e, st)
      | Panic p \<Rightarrow> (Panic p, st))"

subsection \<open>Writing\<close>

definition es_mustAccount ::
    "('pk, 'z) externals_scheme \<Rightarrow> evm_state \<Rightarrow> address \<Rightarrow> account option \<times> evm_state" where
  "es_mustAccount X st a =
     (case es_account X st a of
        (None, st') \<Rightarrow> (None, es_PushError st' (Some (Coded ErrorCodeIllegalWrite
            ''attempted to modify non-existent account: %v'' [AStr (Address_String a)])))
      | (Some acc, st') \<Rightarrow> (Some acc, st'))"

text \<open>A write through a layer never panics except for storage (\<^const>\<open>backend_SetStorage\<close>).\<close>

definition es_updateAccount :: "('pk, 'z) externals_scheme \<Rightarrow> evm_state \<Rightarrow> account \<Rightarrow> evm_state" where
  "es_updateAccount X st acc =
     (case backend_UpdateAccount X (chain st) (Some acc) of
        (Err e, b) \<Rightarrow> es_PushError (set_chain st b) (Some e)
      | (_, b) \<Rightarrow> set_chain st b)"

definition es_removeAccount :: "('pk, 'z) externals_scheme \<Rightarrow> evm_state \<Rightarrow> address \<Rightarrow> evm_state" where
  "es_removeAccount X st a =
     (case backend_RemoveAccount X (chain st) a of
        (Err e, b) \<Rightarrow> es_PushError (set_chain st b) (Some e)
      | (_, b) \<Rightarrow> set_chain st b)"

definition es_CreateAccount :: "('pk, 'z) externals_scheme \<Rightarrow> evm_state \<Rightarrow> address \<Rightarrow> evm_state" where
  "es_CreateAccount X st a =
     (case es_Exists X st a of
        (True, st') \<Rightarrow> es_PushError st' (Some (Coded ErrorCodeDuplicateAddress
            ''tried to create an account at an address that already exists: %v'' [AStr (Address_String a)]))
      | (False, st') \<Rightarrow> es_updateAccount X st' (new_account a))"

definition es_InitCode ::
    "('pk, 'z) externals_scheme \<Rightarrow> evm_state \<Rightarrow> address \<Rightarrow> bytes option \<Rightarrow> evm_state" where
  "es_InitCode X st a code =
     (case es_mustAccount X st a of
        (None, st') \<Rightarrow> es_PushError st' (Some (Coded ErrorCodeInvalidAddress
            ''tried to initialise code for an account that does not exist: %v'' [AStr (Address_String a)]))
      | (Some acc, st') \<Rightarrow>
          (if acc_Code acc \<noteq> None
           then es_PushError st' (Some (Coded ErrorCodeIllegalWrite
             ''tried to initialise code for a contract that already exists: %v'' [AStr (Address_String a)]))
           else es_updateAccount X st' (acc\<lparr>acc_Code := code\<rparr>)))"

definition es_RemoveAccount :: "('pk, 'z) externals_scheme \<Rightarrow> evm_state \<Rightarrow> address \<Rightarrow> evm_state" where
  "es_RemoveAccount X st a =
     (case es_Exists X st a of
        (False, st') \<Rightarrow> es_PushError st' (Some (Coded ErrorCodeDuplicateAddress
            ''tried to remove an account at an address that does not exist: %v'' [AStr (Address_String a)]))
      | (True, st') \<Rightarrow> es_removeAccount X st' a)"

definition es_SetStorage ::
    "('pk, 'z) externals_scheme \<Rightarrow> evm_state \<Rightarrow> address \<Rightarrow> word256 \<Rightarrow> word256 \<Rightarrow> unit res \<times> evm_state" where
  "es_SetStorage X st a key val =
     (case backend_SetStorage X (chain st) a key val of
        (Ok _, b) \<Rightarrow> (Ok (), set_chain st b)
      | (Err e, b) \<Rightarrow> (Ok (), es_PushError (set_chain st b) (Some e))
      | (Panic p, b) \<Rightarrow> (Panic p, set_chain st b))"

text \<open>\<^verbatim>\<open>binary.IsUint64SumOverflow\<close> on 64-bit words.\<close>

definition IsUint64SumOverflow :: "64 word \<Rightarrow> 64 word \<Rightarrow> bool" where
  "IsUint64SumOverflow a b = (- 1 - a < b)"

definition es_AddToBalance ::
    "('pk, 'z) externals_scheme \<Rightarrow> evm_state \<Rightarrow> address \<Rightarrow> 64 word \<Rightarrow> evm_state" where
  "es_AddToBalance X st a amount =
     (case es_mustAccount X st a of
        (None, st') \<Rightarrow> st'
      | (Some acc, st') \<Rightarrow>
          (if IsUint64SumOverflow (acc_Balance acc) amount
           then es_PushError st' (Some (Coded ErrorCodeIntegerOverflow
             ''uint64 overflow: attempt to add %v to the balance of %s''
             [ANat (unat amount), AStr (Address_String a)]))
           else es_updateAccount X st' (acc\<lparr>acc_Balance := acc_Balance acc + amount\<rparr>)))"

definition es_SubtractFromBalance ::
    "('pk, 'z) externals_scheme \<Rightarrow> evm_state \<Rightarrow> address \<Rightarrow> 64 word \<Rightarrow> evm_state" where
  "es_SubtractFromBalance X st a amount =
     (case es_mustAccount X st a of
        (None, st') \<Rightarrow> st'
      | (Some acc, st') \<Rightarrow>
          (if acc_Balance acc < amount
           then es_PushError st' (Some (Coded ErrorCodeInsufficientBalance
             ''insufficient funds: attempt to subtract %v from the balance of %s''
             [ANat (unat amount), AStr (Address_String (acc_Address acc))]))
           else es_updateAccount X st' (acc\<lparr>acc_Balance := acc_Balance acc - amount\<rparr>)))"

text \<open>The setters of permissions and roles change one field of the account.\<close>

definition map_permissions :: "(account_permissions \<Rightarrow> account_permissions) \<Rightarrow> account \<Rightarrow> account" where
  "map_permissions f acc = acc\<lparr>acc_Permissions := f (acc_Permissions acc)\<rparr>"

definition map_base :: "(base_permissions \<Rightarrow> base_permissions) \<Rightarrow> account \<Rightarrow> account" where
  "map_base f = map_permissions (\<lambda>p. p\<lparr>Base := f (Base p)\<rparr>)"

definition es_SetPermission ::
    "('pk, 'z) externals_scheme \<Rightarrow> evm_state \<Rightarrow> address \<Rightarrow> perm_flag \<Rightarrow> bool \<Rightarrow> evm_state" where
  "es_SetPermission X st a flag value =
     (case es_mustAccount X st a of
        (None, st') \<Rightarrow> st'
      | (Some acc, st') \<Rightarrow> es_updateAccount X st' (map_base (\<lambda>bp. snd (perm_Set bp flag value)) acc))"

definition es_UnsetPermission ::
    "('pk, 'z) externals_scheme \<Rightarrow> evm_state \<Rightarrow> address \<Rightarrow> perm_flag \<Rightarrow> evm_state" where
  "es_UnsetPermission X st a flag =
     (case es_mustAccount X st a of
        (None, st') \<Rightarrow> st'
      | (Some acc, st') \<Rightarrow> es_updateAccount X st' (map_base (\<lambda>bp. snd (perm_Unset bp flag)) acc))"

definition es_AddRole ::
    "('pk, 'z) externals_scheme \<Rightarrow> evm_state \<Rightarrow> address \<Rightarrow> string \<Rightarrow> bool \<times> evm_state" where
  "es_AddRole X st a role =
     (case es_mustAccount X st a of
        (None, st') \<Rightarrow> (False, st')
      | (Some acc, st') \<Rightarrow> (fst (AddRole (acc_Permissions acc) role),
          es_updateAccount X st' (map_permissions (\<lambda>p. snd (AddRole p role)) acc)))"

definition es_RemoveRole ::
    "('pk, 'z) externals_scheme \<Rightarrow> evm_state \<Rightarrow> address \<Rightarrow> string \<Rightarrow> bool \<times> evm_state" where
  "es_RemoveRole X st a role =
     (case es_mustAccount X st a of
        (None, st') \<Rightarrow> (False, st')
      | (Some acc, st') \<Rightarrow> (fst (RemoveRole (acc_Permissions acc) role),
          es_updateAccount X st' (map_permissions (\<lambda>p. snd (RemoveRole p role)) acc)))"

subsection \<open>What a user of the interface can do\<close>

inductive chain_step :: "('pk, 'z) externals_scheme \<Rightarrow> backend \<Rightarrow> backend \<Rightarrow> bool" for X where
  read_account: "backend_GetAccount X b a = (r, b') \<Longrightarrow> chain_step X b b'"
| read_storage: "backend_GetStorage X b a k = (v, b') \<Longrightarrow> chain_step X b b'"
| write_account: "backend_UpdateAccount X b (Some acc) = (u, b') \<Longrightarrow> chain_step X b b'"
| remove_account: "backend_RemoveAccount X b a = (u, b') \<Longrightarrow> chain_step X b b'"
| write_storage: "backend_SetStorage X b a k w = (u, b') \<Longrightarrow> chain_step X b b'"

inductive evm_step :: "('pk, 'z) externals_scheme \<Rightarrow> evm_state \<Rightarrow> evm_state \<Rightarrow> bool" for X where
  access: "chain_step X (chain st) b \<Longrightarrow> evm_step X st (set_chain st b)"
| push: "evm_step X st (es_PushError st e)"

abbreviation evm_steps :: "('pk, 'z) externals_scheme \<Rightarrow> evm_state \<Rightarrow> evm_state \<Rightarrow> bool" where
  "evm_steps X \<equiv> (evm_step X)\<^sup>*\<^sup>*"

lemma steps_access: "evm_steps X st st' \<Longrightarrow> chain_step X (chain st') b \<Longrightarrow> evm_steps X st (set_chain st' b)"
  by (blast intro: access rtranclp.rtrancl_into_rtrancl)

lemma steps_push: "evm_steps X st st' \<Longrightarrow> evm_steps X st (es_PushError st' e)"
  by (blast intro: push rtranclp.rtrancl_into_rtrancl)

text \<open>Every method of the state is a sequence of such steps.\<close>

lemma steps_account: "evm_steps X st (snd (es_account X st a))"
  by (auto simp: es_account_def split: prod.splits sum.splits
      intro!: steps_push steps_access intro: chain_step.intros)

lemma steps_mustAccount: "evm_steps X st (snd (es_mustAccount X st a))"
  using steps_account [of X st a]
  by (auto simp: es_mustAccount_def split: prod.splits option.splits intro!: steps_push)

lemma steps_updateAccount: "evm_steps X st (es_updateAccount X st acc)"
  by (auto simp: es_updateAccount_def split: prod.splits res.splits
      intro!: steps_push steps_access intro: chain_step.intros)

lemma steps_removeAccount: "evm_steps X st (es_removeAccount X st a)"
  by (auto simp: es_removeAccount_def split: prod.splits res.splits
      intro!: steps_push steps_access intro: chain_step.intros)

lemma steps_Exists: "evm_steps X st (snd (es_Exists X st a))"
  by (auto simp: es_Exists_def split: prod.splits sum.splits
      intro!: steps_push steps_access intro: chain_step.intros)

lemma steps_of_mustAccount: "es_mustAccount X st a = (acc, st') \<Longrightarrow> evm_steps X st st'"
  using steps_mustAccount [of X st a] by simp

lemma steps_modify:
  "es_mustAccount X st a = (acc, st') \<Longrightarrow> evm_steps X st (es_updateAccount X st' acc')"
  by (rule rtranclp_trans [OF steps_of_mustAccount steps_updateAccount])

lemma steps_reads:
  "evm_steps X st (snd (es_GetStorage X st a k))"
  "evm_steps X st (snd (es_GetBalance X st a))" "evm_steps X st (snd (es_GetPermissions X st a))"
  "evm_steps X st (snd (es_GetCode X st a))" "evm_steps X st (snd (es_GetSequence X st a))"
  using steps_account [of X st a]
  by (auto simp: es_GetStorage_def es_GetBalance_def es_GetPermissions_def es_GetCode_def
      es_GetSequence_def apfst_def split: prod.splits res.splits
      intro!: steps_push steps_access intro: chain_step.intros)

lemma steps_GetBlockHash: "evm_steps X st (snd (es_GetBlockHash g st h))"
  by (auto simp: es_GetBlockHash_def split: res.splits intro!: steps_push)

lemma steps_CreateAccount: "evm_steps X st (es_CreateAccount X st a)"
  using steps_Exists [of X st a]
  by (auto simp: es_CreateAccount_def split: prod.splits bool.splits
      intro!: steps_push rtranclp_trans [OF _ steps_updateAccount])

lemma steps_RemoveAccount: "evm_steps X st (es_RemoveAccount X st a)"
  using steps_Exists [of X st a]
  by (auto simp: es_RemoveAccount_def split: prod.splits bool.splits
      intro!: steps_push rtranclp_trans [OF _ steps_removeAccount])

lemma steps_SetStorage: "evm_steps X st (snd (es_SetStorage X st a k v))"
  by (auto simp: es_SetStorage_def split: prod.splits res.splits
      intro!: steps_push steps_access intro: chain_step.intros)

lemma steps_writes:
  "evm_steps X st (es_InitCode X st a code)"
  "evm_steps X st (es_AddToBalance X st a n)" "evm_steps X st (es_SubtractFromBalance X st a n)"
  "evm_steps X st (es_SetPermission X st a f v)" "evm_steps X st (es_UnsetPermission X st a f)"
  "evm_steps X st (snd (es_AddRole X st a role))" "evm_steps X st (snd (es_RemoveRole X st a role))"
  by (auto simp: es_InitCode_def es_AddToBalance_def es_SubtractFromBalance_def es_SetPermission_def
      es_UnsetPermission_def es_AddRole_def es_RemoveRole_def split: prod.splits option.splits
      intro!: steps_push intro: steps_modify steps_of_mustAccount)

lemmas steps_intros =
  steps_reads steps_GetBlockHash steps_Exists steps_CreateAccount steps_RemoveAccount
  steps_SetStorage steps_writes

end
