(* ===== verification/Evm_State_Laws.thy ===== *)
theory Evm_State_Laws
  imports Evm_State
begin

section \<open>Laws of the EVM's state\<close>

text \<open>
  What holds of the state whatever its user does: its chain stays coherent and over the same state
  manager (so nothing is written before \<^verbatim>\<open>Sync\<close>), its first error stays; and what each
  method returns or changes in terms of the accounts and words the chain shows.
\<close>

subsection \<open>Invariants of every step\<close>

lemma readonly_GetAccount:
  "backend_GetAccount X (Layer c b) a = (r, t) \<Longrightarrow> \<exists>c' b'. t = Layer c' b' \<and> c_readonly c' = c_readonly c"
  by (auto split: prod.splits sum.splits dest: cache_get_view(5))

lemma depth_GetStorage: "backend_GetStorage X b a k = (r, b') \<Longrightarrow> depth b' = depth b"
  by (induction X b a k arbitrary: r b' rule: backend_GetStorage.induct)
    (fastforce split: prod.splits sum.splits option.splits res.splits dest: depth_GetAccount(2))+

lemma GetStorage_keeps:
  "backend_GetStorage X b a k = (r, b') \<Longrightarrow> base_manager b' = base_manager b \<and> depth b' = depth b"
  using GetStorage_view [of X b a k r b'] depth_GetStorage [of X b a k r b'] by (simp add: same_view_def)

text \<open>A step on a layer stays a layer of the same kind over the same manager.\<close>

definition same_layer :: "backend \<Rightarrow> backend \<Rightarrow> bool" where
  "same_layer b b' \<longleftrightarrow> (case (b, b') of
     (Layer c d, Layer c' d') \<Rightarrow>
       c_readonly c' = c_readonly c \<and> base_manager d' = base_manager d \<and> depth d' = depth d
   | _ \<Rightarrow> False)"

lemma same_layer_trans: "same_layer a b \<Longrightarrow> same_layer b c \<Longrightarrow> same_layer a c"
  by (auto simp: same_layer_def split: backend.splits)

lemma cache_get_same_layer:
  "cache_get X c b a = (r, c', b') \<Longrightarrow> same_layer (Layer c b) (Layer c' b')"
  using depth_GetAccount(2) [of X c b a r c' b'] cache_get_view(1,5) [of X c b a r c' b']
  by (auto simp: same_layer_def same_view_def)

lemma same_layer_set_info:
  "same_layer b (Layer c d) \<Longrightarrow> same_layer b (Layer (set_info c a i) d)"
  by (auto simp: same_layer_def split: backend.splits)

lemma chain_step_layer:
  assumes "chain_step X b b'" and "b = Layer c d"
  shows "same_layer b b'"
  using assms
proof cases
  case (read_account a r)
  with assms(2) show ?thesis
    by (auto split: prod.splits sum.splits dest: cache_get_same_layer)
next
  case (read_storage a k v)
  obtain q c1 d1 where get: "cache_get X c d a = (q, c1, d1)"
    by (cases "cache_get X c d a")
  note layer = cache_get_same_layer [OF get]
  from read_storage assms(2) get layer show ?thesis
    by (auto split: sum.splits option.splits prod.splits res.splits
        dest!: GetStorage_keeps simp: same_layer_def)
next
  case (write_account acc u)
  with assms(2) show ?thesis
    by (auto split: prod.splits sum.splits if_splits
        intro!: same_layer_set_info dest: cache_get_same_layer simp: same_layer_def)
next
  case (remove_account a u)
  with assms(2) show ?thesis
    by (auto split: prod.splits sum.splits if_splits
        intro!: same_layer_set_info dest: cache_get_same_layer simp: same_layer_def)
next
  case (write_storage a k w u)
  with assms(2) show ?thesis
    by (auto split: prod.splits sum.splits if_splits
        intro!: same_layer_set_info dest: cache_get_same_layer simp: same_layer_def)
qed

lemma cache_get_cache_ok:
  "cache_get X c b a = (r, c', b') \<Longrightarrow> coherent X b \<Longrightarrow> cache_ok X c b \<Longrightarrow>
   coherent X b' \<and> cache_ok X c' b'"
  using cache_get_coherent [of X c b a r c' b'] by simp

lemma chain_step_coherent:
  assumes "chain_step X b b'" and "b = Layer c d" and co: "coherent X b"
  shows "coherent X b'"
  using assms(1)
proof cases
  case (read_account a r)
  with co show ?thesis by (auto intro: GetAccount_coherent)
next
  case (read_storage a k v)
  with co show ?thesis by (auto intro: GetStorage_coherent)
next
  case (write_account acc u)
  show ?thesis
  proof (cases u)
    case (Ok x)
    with write_account assms(2) co Layer_UpdateAccount_Ok(2) show ?thesis
      by (metis (full_types) unit.exhaust)
  qed (use write_account assms(2) co in
      \<open>auto split: prod.splits sum.splits if_splits dest!: cache_get_cache_ok\<close>)
next
  case (remove_account a u)
  show ?thesis
  proof (cases u)
    case (Ok x)
    with remove_account assms(2) co Layer_RemoveAccount_Ok(2) show ?thesis
      by (metis (full_types) unit.exhaust)
  qed (use remove_account assms(2) co in
      \<open>auto split: prod.splits sum.splits if_splits dest!: cache_get_cache_ok\<close>)
next
  case (write_storage a k w u)
  show ?thesis
  proof (cases u)
    case (Ok x)
    with write_storage assms(2) co Layer_SetStorage_Ok(2) show ?thesis
      by (metis (full_types) unit.exhaust)
  qed (use write_storage assms(2) co in
      \<open>auto split: prod.splits sum.splits if_splits dest!: cache_get_cache_ok\<close>)
qed

subsection \<open>The state as a whole\<close>

lemma chain_Layer: "\<exists>c b. chain st = Layer c b"
  by (simp add: chain_def)

lemma chain_set_chain: "b = Layer c d \<Longrightarrow> chain (set_chain st b) = b"
  by (simp add: chain_def set_chain_def)

lemma chain_PushError [simp]: "chain (es_PushError st e) = chain st"
  by (auto simp: chain_def es_PushError_def split: option.splits)

lemma error_set_chain [simp]: "st_error (set_chain st b) = st_error st"
  by (simp add: set_chain_def split: backend.split)

lemma error_PushError: "st_error st = Some e \<Longrightarrow> es_PushError st e' = st"
  by (simp add: es_PushError_def)

lemma PushError_has_text:
  "has_text e \<Longrightarrow> st_error (es_PushError st (Some e)) \<noteq> None"
  by (simp add: es_PushError_def split: option.split)

lemma options_simps [simp]:
  "st_options (set_chain st b) = st_options st" "st_options (es_PushError st e) = st_options st"
  by (simp_all add: set_chain_def es_PushError_def split: backend.split option.split)

lemma same_layer_refl: "same_layer (Layer c b) (Layer c b)"
  by (simp add: same_layer_def)

lemma same_layer_Layer: "same_layer a b \<Longrightarrow> \<exists>c d. b = Layer c d"
  by (auto simp: same_layer_def split: backend.splits)

lemma chain_step_of_chain:
  assumes "chain_step X (chain st) b"
  shows "same_layer (chain st) b" and "chain (set_chain st b) = b"
proof -
  show layer: "same_layer (chain st) b"
    using assms by (rule chain_step_layer) (simp add: chain_def)
  show "chain (set_chain st b) = b"
    using same_layer_Layer [OF layer] by (auto intro: chain_set_chain)
qed

lemma evm_steps_invariant:
  assumes "evm_steps X st st'"
  shows "same_layer (chain st) (chain st')"
    and "coherent X (chain st) \<Longrightarrow> coherent X (chain st')"
    and "st_error st = Some e \<Longrightarrow> st_error st' = Some e"
    and "st_options st' = st_options st"
  using assms
proof (induction rule: rtranclp_induct)
  case base
  {
    case 1
    show ?case by (simp add: chain_def same_layer_refl)
  next
    case 2
    then show ?case .
  next
    case 3
    then show ?case .
  next
    case 4
    show ?case by simp
  }
next
  case (step st1 st2)
  {
    case 1
    from step(2) show ?case
    proof cases
      case (access b)
      with chain_step_of_chain [OF access(2)] step.IH(1) show ?thesis
        by (auto intro: same_layer_trans)
    qed (use step.IH(1) in simp)
  next
    case 2
    from step(2) show ?case
    proof cases
      case (access b)
      with chain_step_of_chain [OF access(2)] chain_step_coherent [OF access(2)] step.IH(2) [OF 2]
      show ?thesis by (auto simp: chain_def)
    qed (use step.IH(2) [OF 2] in simp)
  next
    case 3
    from step(2) show ?case
      by cases (use step.IH(3) [OF 3] in \<open>simp_all add: error_PushError\<close>)
  next
    case 4
    from step(2) show ?case
      by cases (use step.IH(4) in simp_all)
  }
qed

lemma evm_steps_no_error: "evm_steps X st st' \<Longrightarrow> st_error st' = None \<Longrightarrow> st_error st = None"
  using evm_steps_invariant(3) [of X st st'] by (cases "st_error st") auto

text \<open>
  A transaction's own state sits on the state manager, which no step touches: nothing reaches the
  ledger before \<^const>\<open>es_Sync\<close>.
\<close>

lemma evm_steps_manager:
  assumes "evm_steps X st st'" and "st_backend st = Manager m"
  shows "st_backend st' = Manager m"
proof -
  have "same_layer (chain st) (chain st')"
    using assms(1) by (rule evm_steps_invariant)
  with assms(2) have "depth (st_backend st') = 0" "base_manager (st_backend st') = m"
    by (simp_all add: same_layer_def chain_def)
  then show ?thesis by (cases "st_backend st'") simp_all
qed

subsection \<open>Nested states\<close>

text \<open>
  Whatever is done to a state, the backend under its cache keeps showing the same: it is only read.
  So a nested call whose state is dropped leaves no trace in its caller's.
\<close>

lemma chain_step_below:
  assumes "chain_step X (Layer c b) t"
  shows "\<exists>c' b'. t = Layer c' b' \<and> same_view X b b'"
  using assms
proof cases
  case (read_storage a k v)
  obtain q c1 b1 where get: "cache_get X c b a = (q, c1, b1)"
    by (cases "cache_get X c b a")
  note below = cache_get_view(1) [OF get]
  from read_storage get below show ?thesis
    by (auto split: sum.splits option.splits prod.splits res.splits
        dest!: GetStorage_view intro: same_view_trans)
qed (auto split: prod.splits sum.splits if_splits dest: cache_get_view(1))

lemma evm_steps_below:
  assumes "evm_steps X st st'"
  shows "same_view X (st_backend st) (st_backend st')"
  using assms
proof (induction rule: rtranclp_induct)
  case (step st1 st2)
  from step(2) have "same_view X (st_backend st1) (st_backend st2)"
  proof cases
    case (access b)
    from chain_step_below [OF access(2) [unfolded chain_def]] access(1) show ?thesis
      by (auto simp: set_chain_def)
  next
    case (push e)
    then show ?thesis
      by (auto simp: es_PushError_def split: option.splits)
  qed
  with step.IH show ?case
    by (rule same_view_trans)
qed simp

subsection \<open>What reads return\<close>

lemma GetAccount_chain:
  assumes "backend_GetAccount X (chain st) a = (r, b)"
  shows "r = acc_view X (chain st) a" and "chain (set_chain st b) = b" and "same_view X (chain st) b"
  using GetAccount_view [OF assms] chain_step_of_chain(2) [OF read_account [OF assms]] by simp_all

lemma es_account_read:
  assumes "es_account X st a = (acc, st')"
  shows "same_view X (chain st) (chain st')"
    and "acc = (case acc_view X (chain st) a of Inl e \<Rightarrow> None | Inr acc \<Rightarrow> acc)"
    and "acc_view X (chain st) a = Inr acc \<Longrightarrow> st_error st' = st_error st"
    and "acc_view X (chain st) a = Inl e \<Longrightarrow> st_error st' = st_error (es_PushError st (Some e))"
proof -
  obtain r b where get: "backend_GetAccount X (chain st) a = (r, b)"
    by (cases "backend_GetAccount X (chain st) a")
  have "st_error (es_PushError (set_chain st b) (Some e)) = st_error (es_PushError st (Some e))" for e
    by (simp add: es_PushError_def split: option.split)
  then show "same_view X (chain st) (chain st')"
    and "acc = (case acc_view X (chain st) a of Inl e \<Rightarrow> None | Inr acc \<Rightarrow> acc)"
    and "acc_view X (chain st) a = Inr acc \<Longrightarrow> st_error st' = st_error st"
    and "acc_view X (chain st) a = Inl e \<Longrightarrow> st_error st' = st_error (es_PushError st (Some e))"
    using GetAccount_chain [OF get] assms get error_set_chain [of st b] by (auto simp: es_account_def split: sum.splits)
qed

lemma es_mustAccount_read:
  assumes "es_mustAccount X st a = (acc, st')"
  shows "same_view X (chain st) (chain st')"
    and "acc = (case acc_view X (chain st) a of Inl e \<Rightarrow> None | Inr acc \<Rightarrow> acc)"
    and "acc = None \<Longrightarrow> st_error st' \<noteq> None" and "acc = Some x \<Longrightarrow> st_error st' = st_error st"
proof -
  obtain q s where q: "es_account X st a = (q, s)"
    by (cases "es_account X st a")
  note read = es_account_read [OF q]
  show "same_view X (chain st) (chain st')"
    using read(1) assms q by (auto simp: es_mustAccount_def split: option.splits)
  show acc: "acc = (case acc_view X (chain st) a of Inl e \<Rightarrow> None | Inr acc \<Rightarrow> acc)"
    using read(2) assms q by (auto simp: es_mustAccount_def split: option.splits sum.splits)
  show "acc = None \<Longrightarrow> st_error st' \<noteq> None"
    using assms q by (auto simp: es_mustAccount_def split: option.splits
        dest!: PushError_has_text [rotated] simp: es_PushError_def has_text_def)
  show "acc = Some x \<Longrightarrow> st_error st' = st_error st"
    using read assms q by (auto simp: es_mustAccount_def split: option.splits sum.splits)
qed

lemma es_Exists_read:
  assumes "es_Exists X st a = (r, st')"
  shows "same_view X (chain st) (chain st')"
    and "r = (\<exists>acc. acc_view X (chain st) a = Inr (Some acc))"
    and "acc_view X (chain st) a = Inr acc \<Longrightarrow> st_error st' = st_error st"
    and "acc_view X (chain st) a = Inl e \<Longrightarrow> has_text e \<Longrightarrow> st_error st' \<noteq> None"
proof -
  obtain q b where get: "backend_GetAccount X (chain st) a = (q, b)"
    by (cases "backend_GetAccount X (chain st) a")
  note view = GetAccount_chain [OF get]
  show "same_view X (chain st) (chain st')" and "r = (\<exists>acc. acc_view X (chain st) a = Inr (Some acc))"
    and "acc_view X (chain st) a = Inr acc \<Longrightarrow> st_error st' = st_error st"
    and "acc_view X (chain st) a = Inl e \<Longrightarrow> has_text e \<Longrightarrow> st_error st' \<noteq> None"
    using view assms get PushError_has_text error_set_chain [of st b] by (auto simp: es_Exists_def split: sum.splits)
qed

lemma es_GetStorage_read:
  assumes "es_GetStorage X st a k = (r, st')"
  shows "same_view X (chain st) (chain st')"
    and "r = (case sto_view X (chain st) a k of Err e \<Rightarrow> Ok Zero256 | q \<Rightarrow> q)"
proof -
  obtain q b where get: "backend_GetStorage X (chain st) a k = (q, b)"
    by (cases "backend_GetStorage X (chain st) a k")
  note chained = chain_step_of_chain(2) [OF read_storage [OF get]]
  show "same_view X (chain st) (chain st')"
    and "r = (case sto_view X (chain st) a k of Err e \<Rightarrow> Ok Zero256 | q \<Rightarrow> q)"
    using GetStorage_view [OF get] chained assms get by (auto simp: es_GetStorage_def split: res.splits)
qed

subsection \<open>What writes change\<close>

lemma es_updateAccount_Ok:
  assumes co: "coherent X (chain st)" and known: "acc_view X (chain st) (acc_Address acc) = Inr y"
    and none: "st_error (es_updateAccount X st acc) = None"
  shows "acc_view X (chain (es_updateAccount X st acc)) =
      put_account (acc_view X (chain st)) (acc_Address acc) (Some acc)"
    and "sto_view X (chain (es_updateAccount X st acc)) = sto_view X (chain st)"
proof -
  obtain u b where upd: "backend_UpdateAccount X (chain st) (Some acc) = (u, b)"
    by (cases "backend_UpdateAccount X (chain st) (Some acc)")
  note chained = chain_step_of_chain(2) [OF write_account [OF upd]]
  have "u \<noteq> Panic p" for p
    using upd by (auto simp: chain_def split: if_splits prod.splits sum.splits)
  moreover have "u \<noteq> Err e" for e
  proof
    assume u: "u = Err e"
    have "\<not> has_text e"
      using none upd u PushError_has_text [of e "set_chain st b"] by (auto simp: es_updateAccount_def)
    then obtain c' b' where "cache_get X (st_cache st) (st_backend st) (acc_Address acc) = (Inl e, c', b')"
      using upd u by (auto simp: chain_def illegal_write_def has_text_def split: if_splits prod.splits sum.splits)
    then show False
      by (rule cache_get_cases) (use known in \<open>auto simp: chain_def dest: GetAccount_view\<close>)
  qed
  ultimately have u: "u = Ok ()"
    by (cases u) auto
  have ok: "backend_UpdateAccount X (Layer (st_cache st) (st_backend st)) (Some acc) = (Ok (), b)"
    using upd u by (simp only: chain_def)
  have st': "chain (es_updateAccount X st acc) = b"
    using upd u chained by (simp add: es_updateAccount_def)
  show "acc_view X (chain (es_updateAccount X st acc)) =
      put_account (acc_view X (chain st)) (acc_Address acc) (Some acc)"
    and "sto_view X (chain (es_updateAccount X st acc)) = sto_view X (chain st)"
    using Layer_UpdateAccount_Ok(3,4) [OF co [unfolded chain_def] ok] st'
    by (simp_all del: acc_view.simps sto_view.simps add: chain_def)
qed

lemma es_updateAccount_error:
  assumes "st_error (es_updateAccount X st acc) = None"
  shows "st_error st = None"
  using evm_steps_no_error [OF steps_updateAccount] assms .

text \<open>The pattern of every setter: read the account, change it, write it back.\<close>

lemma es_modify_Ok:
  assumes co: "coherent X (chain st)" and must: "es_mustAccount X st a = (Some acc, st1)"
    and addr: "acc_Address (f acc) = acc_Address acc"
    and none: "st_error (es_updateAccount X st1 (f acc)) = None"
  shows "acc_view X (chain st) a = Inr (Some acc)" and "acc_Address acc = a"
    and "acc_view X (chain (es_updateAccount X st1 (f acc))) = put_account (acc_view X (chain st)) a (Some (f acc))"
    and "sto_view X (chain (es_updateAccount X st1 (f acc))) = sto_view X (chain st)"
proof -
  note read = es_mustAccount_read [OF must]
  show view: "acc_view X (chain st) a = Inr (Some acc)"
    using read(2) by (auto split: sum.splits)
  show a: "acc_Address acc = a"
    using co view by (rule coherent_addressed)
  have co1: "coherent X (chain st1)"
    using evm_steps_invariant(2) [OF steps_of_mustAccount [OF must]] co .
  have view1: "acc_view X (chain st1) (acc_Address (f acc)) = Inr (Some acc)"
    using read(1) view addr a by (simp add: same_view_def)
  show "acc_view X (chain (es_updateAccount X st1 (f acc))) = put_account (acc_view X (chain st)) a (Some (f acc))"
    and "sto_view X (chain (es_updateAccount X st1 (f acc))) = sto_view X (chain st)"
    using es_updateAccount_Ok [OF co1 view1 none] read(1) addr a by (simp_all add: same_view_def)
qed

lemma es_SetPermission_Ok:
  assumes "coherent X (chain st)" and "st_error (es_SetPermission X st a flag v) = None"
  obtains acc where "acc_view X (chain st) a = Inr (Some acc)" and "acc_Address acc = a"
    and "acc_view X (chain (es_SetPermission X st a flag v)) =
      put_account (acc_view X (chain st)) a (Some (map_base (\<lambda>bp. snd (perm_Set bp flag v)) acc))"
    and "sto_view X (chain (es_SetPermission X st a flag v)) = sto_view X (chain st)"
proof -
  obtain q s where q: "es_mustAccount X st a = (q, s)"
    by (cases "es_mustAccount X st a")
  then obtain acc where acc: "q = Some acc"
    using assms(2) es_mustAccount_read(3) [OF q] by (auto simp: es_SetPermission_def split: option.splits)
  note m = es_modify_Ok [OF assms(1) q [unfolded acc], of "map_base (\<lambda>bp. snd (perm_Set bp flag v))"]
  show ?thesis
    by (rule that [of acc])
      (use m assms(2) q acc in \<open>simp_all add: es_SetPermission_def map_base_def map_permissions_def\<close>)
qed

lemma es_InitCode_Ok:
  assumes "coherent X (chain st)" and "st_error (es_InitCode X st a code) = None"
  obtains acc where "acc_view X (chain st) a = Inr (Some acc)" and "acc_Address acc = a"
    and "acc_Code acc = None"
    and "acc_view X (chain (es_InitCode X st a code)) =
      put_account (acc_view X (chain st)) a (Some (acc\<lparr>acc_Code := code\<rparr>))"
    and "sto_view X (chain (es_InitCode X st a code)) = sto_view X (chain st)"
proof -
  obtain q s where q: "es_mustAccount X st a = (q, s)"
    by (cases "es_mustAccount X st a")
  have "q \<noteq> None"
    using assms(2) es_mustAccount_read(3) [OF q] error_PushError q
    by (auto simp: es_InitCode_def split: option.splits)
  then obtain acc where acc: "q = Some acc"
    by blast
  have nil: "acc_Code acc = None"
    using assms(2) q acc PushError_has_text [of "Coded ErrorCodeIllegalWrite
      ''tried to initialise code for a contract that already exists: %v'' [AStr (Address_String a)]" s]
    by (auto simp: es_InitCode_def has_text_def split: if_splits)
  note m = es_modify_Ok [OF assms(1) q [unfolded acc], of "\<lambda>acc. acc\<lparr>acc_Code := code\<rparr>"]
  show ?thesis
    by (rule that [of acc]) (use m assms(2) q acc nil in \<open>simp_all add: es_InitCode_def\<close>)
qed

lemma es_CreateAccount_Ok:
  assumes co: "coherent X (chain st)" and none: "st_error (es_CreateAccount X st a) = None"
    and "acc_view X (chain st) a = Inr y"
  shows "acc_view X (chain st) a = Inr None"
    and "acc_view X (chain (es_CreateAccount X st a)) =
      put_account (acc_view X (chain st)) a (Some (new_account a))"
    and "sto_view X (chain (es_CreateAccount X st a)) = sto_view X (chain st)"
proof -
  obtain r s where r: "es_Exists X st a = (r, s)"
    by (cases "es_Exists X st a")
  note read = es_Exists_read [OF r]
  have "\<not> r"
    using none r PushError_has_text [of "Coded ErrorCodeDuplicateAddress
      ''tried to create an account at an address that already exists: %v'' [AStr (Address_String a)]" s]
    by (auto simp: es_CreateAccount_def has_text_def)
  then show "acc_view X (chain st) a = Inr None"
    using read(2) assms(3) by (cases y) auto
  have st': "es_CreateAccount X st a = es_updateAccount X s (new_account a)"
    using \<open>\<not> r\<close> r by (simp add: es_CreateAccount_def)
  have "coherent X (chain s)"
    using evm_steps_invariant(2) [OF steps_Exists [of X st a]] r co by simp
  moreover have "acc_view X (chain s) (acc_Address (new_account a)) = Inr y"
    using read(1) assms(3) by (simp add: same_view_def new_account_def)
  moreover have "st_error (es_updateAccount X s (new_account a)) = None"
    using none st' by simp
  ultimately show "acc_view X (chain (es_CreateAccount X st a)) =
      put_account (acc_view X (chain st)) a (Some (new_account a))"
    and "sto_view X (chain (es_CreateAccount X st a)) = sto_view X (chain st)"
    using es_updateAccount_Ok [of X s "new_account a" y] read(1)
    by (simp_all add: st' same_view_def new_account_def)
qed

text \<open>An account that cannot be read cannot be created, even where the error had no text.\<close>

lemma es_CreateAccount_unreadable:
  assumes "acc_view X (chain st) a = Inl e"
  shows "same_view X (chain st) (chain (es_CreateAccount X st a))"
proof -
  obtain r s where r: "es_Exists X st a = (r, s)"
    by (cases "es_Exists X st a")
  note read = es_Exists_read [OF r]
  have "\<not> r"
    using read(2) assms by simp
  then have st': "es_CreateAccount X st a = es_updateAccount X s (new_account a)"
    using r by (simp add: es_CreateAccount_def)
  have "acc_view X (Layer (st_cache s) (st_backend s)) a = Inl e"
    using read(1) assms by (simp only: same_view_def chain_def)
  then have none: "map_of (c_accounts (st_cache s)) a = None" and err: "acc_view X (st_backend s) a = Inl e"
    by (auto split: option.splits)
  obtain q c' b' where get: "cache_get X (st_cache s) (st_backend s) a = (q, c', b')"
    by (cases "cache_get X (st_cache s) (st_backend s) a")
  then have q: "q = Inl e"
    by (rule cache_get_cases) (use none err in \<open>auto dest: GetAccount_view\<close>)
  have "same_view X (chain s) (chain (es_updateAccount X s (new_account a)))"
    using cache_get_view(2) [OF get] get q
    by (auto simp: es_updateAccount_def chain_def set_chain_def es_PushError_def new_account_def
        simp del: cache_get.simps split: option.split)
  with read(1) show ?thesis
    unfolding st' by (rule same_view_trans)
qed

lemma es_SetStorage_Ok:
  assumes co: "coherent X (chain st)" and known: "acc_view X (chain st) a = Inr y"
    and set: "es_SetStorage X st a k v = (r, st')" and none: "st_error st' = None"
  shows "r = Ok ()" and "acc_view X (chain st') = acc_view X (chain st)"
    and "sto_view X (chain st') = put_word (sto_view X (chain st)) a k v"
proof -
  obtain u b where upd: "backend_SetStorage X (chain st) a k v = (u, b)"
    by (cases "backend_SetStorage X (chain st) a k v")
  note chained = chain_step_of_chain(2) [OF write_storage [OF upd]]
  have got: "q \<noteq> Inl e" if "cache_get X (st_cache st) (st_backend st) a = (q, c', b')" for q e c' b'
    using that by (rule cache_get_cases) (use known in \<open>auto simp: chain_def dest: GetAccount_view\<close>)
  have u: "u = Ok ()"
  proof (cases u)
    case (Ok x)
    then show ?thesis by simp
  next
    case (Err e)
    then have "has_text e"
      using upd by (auto simp: chain_def illegal_write_def has_text_def
          split: if_splits prod.splits sum.splits)
    with none set upd Err PushError_has_text [of e "set_chain st b"] show ?thesis
      by (auto simp: es_SetStorage_def)
  next
    case (Panic p)
    with upd got show ?thesis
      by (auto simp: chain_def split: if_splits prod.splits sum.splits)
  qed
  show "r = Ok ()"
    using set upd u by (auto simp: es_SetStorage_def)
  have st': "chain st' = b"
    using set upd u chained by (auto simp: es_SetStorage_def)
  have "backend_SetStorage X (Layer (st_cache st) (st_backend st)) a k v = (Ok (), b)"
    using upd u by (simp only: chain_def)
  from Layer_SetStorage_Ok(3,4) [OF co [unfolded chain_def] this] st'
  show "acc_view X (chain st') = acc_view X (chain st)"
    and "sto_view X (chain st') = put_word (sto_view X (chain st)) a k v"
    by (simp_all only: chain_def)
qed

text \<open>The balances never wrap: an addition that would is an error, and so is an overdraft.\<close>

lemma sum_overflow: "\<not> IsUint64SumOverflow a b \<Longrightarrow> unat (a + b) = unat a + unat b"
proof -
  assume "\<not> IsUint64SumOverflow a b"
  then have "unat b \<le> unat (- 1 - a)"
    by (simp add: IsUint64SumOverflow_def not_less word_le_nat_alt)
  moreover have "unat (- 1 - a :: 64 word) = 2 ^ 64 - 1 - unat a"
    using unat_sub [of a "- 1 :: 64 word"] by (simp add: unsigned_minus_1_eq_mask mask_eq_exp_minus_1)
  ultimately have "unat a + unat b < 2 ^ 64"
    using unat_less_size [of a] by simp
  then show ?thesis
    by (simp add: unat_word_ariths)
qed

lemma es_AddToBalance_Ok:
  assumes "coherent X (chain st)" and "st_error (es_AddToBalance X st a n) = None"
  obtains acc where "acc_view X (chain st) a = Inr (Some acc)" and "acc_Address acc = a"
    and "unat (acc_Balance acc + n) = unat (acc_Balance acc) + unat n"
    and "acc_view X (chain (es_AddToBalance X st a n)) =
      put_account (acc_view X (chain st)) a (Some (acc\<lparr>acc_Balance := acc_Balance acc + n\<rparr>))"
    and "sto_view X (chain (es_AddToBalance X st a n)) = sto_view X (chain st)"
proof -
  obtain q s where q: "es_mustAccount X st a = (q, s)"
    by (cases "es_mustAccount X st a")
  then obtain acc where acc: "q = Some acc"
    using assms(2) es_mustAccount_read(3) [OF q] by (auto simp: es_AddToBalance_def split: option.splits)
  have ok: "\<not> IsUint64SumOverflow (acc_Balance acc) n"
    using assms(2) q acc PushError_has_text [of "Coded ErrorCodeIntegerOverflow
      ''uint64 overflow: attempt to add %v to the balance of %s'' [ANat (unat n), AStr (Address_String a)]" s]
    by (auto simp: es_AddToBalance_def has_text_def split: if_splits)
  note m = es_modify_Ok [OF assms(1) q [unfolded acc], of "\<lambda>acc. acc\<lparr>acc_Balance := acc_Balance acc + n\<rparr>"]
  show ?thesis
    by (rule that [of acc])
      (use m assms(2) q acc ok sum_overflow [OF ok] in \<open>simp_all add: es_AddToBalance_def\<close>)
qed

lemma es_SubtractFromBalance_Ok:
  assumes "coherent X (chain st)" and "st_error (es_SubtractFromBalance X st a n) = None"
  obtains acc where "acc_view X (chain st) a = Inr (Some acc)" and "acc_Address acc = a"
    and "unat (acc_Balance acc - n) + unat n = unat (acc_Balance acc)"
    and "acc_view X (chain (es_SubtractFromBalance X st a n)) =
      put_account (acc_view X (chain st)) a (Some (acc\<lparr>acc_Balance := acc_Balance acc - n\<rparr>))"
    and "sto_view X (chain (es_SubtractFromBalance X st a n)) = sto_view X (chain st)"
proof -
  obtain q s where q: "es_mustAccount X st a = (q, s)"
    by (cases "es_mustAccount X st a")
  then obtain acc where acc: "q = Some acc"
    using assms(2) es_mustAccount_read(3) [OF q] by (auto simp: es_SubtractFromBalance_def split: option.splits)
  have ok: "\<not> acc_Balance acc < n"
    using assms(2) q acc PushError_has_text [of "Coded ErrorCodeInsufficientBalance
      ''insufficient funds: attempt to subtract %v from the balance of %s''
      [ANat (unat n), AStr (Address_String (acc_Address acc))]" s]
    by (auto simp: es_SubtractFromBalance_def has_text_def split: if_splits)
  then have "unat (acc_Balance acc - n) + unat n = unat (acc_Balance acc)"
    using unat_sub [of n "acc_Balance acc"] by (simp add: not_less word_le_nat_alt)
  note m = this es_modify_Ok [OF assms(1) q [unfolded acc], of "\<lambda>acc. acc\<lparr>acc_Balance := acc_Balance acc - n\<rparr>"]
  show ?thesis
    by (rule that [of acc])
      (use m assms(2) q acc ok in \<open>simp_all add: es_SubtractFromBalance_def\<close>)
qed

end
