(* ===== verification/Event_Manager.thy ===== *)
theory Event_Manager
  imports Externals
begin

section \<open>The event manager\<close>

text \<open>
  \<^verbatim>\<open>evmcc/eventmanager/eventmanager.go\<close>: the EVM's log events are collected as hex text
  and set as the one Fabric event of the transaction when it succeeds.
\<close>

record log_event =
  log_Address :: address
  log_Data :: bytes
  log_Topics :: "word256 list"

record event_manager =
  EventCache :: "event list"

text \<open>The loop over the topics stops at the first that cannot be marshalled.\<close>

fun marshal_topics :: "('pk, 'z) externals_scheme \<Rightarrow> word256 list \<Rightarrow> go_error + string list" where
  "marshal_topics X [] = Inr []"
| "marshal_topics X (topic # ts) =
     (case Word256_MarshalText topic of
        Inl e \<Rightarrow> Inl (Fmt ''Failed to Marshal Topic: %s'' [AErr e])
      | Inr t \<Rightarrow>
          (case marshal_topics X ts of
             Inl e \<Rightarrow> Inl e
           | Inr topics \<Rightarrow> Inr (strings_ToLower (unicode_ToLower X) (string_of t) # topics)))"

definition em_Log ::
    "('pk, 'z) externals_scheme \<Rightarrow> event_manager \<Rightarrow> log_event \<Rightarrow> go_error option \<times> event_manager" where
  "em_Log X evmgr log =
     (case marshal_topics X (log_Topics log) of
        Inl e \<Rightarrow> (Some e, evmgr)
      | Inr topics \<Rightarrow>
          (None, evmgr\<lparr>EventCache := EventCache evmgr @
             [\<lparr>ev_Address = strings_ToLower (unicode_ToLower X) (Address_String (log_Address log)),
               ev_Data = strings_ToLower (unicode_ToLower X) (HexBytes_String (log_Data log)),
               ev_Topics = topics\<rparr>]\<rparr>))"

definition em_Call :: "event_manager \<Rightarrow> go_error option \<times> event_manager" where
  "em_Call evmgr = (None, evmgr)"

text \<open>The stub is the one the state manager writes to, so it is passed and returned.\<close>

definition em_Flush ::
    "('pk, 'z) externals_scheme \<Rightarrow> event_manager \<Rightarrow> stub \<Rightarrow> string \<Rightarrow> go_error option \<times> stub" where
  "em_Flush X evmgr stub eventName =
     (if length (EventCache evmgr) = 0 then (None, stub)
      else (case json_Marshal_events X (EventCache evmgr) of
          Inl e \<Rightarrow> (Some (Fmt ''Failed to marshal event messages: %s'' [AErr e]), stub)
        | Inr payload \<Rightarrow> SetEvent stub eventName payload))"

subsection \<open>The text of an event\<close>

text \<open>What a log event is recorded as: everything in lower-case hex, without a prefix.\<close>

definition event_of_log :: "log_event \<Rightarrow> event" where
  "event_of_log log =
     \<lparr>ev_Address = hex_EncodeToString (Address_Bytes (log_Address log)),
      ev_Data = hex_EncodeToString (log_Data log),
      ev_Topics = map (\<lambda>t. hex_EncodeToString (Word256_Bytes t)) (log_Topics log)\<rparr>"

lemma marshal_topics_eq:
  "marshal_topics X ts = Inr (map (\<lambda>t. hex_EncodeToString (Word256_Bytes t)) ts)"
  by (induction ts) (simp_all add: Word256_MarshalText_def)

lemma em_Log_eq: "em_Log X evmgr log = (None, evmgr\<lparr>EventCache := EventCache evmgr @ [event_of_log log]\<rparr>)"
  by (simp add: em_Log_def marshal_topics_eq event_of_log_def Address_String_def HexBytes_String_def)

text \<open>The text of an event determines the log event.\<close>

lemma event_of_log_inject: "event_of_log l = event_of_log m \<longleftrightarrow> l = m"
proof
  assume eq: "event_of_log l = event_of_log m"
  have "inj (\<lambda>t. hex_EncodeToString (Word256_Bytes t))"
    by (simp add: inj_def hex.print_inject)
  with eq have "log_Topics l = log_Topics m"
    by (auto simp: event_of_log_def dest: map_injective)
  with eq show "l = m"
    by (cases l; cases m) (simp add: event_of_log_def hex.print_inject)
qed simp

lemma em_Flush_context [frame]: "em_Flush X em s n = (e, t) \<Longrightarrow> same_context s t"
  by (auto simp: em_Flush_def split: if_splits sum.splits dest: frame)

lemma em_Flush_writes [frame]: "em_Flush X em s n = (e, t) \<Longrightarrow> write_set t = write_set s"
  by (auto simp: em_Flush_def split: if_splits sum.splits dest: frame)

text \<open>A transaction sets an event exactly when it logged something.\<close>

lemma em_Flush_event:
  assumes "em_Flush X em s n = (None, t)"
  shows "chaincode_event t =
    (if EventCache em = [] then chaincode_event s
     else Some (n, projr (json_Marshal_events X (EventCache em))))"
  using assms by (auto simp: em_Flush_def SetEvent_def split: if_splits sum.splits)

end
