(* ===== verification/Evm_Chaincode.thy ===== *)
theory Evm_Chaincode
  imports Evm_State_Laws Event_Manager
begin

section \<open>The chaincode\<close>

text \<open>
  \<^verbatim>\<open>evmcc/evmcc.go\<close>: what a Fabric transaction does. Its arguments are a callee address
  and input bytes in hex (the zero address deploys a contract), or one of the two queries
  \<^verbatim>\<open>account\<close> and \<^verbatim>\<open>getCode\<close>. The virtual machine's \<^verbatim>\<open>Call\<close> is a
  parameter: of it the results use only that it works on the state through its interface and reports
  its logs to the event sink (\<open>vm_ok\<close>).
\<close>

datatype response = shim_Success bytes | shim_Error go_error

record evm_params =
  BlockHeight :: "64 word"
  BlockTime :: "64 word"
  GasLimit :: "64 word"
  CallStackMaxDepth :: "64 word"
  DataStackInitialCapacity :: "64 word"
  DataStackMaxDepth :: "64 word"

definition newParams :: evm_params where
  "newParams = \<lparr>BlockHeight = 0, BlockTime = 0, GasLimit = 0, CallStackMaxDepth = 0,
     DataStackInitialCapacity = 0, DataStackMaxDepth = 0\<rparr>"

text \<open>
  \<^verbatim>\<open>vm.Call(state, sink, caller, callee, code, input, value, gas)\<close>: the output or an error
  (the chaincode ignores an output that comes with an error), and the state and sink it leaves. A
  slice that may be nil is an option.
\<close>

type_synonym vm_call =
  "evm_state \<Rightarrow> event_manager \<Rightarrow> address \<Rightarrow> address \<Rightarrow> bytes option \<Rightarrow> bytes \<Rightarrow> 64 word \<Rightarrow> 64 word \<Rightarrow>
   bytes option res \<times> evm_state \<times> event_manager"

type_synonym new_vm = "evm_params \<Rightarrow> address \<Rightarrow> bytes \<Rightarrow> vm_call"

definition ContractPermFlags :: perm_flag where
  "ContractPermFlags = perm_Call OR perm_Send OR perm_CreateContract"

subsection \<open>The stub under the state\<close>

text \<open>State manager and event manager hold the same stub; it is kept in the state manager.\<close>

definition st_stub :: "evm_state \<Rightarrow> stub" where
  "st_stub st = sm_stub (base_manager (st_backend st))"

fun backend_set_stub :: "stub \<Rightarrow> backend \<Rightarrow> backend" where
  "backend_set_stub s (Manager m) = Manager (m\<lparr>sm_stub := s\<rparr>)"
| "backend_set_stub s (Layer c b) = Layer c (backend_set_stub s b)"

definition sink_Flush ::
    "('pk, 'z) externals_scheme \<Rightarrow> event_manager \<Rightarrow> evm_state \<Rightarrow> string \<Rightarrow> go_error option \<times> evm_state" where
  "sink_Flush X em st eventName =
     (case em_Flush X em (st_stub st) eventName of
        (e, stub) \<Rightarrow> (e, st\<lparr>st_backend := backend_set_stub stub (st_backend st)\<rparr>))"

subsection \<open>Identity and queries\<close>

definition getCallerAddress :: "('pk, 'z) externals_scheme \<Rightarrow> stub \<Rightarrow> address \<times> go_error option" where
  "getCallerAddress X stub =
     (case stub_creator stub of
        Inl e \<Rightarrow> (ZeroAddress, Some (Fmt ''failed to get creator: %s'' [AErr e]))
      | Inr creatorBytes \<Rightarrow>
          (case IdentityToAddr (identity_ext.truncate X) creatorBytes of
             Inl e \<Rightarrow> (ZeroAddress, Some (Fmt ''fail to convert identity to address: %s'' [AErr e]))
           | Inr callerAddr \<Rightarrow> AddressFromBytes callerAddr))"

definition evmcc_account :: "('pk, 'z) externals_scheme \<Rightarrow> stub \<Rightarrow> response" where
  "evmcc_account X stub =
     (case getCallerAddress X stub of
        (_, Some e) \<Rightarrow> shim_Error (Fmt ''fail to convert identity to address: %s'' [AErr e])
      | (callerAddr, None) \<Rightarrow> shim_Success (bytes_of (Address_String callerAddr)))"

definition evmcc_getCode :: "('pk, 'z) externals_scheme \<Rightarrow> stub \<Rightarrow> bytes \<Rightarrow> response" where
  "evmcc_getCode X stub addr =
     (case hex_DecodeString (string_of addr) of
        Inl e \<Rightarrow> shim_Error (Fmt ''failed to decode callee address from %s: %s'' [AStr (string_of addr), AErr e])
      | Inr c \<Rightarrow>
     (case AddressFromBytes c of
        (_, Some e) \<Rightarrow> shim_Error (Fmt ''failed to get callee address: %s'' [AErr e])
      | (calleeAddr, None) \<Rightarrow>
     (case GetState stub (strings_ToLower (unicode_ToLower X) (Address_String calleeAddr)) of
        Inl e \<Rightarrow> shim_Error (Fmt ''failed to get contract account: %s'' [AErr e])
      | Inr acctBytes \<Rightarrow>
          (if length acctBytes = 0 then shim_Success acctBytes
           else (case account_Decode X acctBytes of
               Inl e \<Rightarrow> shim_Error (Fmt ''failed to decode contract account: %s'' [AErr e])
             | Inr acct \<Rightarrow> shim_Success (bytes_of (hex_EncodeToString (code_bytes (acc_Code acct)))))))))"

subsection \<open>Deploying and calling\<close>

definition evmcc_deploy ::
    "('pk, 'z) externals_scheme \<Rightarrow> vm_call \<Rightarrow> evm_state \<Rightarrow> event_manager \<Rightarrow> address \<Rightarrow> bytes \<Rightarrow> bytes \<Rightarrow>
     64 word \<Rightarrow> response res \<times> evm_state" where
  "evmcc_deploy X vm_Call evmCache eventSink callerAddr nonce input gas =
     (let contractAddr = NewContractAddress (sha256_Sum X) callerAddr nonce;
          st1 = es_CreateAccount X evmCache contractAddr
      in case st_error st1 of
        Some e \<Rightarrow> (Ok (shim_Error (Fmt ''failed to create the contract account: %s '' [AErr e])), st1)
      | None \<Rightarrow>
     (let st2 = es_SetPermission X st1 contractAddr ContractPermFlags True
      in case st_error st2 of
        Some e \<Rightarrow> (Ok (shim_Error (Fmt ''failed to set contract account permissions: %s '' [AErr e])), st2)
      | None \<Rightarrow>
     (case vm_Call st2 eventSink callerAddr contractAddr (Some input) input 0 gas of
        (Panic p, st3, _) \<Rightarrow> (Panic p, st3)
      | (Err e, st3, _) \<Rightarrow> (Ok (shim_Error (Fmt ''failed to deploy code: %s'' [AErr e])), st3)
      | (Ok None, st3, _) \<Rightarrow> (Ok (shim_Error (Msg ''nil bytecode'')), st3)
      | (Ok (Some rtCode), st3, sink3) \<Rightarrow>
     (let st4 = es_InitCode X st3 contractAddr (Some rtCode)
      in case st_error st4 of
        Some e \<Rightarrow> (Ok (shim_Error (Fmt ''failed to update contract account: %s'' [AErr e])), st4)
      | None \<Rightarrow>
     (case sink_Flush X sink3 st4 (hex_EncodeToString (take 4 (Address_Bytes contractAddr))) of
        (Some e, st5) \<Rightarrow> (Ok (shim_Error (Fmt ''error in Flush: %s'' [AErr e])), st5)
      | (None, st5) \<Rightarrow>
     (case es_Sync X st5 of
        (Panic p, st6) \<Rightarrow> (Panic p, st6)
      | (Err e, st6) \<Rightarrow> (Ok (shim_Error (Fmt ''failed to sync: %s'' [AErr e])), st6)
      | (Ok _, st6) \<Rightarrow>
          (Ok (shim_Success (bytes_of (hex_EncodeToString (Address_Bytes contractAddr)))), st6)))))))"

text \<open>
  The event is named after the first 8 bytes of the input argument; the slice expression
  \<^verbatim>\<open>args[1][0:8]\<close> panics when the argument's array is shorter, also when there is no event.
\<close>

definition evmcc_call ::
    "('pk, 'z) externals_scheme \<Rightarrow> vm_call \<Rightarrow> evm_state \<Rightarrow> event_manager \<Rightarrow> address \<Rightarrow> address \<Rightarrow>
     go_slice \<Rightarrow> bytes \<Rightarrow> 64 word \<Rightarrow> response res \<times> evm_state" where
  "evmcc_call X vm_Call evmCache eventSink callerAddr calleeAddr arg1 input gas =
     (case es_GetCode X evmCache calleeAddr of (calleeCode, st1) \<Rightarrow>
     (case st_error st1 of
        Some e \<Rightarrow> (Ok (shim_Error (Fmt ''failed to retrieve contract code: %s'' [AErr e])), st1)
      | None \<Rightarrow>
     (case vm_Call st1 eventSink callerAddr calleeAddr calleeCode input 0 gas of
        (Panic p, st2, _) \<Rightarrow> (Panic p, st2)
      | (Err e, st2, _) \<Rightarrow> (Ok (shim_Error (Fmt ''failed to execute contract: %s'' [AErr e])), st2)
      | (Ok output, st2, sink2) \<Rightarrow>
     (case slice_to arg1 8 of
        Panic p \<Rightarrow> (Panic p, st2)
      | Err e \<Rightarrow> (Err e, st2)
      | Ok name \<Rightarrow>
     (case sink_Flush X sink2 st2 (string_of name) of
        (Some e, st3) \<Rightarrow> (Ok (shim_Error (Fmt ''error in Flush: %s'' [AErr e])), st3)
      | (None, st3) \<Rightarrow>
     (case es_Sync X st3 of
        (Panic p, st4) \<Rightarrow> (Panic p, st4)
      | (Err e, st4) \<Rightarrow> (Ok (shim_Error (Fmt ''failed to sync: %s'' [AErr e])), st4)
      | (Ok _, st4) \<Rightarrow> (Ok (shim_Success (code_bytes output)), st4)))))))"

definition evmcc_Init :: "stub \<Rightarrow> response" where
  "evmcc_Init stub = shim_Success []"

text \<open>With no arguments, the message of the error itself indexes \<^verbatim>\<open>args[0]\<close>.\<close>

definition evmcc_Invoke :: "('pk, 'z) externals_scheme \<Rightarrow> new_vm \<Rightarrow> stub \<Rightarrow> response res \<times> stub" where
  "evmcc_Invoke X NewVM stub =
     (let args = map contents (stub_args stub)
      in if length args = 1 \<and> string_of (args ! 0) = ''account'' then (Ok (evmcc_account X stub), stub)
      else if length args = 0 then (Panic ''index out of range'', stub)
      else if length args \<noteq> 2
      then (Ok (shim_Error (Fmt ''expects 2 args, got %d : %s'' [ANat (length args), AStr (string_of (args ! 0))])), stub)
      else if string_of (args ! 0) = ''getCode'' then (Ok (evmcc_getCode X stub (args ! 1)), stub)
      else
     (case hex_DecodeString (string_of (args ! 0)) of
        Inl e \<Rightarrow> (Ok (shim_Error (Fmt ''failed to decode callee address from %s: %s''
            [AStr (string_of (args ! 0)), AErr e])), stub)
      | Inr c \<Rightarrow>
     (case AddressFromBytes c of
        (_, Some e) \<Rightarrow> (Ok (shim_Error (Fmt ''failed to get callee address: %s'' [AErr e])), stub)
      | (calleeAddr, None) \<Rightarrow>
     (case getCallerAddress X stub of
        (_, Some e) \<Rightarrow> (Ok (shim_Error (Fmt ''failed to get caller address: %s'' [AErr e])), stub)
      | (callerAddr, None) \<Rightarrow>
     (case hex_DecodeString (string_of (args ! 1)) of
        Inl e \<Rightarrow> (Ok (shim_Error (Fmt ''failed to decode input bytes: %s'' [AErr e])), stub)
      | Inr input \<Rightarrow>
     (let gas = 10000;
          evmCache = NewState (Manager (NewStateManager stub)) [];
          eventSink = \<lparr>EventCache = []\<rparr>;
          nonce = Nonce (sha256_Sum X) callerAddr (bytes_of (stub_txid stub));
          vm = NewVM newParams callerAddr nonce
      in apsnd st_stub
          (if calleeAddr = ZeroAddress
           then evmcc_deploy X vm evmCache eventSink callerAddr nonce input gas
           else evmcc_call X vm evmCache eventSink callerAddr calleeAddr (stub_args stub ! 1) input gas)))))))"

end
