(* ===== verification/Transaction.thy ===== *)
theory Transaction
  imports Evm_Chaincode
begin

section \<open>What a transaction commits\<close>

text \<open>
  From the chaincode's last steps to the ledger: \<^verbatim>\<open>Flush\<close> sets the event and
  \<^verbatim>\<open>Sync\<close> writes the state back, so the committed ledger shows what the EVM's state
  showed; nothing is written before. The contract assumed of the virtual machine is here, with a
  concrete machine that meets it.
\<close>

subsection \<open>The virtual machine's contract\<close>

definition vm_ok :: "('pk, 'z) externals_scheme \<Rightarrow> vm_call \<Rightarrow> bool" where
  "vm_ok X vm_Call \<longleftrightarrow> (\<forall>st sink caller callee code input val gas r st' sink'.
     vm_Call st sink caller callee code input val gas = (r, st', sink') \<longrightarrow>
     evm_steps X st st' \<and> (\<exists>logs. EventCache sink' = EventCache sink @ map event_of_log logs))"

lemma vm_okD:
  assumes "vm_ok X vm" and "vm st sink caller callee code input val gas = (r, st', sink')"
  shows "evm_steps X st st'" and "\<exists>logs. EventCache sink' = EventCache sink @ map event_of_log logs"
  using assms unfolding vm_ok_def by blast+

text \<open>A machine for witnesses: it stores a word, logs its input and returns its code.\<close>

definition demo_vm :: "('pk, 'z) externals_scheme \<Rightarrow> new_vm" where
  "demo_vm X params origin nonce st sink caller callee code input val gas =
     (case es_SetStorage X st callee 1 7 of
        (Panic p, st') \<Rightarrow> (Panic p, st', sink)
      | (_, st') \<Rightarrow> (Ok code, st',
          snd (em_Log X sink \<lparr>log_Address = callee, log_Data = input, log_Topics = [1]\<rparr>)))"

lemma demo_vm_ok: "vm_ok X (demo_vm X params origin nonce)"
  unfolding vm_ok_def
proof (intro allI impI)
  fix st sink caller callee code input val gas r st' sink'
  assume run: "demo_vm X params origin nonce st sink caller callee code input val gas = (r, st', sink')"
  then have "snd (es_SetStorage X st callee 1 7) = st'"
    by (auto simp: demo_vm_def split: prod.splits res.splits)
  with steps_SetStorage have "evm_steps X st st'"
    by metis
  moreover have "sink' = sink \<or> sink' = snd (em_Log X sink \<lparr>log_Address = callee, log_Data = input, log_Topics = [1]\<rparr>)"
    using run by (auto simp: demo_vm_def split: prod.splits res.splits)
  then have "\<exists>logs. EventCache sink' = EventCache sink @ map event_of_log logs"
  proof
    assume "sink' = sink"
    then show ?thesis by (auto intro: exI [of _ "[]"])
  next
    assume "sink' = snd (em_Log X sink \<lparr>log_Address = callee, log_Data = input, log_Topics = [1]\<rparr>)"
    then show ?thesis
      by (auto simp: em_Log_eq intro: exI [of _ "[\<lparr>log_Address = callee, log_Data = input, log_Topics = [1]\<rparr>]"])
  qed
  ultimately show "evm_steps X st st' \<and> (\<exists>logs. EventCache sink' = EventCache sink @ map event_of_log logs)"
    by blast
qed

subsection \<open>The stub through Flush and Sync\<close>

lemma same_context_views:
  assumes "same_context (sm_stub m) s"
  shows "acc_view X (Manager (m\<lparr>sm_stub := s\<rparr>)) = acc_view X (Manager m)"
    and "sto_view X (Manager (m\<lparr>sm_stub := s\<rparr>)) = sto_view X (Manager m)"
  using same_context_GetState [OF assms]
  by (simp_all add: fun_eq_iff sm_GetAccount_def sm_GetStorage_def Let_def split: option.split)

lemma same_context_chain:
  assumes "same_context (sm_stub m) s"
  shows "acc_view X (Layer c (Manager (m\<lparr>sm_stub := s\<rparr>))) = acc_view X (Layer c (Manager m))"
    and "sto_view X (Layer c (Manager (m\<lparr>sm_stub := s\<rparr>))) = sto_view X (Layer c (Manager m))"
    and "coherent X (Layer c (Manager (m\<lparr>sm_stub := s\<rparr>))) = coherent X (Layer c (Manager m))"
  using same_context_views [OF assms, of X]
  by (simp_all add: fun_eq_iff cache_ok_def info_ok_def split: option.split sum.split)

lemma Sync_manager:
  assumes "backend_Sync X c (Manager m) = (r, b)"
  shows "\<exists>m'. b = Manager m' \<and> same_context (sm_stub m) (sm_stub m') \<and>
    chaincode_event (sm_stub m') = chaincode_event (sm_stub m)"
proof -
  let ?P = "\<lambda>m'. same_context (sm_stub m) (sm_stub m') \<and>
    chaincode_event (sm_stub m') = chaincode_event (sm_stub m)"
  let ?f = "\<lambda>i a st key. case map_of (ai_storage i) key of None \<Rightarrow> (Ok (), st)
    | Some val \<Rightarrow> sm_SetStorage X st a key val"
  have words: "?P t" if "?P s" "run_all (?f i a) ks s = (q, t)" for i a ks s q t
    using _ _ _ that(2)
  proof (rule run_all_inv [where P = ?P and A = UNIV])
    fix s k r t
    assume P: "?P s" and step: "?f i a s k = (r, t)"
    show "?P t"
    proof (cases "map_of (ai_storage i) k")
      case None
      with P step show ?thesis by simp
    next
      case (Some v)
      with step have "sm_SetStorage X s a k v = (r, t)" by simp
      from sm_context(3) [OF this] sm_event(3) [OF this] P show ?thesis
        by (auto intro: same_context_trans)
    qed
  qed (use that(1) in auto)
  have account: "?P t"
    if "?P s" "Sync_account (sm_UpdateAccount X) (sm_RemoveAccount X) (sm_SetStorage X) a i s = (q, t)"
    for a i s q t
  proof (cases "ai_removed i")
    case True
    with that(2) have "sm_RemoveAccount X s a = (q, t)" by (simp add: Sync_account_def)
    from sm_context(2) [OF this] sm_event(2) [OF this] that(1) show ?thesis
      by (auto intro: same_context_trans)
  next
    case False
    obtain v u where upd: "sm_UpdateAccount X s (ai_account i) = (v, u)"
      by (cases "sm_UpdateAccount X s (ai_account i)")
    from sm_context(1) [OF upd] sm_event(1) [OF upd] that(1) have u: "?P u"
      by (auto intro: same_context_trans)
    show ?thesis
    proof (cases "ai_updated i \<and> v = Ok ()")
      case True
      with that(2) upd False have "run_all (?f i a) (sort (map fst (ai_storage i))) u = (q, t)"
        by (simp add: Sync_account_def)
      with u show ?thesis by (rule words)
    next
      case False
      with that upd u \<open>\<not> ai_removed i\<close> show ?thesis
        by (cases v) (auto simp: Sync_account_def split: if_splits)
    qed
  qed
  obtain m' where sync: "Cache_Sync (sm_UpdateAccount X) (sm_RemoveAccount X) (sm_SetStorage X) c m = (r, m')"
    and b: "b = Manager m'"
    using assms by (cases "Cache_Sync (sm_UpdateAccount X) (sm_RemoveAccount X) (sm_SetStorage X) c m")
      (auto simp: backend_Sync_Manager intro: that)
  have step: "?P t" if "?P s" and "(case map_of (c_accounts c) a of None \<Rightarrow> (Ok (), s)
      | Some i \<Rightarrow> Sync_account (sm_UpdateAccount X) (sm_RemoveAccount X) (sm_SetStorage X) a i s) = (q, t)"
    for s a q t
  proof (cases "map_of (c_accounts c) a")
    case None
    with that show ?thesis by simp
  next
    case (Some i)
    with that account [of s a i q t] show ?thesis by simp
  qed
  have "?P m'"
  proof (cases "c_readonly c")
    case True
    with sync show ?thesis by (simp add: Cache_Sync_def)
  next
    case False
    then have run: "run_all (\<lambda>st a. case map_of (c_accounts c) a of None \<Rightarrow> (Ok (), st)
        | Some i \<Rightarrow> Sync_account (sm_UpdateAccount X) (sm_RemoveAccount X) (sm_SetStorage X) a i st)
        (sort (map fst (c_accounts c))) m = (r, m')"
      using sync by (simp only: Cache_Sync_def if_False)
    show ?thesis
    proof (rule run_all_inv [where P = ?P and A = UNIV, OF _ _ _ run])
      fix s a q t
      assume "?P s" and "(case map_of (c_accounts c) a of None \<Rightarrow> (Ok (), s)
        | Some i \<Rightarrow> Sync_account (sm_UpdateAccount X) (sm_RemoveAccount X) (sm_SetStorage X) a i s) = (q, t)"
      then show "?P t" by (rule step)
    qed simp_all
  qed
  with b show ?thesis by blast
qed

subsection \<open>The end of a transaction\<close>

text \<open>A stub at the start of a transaction, and the next transaction on what one committed.\<close>

definition fresh_stub :: "stub \<Rightarrow> bool" where
  "fresh_stub s \<longleftrightarrow> write_set s = Map.empty \<and> chaincode_event s = None \<and> get_fault s = (\<lambda>_. None)"

definition next_transaction :: "stub \<Rightarrow> stub" where
  "next_transaction s = s\<lparr>ledger := commit s, write_set := Map.empty, chaincode_event := None\<rparr>"

lemma fresh_next: "get_fault s = (\<lambda>_. None) \<Longrightarrow> fresh_stub (next_transaction s)"
  by (simp add: fresh_stub_def next_transaction_def)

text \<open>Every account on the ledger is kept under its own address.\<close>

definition ledger_ok :: "('pk, 'z) externals_scheme \<Rightarrow> (string \<rightharpoonup> bytes) \<Rightarrow> bool" where
  "ledger_ok X L \<longleftrightarrow> (\<forall>a acc. ledger_account X L a = Inr (Some acc) \<longrightarrow> acc_Address acc = a)"

definition initial_state :: "stub \<Rightarrow> evm_state" where
  "initial_state s = NewState (Manager (NewStateManager s)) []"

lemma initial_state_simps [simp]:
  "st_error (initial_state s) = None" "st_backend (initial_state s) = Manager (NewStateManager s)"
  "chain (initial_state s) = Layer (NewCache False) (Manager (NewStateManager s))"
  "st_options (initial_state s) = []" "st_cache (initial_state s) = NewCache False"
  by (simp_all add: initial_state_def NewState_def chain_def)

lemma fresh_NewStateManager: "fresh_stub s \<Longrightarrow> fresh_manager (NewStateManager s)"
  by (simp add: fresh_stub_def fresh_manager_def NewStateManager_def)

lemma initial_views:
  assumes "fresh_stub s"
  shows "acc_view X (chain (initial_state s)) = ledger_account X (ledger s)"
    and "sto_view X (chain (initial_state s)) = (\<lambda>a k. case ledger_account X (ledger s) a of
      Inl e \<Rightarrow> Err e | Inr _ \<Rightarrow> ledger_storage X (ledger s) a k)"
  using fresh_views(1,2) [OF fresh_NewStateManager [OF assms], of X]
  by (simp_all add: fun_eq_iff NewCache_def NewStateManager_def split: sum.split)

lemma initial_coherent:
  assumes "fresh_stub s" and "ledger_ok X (ledger s)"
  shows "coherent X (chain (initial_state s))"
  using assms fresh_views(1) [OF fresh_NewStateManager [OF assms(1)], of X]
  by (simp add: ledger_ok_def fun_eq_iff NewStateManager_def del: coherent.simps(2))

text \<open>What holds of the state when the virtual machine has run on the initial one.\<close>

lemma run_initial:
  assumes "evm_steps X (initial_state s) st"
  shows "st_backend st = Manager (NewStateManager s)" and "\<not> c_readonly (st_cache st)"
    and "st_stub st = s"
  using evm_steps_manager [OF assms] evm_steps_invariant(1) [OF assms]
  by (auto simp: same_layer_def chain_def NewCache_def st_stub_def NewStateManager_def)

lemma flush_sync:
  assumes "codec_ok X" and fresh: "fresh_stub s" and "ledger_ok X (ledger s)"
    and run: "evm_steps X (initial_state s) st"
    and flush: "sink_Flush X sink st name = (None, st5)" and sync: "es_Sync X st5 = (Ok u, st6)"
  shows "kept (ledger_account X (commit (st_stub st6)) a) = kept (acc_view X (chain st) a)"
    and "acc_view X (chain st) a = Inr acc \<Longrightarrow> \<not> removed_in (st_cache st) a \<Longrightarrow>
      ledger_storage X (commit (st_stub st6)) a = sto_view X (chain st) a"
    and "chaincode_event (st_stub st6) = (if EventCache sink = [] then None
      else Some (name, projr (json_Marshal_events X (EventCache sink))))"
    and "same_context s (st_stub st6)" and "st_error st = None"
proof -
  let ?m = "NewStateManager s"
  note st = run_initial [OF run]
  obtain t where t: "em_Flush X sink s name = (None, t)"
    and st5: "st5 = st\<lparr>st_backend := Manager (?m\<lparr>sm_stub := t\<rparr>)\<rparr>"
    using flush st by (auto simp: sink_Flush_def split: prod.splits)
  have stub: "sm_stub ?m = s" by (simp add: NewStateManager_def)
  have ctx': "same_context s t"
    using t by (rule em_Flush_context)
  then have ctx: "same_context (sm_stub ?m) t"
    by (simp add: stub)
  have writes: "write_set t = write_set s"
    using t by (rule em_Flush_writes)
  have none: "st_error st5 = None"
    using sync by (auto simp: es_Sync_def split: option.splits)
  then show "st_error st = None"
    by (simp add: st5)
  obtain m' where m': "backend_Sync X (st_cache st) (Manager (?m\<lparr>sm_stub := t\<rparr>)) = (Ok (), Manager m')"
    and st6: "st_stub st6 = sm_stub m'"
    and keep: "same_context t (sm_stub m')" "chaincode_event (sm_stub m') = chaincode_event t"
  proof -
    obtain r b where rb: "backend_Sync X (st_cache st) (Manager (?m\<lparr>sm_stub := t\<rparr>)) = (r, b)"
      by (cases "backend_Sync X (st_cache st) (Manager (?m\<lparr>sm_stub := t\<rparr>))")
    from Sync_manager [OF this] obtain m' where "b = Manager m'" "same_context t (sm_stub m')"
      "chaincode_event (sm_stub m') = chaincode_event t"
      by auto
    with rb sync none st5 that show ?thesis
      by (auto simp: es_Sync_def st_stub_def)
  qed
  have "fresh_manager (?m\<lparr>sm_stub := t\<rparr>)"
    using fresh ctx' writes by (simp add: fresh_manager_def NewStateManager_def fresh_stub_def same_context_iff)
  moreover have chain: "chain st = Layer (st_cache st) (Manager ?m)"
    using st by (simp add: chain_def)
  then have "coherent X (Layer (st_cache st) (Manager ?m))"
    using evm_steps_invariant(2) [OF run initial_coherent] assms(2,3) by simp
  then have "coherent X (Layer (st_cache st) (Manager (?m\<lparr>sm_stub := t\<rparr>)))"
    by (simp only: same_context_chain(3) [OF ctx])
  ultimately have final: "kept (ledger_account X (commit (sm_stub m')) a) =
      kept (acc_view X (Layer (st_cache st) (Manager (?m\<lparr>sm_stub := t\<rparr>))) a)"
    "acc_view X (Layer (st_cache st) (Manager (?m\<lparr>sm_stub := t\<rparr>))) a = Inr acc \<Longrightarrow>
      \<not> removed_in (st_cache st) a \<Longrightarrow> ledger_storage X (commit (sm_stub m')) a =
      sto_view X (Layer (st_cache st) (Manager (?m\<lparr>sm_stub := t\<rparr>))) a"
    using Sync_to_ledger(1,2) [OF assms(1) _ _ st(2) m'] by blast+
  show "kept (ledger_account X (commit (st_stub st6)) a) = kept (acc_view X (chain st) a)"
    using final(1) by (simp only: same_context_chain [OF ctx] chain st6)
  show "acc_view X (chain st) a = Inr acc \<Longrightarrow> \<not> removed_in (st_cache st) a \<Longrightarrow>
      ledger_storage X (commit (st_stub st6)) a = sto_view X (chain st) a"
    using final(2) [unfolded same_context_chain [OF ctx], folded chain] unfolding st6 by blast
  show "chaincode_event (st_stub st6) = (if EventCache sink = [] then None
      else Some (name, projr (json_Marshal_events X (EventCache sink))))"
    using em_Flush_event [OF t] keep(2) fresh by (simp add: st6 fresh_stub_def)
  show "same_context s (st_stub st6)"
    using ctx' keep(1) st6 by (simp add: same_context_trans)
qed

text \<open>Where the peer refuses no write and the accounts encode, the commit succeeds.\<close>

lemma Sync_succeeds:
  assumes "faultless (sm_stub m)" and ok: "cache_ok X c (Manager m)"
    and encodes: "\<And>a acc. acc_view X (Layer c (Manager m)) a = Inr (Some acc) \<Longrightarrow> \<exists>bs. account_Encode X acc = Inr bs"
  shows "\<exists>m'. backend_Sync X c (Manager m) = (Ok (), Manager m')"
proof -
  let ?P = "\<lambda>m. faultless (sm_stub m)"
  have keys: "hex_EncodeToString (Address_Bytes a) \<noteq> []" "storage_key X a k \<noteq> []" for a k
    by (simp_all only: storage_key_eq length_0_conv [symmetric] length_hex length_append) simp_all
  have set: "\<exists>t. sm_SetStorage X s a k v = (Ok (), t) \<and> ?P t" if "?P s" for s a k v
    using that keys by (simp add: sm_SetStorage_def Let_def PutState_def DelState_def faultless_def res_of_error_def)
  have words: "\<exists>t. run_all (\<lambda>st key. case map_of sto key of None \<Rightarrow> (Ok (), st)
      | Some val \<Rightarrow> sm_SetStorage X st a key val) ks s = (Ok (), t) \<and> ?P t" if "?P s" for s a sto ks
    using set by (intro run_all_Ok [where P = ?P] that) (simp split: option.split)
  have account: "\<exists>t. Sync_account (sm_UpdateAccount X) (sm_RemoveAccount X) (sm_SetStorage X) a i s = (Ok (), t) \<and> ?P t"
    if "?P s" and i: "map_of (c_accounts c) a = Some i" for s a i
  proof (cases "\<not> ai_removed i \<and> ai_updated i")
    case True
    with ok i obtain acc where acc: "ai_account i = Some acc"
      unfolding cache_ok_def info_ok_def by blast
    with encodes [of a acc] i True obtain bs where "account_Encode X acc = Inr bs"
      by auto
    with that(1) keys(1) obtain t where "sm_UpdateAccount X s (Some acc) = (Ok (), t)" and t: "?P t"
      by (simp add: sm_UpdateAccount_def PutState_def faultless_def res_of_error_def)
    with words [OF t] True acc show ?thesis
      by (simp add: Sync_account_def)
  next
    case False
    with that(1) show ?thesis
      by (auto simp: Sync_account_def sm_RemoveAccount_def DelState_def faultless_def res_of_error_def)
  qed
  have "\<exists>t. Cache_Sync (sm_UpdateAccount X) (sm_RemoveAccount X) (sm_SetStorage X) c m = (Ok (), t)"
  proof (cases "c_readonly c")
    case False
    have "\<exists>t. run_all (\<lambda>st a. case map_of (c_accounts c) a of None \<Rightarrow> (Ok (), st)
        | Some i \<Rightarrow> Sync_account (sm_UpdateAccount X) (sm_RemoveAccount X) (sm_SetStorage X) a i st)
        (sort (map fst (c_accounts c))) m = (Ok (), t) \<and> ?P t"
      using account by (intro run_all_Ok [where P = ?P] assms(1)) (simp split: option.split)
    with False show ?thesis
      by (auto simp: Cache_Sync_def)
  qed (simp add: Cache_Sync_def)
  then show ?thesis
    by (auto simp: backend_Sync_Manager)
qed

lemma flush_sync_succeeds:
  assumes run: "evm_steps X (initial_state s) st" and "fresh_stub s" and "faultless s" and "ledger_ok X (ledger s)"
    and none: "st_error st = None" and "name \<noteq> []"
    and encodes: "\<And>a acc. acc_view X (chain st) a = Inr (Some acc) \<Longrightarrow> \<exists>bs. account_Encode X acc = Inr bs"
    and marshals: "EventCache sink = [] \<or> (\<exists>bs. json_Marshal_events X (EventCache sink) = Inr bs)"
  shows "\<exists>st5 st6. sink_Flush X sink st name = (None, st5) \<and> es_Sync X st5 = (Ok (), st6)"
proof -
  let ?m = "NewStateManager s"
  note st = run_initial [OF run]
  have stub: "sm_stub ?m = s" by (simp add: NewStateManager_def)
  have "\<exists>t. em_Flush X sink s name = (None, t)"
    using marshals assms(6) by (auto simp: em_Flush_def SetEvent_def)
  then obtain t where t: "em_Flush X sink s name = (None, t)"
    by blast
  then have ctx: "same_context (sm_stub ?m) t"
    by (simp add: stub em_Flush_context)
  have chain: "chain st = Layer (st_cache st) (Manager ?m)"
    using st by (simp add: chain_def)
  have flush: "sink_Flush X sink st name = (None, st\<lparr>st_backend := Manager (?m\<lparr>sm_stub := t\<rparr>)\<rparr>)"
    using t st by (simp add: sink_Flush_def)
  have "coherent X (Layer (st_cache st) (Manager ?m))"
    using evm_steps_invariant(2) [OF run initial_coherent] assms(2,4) chain by simp
  then have "cache_ok X (st_cache st) (Manager (?m\<lparr>sm_stub := t\<rparr>))"
    using same_context_chain(3) [OF ctx, of X "st_cache st"] by simp
  moreover have "faultless (sm_stub (?m\<lparr>sm_stub := t\<rparr>))"
    using same_context_faultless [OF ctx] assms(3) by (simp add: stub)
  ultimately have "\<exists>m'. backend_Sync X (st_cache st) (Manager (?m\<lparr>sm_stub := t\<rparr>)) = (Ok (), Manager m')"
    using encodes by (intro Sync_succeeds) (simp_all only: same_context_chain [OF ctx] chain)
  with flush none show ?thesis
    by (auto simp: es_Sync_def)
qed

end
