(* ===== verification/Chaincode_Results.thy ===== *)
theory Chaincode_Results
  imports Transaction
begin

section \<open>What an invocation does\<close>

text \<open>
  The results of \<^const>\<open>evmcc_Invoke\<close>, branch by branch: what a deployment and a call
  commit, which event they set, what the queries return, and that an invocation that fails before
  \<^verbatim>\<open>Sync\<close> writes nothing.
\<close>

definition invocation :: "stub \<Rightarrow> string \<Rightarrow> string \<Rightarrow> bool" where
  "invocation s callee data \<longleftrightarrow>
     (\<exists>sp sp'. stub_args s = [\<lparr>contents = bytes_of callee, spare = sp\<rparr>, \<lparr>contents = bytes_of data, spare = sp'\<rparr>])"

text \<open>The state a contract's constructor runs on.\<close>

definition deploy_state :: "('pk, 'z) externals_scheme \<Rightarrow> stub \<Rightarrow> address \<Rightarrow> evm_state" where
  "deploy_state X s a =
     es_SetPermission X (es_CreateAccount X (initial_state s) a) a ContractPermFlags True"

lemma steps_deploy_state: "evm_steps X (initial_state s) (deploy_state X s a)"
  unfolding deploy_state_def by (rule rtranclp_trans [OF steps_CreateAccount steps_writes(4)])

lemma deploy_Success:
  assumes "evmcc_deploy X vm (initial_state s) sink caller nonce input gas = (Ok (shim_Success r), st6)"
    and "a = NewContractAddress (sha256_Sum X) caller nonce"
  obtains rt st3 sink3 st5 where "st_error (es_CreateAccount X (initial_state s) a) = None"
    and "st_error (deploy_state X s a) = None"
    and "vm (deploy_state X s a) sink caller a (Some input) input 0 gas = (Ok (Some rt), st3, sink3)"
    and "st_error (es_InitCode X st3 a (Some rt)) = None"
    and "sink_Flush X sink3 (es_InitCode X st3 a (Some rt)) (hex_EncodeToString (take 4 (Address_Bytes a))) =
      (None, st5)"
    and "es_Sync X st5 = (Ok (), st6)" and "r = bytes_of (hex_EncodeToString (Address_Bytes a))"
  using assms
  by (auto simp: evmcc_deploy_def deploy_state_def Let_def
      split: option.splits prod.splits res.splits)

lemma call_Success:
  assumes "evmcc_call X vm (initial_state s) sink caller callee arg1 input gas = (Ok (shim_Success r), st4)"
  obtains code st1 out st2 sink2 name st3 where "es_GetCode X (initial_state s) callee = (code, st1)"
    and "st_error st1 = None" and "vm st1 sink caller callee code input 0 gas = (Ok out, st2, sink2)"
    and "slice_to arg1 8 = Ok name" and "sink_Flush X sink2 st2 (string_of name) = (None, st3)"
    and "es_Sync X st3 = (Ok (), st4)" and "r = code_bytes out"
  using assms
  by (auto simp: evmcc_call_def split: option.splits prod.splits res.splits)

text \<open>The branches of an invocation that reach the virtual machine.\<close>

lemma Invoke_two_args:
  assumes "invocation s callee data" and "callee \<noteq> ''getCode''"
    and "hex_DecodeString callee = Inr c" and "length c = 20"
    and "getCallerAddress X s = (caller, None)" and "hex_DecodeString data = Inr input"
  shows "evmcc_Invoke X NewVM s =
    (let nonce = Nonce (sha256_Sum X) caller (bytes_of (stub_txid s)); vm = NewVM newParams caller nonce
     in apsnd st_stub
       (if copy_to_address c = ZeroAddress
        then evmcc_deploy X vm (initial_state s) \<lparr>EventCache = []\<rparr> caller nonce input 10000
        else evmcc_call X vm (initial_state s) \<lparr>EventCache = []\<rparr> caller (copy_to_address c)
               (stub_args s ! 1) input 10000))"
  using assms
  by (auto simp: invocation_def evmcc_Invoke_def AddressFromBytes_def initial_state_def Let_def)

subsection \<open>The queries\<close>

lemma evmcc_getCode_ledger:
  assumes "get_fault s = (\<lambda>_. None)"
  shows "evmcc_getCode X s (bytes_of (hex_EncodeToString (Address_Bytes a))) =
    (case ledger s (account_key X a) of
       None \<Rightarrow> shim_Success []
     | Some [] \<Rightarrow> shim_Success []
     | Some bs \<Rightarrow> (case account_Decode X bs of
           Inl e \<Rightarrow> shim_Error (Fmt ''failed to decode contract account: %s'' [AErr e])
         | Inr acct \<Rightarrow> shim_Success (bytes_of (hex_EncodeToString (code_bytes (acc_Code acct))))))"
  using assms
  by (auto simp: evmcc_getCode_def hex_encode_decode AddressFromBytes_def GetState_def
      account_key_def [symmetric] split: option.split list.split sum.split)

lemma evmcc_getCode_account:
  assumes "get_fault s = (\<lambda>_. None)" and "ledger_account X (ledger s) a = Inr (Some acc)"
  shows "evmcc_getCode X s (bytes_of (hex_EncodeToString (Address_Bytes a))) =
    shim_Success (bytes_of (hex_EncodeToString (code_bytes (acc_Code acc))))"
  using assms(2)
  by (auto simp: evmcc_getCode_ledger [OF assms(1)] ledger_account_def
      split: option.splits if_splits sum.splits list.splits)

subsection \<open>A failed invocation writes nothing\<close>

lemma deploy_state_stub:
  "st_stub (deploy_state X s a) = s" "st_stub (es_CreateAccount X (initial_state s) a) = s"
  by (rule run_initial(3) [OF steps_deploy_state], rule run_initial(3) [OF steps_CreateAccount])

lemma flush_Error_stub:
  assumes "evm_steps X (initial_state s) st" and "sink_Flush X sink st name = (Some e, st5)"
  shows "st_stub st5 = s"
  using run_initial [OF assms(1)] assms(2)
  by (auto simp: sink_Flush_def em_Flush_def SetEvent_def st_stub_def NewStateManager_def
      split: prod.splits if_splits sum.splits)

definition sync_failed :: "response \<Rightarrow> bool" where
  "sync_failed r \<longleftrightarrow> (\<exists>e. r = shim_Error (Fmt ''failed to sync: %s'' [AErr e]))"

lemma deploy_Error:
  assumes vm: "vm_ok X vm"
    and run: "evmcc_deploy X vm (initial_state s) sink caller nonce input gas = (Ok (shim_Error e), st)"
    and "\<not> sync_failed (shim_Error e)"
  shows "st_stub st = s"
proof -
  let ?a = "NewContractAddress (sha256_Sum X) caller nonce"
  obtain r st3 sink3 where call: "vm (deploy_state X s ?a) sink caller ?a (Some input) input 0 gas = (r, st3, sink3)"
    by (cases "vm (deploy_state X s ?a) sink caller ?a (Some input) input 0 gas")
  have st3: "evm_steps X (initial_state s) st3"
    using steps_deploy_state vm_okD(1) [OF vm call] by (rule rtranclp_trans)
  have st4: "evm_steps X (initial_state s) (es_InitCode X st3 ?a code)" for code
    using st3 steps_writes(1) by (rule rtranclp_trans)
  from run assms(3) call run_initial(3) [OF st3] show ?thesis
    by (auto simp: evmcc_deploy_def Let_def sync_failed_def deploy_state_def [symmetric] deploy_state_stub
        run_initial(3) [OF st4] flush_Error_stub [OF st4]
        split: option.splits prod.splits res.splits)
qed

lemma call_Error:
  assumes vm: "vm_ok X vm"
    and run: "evmcc_call X vm (initial_state s) sink caller callee arg1 input gas = (Ok (shim_Error e), st)"
    and "\<not> sync_failed (shim_Error e)"
  shows "st_stub st = s"
proof -
  obtain code st1 where code: "es_GetCode X (initial_state s) callee = (code, st1)"
    by (cases "es_GetCode X (initial_state s) callee")
  obtain r st2 sink2 where call: "vm st1 sink caller callee code input 0 gas = (r, st2, sink2)"
    by (cases "vm st1 sink caller callee code input 0 gas")
  have st1: "evm_steps X (initial_state s) st1"
    using steps_reads(4) [of X "initial_state s" callee] code by simp
  have st2: "evm_steps X (initial_state s) st2"
    using st1 vm_okD(1) [OF vm call] by (rule rtranclp_trans)
  from run assms(3) code call run_initial(3) [OF st1] run_initial(3) [OF st2] show ?thesis
    by (auto simp: evmcc_call_def sync_failed_def slice_to_def flush_Error_stub [OF st2]
        split: option.splits prod.splits res.splits if_splits)
qed

lemma Invoke_Error:
  assumes "\<And>caller nonce. vm_ok X (NewVM newParams caller nonce)"
    and "evmcc_Invoke X NewVM s = (Ok (shim_Error e), s')" and "\<not> sync_failed (shim_Error e)"
  shows "s' = s"
  using assms(2,3) deploy_Error [OF assms(1)] call_Error [OF assms(1)]
  unfolding evmcc_Invoke_def Let_def initial_state_def [symmetric]
  by (auto simp: apsnd_def map_prod_def split: if_splits sum.splits option.splits prod.splits)

subsection \<open>What a successful invocation commits\<close>

lemma call_commits:
  assumes "codec_ok X" and "vm_ok X vm" and "fresh_stub s" and "ledger_ok X (ledger s)"
    and run: "evmcc_call X vm (initial_state s) sink caller callee arg1 input gas = (Ok (shim_Success r), st4)"
  obtains code st1 out st2 sink2 name where "es_GetCode X (initial_state s) callee = (code, st1)"
    and "vm st1 sink caller callee code input 0 gas = (Ok out, st2, sink2)" and "r = code_bytes out"
    and "slice_to arg1 8 = Ok name" and "st_error st2 = None" and "evm_steps X (initial_state s) st2"
    and "\<And>a. kept (ledger_account X (commit (st_stub st4)) a) = kept (acc_view X (chain st2) a)"
    and "\<And>a acc. acc_view X (chain st2) a = Inr acc \<Longrightarrow> \<not> removed_in (st_cache st2) a \<Longrightarrow>
      ledger_storage X (commit (st_stub st4)) a = sto_view X (chain st2) a"
    and "chaincode_event (st_stub st4) = (if EventCache sink2 = [] then None
      else Some (string_of name, projr (json_Marshal_events X (EventCache sink2))))"
    and "same_context s (st_stub st4)"
proof -
  from run obtain code st1 out st2 sink2 name st3 where
    code: "es_GetCode X (initial_state s) callee = (code, st1)"
    and call: "vm st1 sink caller callee code input 0 gas = (Ok out, st2, sink2)"
    and name: "slice_to arg1 8 = Ok name"
    and flush: "sink_Flush X sink2 st2 (string_of name) = (None, st3)"
    and sync: "es_Sync X st3 = (Ok (), st4)" and r: "r = code_bytes out"
    by (rule call_Success)
  have "evm_steps X (initial_state s) st1"
    using steps_reads(4) [of X "initial_state s" callee] code by simp
  then have st2: "evm_steps X (initial_state s) st2"
    using vm_okD(1) [OF assms(2) call] by (rule rtranclp_trans)
  note done' = flush_sync [OF assms(1,3,4) st2 flush sync]
  show ?thesis
    by (rule that [OF code call r name done'(5) st2 done'(1) done'(2) done'(3) done'(4)])
qed

text \<open>The account a deployment starts with: new, with the contract permissions, and without code.\<close>

definition contract_account :: "address \<Rightarrow> account" where
  "contract_account a =
     map_base (\<lambda>bp. snd (perm_Set bp ContractPermFlags True)) (new_account a)"

lemma contract_account_simps [simp]:
  "acc_Address (contract_account a) = a" "acc_Code (contract_account a) = None"
  "acc_Balance (contract_account a) = 0"
  by (simp_all add: contract_account_def map_base_def map_permissions_def new_account_def)

lemma deploy_state_views:
  assumes "fresh_stub s" and "ledger_ok X (ledger s)" and none: "st_error (deploy_state X s a) = None"
  shows "ledger_account X (ledger s) a = Inr None"
    and "acc_view X (chain (deploy_state X s a)) =
      put_account (ledger_account X (ledger s)) a (Some (contract_account a))"
proof -
  let ?st1 = "es_CreateAccount X (initial_state s) a"
  note co = initial_coherent [OF assms(1,2)]
  note initial = initial_views(1) [OF assms(1), of X]
  have co1: "coherent X (chain ?st1)"
    using evm_steps_invariant(2) [OF steps_CreateAccount co] .
  from none obtain acc where acc: "acc_view X (chain ?st1) a = Inr (Some acc)"
    and put: "acc_view X (chain (deploy_state X s a)) = put_account (acc_view X (chain ?st1)) a
      (Some (map_base (\<lambda>bp. snd (perm_Set bp ContractPermFlags True)) acc))"
    unfolding deploy_state_def by (rule es_SetPermission_Ok [OF co1]) blast
  have none1: "st_error ?st1 = None"
    using evm_steps_no_error [OF steps_writes(4)] none unfolding deploy_state_def .
  have "\<exists>y. acc_view X (chain (initial_state s)) a = Inr y"
  proof (cases "acc_view X (chain (initial_state s)) a")
    case (Inl e)
    from es_CreateAccount_unreadable [OF this] acc Inl show ?thesis
      by (simp add: same_view_def)
  qed blast
  then obtain y where "acc_view X (chain (initial_state s)) a = Inr y" ..
  note create = es_CreateAccount_Ok [OF co none1 this]
  show "ledger_account X (ledger s) a = Inr None"
    using create(1) by (simp only: initial)
  have "acc = new_account a"
    using acc create(2) by (simp add: put_account_def)
  with put create(2) show "acc_view X (chain (deploy_state X s a)) =
      put_account (ledger_account X (ledger s)) a (Some (contract_account a))"
    by (simp add: put_account_def contract_account_def flip: initial)
qed

lemma deploy_commits:
  assumes "codec_ok X" and "vm_ok X vm" and "fresh_stub s" and "ledger_ok X (ledger s)"
    and run: "evmcc_deploy X vm (initial_state s) sink caller nonce input gas = (Ok (shim_Success r), st6)"
    and a: "a = NewContractAddress (sha256_Sum X) caller nonce"
  obtains rt st3 sink3 acc where
    "vm (deploy_state X s a) sink caller a (Some input) input 0 gas = (Ok (Some rt), st3, sink3)"
    and "ledger_account X (ledger s) a = Inr None" and "r = bytes_of (hex_EncodeToString (Address_Bytes a))"
    and "acc_view X (chain st3) a = Inr (Some acc)" and "acc_Code acc = None" and "st_error st3 = None"
    and "kept (ledger_account X (commit (st_stub st6)) a) = kept (Inr (Some (acc\<lparr>acc_Code := Some rt\<rparr>)))"
    and "\<And>b. b \<noteq> a \<Longrightarrow> kept (ledger_account X (commit (st_stub st6)) b) = kept (acc_view X (chain st3) b)"
    and "chaincode_event (st_stub st6) = (if EventCache sink3 = [] then None
      else Some (hex_EncodeToString (take 4 (Address_Bytes a)), projr (json_Marshal_events X (EventCache sink3))))"
    and "same_context s (st_stub st6)"
proof -
  from run a obtain rt st3 sink3 st5 where
    none2: "st_error (deploy_state X s a) = None"
    and call: "vm (deploy_state X s a) sink caller a (Some input) input 0 gas = (Ok (Some rt), st3, sink3)"
    and none4: "st_error (es_InitCode X st3 a (Some rt)) = None"
    and flush: "sink_Flush X sink3 (es_InitCode X st3 a (Some rt)) (hex_EncodeToString (take 4 (Address_Bytes a))) =
      (None, st5)"
    and sync: "es_Sync X st5 = (Ok (), st6)" and r: "r = bytes_of (hex_EncodeToString (Address_Bytes a))"
    by (rule deploy_Success)
  have st3: "evm_steps X (initial_state s) st3"
    using steps_deploy_state vm_okD(1) [OF assms(2) call] by (rule rtranclp_trans)
  have co3: "coherent X (chain st3)"
    using evm_steps_invariant(2) [OF st3 initial_coherent [OF assms(3,4)]] .
  have st4: "evm_steps X (initial_state s) (es_InitCode X st3 a (Some rt))"
    using st3 steps_writes(1) by (rule rtranclp_trans)
  have none3: "st_error st3 = None"
    using evm_steps_no_error [OF steps_writes(1)] none4 .
  obtain acc where acc: "acc_view X (chain st3) a = Inr (Some acc)" "acc_Code acc = None"
    and put: "acc_view X (chain (es_InitCode X st3 a (Some rt))) =
      put_account (acc_view X (chain st3)) a (Some (acc\<lparr>acc_Code := Some rt\<rparr>))"
    by (rule es_InitCode_Ok [OF co3 none4]) blast
  note fin = flush_sync [OF assms(1,3,4) st4 flush sync]
  show ?thesis
  proof (rule that [OF call deploy_state_views(1) [OF assms(3,4) none2] r acc none3])
    show "kept (ledger_account X (commit (st_stub st6)) a) = kept (Inr (Some (acc\<lparr>acc_Code := Some rt\<rparr>)))"
      using fin(1) [of a] put by (simp add: put_account_def)
    show "kept (ledger_account X (commit (st_stub st6)) b) = kept (acc_view X (chain st3) b)" if "b \<noteq> a" for b
      using fin(1) [of b] put that by (simp add: put_account_def)
  qed (use fin(3,4) in auto)
qed

text \<open>The code a deployment returned is what \<^verbatim>\<open>getCode\<close> answers from then on.\<close>

lemma getCode_after_commit:
  assumes "kept (ledger_account X (commit s) a) = kept (Inr (Some acc))" and "get_fault s = (\<lambda>_. None)"
  shows "evmcc_getCode X (next_transaction s) (bytes_of (hex_EncodeToString (Address_Bytes a))) =
    shim_Success (bytes_of (hex_EncodeToString (code_bytes (acc_Code acc))))"
proof -
  from assms(1) obtain acc' where acc': "ledger_account X (commit s) a = Inr (Some acc')"
    and "stored_account acc' = stored_account acc"
    by (auto simp only: kept_Inr)
  then have "code_bytes (acc_Code acc') = code_bytes (acc_Code acc)"
    using stored_account_simps(2) [of acc'] stored_account_simps(2) [of acc] by simp
  with evmcc_getCode_account [of "next_transaction s" X a acc'] acc' assms(2) show ?thesis
    by (simp add: next_transaction_def)
qed

text \<open>A deployment, from the arguments of the invocation to the next transaction's \<^verbatim>\<open>getCode\<close>.\<close>

lemma Invoke_deploys:
  assumes "codec_ok X" and "\<And>c n. vm_ok X (NewVM newParams c n)"
    and "fresh_stub s" and "ledger_ok X (ledger s)"
    and "invocation s (hex_EncodeToString (Address_Bytes ZeroAddress)) data"
    and "hex_DecodeString data = Inr input" and "getCallerAddress X s = (caller, None)"
    and run: "evmcc_Invoke X NewVM s = (Ok (shim_Success r), s')"
    and nonce: "nonce = Nonce (sha256_Sum X) caller (bytes_of (stub_txid s))"
    and a: "a = NewContractAddress (sha256_Sum X) caller nonce"
  shows "\<exists>rt st sink. NewVM newParams caller nonce (deploy_state X s a) \<lparr>EventCache = []\<rparr> caller a
      (Some input) input 0 10000 = (Ok (Some rt), st, sink) \<and>
    r = bytes_of (hex_EncodeToString (Address_Bytes a)) \<and> ledger_account X (ledger s) a = Inr None \<and>
    evmcc_getCode X (next_transaction s') r = shim_Success (bytes_of (hex_EncodeToString rt)) \<and>
    get_fault s' = (\<lambda>_. None)"
proof -
  obtain st6 where deploy: "evmcc_deploy X (NewVM newParams caller nonce) (initial_state s) \<lparr>EventCache = []\<rparr>
      caller nonce input 10000 = (Ok (shim_Success r), st6)" and s': "s' = st_stub st6"
    using run Invoke_two_args [OF assms(5) _ _ _ assms(7,6), of "Address_Bytes ZeroAddress" NewVM] nonce
    by (auto simp: apsnd_def map_prod_def Let_def split: prod.splits)
  show ?thesis
  proof (rule deploy_commits [OF assms(1,2,3,4) deploy a])
    fix rt st sink acc
    assume "NewVM newParams caller nonce (deploy_state X s a) \<lparr>EventCache = []\<rparr> caller a (Some input) input 0
        10000 = (Ok (Some rt), st, sink)"
      and "ledger_account X (ledger s) a = Inr None" and "r = bytes_of (hex_EncodeToString (Address_Bytes a))"
      and kept: "kept (ledger_account X (commit (st_stub st6)) a) = kept (Inr (Some (acc\<lparr>acc_Code := Some rt\<rparr>)))"
      and "same_context s (st_stub st6)"
    moreover from this have "get_fault s' = (\<lambda>_. None)"
      using assms(3) by (simp add: s' fresh_stub_def same_context_iff)
    ultimately show ?thesis
      using getCode_after_commit [of X s' a "acc\<lparr>acc_Code := Some rt\<rparr>"] by (auto simp: s' code_bytes_def)
  qed
qed

text \<open>What a call through \<^verbatim>\<open>Invoke\<close> commits.\<close>

lemma Invoke_commits:
  assumes "codec_ok X" and "\<And>c n. vm_ok X (NewVM newParams c n)"
    and "fresh_stub s" and "ledger_ok X (ledger s)" and "b \<noteq> ZeroAddress"
    and inv: "stub_args s = [\<lparr>contents = bytes_of (hex_EncodeToString (Address_Bytes b)), spare = sp\<rparr>,
      \<lparr>contents = bytes_of data, spare = sp'\<rparr>]"
    and "hex_DecodeString data = Inr input" and "getCallerAddress X s = (caller, None)"
    and run: "evmcc_Invoke X NewVM s = (Ok (shim_Success r), s')"
  shows "\<exists>code st1 out st sink. es_GetCode X (initial_state s) b = (code, st1) \<and>
    NewVM newParams caller (Nonce (sha256_Sum X) caller (bytes_of (stub_txid s))) st1 \<lparr>EventCache = []\<rparr>
      caller b code input 0 10000 = (Ok out, st, sink) \<and> r = code_bytes out \<and>
    (\<forall>a. kept (ledger_account X (commit s') a) = kept (acc_view X (chain st) a)) \<and>
    (\<forall>a acc. acc_view X (chain st) a = Inr acc \<longrightarrow> \<not> removed_in (st_cache st) a \<longrightarrow>
       ledger_storage X (commit s') a = sto_view X (chain st) a) \<and>
    chaincode_event s' = (if EventCache sink = [] then None
      else Some (take 8 (data @ string_of sp'), projr (json_Marshal_events X (EventCache sink))))"
proof -
  let ?vm = "NewVM newParams caller (Nonce (sha256_Sum X) caller (bytes_of (stub_txid s)))"
  have "invocation s (hex_EncodeToString (Address_Bytes b)) data"
    using inv by (simp add: invocation_def)
  from Invoke_two_args [OF this _ _ _ assms(8,7), of "Address_Bytes b" NewVM] run assms(5) inv
  obtain st4 where call: "evmcc_call X ?vm (initial_state s) \<lparr>EventCache = []\<rparr> caller b
      \<lparr>contents = bytes_of data, spare = sp'\<rparr> input 10000 = (Ok (shim_Success r), st4)" and s': "s' = st_stub st4"
    by (auto simp: apsnd_def map_prod_def Let_def split: prod.splits)
  show ?thesis
  proof (rule call_commits [OF assms(1,2,3,4) call])
    fix code st1 out st sink name
    assume facts: "es_GetCode X (initial_state s) b = (code, st1)"
      "?vm st1 \<lparr>EventCache = []\<rparr> caller b code input 0 10000 = (Ok out, st, sink)" "r = code_bytes out"
      "\<And>a. kept (ledger_account X (commit (st_stub st4)) a) = kept (acc_view X (chain st) a)"
      "\<And>a acc. acc_view X (chain st) a = Inr acc \<Longrightarrow> \<not> removed_in (st_cache st) a \<Longrightarrow>
        ledger_storage X (commit (st_stub st4)) a = sto_view X (chain st) a"
      and name: "slice_to \<lparr>contents = bytes_of data, spare = sp'\<rparr> 8 = Ok name"
      and event: "chaincode_event (st_stub st4) = (if EventCache sink = [] then None
        else Some (string_of name, projr (json_Marshal_events X (EventCache sink))))"
    have "string_of name = take 8 (data @ string_of sp')"
      using name by (auto simp: slice_to_def string_of_take string_of_append split: if_splits)
    with event have "chaincode_event s' = (if EventCache sink = [] then None
        else Some (take 8 (data @ string_of sp'), projr (json_Marshal_events X (EventCache sink))))"
      by (simp only: s')
    with facts show ?thesis
      unfolding s' by blast
  qed
qed

end
