(* ===== verification/Demo_Run.thy ===== *)
theory Demo_Run
  imports Chaincode_Results
begin

section \<open>Two transactions, executed\<close>

text \<open>
  Concrete runs of the chaincode on the concrete externals and virtual machine: a deployment on an
  empty ledger and a call of a contract that is on the ledger. They are the inputs of the witnesses.
\<close>

definition demo_stub :: "string \<Rightarrow> string \<Rightarrow> (string \<rightharpoonup> bytes) \<Rightarrow> stub" where
  "demo_stub callee data L =
     \<lparr>stub_args = [\<lparr>contents = bytes_of callee, spare = []\<rparr>, \<lparr>contents = bytes_of data, spare = []\<rparr>],
      stub_creator = Inr [1], stub_txid = ''tx1'', ledger = L, write_set = Map.empty,
      chaincode_event = None, get_fault = (\<lambda>_. None), put_fault = (\<lambda>_. None), del_fault = (\<lambda>_. None)\<rparr>"

lemma demo_stub_simps [simp]:
  "stub_creator (demo_stub c d L) = Inr [1]" "stub_txid (demo_stub c d L) = ''tx1''"
  "ledger (demo_stub c d L) = L" "write_set (demo_stub c d L) = Map.empty"
  "chaincode_event (demo_stub c d L) = None" "get_fault (demo_stub c d L) = (\<lambda>_. None)"
  "put_fault (demo_stub c d L) = (\<lambda>_. None)" "del_fault (demo_stub c d L) = (\<lambda>_. None)"
  "stub_args (demo_stub c d L) =
     [\<lparr>contents = bytes_of c, spare = []\<rparr>, \<lparr>contents = bytes_of d, spare = []\<rparr>]"
  by (simp_all add: demo_stub_def)

lemma demo_externals_simps [simp]:
  "account_Encode demo_externals = demo_encode" "account_Decode demo_externals = demo_decode"
  "json_Marshal_events demo_externals = demo_marshal"
  "sha256_Sum demo_externals = (\<lambda>_. replicate 32 9)"
  by (simp_all add: demo_externals_def)

definition demo_caller :: address where
  "demo_caller = copy_to_address (replicate 20 7)"

definition demo_contract :: address where
  "demo_contract = copy_to_address (replicate 32 9)"

lemma demo_getCallerAddress [simp]:
  "getCallerAddress demo_externals (demo_stub c d L) = (demo_caller, None)"
  by (simp add: getCallerAddress_def IdentityToAddr_def demo_externals_def identity_ext.defs
      AddressFromBytes_def demo_caller_def)

lemma demo_NewContractAddress [simp]:
  "NewContractAddress (\<lambda>_. replicate 32 9) c n = demo_contract"
  by (simp add: NewContractAddress_def Nonce_def demo_contract_def)

lemmas demo_run_defs =
  es_CreateAccount_def es_Exists_def es_SetPermission_def es_mustAccount_def es_account_def
  es_updateAccount_def es_InitCode_def es_SetStorage_def es_GetCode_def es_PushError_def set_chain_def chain_def
  evmcc_deploy_def evmcc_call_def initial_state_def NewState_def NewCache_def NewStateManager_def
  cache_get.simps sm_GetAccount_def GetState_def PutState_def DelState_def Let_def set_info_def
  map_base_def map_permissions_def perm_Set_def new_account_def ContractPermFlags_def perm_Call_def
  perm_Send_def perm_CreateContract_def demo_vm_def em_Log_eq sink_Flush_def em_Flush_def
  SetEvent_def es_Sync_def backend_Sync_def Cache_Sync_def Sync_account_def sm_UpdateAccount_def
  sm_SetStorage_def st_stub_def code_bytes_def res_of_error_def demo_encode_def demo_marshal_def

text \<open>A deployment.\<close>

definition demo_deploy :: stub where
  "demo_deploy = demo_stub (hex_EncodeToString (Address_Bytes ZeroAddress)) (hex_EncodeToString [96, 1]) Map.empty"

lemma demo_deploy_run:
  "\<exists>s'. evmcc_Invoke demo_externals (demo_vm demo_externals) demo_deploy =
     (Ok (shim_Success (bytes_of (hex_EncodeToString (Address_Bytes demo_contract)))), s')"
  by (simp add: demo_deploy_def evmcc_Invoke_def AddressFromBytes_def demo_run_defs)

text \<open>A call of a contract on the ledger, with 4 bytes of input.\<close>

lemma demo_contract_not_zero [simp]: "demo_contract \<noteq> ZeroAddress"
proof
  assume "demo_contract = ZeroAddress"
  then have "copy_to_address (replicate 20 9) = copy_to_address (replicate 20 0)"
    by (simp add: demo_contract_def copy_to_address_def ZeroAddress_def)
  then have "replicate 20 (9 :: byte) = replicate 20 0"
    by (metis Address_Bytes_copy length_replicate)
  then show False
    by simp
qed

definition demo_account :: account where
  "demo_account = (contract_account demo_contract)\<lparr>acc_Code := Some [96, 1]\<rparr>"

definition demo_ledger :: "string \<rightharpoonup> bytes" where
  "demo_ledger = [hex_EncodeToString (Address_Bytes demo_contract) \<mapsto> 1 # [96, 1] @ Address_Bytes demo_contract]"

lemma demo_ledger_account:
  "ledger_account demo_externals demo_ledger a = Inr (if a = demo_contract then Some demo_account else None)"
  by (simp add: ledger_account_def demo_ledger_def account_key_eq demo_decode_def hex.print_inject
      demo_account_def contract_account_def map_base_def map_permissions_def new_account_def perm_Set_def
      ContractPermFlags_def perm_Call_def perm_Send_def perm_CreateContract_def Address_Bytes_inject)

lemma demo_ledger_ok: "ledger_ok demo_externals demo_ledger"
  by (simp add: ledger_ok_def demo_ledger_account demo_account_def)

definition demo_call :: stub where
  "demo_call = demo_stub (hex_EncodeToString (Address_Bytes demo_contract)) (hex_EncodeToString [96, 1, 0, 0]) demo_ledger"

lemma demo_account_simps [simp]:
  "acc_Address demo_account = demo_contract" "acc_Code demo_account = Some [96, 1]"
  "demo_encode demo_account = Inr (1 # [96, 1] @ Address_Bytes demo_contract)"
  by (simp_all add: demo_account_def demo_encode_def contract_account_def map_base_def map_permissions_def
      new_account_def perm_Set_def ContractPermFlags_def perm_Call_def perm_Send_def
      perm_CreateContract_def code_bytes_def)

lemma demo_call_account:
  "sm_GetAccount demo_externals \<lparr>sm_stub = demo_call, sm_cache = \<lambda>_. None\<rparr> a =
     Inr (if a = demo_contract then Some demo_account else None)"
  by (subst sm_GetAccount_ledger) (simp_all add: demo_call_def demo_ledger_account)

lemma demo_call_fresh: "fresh_stub demo_call"
  by (simp add: demo_call_def fresh_stub_def)

lemma demo_call_simps [simp]:
  "stub_args demo_call = [\<lparr>contents = bytes_of (hex_EncodeToString (Address_Bytes demo_contract)), spare = []\<rparr>,
     \<lparr>contents = bytes_of (hex_EncodeToString [96, 1, 0, 0]), spare = []\<rparr>]"
  "getCallerAddress demo_externals demo_call = (demo_caller, None)"
  "put_fault demo_call = (\<lambda>_. None)" "write_set demo_call = Map.empty" "chaincode_event demo_call = None"
  "ledger demo_call = demo_ledger"
  by (simp_all add: demo_call_def)

lemmas demo_call_defs =
  es_account_def es_SetStorage_def es_GetCode_def es_PushError_def set_chain_def chain_def
  evmcc_call_def initial_state_def NewState_def NewCache_def NewStateManager_def
  cache_get.simps PutState_def Let_def set_info_def demo_vm_def em_Log_eq sink_Flush_def em_Flush_def
  SetEvent_def es_Sync_def backend_Sync_def Cache_Sync_def Sync_account_def sm_UpdateAccount_def
  sm_SetStorage_def st_stub_def code_bytes_def res_of_error_def demo_marshal_def Zero256_def

lemma demo_call_run:
  "\<exists>s'. evmcc_Invoke demo_externals (demo_vm demo_externals) demo_call = (Ok (shim_Success [96, 1]), s')"
  by (simp add: evmcc_Invoke_def AddressFromBytes_def demo_call_defs slice_to_def demo_call_account)

text \<open>The same call without data.\<close>

definition demo_short :: stub where
  "demo_short = demo_stub (hex_EncodeToString (Address_Bytes demo_contract)) [] demo_ledger"

lemma demo_short_account:
  "sm_GetAccount demo_externals \<lparr>sm_stub = demo_short, sm_cache = \<lambda>_. None\<rparr> a =
     Inr (if a = demo_contract then Some demo_account else None)"
  by (subst sm_GetAccount_ledger) (simp_all add: demo_short_def demo_ledger_account)

lemma demo_short_simps [simp]:
  "stub_args demo_short = [\<lparr>contents = bytes_of (hex_EncodeToString (Address_Bytes demo_contract)), spare = []\<rparr>,
     \<lparr>contents = [], spare = []\<rparr>]"
  "getCallerAddress demo_externals demo_short = (demo_caller, None)"
  by (simp_all add: demo_short_def bytes_of_def [of "[]"])

lemma demo_short_run:
  "fst (evmcc_Invoke demo_externals (demo_vm demo_externals) demo_short) = Panic ''slice bounds out of range''"
  by (simp add: evmcc_Invoke_def AddressFromBytes_def demo_call_defs slice_to_def demo_short_account
      string_of_def [of "[]"])

text \<open>An address that has no account in these runs.\<close>

lemma demo_contract_not_one: "demo_contract \<noteq> 1"
proof
  assume one: "demo_contract = 1"
  have "Address_Bytes demo_contract = replicate 20 9"
    using Address_Bytes_copy [of "replicate 20 9"] by (simp add: demo_contract_def copy_to_address_def)
  then have "last (Address_Bytes demo_contract) = 9"
    by simp
  moreover have "last (Address_Bytes 1) = 1"
    using be_bytes.simps(2) [of 19 1] by (simp add: Address_Bytes_def)
  ultimately show False
    using one by simp
qed

end
