(* ===== verification/Evm_Calls.thy ===== *)
theory Evm_Calls
  imports Evm_State_Laws
begin

section \<open>Permissions and transfers\<close>

text \<open>
  The functions of Burrow's \<^verbatim>\<open>execution/evm/vm.go\<close> that act on the state outside the
  opcodes: \<^verbatim>\<open>HasPermission\<close>, \<^verbatim>\<open>EnsurePermission\<close> and \<^verbatim>\<open>transfer\<close>.
\<close>

definition GlobalPermissionsAddress :: address where
  "GlobalPermissionsAddress = 0"

definition HasPermission ::
    "('pk, 'z) externals_scheme \<Rightarrow> evm_state \<Rightarrow> address \<Rightarrow> perm_flag \<Rightarrow> bool \<times> evm_state" where
  "HasPermission X st a perm =
     (case es_GetPermissions X st GlobalPermissionsAddress of (globalPerms, st1) \<Rightarrow>
     (case es_GetPermissions X st1 a of (accPerms, st2) \<Rightarrow>
       (case perm_Get (perm_Compose (Base accPerms) (Base globalPerms)) perm of
          Inl _ \<Rightarrow> (False, st2) | Inr value \<Rightarrow> (value, st2))))"

text \<open>
  The denial has no \<^verbatim>\<open>String\<close> method, so it is no coded error and is kept as a generic one.
\<close>

definition EnsurePermission ::
    "('pk, 'z) externals_scheme \<Rightarrow> evm_state \<Rightarrow> address \<Rightarrow> perm_flag \<Rightarrow> evm_state" where
  "EnsurePermission X st a perm =
     (case HasPermission X st a perm of
        (True, st') \<Rightarrow> st'
      | (False, st') \<Rightarrow> es_PushError st' (Some (Coded ErrorCodeGeneric
          ''Account/contract %v does not have permission %v'' [AStr (Address_String a), ANat (unat perm)])))"

definition transfer ::
    "('pk, 'z) externals_scheme \<Rightarrow> evm_state \<Rightarrow> address \<Rightarrow> address \<Rightarrow> 64 word \<Rightarrow> go_error option \<times> evm_state" where
  "transfer X st from to amount =
     (if amount = 0 then (None, st)
      else (case es_GetBalance X st from of (balance, st1) \<Rightarrow>
        (if balance < amount then (Some (Coded ErrorCodeInsufficientBalance (Code_String ErrorCodeInsufficientBalance) []), st1)
         else (let st2 = es_AddToBalance X (es_SubtractFromBalance X st1 from amount) to amount
               in (st_error st2, st2)))))"

subsection \<open>What they change\<close>

lemma steps_GetPermissions: "es_GetPermissions X st a = (p, st') \<Longrightarrow> evm_steps X st st'"
  using steps_reads(3) [of X st a] by simp

lemma steps_transfer: "evm_steps X st (snd (transfer X st from to amount))"
proof -
  obtain v st1 where bal: "es_GetBalance X st from = (v, st1)"
    by (cases "es_GetBalance X st from")
  have "evm_steps X st st1"
    using steps_reads(2) [of X st "from"] bal by simp
  then show ?thesis
    using bal by (auto simp: transfer_def Let_def
        intro: rtranclp_trans [OF _ rtranclp_trans [OF steps_writes(3) steps_writes(2)]])
qed

lemma es_GetBalance_read:
  assumes "es_GetBalance X st a = (v, st')"
  shows "same_view X (chain st) (chain st')"
    and "acc_view X (chain st) a = Inr (Some acc) \<Longrightarrow> v = acc_Balance acc"
proof -
  obtain q where q: "es_account X st a = (q, st')"
    and v: "v = (case q of None \<Rightarrow> 0 | Some acc \<Rightarrow> acc_Balance acc)"
    using assms by (auto simp: es_GetBalance_def apfst_def map_prod_def split: prod.splits)
  show "same_view X (chain st) (chain st')"
    using es_account_read(1) [OF q] .
  show "acc_view X (chain st) a = Inr (Some acc) \<Longrightarrow> v = acc_Balance acc"
    using es_account_read(2) [OF q] v by simp
qed

text \<open>A transfer without an error moves exactly the amount, and changes nothing else.\<close>

lemma transfer_moves:
  assumes co: "coherent X (chain st)" and run: "transfer X st src dst amount = (None, st')"
  shows "sto_view X (chain st') = sto_view X (chain st)"
    and "amount = 0 \<or> src = dst \<Longrightarrow> acc_view X (chain st') = acc_view X (chain st)"
    and "amount \<noteq> 0 \<Longrightarrow> src \<noteq> dst \<Longrightarrow>
      \<exists>a b. acc_view X (chain st) src = Inr (Some a) \<and> acc_view X (chain st) dst = Inr (Some b) \<and>
        unat (acc_Balance a - amount) + unat amount = unat (acc_Balance a) \<and>
        unat (acc_Balance b + amount) = unat (acc_Balance b) + unat amount \<and>
        acc_view X (chain st') = (acc_view X (chain st))(src := Inr (Some (a\<lparr>acc_Balance := acc_Balance a - amount\<rparr>)),
          dst := Inr (Some (b\<lparr>acc_Balance := acc_Balance b + amount\<rparr>)))"
proof -
  obtain v st1 where bal: "es_GetBalance X st src = (v, st1)"
    by (cases "es_GetBalance X st src")
  let ?st2 = "es_SubtractFromBalance X st1 src amount"
  have views: "\<exists>a b. acc_view X (chain st) src = Inr (Some a) \<and>
      unat (acc_Balance a - amount) + unat amount = unat (acc_Balance a) \<and>
      acc_view X (chain ?st2) = (acc_view X (chain st))(src := Inr (Some (a\<lparr>acc_Balance := acc_Balance a - amount\<rparr>))) \<and>
      acc_view X (chain ?st2) dst = Inr (Some b) \<and> unat (acc_Balance b + amount) = unat (acc_Balance b) + unat amount \<and>
      acc_view X (chain st') = (acc_view X (chain ?st2))(dst := Inr (Some (b\<lparr>acc_Balance := acc_Balance b + amount\<rparr>))) \<and>
      sto_view X (chain st') = sto_view X (chain st)" if "amount \<noteq> 0"
  proof -
    have st': "st' = es_AddToBalance X ?st2 dst amount" and none: "st_error (es_AddToBalance X ?st2 dst amount) = None"
      using run bal that by (auto simp: transfer_def Let_def split: if_splits)
    have same: "same_view X (chain st) (chain st1)"
      using es_GetBalance_read(1) [OF bal] .
    have co1: "coherent X (chain st1)"
      using evm_steps_invariant(2) [OF _ co] steps_reads(2) [of X st src] bal by simp
    have none2: "st_error ?st2 = None"
      using evm_steps_no_error [OF steps_writes(2)] none .
    obtain acc where acc: "acc_view X (chain st1) src = Inr (Some acc)"
      and sub: "unat (acc_Balance acc - amount) + unat amount = unat (acc_Balance acc)"
      and put1: "acc_view X (chain ?st2) = put_account (acc_view X (chain st1)) src
        (Some (acc\<lparr>acc_Balance := acc_Balance acc - amount\<rparr>))"
      and sto1: "sto_view X (chain ?st2) = sto_view X (chain st1)"
      by (rule es_SubtractFromBalance_Ok [OF co1 none2]) blast
    have co2: "coherent X (chain ?st2)"
      using evm_steps_invariant(2) [OF steps_writes(3) co1] .
    obtain acc' where acc': "acc_view X (chain ?st2) dst = Inr (Some acc')"
      and add: "unat (acc_Balance acc' + amount) = unat (acc_Balance acc') + unat amount"
      and put2: "acc_view X (chain st') = put_account (acc_view X (chain ?st2)) dst
        (Some (acc'\<lparr>acc_Balance := acc_Balance acc' + amount\<rparr>))"
      and sto2: "sto_view X (chain st') = sto_view X (chain ?st2)"
      unfolding st' by (rule es_AddToBalance_Ok [OF co2 none]) blast
    have "acc_view X (chain st1) = acc_view X (chain st)" and "sto_view X (chain st1) = sto_view X (chain st)"
      using same by (simp_all add: same_view_def)
    then show ?thesis
      using acc sub put1 sto1 acc' add put2 sto2 by (intro exI [of _ acc] exI [of _ acc']) (simp add: put_account_def)
  qed
  have zero: "st' = st" if "amount = 0"
    using run that by (simp add: transfer_def)
  show "sto_view X (chain st') = sto_view X (chain st)"
    using views zero by (cases "amount = 0") auto
  show "acc_view X (chain st') = acc_view X (chain st)" if "amount = 0 \<or> src = dst"
  proof (cases "amount = 0")
    case False
    with that have "src = dst" by simp
    with views [OF False] show ?thesis by (auto simp: fun_upd_idem)
  qed (simp add: zero)
  show "amount \<noteq> 0 \<Longrightarrow> src \<noteq> dst \<Longrightarrow>
      \<exists>a b. acc_view X (chain st) src = Inr (Some a) \<and> acc_view X (chain st) dst = Inr (Some b) \<and>
        unat (acc_Balance a - amount) + unat amount = unat (acc_Balance a) \<and>
        unat (acc_Balance b + amount) = unat (acc_Balance b) + unat amount \<and>
        acc_view X (chain st') = (acc_view X (chain st))(src := Inr (Some (a\<lparr>acc_Balance := acc_Balance a - amount\<rparr>)),
          dst := Inr (Some (b\<lparr>acc_Balance := acc_Balance b + amount\<rparr>)))"
    using views by auto
qed

end
