(* ===== verification/Chaincode_Properties.thy ===== *)
theory Chaincode_Properties
  imports Demo_Run Evm_Calls
begin

section \<open>Properties of the chaincode\<close>

text \<open>
  The results about \<^verbatim>\<open>evmcc\<close> and the state under it, each with a witness that runs it on
  a concrete transaction where it has hypotheses.
\<close>

subsection \<open>Transactions\<close>

text \<open>C1. A deployment that succeeds answers with the hex of an address that had no account before,
  and from the commit on \<^verbatim>\<open>getCode\<close> of that answer is the hex of the runtime code that the
  virtual machine returned.\<close>

theorem deployed_code_is_served:
  assumes "codec_ok X" and "\<And>c n. vm_ok X (NewVM newParams c n)"
    and "fresh_stub s" and "ledger_ok X (ledger s)"
    and "invocation s (hex_EncodeToString (Address_Bytes ZeroAddress)) data"
    and "hex_DecodeString data = Inr input" and "getCallerAddress X s = (caller, None)"
    and run: "evmcc_Invoke X NewVM s = (Ok (shim_Success r), s')"
    and nonce: "nonce = Nonce (sha256_Sum X) caller (bytes_of (stub_txid s))"
    and a: "a = NewContractAddress (sha256_Sum X) caller nonce"
  shows "\<exists>rt st sink. NewVM newParams caller nonce (deploy_state X s a) \<lparr>EventCache = []\<rparr> caller a
      (Some input) input 0 10000 = (Ok (Some rt), st, sink) \<and>
    r = bytes_of (hex_EncodeToString (Address_Bytes a)) \<and> ledger_account X (ledger s) a = Inr None \<and>
    evmcc_getCode X (next_transaction s') r = shim_Success (bytes_of (hex_EncodeToString rt))"
  using Invoke_deploys [OF assms] by blast

lemma demo_deploy_invocation:
  "invocation demo_deploy (hex_EncodeToString (Address_Bytes ZeroAddress)) (hex_EncodeToString [96, 1])"
  by (simp add: invocation_def demo_deploy_def)

lemma demo_deploy_fresh: "fresh_stub demo_deploy" "ledger_ok demo_externals (ledger demo_deploy)"
  by (simp_all add: demo_deploy_def fresh_stub_def ledger_ok_def ledger_account_def)

lemma demo_deploy_caller: "getCallerAddress demo_externals demo_deploy = (demo_caller, None)"
  by (simp add: demo_deploy_def)

theorem deployed_code_is_served_witness:
  "\<exists>r s' rt. evmcc_Invoke demo_externals (demo_vm demo_externals) demo_deploy = (Ok (shim_Success r), s') \<and>
     evmcc_getCode demo_externals (next_transaction s') r = shim_Success (bytes_of (hex_EncodeToString rt))"
proof -
  obtain s' where run: "evmcc_Invoke demo_externals (demo_vm demo_externals) demo_deploy =
      (Ok (shim_Success (bytes_of (hex_EncodeToString (Address_Bytes demo_contract)))), s')"
    using demo_deploy_run by blast
  from deployed_code_is_served [OF demo_codec_ok demo_vm_ok demo_deploy_fresh demo_deploy_invocation
      hex_decode_encode demo_deploy_caller run refl refl] run
  show ?thesis by blast
qed

text \<open>C2. A call that succeeds commits the state the virtual machine left: every account on the
  committed ledger is the one the state showed (up to what the codec keeps of it), every storage word of
  an account that was not removed is the one the state showed, and the transaction carries one event,
  named after the first 8 bytes of the data, exactly when something was logged.\<close>

theorem call_commits_the_state:
  assumes "codec_ok X" and "\<And>c n. vm_ok X (NewVM newParams c n)"
    and "fresh_stub s" and "ledger_ok X (ledger s)" and "b \<noteq> ZeroAddress"
    and inv: "stub_args s = [\<lparr>contents = bytes_of (hex_EncodeToString (Address_Bytes b)), spare = sp\<rparr>,
      \<lparr>contents = bytes_of data, spare = sp'\<rparr>]"
    and "hex_DecodeString data = Inr input" and "getCallerAddress X s = (caller, None)"
    and run: "evmcc_Invoke X NewVM s = (Ok (shim_Success r), s')"
  shows "\<exists>code st1 out st sink. es_GetCode X (initial_state s) b = (code, st1) \<and>
    NewVM newParams caller (Nonce (sha256_Sum X) caller (bytes_of (stub_txid s))) st1 \<lparr>EventCache = []\<rparr>
      caller b code input 0 10000 = (Ok out, st, sink) \<and> r = code_bytes out \<and>
    (\<forall>a. kept (ledger_account X (commit s') a) = kept (acc_view X (chain st) a)) \<and>
    (\<forall>a acc. acc_view X (chain st) a = Inr acc \<longrightarrow> \<not> removed_in (st_cache st) a \<longrightarrow>
       ledger_storage X (commit s') a = sto_view X (chain st) a) \<and>
    chaincode_event s' = (if EventCache sink = [] then None
      else Some (take 8 (data @ string_of sp'), projr (json_Marshal_events X (EventCache sink))))"
  using assms by (rule Invoke_commits)

theorem call_commits_the_state_witness:
  "\<exists>s' st. evmcc_Invoke demo_externals (demo_vm demo_externals) demo_call = (Ok (shim_Success [96, 1]), s') \<and>
     (\<forall>a. kept (ledger_account demo_externals (commit s') a) = kept (acc_view demo_externals (chain st) a))"
proof -
  obtain s' where run: "evmcc_Invoke demo_externals (demo_vm demo_externals) demo_call =
      (Ok (shim_Success [96, 1]), s')"
    using demo_call_run by blast
  have "ledger_ok demo_externals (ledger demo_call)"
    by (simp add: demo_ledger_ok)
  from call_commits_the_state [OF demo_codec_ok demo_vm_ok demo_call_fresh this demo_contract_not_zero
      demo_call_simps(1) hex_decode_encode demo_call_simps(2) run] run
  show ?thesis by blast
qed

text \<open>C11. An invocation that answers with an error, unless it is the error of \<^verbatim>\<open>Sync\<close>, has
  written nothing and set no event: the stub is what it was.\<close>

theorem failed_invocation_writes_nothing:
  assumes "\<And>c n. vm_ok X (NewVM newParams c n)"
    and "evmcc_Invoke X NewVM s = (Ok (shim_Error e), s')" and "\<not> sync_failed (shim_Error e)"
  shows "s' = s"
  using assms by (rule Invoke_Error)

theorem failed_invocation_writes_nothing_witness:
  "\<exists>e s'. evmcc_Invoke demo_externals (demo_vm demo_externals) (demo_stub ''xyz'' [] Map.empty) =
     (Ok (shim_Error e), s') \<and> s' = demo_stub ''xyz'' [] Map.empty"
proof -
  obtain e s' where run: "evmcc_Invoke demo_externals (demo_vm demo_externals) (demo_stub ''xyz'' [] Map.empty) =
      (Ok (shim_Error e), s')" and "\<not> sync_failed (shim_Error e)"
    by (simp add: evmcc_Invoke_def fromHexChar_def sync_failed_def)
  from failed_invocation_writes_nothing [OF demo_vm_ok this] run show ?thesis
    by blast
qed

text \<open>C38. Data shorter than 8 bytes (counting the spare capacity of the argument's slice) never succeeds
  in a call, whatever the contract does: naming the event reads 8 bytes even where there is no event.\<close>

theorem short_data_never_succeeds:
  assumes "stub_args s = [\<lparr>contents = bytes_of (hex_EncodeToString (Address_Bytes b)), spare = sp\<rparr>,
      \<lparr>contents = data, spare = sp'\<rparr>]"
    and "b \<noteq> ZeroAddress" and "length data + length sp' < 8"
  shows "fst (evmcc_Invoke X NewVM s) \<noteq> Ok (shim_Success r)"
  using assms
  by (auto simp: evmcc_Invoke_def Let_def evmcc_call_def slice_to_def
      split: sum.splits prod.splits option.splits res.splits)

theorem short_data_never_succeeds_witness:
  "fst (evmcc_Invoke demo_externals (demo_vm demo_externals) demo_short) = Panic ''slice bounds out of range'' \<and>
   fst (evmcc_Invoke demo_externals (demo_vm demo_externals) demo_short) \<noteq> Ok (shim_Success [96, 1])"
  using short_data_never_succeeds [of demo_short demo_contract "[]" "[]" "[]"] demo_short_run
  by simp

text \<open>The number of arguments decides: none is a panic (the error message itself reads the first),
  more than two or a single one that is not \<^verbatim>\<open>account\<close> is an error, and neither changes anything.\<close>

theorem argument_count:
  "(stub_args s = [] \<longrightarrow> (\<exists>p. evmcc_Invoke X NewVM s = (Panic p, s))) \<and>
   (length (stub_args s) > 2 \<or> length (stub_args s) = 1 \<and> contents (hd (stub_args s)) \<noteq> bytes_of ''account'' \<longrightarrow>
     (\<exists>e. evmcc_Invoke X NewVM s = (Ok (shim_Error e), s)))"
proof -
  have "string_of c = ''account'' \<longleftrightarrow> c = bytes_of ''account''" for c
    by (metis bytes_of_string_of string_of_bytes_of)
  then show ?thesis
    by (cases "stub_args s") (auto simp: evmcc_Invoke_def Let_def)
qed

theorem argument_count_witness:
  "\<exists>p e. evmcc_Invoke demo_externals (demo_vm demo_externals) (demo_call\<lparr>stub_args := []\<rparr>) =
      (Panic p, demo_call\<lparr>stub_args := []\<rparr>) \<and>
    evmcc_Invoke demo_externals (demo_vm demo_externals)
      (demo_call\<lparr>stub_args := [\<lparr>contents = [], spare = []\<rparr>]\<rparr>) =
      (Ok (shim_Error e), demo_call\<lparr>stub_args := [\<lparr>contents = [], spare = []\<rparr>]\<rparr>)"
  using argument_count [of "demo_call\<lparr>stub_args := []\<rparr>" demo_externals "demo_vm demo_externals"]
    argument_count [of "demo_call\<lparr>stub_args := [\<lparr>contents = [], spare = []\<rparr>]\<rparr>" demo_externals "demo_vm demo_externals"]
  by (simp add: bytes_of_def)

subsection \<open>The EVM's state\<close>

text \<open>C12. Whatever the virtual machine does to a transaction's state through its interface, the ledger
  and the stub under it stay untouched, the chain of caches stays coherent, and the first error raised
  stays.\<close>

theorem no_write_before_sync:
  assumes "fresh_stub s" and "ledger_ok X (ledger s)" and "evm_steps X (initial_state s) st"
  shows "st_stub st = s \<and> coherent X (chain st) \<and> \<not> c_readonly (st_cache st) \<and>
    (\<forall>st'. evm_steps X st st' \<longrightarrow> (\<forall>e. st_error st = Some e \<longrightarrow> st_error st' = Some e))"
  using run_initial [OF assms(3)] evm_steps_invariant(2) [OF assms(3) initial_coherent [OF assms(1,2)]]
  by (auto dest: evm_steps_invariant(3))

theorem no_write_before_sync_witness:
  "st_stub (es_CreateAccount demo_externals (initial_state demo_call) 1) = demo_call"
  using no_write_before_sync [OF demo_call_fresh _ steps_CreateAccount [of demo_externals "initial_state demo_call" 1]]
    demo_ledger_ok by simp

text \<open>A nested call that is dropped leaves no trace: after any use of a state over its caller's, the
  caller's chain shows the same accounts and words, over the same manager.\<close>

theorem dropped_call_leaves_no_trace:
  assumes "evm_steps X (es_NewCache st opts) child"
  shows "acc_view X (st_backend child) = acc_view X (chain st) \<and>
    sto_view X (st_backend child) = sto_view X (chain st) \<and>
    base_manager (st_backend child) = base_manager (chain st)"
  using evm_steps_below [OF assms] by (simp add: es_NewCache_def NewState_def same_view_def)

theorem dropped_call_leaves_no_trace_witness:
  "acc_view demo_externals (st_backend (es_CreateAccount demo_externals (es_NewCache (initial_state demo_call) []) 1)) 1 =
   Inr None"
  using dropped_call_leaves_no_trace [OF steps_CreateAccount [of demo_externals "es_NewCache (initial_state demo_call) []" 1]]
    initial_views(1) [OF demo_call_fresh, of demo_externals]
  by (simp add: demo_ledger_account demo_contract_not_one)

text \<open>C25. A nested call that is synced becomes its caller's state: the caller's chain is coherent and shows
  every account as the callee saw it, and every word of an account that was not removed.\<close>

theorem synced_call_becomes_the_caller:
  assumes "coherent X (chain st)" and "ReadOnly \<notin> set (st_options st @ opts)"
    and "evm_steps X (es_NewCache st opts) child" and "es_Sync X child = (Ok u, child')"
  shows "coherent X (st_backend child') \<and> acc_view X (st_backend child') = acc_view X (chain child) \<and>
    (\<forall>a acc. acc_view X (st_backend child') a = Inr acc \<longrightarrow> \<not> removed_in (st_cache child) a \<longrightarrow>
       sto_view X (st_backend child') a = sto_view X (chain child) a)"
proof -
  have start: "chain (es_NewCache st opts) = Layer (NewCache False) (chain st)"
    using assms(2) by (auto simp: es_NewCache_def NewState_def chain_def)
  have layer: "same_layer (chain (es_NewCache st opts)) (chain child)"
    and co: "coherent X (chain child)"
    using evm_steps_invariant(1,2) [OF assms(3)] assms(1) by (simp_all add: start del: coherent.simps)
  then have ro: "\<not> c_readonly (st_cache child)" and "depth (st_backend child) = depth (chain st)"
    unfolding start by (simp_all add: same_layer_def chain_def NewCache_def)
  then obtain c2 b2 where below: "st_backend child = Layer c2 b2"
    by (cases "st_backend child") (auto simp: chain_def)
  obtain t where "backend_Sync X (st_cache child) (Layer c2 b2) = (Ok (), t)" and "st_backend child' = t"
    using assms(4) below by (auto simp: es_Sync_def split: option.splits prod.splits)
  with Sync_into_cache [OF _ ro] co below show ?thesis
    by (metis chain_def)
qed

lemma demo_nested_run:
  "\<exists>child'. es_Sync demo_externals (es_CreateAccount demo_externals (es_NewCache (initial_state demo_call) []) 1) =
     (Ok (), child')"
  by (simp add: demo_call_defs es_NewCache_def es_CreateAccount_def es_Exists_def es_updateAccount_def
      demo_call_account demo_contract_not_one [symmetric] new_account_def)

theorem synced_call_becomes_the_caller_witness:
  "\<exists>child'. es_Sync demo_externals (es_CreateAccount demo_externals (es_NewCache (initial_state demo_call) []) 1) =
     (Ok (), child') \<and> coherent demo_externals (st_backend child')"
proof -
  have co: "coherent demo_externals (chain (initial_state demo_call))"
    using initial_coherent [OF demo_call_fresh, of demo_externals] demo_ledger_ok by simp
  obtain child' where sync: "es_Sync demo_externals
      (es_CreateAccount demo_externals (es_NewCache (initial_state demo_call) []) 1) = (Ok (), child')"
    using demo_nested_run by blast
  from synced_call_becomes_the_caller [OF co _ steps_CreateAccount sync] sync show ?thesis
    by (auto simp del: coherent.simps)
qed

text \<open>Reading is pure: an account or a word read through any chain of caches is the one the chain
  shows, and reading it, though it fills the caches, changes nothing that the chain shows.\<close>

theorem reading_is_pure:
  "fst (backend_GetAccount X b a) = acc_view X b a \<and> same_view X b (snd (backend_GetAccount X b a)) \<and>
   fst (backend_GetStorage X b a k) = sto_view X b a k \<and> same_view X b (snd (backend_GetStorage X b a k))"
  using GetAccount_view [of X b a "fst (backend_GetAccount X b a)" "snd (backend_GetAccount X b a)"]
    GetStorage_view [of X b a k "fst (backend_GetStorage X b a k)" "snd (backend_GetStorage X b a k)"]
  by simp

text \<open>A word set through a coherent cache is read back from it, and every other word and every
  account stay as they were.\<close>

theorem set_storage_get_storage:
  assumes "coherent X (Layer c b)" and "backend_SetStorage X (Layer c b) a k v = (Ok (), t)"
  shows "fst (backend_GetStorage X t a k) = Ok v \<and>
    (\<forall>a' k'. (a', k') \<noteq> (a, k) \<longrightarrow>
       fst (backend_GetStorage X t a' k') = fst (backend_GetStorage X (Layer c b) a' k')) \<and>
    (\<forall>a'. fst (backend_GetAccount X t a') = fst (backend_GetAccount X (Layer c b) a'))"
proof -
  have sto: "fst (backend_GetStorage X u a' k') = sto_view X u a' k'" for u a' k'
    using GetStorage_view [of X u a' k' "fst (backend_GetStorage X u a' k')"] by (metis prod.collapse)
  have acc: "fst (backend_GetAccount X u a') = acc_view X u a'" for u a'
    using GetAccount_view [of X u a' "fst (backend_GetAccount X u a')"] by (metis prod.collapse)
  show ?thesis
    unfolding sto acc using Layer_SetStorage_Ok(3,4) [OF assms] by (simp add: put_word_apply)
qed

theorem set_storage_get_storage_witness:
  "\<exists>t. backend_SetStorage demo_externals (chain (initial_state demo_call)) demo_contract 1 7 = (Ok (), t) \<and>
     fst (backend_GetStorage demo_externals t demo_contract 1) = Ok 7"
proof -
  have co: "coherent demo_externals (Layer (NewCache False) (Manager (NewStateManager demo_call)))"
    using initial_coherent [OF demo_call_fresh, of demo_externals] demo_ledger_ok by (simp del: coherent.simps)
  obtain t where "backend_SetStorage demo_externals (Layer (NewCache False) (Manager (NewStateManager demo_call)))
      demo_contract 1 7 = (Ok (), t)"
    by (simp add: NewCache_def NewStateManager_def cache_get.simps Let_def demo_call_account)
  from set_storage_get_storage [OF co this] this show ?thesis
    by (auto simp del: backend_SetStorage.simps)
qed

text \<open>C31. Writing a cache back does not depend on the order in which its maps are held: accounts are
  written in the order of their addresses and words in the order of their keys.\<close>

theorem sync_ignores_map_order:
  assumes "same_contents c d"
  shows "Cache_Sync upd rem put c s = Cache_Sync upd rem put d s"
  using assms by (rule Cache_Sync_contents)

definition demo_cache :: "bool \<Rightarrow> cache" where
  "demo_cache swapped =
     (let info = \<lambda>a. \<lparr>ai_account = Some (new_account a), ai_storage = (if swapped then [(2, 8), (1, 7)] else [(1, 7), (2, 8)]),
            ai_removed = False, ai_updated = True\<rparr>
      in \<lparr>c_accounts = (if swapped then [(6, info 6), (5, info 5)] else [(5, info 5), (6, info 6)]), c_readonly = False\<rparr>)"

theorem sync_ignores_map_order_witness:
  "backend_Sync demo_externals (demo_cache False) (chain (initial_state demo_call)) =
   backend_Sync demo_externals (demo_cache True) (chain (initial_state demo_call))"
  unfolding backend_Sync_def
  by (rule sync_ignores_map_order) (auto simp: same_contents_def same_info_def demo_cache_def Let_def)

text \<open>C26. A word the state manager has written, zero included, is the one the next transaction reads;
  words under other keys are the ones that were on the ledger.\<close>

theorem storage_survives_the_commit:
  assumes "fresh_stub s" and "sm_SetStorage X (NewStateManager s) a k v = (Ok (), t)"
  shows "sm_GetStorage X (NewStateManager (next_transaction (sm_stub t))) b l =
    (if b = a \<and> l = k then Ok v else ledger_storage X (ledger s) b l)"
proof -
  have "same_context s (sm_stub t)"
    using sm_context(3) [OF assms(2)] by (simp add: NewStateManager_def)
  then have fault: "get_fault (sm_stub t) = (\<lambda>_. None)"
    using assms(1) by (simp add: fresh_stub_def same_context_iff)
  have "sm_GetStorage X (NewStateManager (next_transaction (sm_stub t))) b l =
      ledger_storage X (commit (sm_stub t)) b l"
    using fault by (subst sm_GetStorage_ledger) (simp_all add: NewStateManager_def next_transaction_def)
  also have "\<dots> = put_word (ledger_storage X (commit s)) a k v b l"
    using sm_SetStorage_commit(1) [OF assms(2)] by (simp add: NewStateManager_def)
  finally show ?thesis
    using assms(1) by (simp add: put_word_apply commit_initial fresh_stub_def)
qed

theorem storage_survives_the_commit_witness:
  "\<exists>t. sm_SetStorage demo_externals (NewStateManager demo_call) 3 4 5 = (Ok (), t) \<and>
     sm_GetStorage demo_externals (NewStateManager (next_transaction (sm_stub t))) 3 4 = Ok 5"
proof -
  obtain t where "sm_SetStorage demo_externals (NewStateManager demo_call) 3 4 5 = (Ok (), t)"
    by (simp add: sm_SetStorage_def Let_def Zero256_def NewStateManager_def PutState_def)
  from storage_survives_the_commit [OF demo_call_fresh this, of 3 4] this show ?thesis
    by auto
qed

text \<open>C37. Within a transaction the state manager forgets no word it has set to zero: after a word was
  set, setting it to zero and reading it gives the old word.\<close>

theorem zeroed_word_is_read_stale:
  assumes "v \<noteq> Zero256" and "sm_SetStorage X m a k v = (Ok (), m1)"
    and "sm_SetStorage X m1 a k Zero256 = (Ok (), m2)"
  shows "sm_GetStorage X m2 a k = Ok v"
  using sm_GetStorage_after_zero [OF assms(3)] sm_GetStorage_after_SetStorage [OF assms(1,2)] by simp

theorem zeroed_word_is_read_stale_witness:
  "\<exists>m1 m2. sm_SetStorage demo_externals (NewStateManager demo_call) 3 4 5 = (Ok (), m1) \<and>
     sm_SetStorage demo_externals m1 3 4 Zero256 = (Ok (), m2) \<and> sm_GetStorage demo_externals m2 3 4 = Ok 5"
proof -
  obtain m1 where m1: "sm_SetStorage demo_externals (NewStateManager demo_call) 3 4 5 = (Ok (), m1)"
    and "del_fault (sm_stub m1) = (\<lambda>_. None)"
    by (simp add: sm_SetStorage_def Let_def Zero256_def NewStateManager_def PutState_def demo_call_def)
  then obtain m2 where m2: "sm_SetStorage demo_externals m1 3 4 Zero256 = (Ok (), m2)"
    by (auto simp: sm_SetStorage_def Let_def DelState_def res_of_error_def)
  have "(5 :: word256) \<noteq> Zero256"
    by (simp add: Zero256_def)
  from zeroed_word_is_read_stale [OF this m1 m2] m1 m2 show ?thesis
    by blast
qed

text \<open>No two accounts, no two words and no account and word share a ledger key.\<close>

theorem ledger_keys_are_distinct:
  "(account_key X a = account_key X b \<longleftrightarrow> a = b) \<and> (storage_key X a k = storage_key X b l \<longleftrightarrow> a = b \<and> k = l) \<and>
   account_key X a \<noteq> storage_key X b l \<and> length (account_key X a) = 40 \<and> length (storage_key X a k) = 104"
  by simp

subsection \<open>Events, balances, permissions and identities\<close>

text \<open>A log of the virtual machine is always recorded, at the end of the events of the transaction,
  as lower-case hex, and the record determines the log.\<close>

theorem logs_are_recorded:
  "em_Log X sink log = (None, sink\<lparr>EventCache := EventCache sink @ [event_of_log log]\<rparr>) \<and>
   (event_of_log log = event_of_log log' \<longleftrightarrow> log = log')"
  by (simp add: em_Log_eq event_of_log_inject)

text \<open>C30. A transfer that reports no error moves exactly the amount: the balance of one account loses it, that
  of the other gains it, and neither wraps around. Nothing else about the two accounts changes, and no other
  account and no word; a transfer of nothing or to oneself changes nothing at all.\<close>

theorem transfer_conserves:
  assumes "coherent X (chain st)" and "transfer X st src dst amount = (None, st')"
  shows "sto_view X (chain st') = sto_view X (chain st) \<and>
    (if amount = 0 \<or> src = dst then acc_view X (chain st') = acc_view X (chain st)
     else (\<exists>a b. acc_view X (chain st) src = Inr (Some a) \<and> acc_view X (chain st) dst = Inr (Some b) \<and>
       unat (acc_Balance a - amount) + unat amount = unat (acc_Balance a) \<and>
       unat (acc_Balance b + amount) = unat (acc_Balance b) + unat amount \<and>
       acc_view X (chain st') = (acc_view X (chain st))(src := Inr (Some (a\<lparr>acc_Balance := acc_Balance a - amount\<rparr>)),
         dst := Inr (Some (b\<lparr>acc_Balance := acc_Balance b + amount\<rparr>)))))"
  using transfer_moves [OF assms] by simp

definition demo_rich :: evm_state where
  "demo_rich = es_CreateAccount demo_externals (es_AddToBalance demo_externals (initial_state demo_call) demo_contract 9) 1"

lemma demo_rich_run: "\<exists>st'. transfer demo_externals demo_rich demo_contract 1 4 = (None, st')"
  by (simp add: demo_rich_def transfer_def es_GetBalance_def es_AddToBalance_def es_SubtractFromBalance_def
      es_mustAccount_def es_CreateAccount_def es_Exists_def es_updateAccount_def demo_call_defs demo_call_account
      demo_contract_not_one demo_contract_not_one [symmetric] IsUint64SumOverflow_def new_account_def
      demo_account_def contract_account_def map_base_def map_permissions_def)

theorem transfer_conserves_witness:
  "\<exists>st' a b. transfer demo_externals demo_rich demo_contract 1 4 = (None, st') \<and>
     acc_view demo_externals (chain demo_rich) demo_contract = Inr (Some a) \<and>
     acc_view demo_externals (chain st') demo_contract = Inr (Some (a\<lparr>acc_Balance := acc_Balance a - 4\<rparr>)) \<and>
     acc_view demo_externals (chain st') 1 = Inr (Some (b\<lparr>acc_Balance := acc_Balance b + 4\<rparr>))"
proof -
  have "evm_steps demo_externals (initial_state demo_call) demo_rich"
    unfolding demo_rich_def by (rule rtranclp_trans [OF steps_writes(2) steps_CreateAccount])
  moreover have "coherent demo_externals (chain (initial_state demo_call))"
    by (rule initial_coherent [OF demo_call_fresh]) (simp add: demo_ledger_ok)
  ultimately have co: "coherent demo_externals (chain demo_rich)"
    by (rule evm_steps_invariant(2))
  obtain st' where run: "transfer demo_externals demo_rich demo_contract 1 4 = (None, st')"
    using demo_rich_run by blast
  from transfer_conserves [OF co run] run demo_contract_not_one show ?thesis
    by fastforce
qed

text \<open>A contract that was just created may send, call and create contracts, whatever the global
  permissions say.\<close>

theorem contracts_may_act:
  assumes "fresh_stub s" and "ledger_ok X (ledger s)" and "st_error (deploy_state X s a) = None"
    and "flag \<in> {perm_Send, perm_Call, perm_CreateContract}"
  shows "fst (HasPermission X (deploy_state X s a) a flag)"
proof -
  obtain g st1 where g: "es_GetPermissions X (deploy_state X s a) GlobalPermissionsAddress = (g, st1)"
    by (cases "es_GetPermissions X (deploy_state X s a) GlobalPermissionsAddress")
  obtain p st2 where p: "es_GetPermissions X st1 a = (p, st2)"
    by (cases "es_GetPermissions X st1 a")
  obtain q where q: "es_account X (deploy_state X s a) GlobalPermissionsAddress = (q, st1)"
    using g by (auto simp: es_GetPermissions_def apfst_def map_prod_def split: prod.splits)
  have "acc_view X (chain st1) a = Inr (Some (contract_account a))"
    using es_account_read(1) [OF q] deploy_state_views(2) [OF assms(1-3)]
    by (simp add: same_view_def put_account_def)
  then have base: "Base p = snd (perm_Set \<lparr>Perms = 0, SetBit = 0\<rparr> ContractPermFlags True)"
    using p es_account_read(2) [of X st1 a]
    by (auto simp: es_GetPermissions_def apfst_def map_prod_def contract_account_def map_base_def
        map_permissions_def new_account_def split: prod.splits)
  have "IsSet (Base p) flag" and "perm_Get (Base p) flag = Inr True"
    using assms(4) unfolding base
    by (auto simp: IsSet_def perm_Get_def perm_Set_def ContractPermFlags_def perm_Call_def perm_Send_def
        perm_CreateContract_def)
  then have "perm_Get (perm_Compose (Base p) (Base g)) flag = Inr True"
    by (simp add: perm_Get_Compose_set)
  with g p show ?thesis
    by (simp add: HasPermission_def)
qed

theorem contracts_may_act_witness:
  "fst (HasPermission demo_externals (deploy_state demo_externals demo_deploy demo_contract) demo_contract perm_Call)"
proof -
  have "st_error (deploy_state demo_externals demo_deploy demo_contract) = None"
    by (simp add: deploy_state_def demo_deploy_def demo_run_defs)
  from contracts_may_act [OF demo_deploy_fresh this, of perm_Call] show ?thesis
    by simp
qed

text \<open>The caller's address depends on the public key of the creator's certificate only, and
  \<^verbatim>\<open>account\<close> answers with its 40 hex digits.\<close>

theorem account_is_the_key:
  assumes "sha3_ok (identity_ext.truncate X)"
    and "stub_creator s = Inr c" "unmarshal_identity X c = Inr i" "pem_Decode X i = Some b"
      "x509_ParseCertificate X b = Inr pk" "x509_MarshalPKIXPublicKey X pk = Inr der"
    and "stub_creator s' = Inr c'" "unmarshal_identity X c' = Inr i'" "pem_Decode X i' = Some b'"
      "x509_ParseCertificate X b' = Inr pk"
  shows "evmcc_account X s = shim_Success (bytes_of (hex_EncodeUpperToString (drop 12 (sha3_Sum256 X der)))) \<and>
    evmcc_account X s' = evmcc_account X s"
proof -
  have len: "length (drop 12 (sha3_Sum256 X der)) = 20"
    using assms(1) by (simp add: sha3_ok_def identity_ext.defs)
  then show ?thesis
    using assms by (simp add: evmcc_account_def getCallerAddress_def IdentityToAddr_def identity_ext.defs
        AddressFromBytes_def Address_String_def Address_Bytes_copy)
qed

theorem account_is_the_key_witness:
  "evmcc_account demo_externals demo_call = shim_Success (bytes_of (hex_EncodeUpperToString (replicate 20 7)))"
proof -
  have "sha3_ok (identity_ext.truncate demo_externals)"
    by (simp add: sha3_ok_def identity_ext.defs demo_externals_def)
  from account_is_the_key [OF this, of demo_call "[1]" "[1]" "[1]" "()" "[]" demo_call "[1]" "[1]" "[1]"]
  show ?thesis
    by (simp add: demo_externals_def demo_call_def)
qed

end
