(* ===== verification/Block_Hash.thy ===== *)
theory Block_Hash
  imports Go_Text
begin

unbundle bit_operations_syntax

section \<open>The hash of a block\<close>

text \<open>
  \<^verbatim>\<open>blockHash\<close> of \<^verbatim>\<open>fab3/ethservice.go\<close>: SHA-256 (a parameter) of the DER
  encoding of the header's number, previous hash and data hash, with the part of
  \<^verbatim>\<open>encoding/asn1\<close> that encodes such a struct. The encoding is parsed back here, so two
  headers with the same preimage are the same header.
\<close>

record block_header =
  hd_Number :: "64 word"
  hd_PreviousHash :: bytes
  hd_DataHash :: bytes

subsection \<open>encoding/asn1\<close>

text \<open>The number of bytes of a length and of an INTEGER that is not negative.\<close>

fun lengthLength :: "nat \<Rightarrow> nat" where
  "lengthLength i = (if i > 255 then lengthLength (i div 256) + 1 else 1)"

fun int64Length :: "nat \<Rightarrow> nat" where
  "int64Length i = (if i > 127 then int64Length (i div 256) + 1 else 1)"

declare lengthLength.simps [simp del] int64Length.simps [simp del]

definition der_length :: "nat \<Rightarrow> bytes" where
  "der_length n =
     (if n \<ge> 128 then (128 OR word_of_nat (lengthLength n)) # be_bytes (lengthLength n) n
      else [word_of_nat n])"

definition der_element :: "byte \<Rightarrow> bytes \<Rightarrow> bytes" where
  "der_element tag content = tag # der_length (length content) @ content"

definition asn1_Marshal_header :: "nat \<Rightarrow> bytes \<Rightarrow> bytes \<Rightarrow> bytes" where
  "asn1_Marshal_header number previous_hash data_hash =
     der_element 48 (der_element 2 (be_bytes (int64Length number) number)
       @ der_element 4 previous_hash @ der_element 4 data_hash)"

definition blockHash :: "(bytes \<Rightarrow> bytes) \<Rightarrow> block_header \<Rightarrow> bytes res" where
  "blockHash sha256 b =
     (if unat (hd_Number b) > 2 ^ 63 - 1
      then Panic ''Golang does not currently support encoding uint64 to asn1''
      else Ok (sha256 (asn1_Marshal_header (unat (hd_Number b)) (hd_PreviousHash b) (hd_DataHash b))))"

subsection \<open>Reading the encoding back\<close>

definition parse_length :: "bytes \<Rightarrow> (nat \<times> bytes) option" where
  "parse_length bs =
     (case bs of
        [] \<Rightarrow> None
      | b # r \<Rightarrow>
          (if unat b < 128 then Some (unat b, r)
           else (let l = unat b - 128
             in if length r < l then None else Some (be_nat (take l r), drop l r))))"

definition parse_element :: "bytes \<Rightarrow> (byte \<times> bytes \<times> bytes) option" where
  "parse_element bs =
     (case bs of
        [] \<Rightarrow> None
      | tag # r \<Rightarrow>
          (case parse_length r of
             None \<Rightarrow> None
           | Some (n, s) \<Rightarrow> if length s < n then None else Some (tag, take n s, drop n s)))"

lemma lengthLength_bound: "n < 256 ^ lengthLength n"
proof (induction n rule: lengthLength.induct)
  case (1 n)
  show ?case
  proof (cases "n > 255")
    case True
    then have "n div 256 < 256 ^ lengthLength (n div 256)"
      by (rule "1.IH")
    then have "n < 256 * 256 ^ lengthLength (n div 256)"
      by (simp add: div_less_iff_less_mult mult.commute)
    with True show ?thesis
      by (subst lengthLength.simps) simp
  qed (simp add: lengthLength.simps)
qed

lemma int64Length_bound: "n < 256 ^ int64Length n"
proof (induction n rule: int64Length.induct)
  case (1 n)
  show ?case
  proof (cases "n > 127")
    case True
    then have "n div 256 < 256 ^ int64Length (n div 256)"
      by (rule "1.IH")
    then have "n < 256 * 256 ^ int64Length (n div 256)"
      by (simp add: div_less_iff_less_mult mult.commute)
    with True show ?thesis
      by (subst int64Length.simps) simp
  qed (simp add: int64Length.simps)
qed

lemma lengthLength_le: "n < 256 ^ k \<Longrightarrow> 1 \<le> k \<Longrightarrow> lengthLength n \<le> k"
proof (induction n arbitrary: k rule: lengthLength.induct)
  case (1 n)
  show ?case
  proof (cases "n > 255")
    case True
    with "1.prems"(1) have "k \<noteq> 1"
      by auto
    with "1.prems" obtain j where j: "k = Suc j" "1 \<le> j"
      by (cases k) auto
    have "n div 256 < 256 ^ j"
      using "1.prems"(1) by (simp add: j(1) div_less_iff_less_mult mult.commute)
    from "1.IH" [OF True this j(2)] True j(1) show ?thesis
      by (subst lengthLength.simps) simp
  qed (use "1.prems" in \<open>simp add: lengthLength.simps\<close>)
qed

lemma parse_der_length:
  assumes "n < 2 ^ 63"
  shows "parse_length (der_length n @ r) = Some (n, r)"
proof (cases "n \<ge> 128")
  case False
  then show ?thesis
    by (simp add: der_length_def parse_length_def unat_of_nat take_bit_eq_mod)
next
  case True
  let ?l = "lengthLength n"
  have l: "?l \<le> 8"
    using assms by (intro lengthLength_le) simp_all
  have "(128 :: byte) AND word_of_nat ?l = 0"
  proof (rule bit_eqI)
    fix i
    have "take_bit 4 (word_of_nat ?l :: byte) = word_of_nat ?l"
      using l by (simp add: word_unat_eq_iff unat_of_nat take_bit_eq_mod unat_mod_distrib)
    then have "bit (word_of_nat ?l :: byte) i \<Longrightarrow> i < 4"
      by (metis bit_take_bit_iff)
    moreover have "\<not> bit (128 :: byte) i" if "i < 4"
      using that by (auto simp: less_Suc_eq numeral_eq_Suc)
    ultimately show "bit ((128 :: byte) AND word_of_nat ?l) i = bit (0 :: byte) i"
      by (auto simp: bit_and_iff)
  qed
  then have "(128 :: byte) OR word_of_nat ?l = word_of_nat (128 + ?l)"
    by (simp add: disjunctive_add_eq_or)
  then have tag: "unat ((128 :: byte) OR word_of_nat ?l) = 128 + ?l"
    using l by (simp add: unat_of_nat take_bit_eq_mod del: of_nat_add)
  show ?thesis
    using True lengthLength_bound [of n]
    by (simp add: der_length_def parse_length_def tag be_nat_be_bytes)
qed

lemma parse_der_element:
  assumes "length c < 2 ^ 63"
  shows "parse_element (der_element tag c @ r) = Some (tag, c, r)"
  using parse_der_length [OF assms, of "c @ r"]
  by (simp add: parse_element_def der_element_def)

lemma length_der_length: "length (der_length n) \<le> 9" if "n < 2 ^ 63"
proof -
  have "lengthLength n \<le> 8"
    using that by (intro lengthLength_le) simp_all
  then show ?thesis
    by (simp add: der_length_def)
qed

lemma be_bytes_int64_inject:
  "be_bytes (int64Length m) m = be_bytes (int64Length n) n \<longleftrightarrow> m = n"
proof
  assume "be_bytes (int64Length m) m = be_bytes (int64Length n) n"
  then have "be_nat (be_bytes (int64Length m) m) = be_nat (be_bytes (int64Length n) n)"
    by simp
  then show "m = n"
    using int64Length_bound [of m] int64Length_bound [of n] by (simp add: be_nat_be_bytes)
qed simp

text \<open>The lengths Go can represent: a hash is far shorter.\<close>

definition header_ok :: "block_header \<Rightarrow> bool" where
  "header_ok b \<longleftrightarrow> length (hd_PreviousHash b) < 2 ^ 60 \<and> length (hd_DataHash b) < 2 ^ 60"

lemma int64Length_le: "n < 2 ^ 64 \<Longrightarrow> int64Length n \<le> 9"
proof -
  have step: "m < 128 * 256 ^ k \<Longrightarrow> int64Length m \<le> Suc k" for m k
  proof (induction m arbitrary: k rule: int64Length.induct)
    case (1 m)
    show ?case
    proof (cases "m > 127")
      case True
      with "1.prems" obtain j where j: "k = Suc j"
        by (cases k) auto
      with "1.prems" have "m div 256 < 128 * 256 ^ j"
        by (simp add: div_less_iff_less_mult mult.commute)
      from "1.IH" [OF True this] True j show ?thesis
        by (subst int64Length.simps) simp
    qed (simp add: int64Length.simps)
  qed
  assume "n < 2 ^ 64"
  then show ?thesis
    using step [of n 8] by simp
qed

lemma asn1_Marshal_header_inject:
  assumes "n < 2 ^ 64" "length p < 2 ^ 60" "length d < 2 ^ 60"
    and "n' < 2 ^ 64" "length p' < 2 ^ 60" "length d' < 2 ^ 60"
    and eq: "asn1_Marshal_header n p d = asn1_Marshal_header n' p' d'"
  shows "n = n' \<and> p = p' \<and> d = d'"
proof -
  let ?body = "\<lambda>n p d. der_element 2 (be_bytes (int64Length n) n) @ der_element 4 p @ der_element 4 d"
  have len: "length (?body n p d) < 2 ^ 63"
    if "n < 2 ^ 64" "length p < 2 ^ 60" "length d < 2 ^ 60" for n p d
    using that int64Length_le [of n] length_der_length [of "int64Length n"]
      length_der_length [of "length p"] length_der_length [of "length d"]
    by (simp add: der_element_def)
  have small: "length (be_bytes (int64Length n) n) < 2 ^ 63" if "n < 2 ^ 64" for n
    using int64Length_le [OF that] by simp
  have "Some (48, ?body n p d, []) = Some (48, ?body n' p' d', [])"
    using eq parse_der_element [OF len [OF assms(1-3)], of 48 "[]"]
      parse_der_element [OF len [OF assms(4-6)], of 48 "[]"]
    by (simp add: asn1_Marshal_header_def)
  then have body: "?body n p d = ?body n' p' d'"
    by simp
  with parse_der_element [OF small [OF assms(1)], of 2] parse_der_element [OF small [OF assms(4)], of 2]
  have num: "be_bytes (int64Length n) n = be_bytes (int64Length n') n'"
    and rest: "der_element 4 p @ der_element 4 d = der_element 4 p' @ der_element 4 d'"
    by (metis option.inject prod.inject)+
  have "length p < 2 ^ 63" "length p' < 2 ^ 63" "length d < 2 ^ 63" "length d' < 2 ^ 63"
    using assms by simp_all
  with rest parse_der_element [of p 4] parse_der_element [of p' 4]
  have "p = p'" and "der_element 4 d = der_element 4 d'"
    by (metis option.inject prod.inject)+
  moreover from this \<open>length d < 2 ^ 63\<close> \<open>length d' < 2 ^ 63\<close> have "d = d'"
    by (metis append_Nil2 option.inject parse_der_element prod.inject)
  ultimately show ?thesis
    using num by (simp add: be_bytes_int64_inject)
qed

text \<open>Equal hashes of different headers are a collision of the hash function.\<close>

lemma blockHash_preimage:
  assumes "blockHash sha b = Ok h" and "blockHash sha c = Ok h" and "header_ok b" and "header_ok c"
    and "b \<noteq> c"
  shows "\<exists>x y. x \<noteq> y \<and> sha x = h \<and> sha y = h"
proof -
  let ?m = "\<lambda>b. asn1_Marshal_header (unat (hd_Number b)) (hd_PreviousHash b) (hd_DataHash b)"
  have "?m b \<noteq> ?m c"
  proof
    assume "?m b = ?m c"
    moreover have "unat (hd_Number b) < 2 ^ 64" "unat (hd_Number c) < 2 ^ 64"
      using unat_less_size [of "hd_Number b"] unat_less_size [of "hd_Number c"] by simp_all
    ultimately have "unat (hd_Number b) = unat (hd_Number c) \<and> hd_PreviousHash b = hd_PreviousHash c \<and>
        hd_DataHash b = hd_DataHash c"
      using assms(3,4) unfolding header_ok_def by (intro asn1_Marshal_header_inject) simp_all
    with assms(5) show False
      by (simp add: word_unat_eq_iff)
  qed
  moreover have "sha (?m b) = h" "sha (?m c) = h"
    using assms(1,2) by (simp_all add: blockHash_def split: if_splits)
  ultimately show ?thesis
    by blast
qed

end
