(* ===== verification/Eth_Types.thy ===== *)
theory Eth_Types
  imports Go_Text
begin

section \<open>The JSON-RPC types\<close>

text \<open>
  \<^verbatim>\<open>fab3/types/types.go\<close>: what requests are decoded to and how replies are encoded. Both
  work on JSON values; the text of a value is read and written by \<^verbatim>\<open>encoding/json\<close>, whose
  struct decoding (fields matched without regard to case, null leaving a field alone, the first type
  error reported at the end) is modelled here. \<open>uni\<close> is the Unicode part of
  \<^verbatim>\<open>strings.ToLower\<close>.
\<close>

subsection \<open>JSON values\<close>

datatype json =
    JNull
  | JBool bool
  | JNum int
  | JStr string
  | JArr "json list"
  | JObj "(string \<times> json) list"

fun json_kind :: "json \<Rightarrow> string" where
  "json_kind JNull = ''null''"
| "json_kind (JBool _) = ''bool''"
| "json_kind (JNum _) = ''number''"
| "json_kind (JStr _) = ''string''"
| "json_kind (JArr _) = ''array''"
| "json_kind (JObj _) = ''object''"

definition key_matches :: "string \<Rightarrow> string \<Rightarrow> bool" where
  "key_matches key field \<longleftrightarrow> map ascii_lower key = map ascii_lower field"

text \<open>A string field, decoded from every member of the object that names it, in order.\<close>

definition json_type_error :: "json \<Rightarrow> string \<Rightarrow> go_error" where
  "json_type_error j field =
     Fmt ''json: cannot unmarshal %s into Go struct field %s'' [AStr (json_kind j), AStr field]"

definition decode_string :: "string \<Rightarrow> json \<Rightarrow> string \<times> go_error option \<Rightarrow> string \<times> go_error option" where
  "decode_string field j acc =
     (case j of
        JStr s \<Rightarrow> (s, snd acc)
      | JNull \<Rightarrow> acc
      | _ \<Rightarrow> (fst acc, case snd acc of None \<Rightarrow> Some (json_type_error j field) | e \<Rightarrow> e))"

subsection \<open>Filter arguments\<close>

record get_logs_args =
  FromBlock :: string
  ToBlock :: string
  Address_Filter :: "string list"
  Topics_Filter :: "string list list"
  BlockHash :: string

definition HexEncodedAddressLength :: nat where "HexEncodedAddressLength = 40"
definition HexEncodedTopicLength :: nat where "HexEncodedTopicLength = 64"

definition strip0x :: "string \<Rightarrow> string" where
  "strip0x s = strings_TrimPrefix s ''0x''"

definition NewAddressFilter :: "(string \<Rightarrow> string) \<Rightarrow> string \<Rightarrow> go_error + string list" where
  "NewAddressFilter uni s =
     (let s' = strip0x s
      in if length s' \<noteq> HexEncodedAddressLength
         then Inl (Fmt ''address in wrong format, need 40 chars prefixed with '0x', got %d chars for %q''
                [ANat (length s'), AStr s'])
         else Inr [strings_ToLower uni s'])"

definition NewTopicFilter :: "string \<Rightarrow> go_error + string list" where
  "NewTopicFilter s =
     (let s' = strip0x s
      in if length s' \<noteq> HexEncodedTopicLength
         then Inl (Fmt ''topic in wrong format, need 64 chars prefixed with '0x', got %d for %q''
                [ANat (length s'), AStr s'])
         else Inr [s'])"

definition NewTopicsFilter :: "string list list \<Rightarrow> string list list" where
  "NewTopicsFilter tf = tf"

text \<open>The private struct the arguments are decoded into first; a nil interface is \<open>JNull\<close>.\<close>

record input_get_logs_args =
  in_FromBlock :: string
  in_ToBlock :: string
  in_Address :: json
  in_Topics :: json
  in_BlockHash :: string

definition decode_member ::
    "string \<times> json \<Rightarrow> input_get_logs_args \<times> go_error option \<Rightarrow> input_get_logs_args \<times> go_error option" where
  "decode_member kv acc =
     (case (kv, acc) of ((k, j), (i, err)) \<Rightarrow>
       if key_matches k ''fromBlock''
       then (case decode_string ''fromBlock'' j (in_FromBlock i, err) of (s, e) \<Rightarrow> (i\<lparr>in_FromBlock := s\<rparr>, e))
       else if key_matches k ''toBlock''
       then (case decode_string ''toBlock'' j (in_ToBlock i, err) of (s, e) \<Rightarrow> (i\<lparr>in_ToBlock := s\<rparr>, e))
       else if key_matches k ''address'' then (i\<lparr>in_Address := j\<rparr>, err)
       else if key_matches k ''topics'' then (i\<lparr>in_Topics := j\<rparr>, err)
       else if key_matches k ''blockHash''
       then (case decode_string ''blockHash'' j (in_BlockHash i, err) of (s, e) \<Rightarrow> (i\<lparr>in_BlockHash := s\<rparr>, e))
       else (i, err))"

definition decode_input :: "json \<Rightarrow> go_error + input_get_logs_args" where
  "decode_input data =
     (let zero = \<lparr>in_FromBlock = [], in_ToBlock = [], in_Address = JNull, in_Topics = JNull, in_BlockHash = []\<rparr>
      in case data of
        JObj members \<Rightarrow>
          (case fold decode_member members (zero, None) of (i, None) \<Rightarrow> Inr i | (i, Some e) \<Rightarrow> Inl e)
      | JNull \<Rightarrow> Inr zero
      | _ \<Rightarrow> Inl (json_type_error data ''inputGetLogsArgs''))"

text \<open>A list of addresses; what is not a string is passed over.\<close>

fun addresses_filter :: "(string \<Rightarrow> string) \<Rightarrow> nat \<Rightarrow> json list \<Rightarrow> go_error + string list" where
  "addresses_filter uni i [] = Inr []"
| "addresses_filter uni i (a # as) =
     (case a of
        JStr singleAddress \<Rightarrow>
          (case NewAddressFilter uni singleAddress of
             Inl e \<Rightarrow> Inl (Fmt ''invalid address at position %d'' [ANat i, AErr e])
           | Inr f \<Rightarrow>
               (case addresses_filter uni (i + 1) as of Inl e \<Rightarrow> Inl e | Inr af \<Rightarrow> Inr (f @ af)))
      | _ \<Rightarrow> addresses_filter uni (i + 1) as)"

text \<open>The alternatives of one position; the position in an error is that of the outer list.\<close>

fun alternatives_filter :: "nat \<Rightarrow> json list \<Rightarrow> go_error + string list" where
  "alternatives_filter i [] = Inr []"
| "alternatives_filter i (t # ts) =
     (case (case t of
              JStr stringTopic \<Rightarrow>
                (case NewTopicFilter stringTopic of
                   Inl e \<Rightarrow> Inl (Fmt ''invalid topic at position %d'' [ANat i, AErr e])
                 | Inr f \<Rightarrow> Inr f)
            | JNull \<Rightarrow> Inr ['''']
            | _ \<Rightarrow> Inl (Msg ''all topics must be strings'')) of
        Inl e \<Rightarrow> Inl e
      | Inr f \<Rightarrow> (case alternatives_filter i ts of Inl e \<Rightarrow> Inl e | Inr mtf \<Rightarrow> Inr (f @ mtf)))"

fun topics_filter :: "nat \<Rightarrow> json list \<Rightarrow> go_error + string list list" where
  "topics_filter i [] = Inr []"
| "topics_filter i (t # ts) =
     (case (case t of
              JStr singleTopic \<Rightarrow>
                (case NewTopicFilter singleTopic of
                   Inl e \<Rightarrow> Inl (Fmt ''invalid topic at position %d'' [ANat i, AErr e])
                 | Inr f \<Rightarrow> Inr f)
            | JArr multipleTopic \<Rightarrow> alternatives_filter i multipleTopic
            | JNull \<Rightarrow> Inr ['''']
            | _ \<Rightarrow> Inl (Fmt ''incorrect topics format %q'' [AStr (json_kind t)])) of
        Inl e \<Rightarrow> Inl e
      | Inr f \<Rightarrow> (case topics_filter (i + 1) ts of Inl e \<Rightarrow> Inl e | Inr tf \<Rightarrow> Inr (f # tf)))"

definition set_address_filter ::
    "(string \<Rightarrow> string) \<Rightarrow> json \<Rightarrow> get_logs_args \<Rightarrow> go_error + get_logs_args" where
  "set_address_filter uni addr gla =
     (case addr of
        JNull \<Rightarrow> Inr gla
      | JStr a \<Rightarrow>
          (case NewAddressFilter uni a of Inl e \<Rightarrow> Inl e | Inr af \<Rightarrow> Inr (gla\<lparr>Address_Filter := af\<rparr>))
      | JArr as \<Rightarrow>
          (case addresses_filter uni 0 as of Inl e \<Rightarrow> Inl e | Inr af \<Rightarrow> Inr (gla\<lparr>Address_Filter := af\<rparr>))
      | _ \<Rightarrow> Inl (Msg ''badly formatted address field''))"

definition set_topics_filter :: "json \<Rightarrow> get_logs_args \<Rightarrow> go_error + get_logs_args" where
  "set_topics_filter topics gla =
     (case topics of
        JNull \<Rightarrow> Inr gla
      | JArr ts \<Rightarrow>
          (case topics_filter 0 ts of Inl e \<Rightarrow> Inl e | Inr tf \<Rightarrow> Inr (gla\<lparr>Topics_Filter := tf\<rparr>))
      | _ \<Rightarrow> Inl (Msg ''topics must be slice''))"

definition GetLogsArgs_UnmarshalJSON ::
    "(string \<Rightarrow> string) \<Rightarrow> get_logs_args \<Rightarrow> json \<Rightarrow> go_error + get_logs_args" where
  "GetLogsArgs_UnmarshalJSON uni gla data =
     (case decode_input data of
        Inl e \<Rightarrow> Inl e
      | Inr i \<Rightarrow>
          (let gla1 = gla\<lparr>FromBlock := strip0x (in_FromBlock i), ToBlock := strip0x (in_ToBlock i),
                         BlockHash := strip0x (in_BlockHash i)\<rparr>
           in if BlockHash gla1 \<noteq> [] \<and> (FromBlock gla1 \<noteq> [] \<or> ToBlock gla1 \<noteq> [])
              then Inl (Msg ''cannot provide BlockHash and (FromBlock or ToBlock), they are exclusive options'')
              else (case set_address_filter uni (in_Address i) gla1 of
                  Inl e \<Rightarrow> Inl e
                | Inr gla2 \<Rightarrow> set_topics_filter (in_Topics i) gla2)))"

subsection \<open>Replies\<close>

text \<open>A slice that stays nil until something is appended to it is \<open>None\<close> when it is empty.\<close>

definition nil_slice :: "'a list \<Rightarrow> 'a list option" where
  "nil_slice xs = (if xs = [] then None else Some xs)"

record eth_log =
  lg_Address :: string
  lg_Topics :: "string list option"
  lg_Data :: string
  lg_BlockNumber :: string
  lg_TxHash :: string
  lg_TxIndex :: string
  lg_BlockHash :: string
  lg_Index :: string

record tx_receipt =
  rc_TransactionHash :: string
  rc_TransactionIndex :: string
  rc_BlockHash :: string
  rc_BlockNumber :: string
  rc_ContractAddress :: string
  rc_GasUsed :: int
  rc_CumulativeGasUsed :: int
  rc_To :: string
  rc_Logs :: "eth_log list option"
  rc_Status :: string
  rc_From :: string

record transaction =
  tx_BlockHash :: string
  tx_BlockNumber :: string
  tx_To :: string
  tx_From :: string
  tx_Input :: string
  tx_TransactionIndex :: string
  tx_Hash :: string
  tx_GasPrice :: string
  tx_Value :: string

record block_data =
  bd_Number :: string
  bd_Hash :: string
  bd_ParentHash :: string
  bd_GasLimit :: string

text \<open>The elements of \<^verbatim>\<open>Transactions []interface{}\<close> that the service puts there.\<close>

datatype tx_item = FullTx transaction | TxHash string

record eth_block =
  bl_BlockData :: block_data
  bl_Transactions :: "tx_item list option"

definition json_strings :: "string list option \<Rightarrow> json" where
  "json_strings xs = (case xs of None \<Rightarrow> JNull | Some xs \<Rightarrow> JArr (map JStr xs))"

text \<open>A member with \<^verbatim>\<open>omitempty\<close>.\<close>

definition omitempty :: "string \<Rightarrow> string \<Rightarrow> (string \<times> json) list" where
  "omitempty key s = (if s = [] then [] else [(key, JStr s)])"

definition Log_json :: "eth_log \<Rightarrow> json" where
  "Log_json l = JObj ([(''address'', JStr (lg_Address l)), (''topics'', json_strings (lg_Topics l))]
     @ omitempty ''data'' (lg_Data l)
     @ [(''blockNumber'', JStr (lg_BlockNumber l)), (''transactionHash'', JStr (lg_TxHash l)),
        (''transactionIndex'', JStr (lg_TxIndex l)), (''blockHash'', JStr (lg_BlockHash l)),
        (''logIndex'', JStr (lg_Index l))])"

definition Logs_json :: "eth_log list option \<Rightarrow> json" where
  "Logs_json ls = (case ls of None \<Rightarrow> JNull | Some ls \<Rightarrow> JArr (map Log_json ls))"

text \<open>The fields of the structs, as the encoder walks them without their own methods.\<close>

definition TxReceipt_fields :: "tx_receipt \<Rightarrow> json" where
  "TxReceipt_fields r = JObj (
     [(''transactionHash'', JStr (rc_TransactionHash r)), (''transactionIndex'', JStr (rc_TransactionIndex r)),
      (''blockHash'', JStr (rc_BlockHash r)), (''blockNumber'', JStr (rc_BlockNumber r))]
     @ omitempty ''contractAddress'' (rc_ContractAddress r)
     @ [(''gasUsed'', JNum (rc_GasUsed r)), (''cumulativeGasUsed'', JNum (rc_CumulativeGasUsed r)),
        (''to'', JStr (rc_To r)), (''logs'', Logs_json (rc_Logs r)), (''status'', JStr (rc_Status r)),
        (''from'', JStr (rc_From r))])"

definition Transaction_fields :: "transaction \<Rightarrow> json" where
  "Transaction_fields t = JObj
     [(''blockHash'', JStr (tx_BlockHash t)), (''blockNumber'', JStr (tx_BlockNumber t)),
      (''to'', JStr (tx_To t)), (''from'', JStr (tx_From t)), (''input'', JStr (tx_Input t)),
      (''transactionIndex'', JStr (tx_TransactionIndex t)), (''hash'', JStr (tx_Hash t)),
      (''gasPrice'', JStr (tx_GasPrice t)), (''value'', JStr (tx_Value t))]"

definition BlockData_members :: "block_data \<Rightarrow> (string \<times> json) list" where
  "BlockData_members b =
     [(''number'', JStr (bd_Number b)), (''hash'', JStr (bd_Hash b)),
      (''parentHash'', JStr (bd_ParentHash b)), (''gasLimit'', JStr (bd_GasLimit b))]"

definition TxReceipt_MarshalJSON :: "tx_receipt \<Rightarrow> json" where
  "TxReceipt_MarshalJSON txReceipt =
     (let receipt = (case rc_Logs txReceipt of
          None \<Rightarrow> txReceipt\<lparr>rc_Logs := Some []\<rparr> | Some _ \<Rightarrow> txReceipt)
      in TxReceipt_fields receipt)"

definition Transaction_MarshalJSON :: "transaction \<Rightarrow> json" where
  "Transaction_MarshalJSON t = Transaction_fields (t\<lparr>tx_GasPrice := ''0x0'', tx_Value := ''0x0''\<rparr>)"

text \<open>
  A transaction inside an \<^verbatim>\<open>interface{}\<close> is not addressable, so the encoder does not find
  \<^verbatim>\<open>MarshalJSON\<close>, a method on the pointer; in a slice of transactions it does.
\<close>

definition tx_item_fields :: "tx_item \<Rightarrow> json" where
  "tx_item_fields i = (case i of FullTx t \<Rightarrow> Transaction_fields t | TxHash h \<Rightarrow> JStr h)"

definition Block_fields :: "eth_block \<Rightarrow> json" where
  "Block_fields b = JObj (BlockData_members (bl_BlockData b) @
     [(''transactions'', (case bl_Transactions b of
        None \<Rightarrow> JNull | Some ts \<Rightarrow> JArr (map tx_item_fields ts)))])"

fun all_full :: "tx_item list \<Rightarrow> transaction list res" where
  "all_full [] = Ok []"
| "all_full (FullTx t # ts) = (case all_full ts of Ok us \<Rightarrow> Ok (t # us) | r \<Rightarrow> r)"
| "all_full (TxHash h # ts) = Panic ''interface conversion: interface {} is string, not types.Transaction''"

definition Block_MarshalJSON :: "eth_block \<Rightarrow> json res" where
  "Block_MarshalJSON originalBlk =
     (let blk = originalBlk\<lparr>bl_BlockData := (bl_BlockData originalBlk)\<lparr>bd_GasLimit := ''0x0''\<rparr>\<rparr>
      in case bl_Transactions blk of
        None \<Rightarrow> Ok (Block_fields blk)
      | Some [] \<Rightarrow> Ok (Block_fields blk)
      | Some (TxHash h # ts) \<Rightarrow> Ok (Block_fields blk)
      | Some (FullTx t # ts) \<Rightarrow>
          (case all_full (FullTx t # ts) of
             Ok txns \<Rightarrow> Ok (JObj (BlockData_members (bl_BlockData blk) @
               [(''transactions'', JArr (map Transaction_MarshalJSON txns))]))
           | Err e \<Rightarrow> Err e
           | Panic p \<Rightarrow> Panic p))"

subsection \<open>What a decoded filter looks like\<close>

definition address_filter_ok :: "(string \<Rightarrow> string) \<Rightarrow> string list \<Rightarrow> bool" where
  "address_filter_ok uni af \<longleftrightarrow> (\<forall>a \<in> set af. \<exists>s. length s = HexEncodedAddressLength \<and> a = strings_ToLower uni s)"

definition topics_filter_ok :: "string list list \<Rightarrow> bool" where
  "topics_filter_ok tf \<longleftrightarrow> (\<forall>f \<in> set tf. \<forall>t \<in> set f. t = [] \<or> length t = HexEncodedTopicLength)"

definition args_ok :: "(string \<Rightarrow> string) \<Rightarrow> get_logs_args \<Rightarrow> bool" where
  "args_ok uni a \<longleftrightarrow> address_filter_ok uni (Address_Filter a) \<and> topics_filter_ok (Topics_Filter a) \<and>
     (BlockHash a = [] \<or> FromBlock a = [] \<and> ToBlock a = [])"

lemma NewAddressFilter_ok: "NewAddressFilter uni s = Inr f \<Longrightarrow> address_filter_ok uni f"
  by (auto simp: NewAddressFilter_def Let_def address_filter_ok_def split: if_splits)

lemma NewTopicFilter_ok: "NewTopicFilter s = Inr f \<Longrightarrow> \<forall>t\<in>set f. length t = HexEncodedTopicLength"
  by (auto simp: NewTopicFilter_def Let_def split: if_splits)

lemma addresses_filter_ok: "addresses_filter uni i as = Inr af \<Longrightarrow> address_filter_ok uni af"
proof (induction as arbitrary: i af)
  case (Cons a as)
  note IH = Cons.IH [of "i + 1"]
  show ?case
    using Cons.prems IH
    by (auto split: json.splits sum.splits simp: address_filter_ok_def dest!: NewAddressFilter_ok)
qed (simp add: address_filter_ok_def)

lemma alternatives_filter_ok:
  "alternatives_filter i ts = Inr f \<Longrightarrow> \<forall>t\<in>set f. t = [] \<or> length t = HexEncodedTopicLength"
proof (induction ts arbitrary: f)
  case (Cons t ts)
  then show ?case
    by (auto split: json.splits sum.splits dest!: NewTopicFilter_ok)
qed simp

lemma topics_filter_ok: "topics_filter i ts = Inr tf \<Longrightarrow> topics_filter_ok tf"
proof (induction ts arbitrary: i tf)
  case (Cons t ts)
  then obtain f tf' where "\<forall>t\<in>set f. t = [] \<or> length t = HexEncodedTopicLength"
    and "topics_filter (i + 1) ts = Inr tf'" and "tf = f # tf'"
    by (auto split: json.splits sum.splits dest!: NewTopicFilter_ok alternatives_filter_ok) force
  with Cons.IH show ?case
    by (simp add: topics_filter_ok_def)
qed (simp add: topics_filter_ok_def)

lemma UnmarshalJSON_args_ok:
  assumes "GetLogsArgs_UnmarshalJSON uni gla data = Inr a"
    and "Address_Filter gla = []" and "Topics_Filter gla = []"
  shows "args_ok uni a"
  using assms
  by (auto simp: GetLogsArgs_UnmarshalJSON_def set_address_filter_def set_topics_filter_def Let_def args_ok_def
      address_filter_ok_def [of _ "[]"] topics_filter_ok_def [of "[]"]
      split: sum.splits json.splits if_splits
      dest!: NewAddressFilter_ok addresses_filter_ok topics_filter_ok)

end
