(* ===== verification/Fabric_Blocks.thy ===== *)
theory Fabric_Blocks
  imports Address_Converter Block_Hash Externals Eth_Types
begin

section \<open>Fabric blocks and what the service reads in them\<close>

text \<open>
  The part of \<^verbatim>\<open>fab3/ethservice.go\<close> that takes a Fabric block apart
  (\<^verbatim>\<open>getChannelHeaderandPayloadFromTransactionData\<close>, \<^verbatim>\<open>findTransaction\<close>,
  \<^verbatim>\<open>getTransactionInformation\<close>, \<^verbatim>\<open>getPayloads\<close>). The protobuf decoders of the
  SDK and its validation flags are parameters; a decoder returns the fields the code reads, an absent
  message or a nil slice is \<open>None\<close> where the code tells it from an empty one.
\<close>

record payload =
  pl_ChannelHeader :: bytes
  pl_SignatureHeader :: bytes
  pl_Data :: bytes

record channel_header =
  ch_Type :: int
  ch_TxId :: string

record action_payload =
  cap_ChaincodeProposalPayload :: bytes
  cap_Action :: "bytes option option"

record chaincode_action =
  ca_Events :: bytes
  ca_ResponsePayload :: bytes

record block =
  blk_Header :: "block_header option"
  blk_Data :: "bytes option list"
  blk_Metadata :: "bytes list"

record 'pk fab_externals = "'pk identity_ext" +
  unmarshal_Envelope :: "bytes \<Rightarrow> go_error + bytes"
  unmarshal_Payload :: "bytes \<Rightarrow> go_error + payload"
  unmarshal_ChannelHeader :: "bytes \<Rightarrow> go_error + channel_header"
  unmarshal_SignatureHeader :: "bytes \<Rightarrow> go_error + bytes"
  unmarshal_Transaction :: "bytes \<Rightarrow> go_error + bytes list"
  unmarshal_ChaincodeActionPayload :: "bytes \<Rightarrow> go_error + action_payload"
  unmarshal_ChaincodeProposalPayload :: "bytes \<Rightarrow> go_error + bytes"
  unmarshal_ProposalResponsePayload :: "bytes \<Rightarrow> go_error + bytes option"
  unmarshal_ChaincodeAction :: "bytes \<Rightarrow> go_error + chaincode_action"
  unmarshal_ChaincodeInvocationSpec :: "bytes \<Rightarrow> go_error + bytes list option"
  unmarshal_ChaincodeEvent :: "bytes \<Rightarrow> go_error + bytes"
  json_Unmarshal_events :: "bytes \<Rightarrow> go_error + event list"
  TxValidationFlags_IsValid :: "bytes \<Rightarrow> nat \<Rightarrow> bool res"
  fab_sha256 :: "bytes \<Rightarrow> bytes"
  fab_ToLower :: "string \<Rightarrow> string"

definition HeaderType_ENDORSER_TRANSACTION :: int where "HeaderType_ENDORSER_TRANSACTION = 3"
definition BlockMetadataIndex_TRANSACTIONS_FILTER :: nat where "BlockMetadataIndex_TRANSACTIONS_FILTER = 2"

text \<open>\<^verbatim>\<open>block.GetMetadata().GetMetadata()[common.BlockMetadataIndex_TRANSACTIONS_FILTER]\<close>.\<close>

definition transactions_filter :: "block \<Rightarrow> bytes res" where
  "transactions_filter b =
     (if BlockMetadataIndex_TRANSACTIONS_FILTER < length (blk_Metadata b)
      then Ok (blk_Metadata b ! BlockMetadataIndex_TRANSACTIONS_FILTER)
      else Panic ''index out of range'')"

text \<open>The hash of a block's header; a block without a header dereferences nil.\<close>

definition header_hash :: "('pk, 'z) fab_externals_scheme \<Rightarrow> block_header option \<Rightarrow> bytes res" where
  "header_hash F h =
     (case h of None \<Rightarrow> Panic ''nil pointer dereference'' | Some h \<Rightarrow> blockHash (fab_sha256 F) h)"

definition header_number :: "block_header option \<Rightarrow> 64 word" where
  "header_number h = (case h of None \<Rightarrow> 0 | Some h \<Rightarrow> hd_Number h)"

subsection \<open>Transactions\<close>

definition getChannelHeaderandPayload ::
    "('pk, 'z) fab_externals_scheme \<Rightarrow> bytes \<Rightarrow> (payload \<times> channel_header) res" where
  "getChannelHeaderandPayload F transactionData =
     (case unmarshal_Envelope F transactionData of
        Inl e \<Rightarrow> Err e
      | Inr env_payload \<Rightarrow>
     (case unmarshal_Payload F env_payload of
        Inl e \<Rightarrow> Err e
      | Inr payload \<Rightarrow>
     (case unmarshal_ChannelHeader F (pl_ChannelHeader payload) of
        Inl e \<Rightarrow> Err e
      | Inr chdr \<Rightarrow> Ok (payload, chdr))))"

text \<open>
  A transaction of the wanted id: its index as text and its payload, or the empty text and a nil
  payload when there is none.
\<close>

fun findTransaction_from ::
    "('pk, 'z) fab_externals_scheme \<Rightarrow> nat \<Rightarrow> string \<Rightarrow> bytes option list \<Rightarrow> (string \<times> payload option) res" where
  "findTransaction_from F index txID [] = Ok ([], None)"
| "findTransaction_from F index txID (d # ds) =
     (case d of
        None \<Rightarrow> findTransaction_from F (index + 1) txID ds
      | Some transactionData \<Rightarrow>
          (case getChannelHeaderandPayload F transactionData of
             Err e \<Rightarrow> Err e
           | Panic p \<Rightarrow> Panic p
           | Ok (payload, chdr) \<Rightarrow>
               (if txID \<noteq> ch_TxId chdr then findTransaction_from F (index + 1) txID ds
                else Ok (''0x'' @ strconv_FormatUint16 (word_of_nat index), Some payload))))"

definition findTransaction ::
    "('pk, 'z) fab_externals_scheme \<Rightarrow> string \<Rightarrow> bytes option list \<Rightarrow> (string \<times> payload option) res" where
  "findTransaction F = findTransaction_from F 0"

definition getPayloads ::
    "('pk, 'z) fab_externals_scheme \<Rightarrow> bytes \<Rightarrow> (bytes \<times> chaincode_action) res" where
  "getPayloads F txAction_Payload =
     (case unmarshal_ChaincodeActionPayload F txAction_Payload of
        Inl e \<Rightarrow> Err e
      | Inr ccPayload \<Rightarrow>
     (case cap_Action ccPayload of
        None \<Rightarrow> Err (Msg ''no payload in ChaincodeActionPayload'')
      | Some None \<Rightarrow> Err (Msg ''no payload in ChaincodeActionPayload'')
      | Some (Some proposalResponsePayload) \<Rightarrow>
     (case unmarshal_ChaincodeProposalPayload F (cap_ChaincodeProposalPayload ccPayload) of
        Inl e \<Rightarrow> Err e
      | Inr ccProposalPayload_Input \<Rightarrow>
     (case unmarshal_ProposalResponsePayload F proposalResponsePayload of
        Inl e \<Rightarrow> Err e
      | Inr None \<Rightarrow> Err (Msg ''response payload is missing extension'')
      | Inr (Some extension) \<Rightarrow>
     (case unmarshal_ChaincodeAction F extension of
        Inl e \<Rightarrow> Err e
      | Inr respPayload \<Rightarrow> Ok (ccProposalPayload_Input, respPayload))))))"

text \<open>
  The callee, the input, the sender and the response of a transaction. The first action is taken
  without a check, and so are the arguments of the invocation. A query has none of the first three.
\<close>

definition getTransactionInformation ::
    "('pk, 'z) fab_externals_scheme \<Rightarrow> payload option \<Rightarrow> (string \<times> string \<times> string \<times> chaincode_action) res" where
  "getTransactionInformation F payload =
     (let data = (case payload of None \<Rightarrow> [] | Some p \<Rightarrow> pl_Data p);
          sig = (case payload of None \<Rightarrow> [] | Some p \<Rightarrow> pl_SignatureHeader p)
      in case unmarshal_Transaction F data of
        Inl e \<Rightarrow> Err e
      | Inr actions \<Rightarrow>
     (case actions of
        [] \<Rightarrow> Panic ''index out of range''
      | action # _ \<Rightarrow>
     (case getPayloads F action of
        Panic p \<Rightarrow> Panic p
      | Err e \<Rightarrow> Err (Fmt ''Failed to unmarshal transaction: %s'' [AErr e])
      | Ok (input, respPayload) \<Rightarrow>
     (case unmarshal_ChaincodeInvocationSpec F input of
        Inl e \<Rightarrow> Err (Fmt ''Failed to unmarshal transaction: %s'' [AErr e])
      | Inr None \<Rightarrow> Panic ''nil pointer dereference''
      | Inr (Some args) \<Rightarrow>
          (if length args \<noteq> 2 \<or> string_of (args ! 0) = ''getCode'' then Ok ([], [], [], respPayload)
           else
     (case unmarshal_SignatureHeader F sig of
        Inl e \<Rightarrow> Err (Fmt ''Failed unmarshaling signature header: %s'' [AErr e])
      | Inr creator \<Rightarrow>
     (case IdentityToAddr (identity_ext.truncate F) creator of
        Inl e \<Rightarrow> Err (Fmt ''Failed generating from address: %s'' [AErr e])
      | Inr from \<Rightarrow>
          Ok (string_of (args ! 0), string_of (args ! 1), ''0x'' @ hex_EncodeToString from, respPayload))))))))"

subsection \<open>Finding a transaction\<close>

text \<open>The id of the transaction at a place of the block, where it can be decoded.\<close>

definition tx_id_at :: "('pk, 'z) fab_externals_scheme \<Rightarrow> bytes option list \<Rightarrow> nat \<Rightarrow> string option" where
  "tx_id_at F ds i =
     (case ds ! i of
        None \<Rightarrow> None
      | Some d \<Rightarrow> (case getChannelHeaderandPayload F d of Ok (_, chdr) \<Rightarrow> Some (ch_TxId chdr) | _ \<Rightarrow> None))"

lemma tx_id_at_Cons [simp]: "tx_id_at F (d # ds) (Suc i) = tx_id_at F ds i"
  by (simp add: tx_id_at_def)

lemma getChannelHeader_not_panic: "getChannelHeaderandPayload F d \<noteq> Panic p"
  by (auto simp: getChannelHeaderandPayload_def split: sum.split)

lemma findTransaction_from_Some:
  assumes "findTransaction_from F k txID ds = Ok (index, Some p)"
  shows "\<exists>i d chdr. i < length ds \<and> index = ''0x'' @ strconv_FormatUint16 (word_of_nat (k + i)) \<and> ds ! i = Some d \<and>
    getChannelHeaderandPayload F d = Ok (p, chdr) \<and> ch_TxId chdr = txID \<and>
    (\<forall>j<i. tx_id_at F ds j \<noteq> Some txID)"
  using assms
proof (induction ds arbitrary: k)
  case (Cons d ds)
  show ?case
  proof (cases "tx_id_at F (d # ds) 0 = Some txID")
    case True
    then obtain x q chdr where "d = Some x" "getChannelHeaderandPayload F x = Ok (q, chdr)" "ch_TxId chdr = txID"
      by (auto simp: tx_id_at_def split: option.splits res.splits)
    with Cons.prems show ?thesis
      by (intro exI [of _ 0]) auto
  next
    case False
    then have "findTransaction_from F (k + 1) txID ds = Ok (index, Some p)"
      using Cons.prems by (auto simp: tx_id_at_def split: option.splits res.splits if_splits)
    from Cons.IH [OF this] obtain i x chdr where i: "i < length ds"
      "index = ''0x'' @ strconv_FormatUint16 (word_of_nat (k + 1 + i))" "ds ! i = Some x"
      "getChannelHeaderandPayload F x = Ok (p, chdr)" "ch_TxId chdr = txID" "\<forall>j<i. tx_id_at F ds j \<noteq> Some txID"
      by blast
    have "\<forall>j<Suc i. tx_id_at F (d # ds) j \<noteq> Some txID"
      using i(6) False by (auto simp: less_Suc_eq_0_disj)
    with i show ?thesis
      by (intro exI [of _ "Suc i"]) (auto simp del: of_nat_Suc of_nat_add)
  qed
qed simp

lemma findTransaction_from_None:
  assumes "findTransaction_from F k txID ds = Ok (index, None)"
  shows "index = [] \<and> (\<forall>j<length ds. tx_id_at F ds j \<noteq> Some txID)"
  using assms
proof (induction ds arbitrary: k)
  case (Cons d ds)
  then have no: "tx_id_at F (d # ds) 0 \<noteq> Some txID"
    and "findTransaction_from F (k + 1) txID ds = Ok (index, None)"
    by (auto simp: tx_id_at_def split: option.splits res.splits if_splits prod.splits)
  with Cons.IH [of "k + 1"] show ?case
    by (auto simp: less_Suc_eq_0_disj)
qed simp

end
