(* ===== verification/Evm_Logs.thy ===== *)
theory Evm_Logs
  imports Fabric_Blocks Event_Manager
begin

section \<open>EVM logs out of Fabric events\<close>

text \<open>
  \<^verbatim>\<open>fabricEventToEVMLogs\<close> of \<^verbatim>\<open>fab3/ethservice.go\<close>: the logs of a transaction
  that pass an address filter and a topics filter. The nested loops with their labelled
  \<^verbatim>\<open>continue\<close>s are proved to select by the predicate \<open>log_matches\<close>.
\<close>

fun address_found :: "string \<Rightarrow> string list \<Rightarrow> bool" where
  "address_found event_address [] = False"
| "address_found event_address (address # af) =
     (if event_address = address then True else address_found event_address af)"

fun topic_found :: "string \<Rightarrow> string list \<Rightarrow> bool" where
  "topic_found eventTopic [] = False"
| "topic_found eventTopic (topic # ts) =
     (if topic = eventTopic \<or> topic = [] then True else topic_found eventTopic ts)"

text \<open>The loop over the positions; False is \<^verbatim>\<open>continue LOG_EVENT\<close>.\<close>

fun topics_loop :: "nat \<Rightarrow> string list list \<Rightarrow> string list \<Rightarrow> bool res" where
  "topics_loop i [] topics = Ok True"
| "topics_loop i (topicFilter # tf) topics =
     (if length topicFilter = 0 then topics_loop (i + 1) tf topics
      else if i \<ge> length topics then Panic ''index out of range''
      else if topic_found (topics ! i) topicFilter then topics_loop (i + 1) tf topics
      else Ok False)"

definition log_of_event :: "string \<Rightarrow> string \<Rightarrow> string \<Rightarrow> string \<Rightarrow> nat \<Rightarrow> event \<Rightarrow> eth_log" where
  "log_of_event blocknumber txhash txindex blockhash i logEvent =
     \<lparr>lg_Address = ''0x'' @ ev_Address logEvent,
      lg_Topics = nil_slice (map (\<lambda>t. ''0x'' @ t) (ev_Topics logEvent)),
      lg_Data = (if ev_Data logEvent \<noteq> [] then ''0x'' @ ev_Data logEvent else []),
      lg_BlockNumber = blocknumber, lg_TxHash = txhash, lg_TxIndex = txindex, lg_BlockHash = blockhash,
      lg_Index = ''0x'' @ strconv_FormatUint16 (word_of_nat i)\<rparr>"

fun events_loop ::
    "(nat \<Rightarrow> event \<Rightarrow> eth_log) \<Rightarrow> string list \<Rightarrow> string list list \<Rightarrow> nat \<Rightarrow> event list \<Rightarrow> eth_log list res" where
  "events_loop mk af tf i [] = Ok []"
| "events_loop mk af tf i (logEvent # evs) =
     (if length af \<noteq> 0 \<and> \<not> address_found (ev_Address logEvent) af then events_loop mk af tf (i + 1) evs
      else if length tf > length (ev_Topics logEvent) then events_loop mk af tf (i + 1) evs
      else (case topics_loop 0 tf (ev_Topics logEvent) of
          Panic p \<Rightarrow> Panic p
        | Err e \<Rightarrow> Err e
        | Ok False \<Rightarrow> events_loop mk af tf (i + 1) evs
        | Ok True \<Rightarrow>
            (case events_loop mk af tf (i + 1) evs of
               Ok txLogs \<Rightarrow> Ok (mk i logEvent # txLogs) | Err e \<Rightarrow> Err e | Panic p \<Rightarrow> Panic p)))"

definition fabricEventToEVMLogs ::
    "('pk, 'z) fab_externals_scheme \<Rightarrow> bytes \<Rightarrow> string \<Rightarrow> string \<Rightarrow> string \<Rightarrow> string \<Rightarrow> string list \<Rightarrow>
     string list list \<Rightarrow> eth_log list option res" where
  "fabricEventToEVMLogs F events blocknumber txhash txindex blockhash af tf =
     (if length events = 0 then Ok None
      else (case unmarshal_ChaincodeEvent F events of
        Inl e \<Rightarrow> Err (Fmt ''failed to decode chaincode event'' [AErr e])
      | Inr payload \<Rightarrow>
     (case json_Unmarshal_events F payload of
        Inl e \<Rightarrow> Err (Fmt ''failed to unmarshal chaincode event payload'' [AErr e])
      | Inr eventMsgs \<Rightarrow>
          (case events_loop (log_of_event blocknumber txhash txindex blockhash) af tf 0 eventMsgs of
             Ok txLogs \<Rightarrow> Ok (nil_slice txLogs) | Err e \<Rightarrow> Err e | Panic p \<Rightarrow> Panic p))))"

subsection \<open>The filter\<close>

definition topic_matches :: "string list \<Rightarrow> string \<Rightarrow> bool" where
  "topic_matches alternatives t \<longleftrightarrow> alternatives = [] \<or> [] \<in> set alternatives \<or> t \<in> set alternatives"

definition log_matches :: "string list \<Rightarrow> string list list \<Rightarrow> event \<Rightarrow> bool" where
  "log_matches af tf ev \<longleftrightarrow>
     (af = [] \<or> ev_Address ev \<in> set af) \<and> length tf \<le> length (ev_Topics ev) \<and>
     list_all (\<lambda>(f, t). topic_matches f t) (zip tf (ev_Topics ev))"

lemma address_found_iff: "address_found a af \<longleftrightarrow> a \<in> set af"
  by (induction af) auto

lemma topic_found_iff: "topic_found t ts \<longleftrightarrow> [] \<in> set ts \<or> t \<in> set ts"
  by (induction ts) auto

lemma topics_loop_eq:
  "i + length tf \<le> length topics \<Longrightarrow>
   topics_loop i tf topics = Ok (list_all (\<lambda>(f, t). topic_matches f t) (zip tf (drop i topics)))"
proof (induction tf arbitrary: i)
  case (Cons f tf)
  then have "drop i topics = topics ! i # drop (Suc i) topics"
    by (simp add: Cons_nth_drop_Suc)
  with Cons.IH [of "Suc i"] Cons.prems show ?case
    by (simp add: topic_found_iff topic_matches_def)
qed simp

text \<open>What the loops return: the matching events, each with its index in the transaction.\<close>

definition matching_logs ::
    "(nat \<Rightarrow> event \<Rightarrow> eth_log) \<Rightarrow> string list \<Rightarrow> string list list \<Rightarrow> event list \<Rightarrow> eth_log list" where
  "matching_logs mk af tf evs =
     map (\<lambda>(i, ev). mk i ev) (filter (\<lambda>(i, ev). log_matches af tf ev) (enumerate 0 evs))"

lemma events_loop_from:
  "events_loop mk af tf i evs =
     Ok (map (\<lambda>(i, ev). mk i ev) (filter (\<lambda>(i, ev). log_matches af tf ev) (enumerate i evs)))"
proof (induction evs arbitrary: i)
  case (Cons ev evs)
  show ?case
    using topics_loop_eq [of 0 tf "ev_Topics ev"] Cons.IH [of "Suc i"] log_matches_def [of af tf ev]
    by (auto simp: address_found_iff split: bool.split)
qed simp

lemma events_loop_eq: "events_loop mk af tf 0 evs = Ok (matching_logs mk af tf evs)"
  by (simp add: events_loop_from matching_logs_def)

text \<open>No panic, and nothing but the decoders fails.\<close>

lemma fabricEventToEVMLogs_eq:
  assumes "events \<noteq> []" and "unmarshal_ChaincodeEvent F events = Inr p" and "json_Unmarshal_events F p = Inr evs"
  shows "fabricEventToEVMLogs F events bn th ti bh af tf =
    Ok (nil_slice (matching_logs (log_of_event bn th ti bh) af tf evs))"
  using assms by (simp add: fabricEventToEVMLogs_def events_loop_eq)

lemma fabricEventToEVMLogs_not_panic: "fabricEventToEVMLogs F events bn th ti bh af tf \<noteq> Panic p"
  by (auto simp: fabricEventToEVMLogs_def events_loop_eq split: sum.split)

text \<open>An empty filter passes everything, and a filter of nulls counts topics.\<close>

lemma log_matches_empty: "log_matches [] [] ev"
  by (simp add: log_matches_def)

lemma log_matches_nulls: "log_matches [] (replicate n ['''']) ev \<longleftrightarrow> n \<le> length (ev_Topics ev)"
  by (auto simp: log_matches_def topic_matches_def list_all_iff set_zip)

text \<open>Longer filters pass fewer logs.\<close>

lemma log_matches_mono: "log_matches af (tf @ tf') ev \<Longrightarrow> log_matches af tf ev"
  by (fastforce simp: log_matches_def list_all_iff in_set_zip nth_append)

end
