(* ===== verification/Eth_Filters.thy ===== *)
theory Eth_Filters
  imports Eth_Types
begin

section \<open>The filters of the service\<close>

text \<open>
  \<^verbatim>\<open>NewFilter\<close> and \<^verbatim>\<open>UninstallFilter\<close> of \<^verbatim>\<open>fab3/ethservice.go\<close>
  and the state they share: a map from ids to filters and the last id given out, a
  \<^verbatim>\<open>uint64\<close>. Both run under one lock, so a run of the service is a sequence of them.
\<close>

record filter_state =
  filterMap :: "64 word \<rightharpoonup> get_logs_args"
  filterSeq :: "64 word"

definition NewEthService_filters :: filter_state where
  "NewEthService_filters = \<lparr>filterMap = Map.empty, filterSeq = 0\<rparr>"

definition NewFilter :: "filter_state \<Rightarrow> get_logs_args \<Rightarrow> string \<times> filter_state" where
  "NewFilter s args =
     (let index = filterSeq s + 1
      in (''0x'' @ strconv_FormatUint16 index,
          s\<lparr>filterSeq := index, filterMap := (filterMap s)(index \<mapsto> args)\<rparr>))"

text \<open>\<^verbatim>\<open>removed\<close> is the reply variable; it is only ever set to true.\<close>

definition UninstallFilter :: "filter_state \<Rightarrow> string \<Rightarrow> bool \<Rightarrow> (go_error + bool) \<times> filter_state" where
  "UninstallFilter s filterID removed =
     (case strconv_ParseUint16 (strip0x filterID) of
        (_, Some e) \<Rightarrow> (Inl (Fmt ''failed to parse filter id'' [AErr e]), s)
      | (index, None) \<Rightarrow>
          (case filterMap s index of
             Some _ \<Rightarrow> (Inr True, s\<lparr>filterMap := (filterMap s)(index := None)\<rparr>)
           | None \<Rightarrow> (Inr removed, s)))"

subsection \<open>A table that hands out handles\<close>

text \<open>
  The contract of such a table: a new handle is not in use, looking it up gives the value, other
  handles keep theirs, and removing one takes away that one; \<open>capacity\<close> is how many are left.
\<close>

locale handle_table =
  fixes install :: "'s \<Rightarrow> 'v \<Rightarrow> 'h \<times> 's"
    and remove :: "'s \<Rightarrow> 'h \<Rightarrow> bool \<times> 's"
    and value_of :: "'s \<Rightarrow> 'h \<Rightarrow> 'v option"
    and valid :: "'s \<Rightarrow> bool"
    and capacity :: "'s \<Rightarrow> nat"
  assumes install: "\<lbrakk>valid s; capacity s > 0; install s v = (h, t)\<rbrakk> \<Longrightarrow>
      valid t \<and> capacity t = capacity s - 1 \<and> value_of s h = None \<and> value_of t = (value_of s)(h \<mapsto> v)"
    and remove: "\<lbrakk>valid s; value_of s h \<noteq> None; remove s h = (b, t)\<rbrakk> \<Longrightarrow>
      valid t \<and> capacity t = capacity s \<and> b \<and> value_of t = (value_of s)(h := None)"
begin

fun install_all :: "'s \<Rightarrow> 'v list \<Rightarrow> 'h list \<times> 's" where
  "install_all s [] = ([], s)"
| "install_all s (v # vs) =
     (case install s v of (h, t) \<Rightarrow> (case install_all t vs of (hs, u) \<Rightarrow> (h # hs, u)))"

lemma install_all_ok:
  assumes "valid s" and "length vs \<le> capacity s" and "install_all s vs = (hs, t)"
  shows "valid t \<and> distinct hs \<and> length hs = length vs \<and> (\<forall>h \<in> set hs. value_of s h = None) \<and>
    (\<forall>i < length vs. value_of t (hs ! i) = Some (vs ! i)) \<and>
    (\<forall>h. h \<notin> set hs \<longrightarrow> value_of t h = value_of s h)"
  using assms
proof (induction vs arbitrary: s hs)
  case Nil
  then show ?case by auto
next
  case (Cons v vs)
  obtain h u where h: "install s v = (h, u)"
    by (cases "install s v")
  then obtain ks where ks: "install_all u vs = (ks, t)" and hs: "hs = h # ks"
    using Cons.prems(3) by (auto split: prod.splits)
  have cap: "capacity s > 0"
    using Cons.prems(2) by simp
  note u = install [OF Cons.prems(1) cap h]
  have "length vs \<le> capacity u"
    using u Cons.prems(2) by simp
  note rest = Cons.IH [OF conjunct1 [OF u] this ks]
  have "h \<notin> set ks"
    using rest u by auto
  moreover have "value_of s k = None" if "k \<in> set ks" for k
    using rest u that by (metis fun_upd_apply option.distinct(1))
  ultimately show ?case
    using rest u by (auto simp: hs less_Suc_eq_0_disj)
qed

lemma remove_after_install:
  assumes "valid s" and "capacity s > 0" and "install s v = (h, t)" and "remove t h = (b, u)"
  shows "b \<and> value_of u = value_of s"
proof -
  note t = install [OF assms(1-3)]
  with remove [of t h b u] assms(4) show ?thesis
    by (auto simp: fun_eq_iff)
qed

end

text \<open>The ids of the service, as the numbers behind their text.\<close>

definition ids_ok :: "filter_state \<Rightarrow> bool" where
  "ids_ok s \<longleftrightarrow> (\<forall>k \<in> dom (filterMap s). k \<noteq> 0 \<and> k \<le> filterSeq s)"

definition ids_left :: "filter_state \<Rightarrow> nat" where
  "ids_left s = 2 ^ 64 - 1 - unat (filterSeq s)"

text \<open>The number a reply or an argument stands for, and the two handlers on numbers.\<close>

definition filter_id :: "string \<Rightarrow> 64 word" where
  "filter_id s = fst (strconv_ParseUint16 (strip0x s))"

definition install_filter :: "filter_state \<Rightarrow> get_logs_args \<Rightarrow> 64 word \<times> filter_state" where
  "install_filter s args = apfst filter_id (NewFilter s args)"

definition remove_filter :: "filter_state \<Rightarrow> 64 word \<Rightarrow> bool \<times> filter_state" where
  "remove_filter s k = apfst (\<lambda>r. r = Inr True) (UninstallFilter s (''0x'' @ strconv_FormatUint16 k) False)"

lemma strip0x_0x [simp]: "strip0x (''0x'' @ s) = s"
  using TrimPrefix_append [of "''0x''" s] by (simp add: strip0x_def)

lemma strip0x_Cons [simp]: "strip0x (CHR ''0'' # CHR ''x'' # s) = s"
  using strip0x_0x [of s] by simp

lemma filter_id_reply [simp]: "filter_id (''0x'' @ strconv_FormatUint16 k) = k"
  using strip0x_0x [of "strconv_FormatUint16 k"] by (simp add: filter_id_def)

lemma install_filter_eq:
  "install_filter s args = (filterSeq s + 1,
     s\<lparr>filterSeq := filterSeq s + 1, filterMap := (filterMap s)(filterSeq s + 1 \<mapsto> args)\<rparr>)"
  using filter_id_reply [of "filterSeq s + 1"] by (simp add: install_filter_def NewFilter_def Let_def)

lemma UninstallFilter_number:
  "UninstallFilter s (''0x'' @ strconv_FormatUint16 k) removed =
     (case filterMap s k of
        Some _ \<Rightarrow> (Inr True, s\<lparr>filterMap := (filterMap s)(k := None)\<rparr>)
      | None \<Rightarrow> (Inr removed, s))"
  using strip0x_0x [of "strconv_FormatUint16 k"] by (simp add: UninstallFilter_def)

lemma remove_filter_eq:
  "remove_filter s k = (filterMap s k \<noteq> None, s\<lparr>filterMap := (filterMap s)(k := None)\<rparr>)"
  unfolding remove_filter_def UninstallFilter_number
  by (auto simp: fun_upd_idem split: option.split)

lemma next_id:
  assumes "ids_left s > 0"
  shows "unat (filterSeq s + 1) = unat (filterSeq s) + 1"
  using assms unat_less_size [of "filterSeq s"] by (simp add: ids_left_def unat_word_ariths)

lemma next_id_free:
  assumes "ids_ok s" and "ids_left s > 0"
  shows "filterMap s (filterSeq s + 1) = None"
proof (rule ccontr)
  assume "filterMap s (filterSeq s + 1) \<noteq> None"
  then have "filterSeq s + 1 \<le> filterSeq s"
    using assms(1) unfolding ids_ok_def by (meson domIff)
  with next_id [OF assms(2)] show False
    by (simp add: word_le_nat_alt)
qed

lemma ids_ok_install:
  assumes "ids_ok s" and "ids_left s > 0"
  shows "ids_ok (s\<lparr>filterSeq := filterSeq s + 1, filterMap := (filterMap s)(filterSeq s + 1 \<mapsto> args)\<rparr>)"
proof -
  have step: "filterSeq s \<le> filterSeq s + 1" "filterSeq s + 1 \<noteq> 0"
    using next_id [OF assms(2)] by (auto simp: word_le_nat_alt dest: arg_cong [where f = unat])
  have "k \<noteq> 0 \<and> k \<le> filterSeq s + 1" if "k \<in> insert (filterSeq s + 1) (dom (filterMap s))" for k
  proof (cases "k = filterSeq s + 1")
    case False
    with that assms(1) step(1) show ?thesis
      by (auto simp: ids_ok_def intro: order_trans)
  qed (use step in simp)
  then show ?thesis
    by (auto simp: ids_ok_def)
qed

lemma ids_ok_subset:
  "ids_ok s \<Longrightarrow> filterSeq t = filterSeq s \<Longrightarrow> dom (filterMap t) \<subseteq> dom (filterMap s) \<Longrightarrow> ids_ok t"
  unfolding ids_ok_def by (simp add: subset_eq)

interpretation filters: handle_table install_filter remove_filter filterMap ids_ok ids_left
proof
  fix s :: filter_state and v h t
  assume ok: "ids_ok s" and left: "ids_left s > 0" and inst: "install_filter s v = (h, t)"
  have t: "t = s\<lparr>filterSeq := filterSeq s + 1, filterMap := (filterMap s)(filterSeq s + 1 \<mapsto> v)\<rparr>"
    and h: "h = filterSeq s + 1"
    using inst unfolding install_filter_eq by auto
  show "ids_ok t \<and> ids_left t = ids_left s - 1 \<and> filterMap s h = None \<and> filterMap t = (filterMap s)(h \<mapsto> v)"
    using ids_ok_install [OF ok left] next_id_free [OF ok left] next_id [OF left]
    by (simp add: t h ids_left_def)
next
  fix s :: filter_state and h b t
  assume ok: "ids_ok s" and "filterMap s h \<noteq> None" and "remove_filter s h = (b, t)"
  moreover from this have "ids_ok t"
    by (intro ids_ok_subset [OF ok]) (auto simp: remove_filter_eq split: if_splits)
  ultimately show "ids_ok t \<and> ids_left t = ids_left s \<and> b \<and> filterMap t = (filterMap s)(h := None)"
    by (auto simp: remove_filter_eq ids_left_def)
qed

subsection \<open>Runs of the service\<close>

text \<open>Every state the service can be in, with the number of filters it has installed.\<close>

inductive filters_reachable :: "nat \<Rightarrow> filter_state \<Rightarrow> bool" where
  start: "filters_reachable 0 NewEthService_filters"
| new: "filters_reachable n s \<Longrightarrow> NewFilter s args = (r, t) \<Longrightarrow> filters_reachable (Suc n) t"
| uninstall: "filters_reachable n s \<Longrightarrow> UninstallFilter s a removed = (r, t) \<Longrightarrow> filters_reachable n t"

lemma UninstallFilter_map:
  "UninstallFilter s a removed = (r, t) \<Longrightarrow>
   filterSeq t = filterSeq s \<and> dom (filterMap t) \<subseteq> dom (filterMap s)"
  by (auto simp: UninstallFilter_def split: prod.splits option.splits if_splits)

lemma filters_reachable_ok:
  "filters_reachable n s \<Longrightarrow> n < 2 ^ 64 \<Longrightarrow> ids_ok s \<and> unat (filterSeq s) = n"
proof (induction rule: filters_reachable.induct)
  case start
  show ?case by (simp add: NewEthService_filters_def ids_ok_def)
next
  case (new n s args r t)
  then have ok: "ids_ok s" "unat (filterSeq s) = n" and left: "ids_left s > 0"
    by (auto simp: ids_left_def)
  have "t = s\<lparr>filterSeq := filterSeq s + 1, filterMap := (filterMap s)(filterSeq s + 1 \<mapsto> args)\<rparr>"
    using new.hyps(2) by (auto simp: NewFilter_def Let_def)
  with ids_ok_install [OF ok(1) left] next_id [OF left] ok(2) show ?case
    by simp
next
  case (uninstall n s a removed r t)
  with UninstallFilter_map [OF uninstall.hyps(2)] show ?case
    by (auto intro: ids_ok_subset)
qed

end
