(* ===== verification/Eth_Service.thy ===== *)
theory Eth_Service
  imports Evm_Logs Eth_Filters
begin

section \<open>The JSON-RPC service\<close>

text \<open>
  The handlers of \<^verbatim>\<open>fab3/ethservice.go\<close>. The ledger and channel clients of the SDK are
  parameters over a state \<open>'w\<close> of the network: other transactions are committed between two
  queries, so every call returns the state it leaves. A handler returns its reply, an error or a
  panic. \<^verbatim>\<open>GetLogs\<close> loops over block numbers with a \<^verbatim>\<open>uint64\<close> that may
  wrap around, so its loop is a partial function: \<open>None\<close> is a loop that does not end.
\<close>

record 'w ledger_client =
  QueryInfo :: "'w \<Rightarrow> (go_error + 64 word) \<times> 'w"
  QueryBlock :: "64 word \<Rightarrow> 'w \<Rightarrow> (go_error + block) \<times> 'w"
  QueryBlockByTxID :: "string \<Rightarrow> 'w \<Rightarrow> (go_error + block) \<times> 'w"
  QueryBlockByHash :: "bytes \<Rightarrow> 'w \<Rightarrow> (go_error + block) \<times> 'w"

record channel_request =
  rq_ChaincodeID :: string
  rq_Fcn :: string
  rq_Args :: "bytes list"

record channel_response =
  rs_Payload :: bytes
  rs_TransactionID :: string

record 'w channel_client =
  channel_Query :: "channel_request \<Rightarrow> 'w \<Rightarrow> (go_error + channel_response) \<times> 'w"
  channel_Execute :: "channel_request \<Rightarrow> 'w \<Rightarrow> (go_error + channel_response) \<times> 'w"

record 'w eth_service =
  channelClient :: "'w channel_client"
  ledgerClient :: "'w ledger_client"
  channelID :: string
  ccid :: string

record eth_args =
  ea_To :: string
  ea_From :: string
  ea_Gas :: string
  ea_GasPrice :: string
  ea_Value :: string
  ea_Data :: string
  ea_Nonce :: string

definition ZeroAddress_bytes :: bytes where
  "ZeroAddress_bytes = replicate 20 0"

definition hex0x :: "64 word \<Rightarrow> string" where
  "hex0x n = ''0x'' @ strconv_FormatUint16 n"

subsection \<open>Chaincode calls\<close>

definition eth_query ::
    "'w eth_service \<Rightarrow> string \<Rightarrow> bytes list \<Rightarrow> 'w \<Rightarrow> (go_error + channel_response) \<times> 'w" where
  "eth_query S fcn args w =
     channel_Query (channelClient S) \<lparr>rq_ChaincodeID = ccid S, rq_Fcn = fcn, rq_Args = args\<rparr> w"

definition eth_GetCode :: "'w eth_service \<Rightarrow> string \<Rightarrow> 'w \<Rightarrow> string res \<times> 'w" where
  "eth_GetCode S arg w =
     (case eth_query S ''getCode'' [bytes_of (strip0x arg)] w of
        (Inl e, w') \<Rightarrow> (Err (Fmt ''Failed to query the ledger: %s'' [AErr e]), w')
      | (Inr response, w') \<Rightarrow> (Ok (string_of (rs_Payload response)), w'))"

definition eth_Call :: "'w eth_service \<Rightarrow> eth_args \<Rightarrow> 'w \<Rightarrow> string res \<times> 'w" where
  "eth_Call S args w =
     (case eth_query S (strip0x (ea_To args)) [bytes_of (strip0x (ea_Data args))] w of
        (Inl e, w') \<Rightarrow> (Err (Fmt ''Failed to query the ledger: %s'' [AErr e]), w')
      | (Inr response, w') \<Rightarrow> (Ok (''0x'' @ hex_EncodeToString (rs_Payload response)), w'))"

definition eth_SendTransaction :: "'w eth_service \<Rightarrow> eth_args \<Rightarrow> 'w \<Rightarrow> string res \<times> 'w" where
  "eth_SendTransaction S args w =
     (let to = (if ea_To args = [] then hex_EncodeToString ZeroAddress_bytes else ea_To args)
      in case channel_Execute (channelClient S)
          \<lparr>rq_ChaincodeID = ccid S, rq_Fcn = strip0x to, rq_Args = [bytes_of (strip0x (ea_Data args))]\<rparr> w of
        (Inl e, w') \<Rightarrow> (Err (Fmt ''Failed to execute transaction: %s'' [AErr e]), w')
      | (Inr response, w') \<Rightarrow> (Ok (rs_TransactionID response), w'))"

definition eth_Accounts :: "(string \<Rightarrow> string) \<Rightarrow> 'w eth_service \<Rightarrow> 'w \<Rightarrow> string list res \<times> 'w" where
  "eth_Accounts uni S w =
     (case eth_query S ''account'' [] w of
        (Inl e, w') \<Rightarrow> (Err (Fmt ''Failed to query the ledger: %s'' [AErr e]), w')
      | (Inr response, w') \<Rightarrow> (Ok [''0x'' @ strings_ToLower uni (string_of (rs_Payload response))], w'))"

definition eth_EstimateGas :: string where "eth_EstimateGas = ''0x0''"
definition eth_GetBalance :: string where "eth_GetBalance = ''0x0''"
definition eth_GetTransactionCount :: string where "eth_GetTransactionCount = ''0x0''"

subsection \<open>Block numbers\<close>

text \<open>The height of an empty ledger would wrap around to the largest number.\<close>

definition parseBlockNum :: "'w eth_service \<Rightarrow> string \<Rightarrow> 'w \<Rightarrow> 64 word res \<times> 'w" where
  "parseBlockNum S input w =
     (if input = ''latest''
      then (case QueryInfo (ledgerClient S) w of
          (Inl e, w') \<Rightarrow> (Err (Fmt ''failed to query the ledger: %v'' [AErr e]), w')
        | (Inr height, w') \<Rightarrow> (Ok (height - 1), w'))
      else if input = ''earliest'' then (Ok 0, w)
      else if input = ''pending''
      then (Err (Msg ''unsupported: fabric does not have the concept of in-progress blocks being visible''), w)
      else (case strconv_ParseUint16 input of (n, None) \<Rightarrow> (Ok n, w) | (_, Some e) \<Rightarrow> (Err e, w)))"

definition eth_BlockNumber :: "'w eth_service \<Rightarrow> 'w \<Rightarrow> string res \<times> 'w" where
  "eth_BlockNumber S w =
     (case parseBlockNum S ''latest'' w of
        (Ok n, w') \<Rightarrow> (Ok (hex0x n), w')
      | (Err e, w') \<Rightarrow> (Err (Fmt ''failed to get latest block number: %s'' [AErr e]), w')
      | (Panic p, w') \<Rightarrow> (Panic p, w'))"

subsection \<open>Blocks\<close>

definition zero_transaction :: transaction where
  "zero_transaction = \<lparr>tx_BlockHash = [], tx_BlockNumber = [], tx_To = [], tx_From = [], tx_Input = [],
     tx_TransactionIndex = [], tx_Hash = [], tx_GasPrice = [], tx_Value = []\<rparr>"

fun block_transactions ::
    "('pk, 'z) fab_externals_scheme \<Rightarrow> bool \<Rightarrow> string \<Rightarrow> string \<Rightarrow> bytes \<Rightarrow> nat \<Rightarrow> bytes option list \<Rightarrow>
     tx_item list res" where
  "block_transactions F full bh bn flags index [] = Ok []"
| "block_transactions F full bh bn flags index (d # ds) =
     (case d of
        None \<Rightarrow> block_transactions F full bh bn flags (index + 1) ds
      | Some transactionData \<Rightarrow>
          res_bind (TxValidationFlags_IsValid F flags index) (\<lambda>valid.
            if \<not> valid then block_transactions F full bh bn flags (index + 1) ds
            else res_bind (getChannelHeaderandPayload F transactionData) (\<lambda>(payload, chdr).
              res_bind
                (if full
                 then res_bind (getTransactionInformation F (Some payload)) (\<lambda>(to, input, from, _).
                     Ok (FullTx (zero_transaction\<lparr>tx_BlockHash := bh, tx_BlockNumber := bn,
                       tx_TransactionIndex := hex0x (word_of_nat index), tx_Hash := ''0x'' @ ch_TxId chdr,
                       tx_To := ''0x'' @ to, tx_Input := ''0x'' @ input, tx_From := from\<rparr>)))
                 else Ok (TxHash (''0x'' @ ch_TxId chdr)))
                (\<lambda>txn. res_bind (block_transactions F full bh bn flags (index + 1) ds)
                  (\<lambda>txns. Ok (txn # txns))))))"

definition eth_block_of ::
    "('pk, 'z) fab_externals_scheme \<Rightarrow> bool \<Rightarrow> 64 word \<Rightarrow> block \<Rightarrow> eth_block res" where
  "eth_block_of F full number block =
     res_bind (header_hash F (blk_Header block)) (\<lambda>hash.
     res_bind (transactions_filter block) (\<lambda>flags.
     (let bh = ''0x'' @ hex_EncodeToString hash; bn = hex0x number in
     res_bind (block_transactions F full bh bn flags 0 (blk_Data block)) (\<lambda>txns.
       Ok \<lparr>bl_BlockData = \<lparr>bd_Number = bn, bd_Hash = bh,
             bd_ParentHash = ''0x'' @ hex_EncodeToString
               (case blk_Header block of None \<Rightarrow> [] | Some h \<Rightarrow> hd_PreviousHash h),
             bd_GasLimit = []\<rparr>,
           bl_Transactions = Some txns\<rparr>))))"

definition eth_GetBlockByNumber ::
    "('pk, 'z) fab_externals_scheme \<Rightarrow> 'w eth_service \<Rightarrow> json list \<Rightarrow> 'w \<Rightarrow> eth_block res \<times> 'w" where
  "eth_GetBlockByNumber F S params w =
     (if length params \<noteq> 2 then (Err (Fmt ''need 2 params, got %q'' [ANat (length params)]), w)
      else (case params ! 0 of
        JStr number \<Rightarrow>
          (case params ! 1 of
             JBool fullTransactions \<Rightarrow>
               (case parseBlockNum S (strip0x number) w of
                  (Err e, w') \<Rightarrow> (Err e, w')
                | (Panic p, w') \<Rightarrow> (Panic p, w')
                | (Ok parsedNumber, w') \<Rightarrow>
                    (case QueryBlock (ledgerClient S) parsedNumber w' of
                       (Inl e, w'') \<Rightarrow> (Err (Fmt ''Failed to query the ledger: %v'' [AErr e]), w'')
                     | (Inr block, w'') \<Rightarrow> (eth_block_of F fullTransactions parsedNumber block, w'')))
           | _ \<Rightarrow> (Err (Msg ''Incorrect second parameter sent, must be boolean''), w))
      | _ \<Rightarrow> (Err (Msg ''Incorrect first parameter sent, must be string''), w)))"

subsection \<open>Transactions\<close>

definition transaction_of ::
    "('pk, 'z) fab_externals_scheme \<Rightarrow> string \<Rightarrow> block \<Rightarrow> transaction res" where
  "transaction_of F strippedTxId block =
     res_bind (header_hash F (blk_Header block)) (\<lambda>hash.
     res_bind (wrap_err ''Failed to parse through transactions in the block: %s''
         (findTransaction F strippedTxId (blk_Data block))) (\<lambda>(index, txPayload).
     res_bind (getTransactionInformation F txPayload) (\<lambda>(to, input, from, _).
       Ok (zero_transaction\<lparr>tx_Hash := ''0x'' @ strippedTxId,
         tx_BlockHash := ''0x'' @ hex_EncodeToString hash,
         tx_BlockNumber := hex0x (header_number (blk_Header block)),
         tx_TransactionIndex := index,
         tx_To := (if to \<noteq> [] then ''0x'' @ to else []),
         tx_Input := (if input \<noteq> [] then ''0x'' @ input else []),
         tx_From := from\<rparr>))))"

definition eth_GetTransactionByHash ::
    "('pk, 'z) fab_externals_scheme \<Rightarrow> 'w eth_service \<Rightarrow> string \<Rightarrow> 'w \<Rightarrow> transaction res \<times> 'w" where
  "eth_GetTransactionByHash F S txID w =
     (let strippedTxId = strip0x txID
      in if strippedTxId = [] then (Err (Msg ''txID was empty''), w)
      else (case QueryBlockByTxID (ledgerClient S) strippedTxId w of
          (Inl e, w') \<Rightarrow> (Err (Fmt ''Failed to query the ledger: %s'' [AErr e]), w')
        | (Inr block, w') \<Rightarrow> (transaction_of F strippedTxId block, w')))"

text \<open>A contract is created when the callee is the zero address.\<close>

definition receipt_callee ::
    "string \<Rightarrow> chaincode_action \<Rightarrow> tx_receipt \<Rightarrow> tx_receipt res" where
  "receipt_callee to respPayload receipt =
     (if to = [] then Ok receipt
      else (case hex_DecodeString to of
          Inl e \<Rightarrow> Err (Fmt ''Failed to decode to address: %s'' [AErr e])
        | Inr callee \<Rightarrow>
            (if callee = ZeroAddress_bytes
             then Ok (receipt\<lparr>rc_ContractAddress := ''0x'' @ string_of (ca_ResponsePayload respPayload)\<rparr>)
             else Ok (receipt\<lparr>rc_To := ''0x'' @ to\<rparr>))))"

definition receipt_of ::
    "('pk, 'z) fab_externals_scheme \<Rightarrow> string \<Rightarrow> block \<Rightarrow> tx_receipt res" where
  "receipt_of F strippedTxID block =
     res_bind (transactions_filter block) (\<lambda>flags.
     res_bind (header_hash F (blk_Header block)) (\<lambda>hash.
     (let receipt0 = \<lparr>rc_TransactionHash = ''0x'' @ strippedTxID, rc_TransactionIndex = [],
            rc_BlockHash = ''0x'' @ hex_EncodeToString hash,
            rc_BlockNumber = hex0x (header_number (blk_Header block)), rc_ContractAddress = [],
            rc_GasUsed = 0, rc_CumulativeGasUsed = 0, rc_To = [], rc_Logs = None, rc_Status = [], rc_From = []\<rparr> in
     res_bind (wrap_err ''Failed parsing the transactions in the block: %s''
         (findTransaction F strippedTxID (blk_Data block))) (\<lambda>(index, txPayload).
     res_bind (TxValidationFlags_IsValid F flags (unat (fst (strconv_ParseUint16 (strip0x index))))) (\<lambda>valid.
     res_bind (wrap_err ''Failed getting transaction infomration: %s''
         (getTransactionInformation F txPayload)) (\<lambda>(to, _, from, respPayload).
     res_bind (receipt_callee to respPayload (receipt0\<lparr>rc_TransactionIndex := index,
         rc_Status := (if valid then ''0x1'' else ''0x0''), rc_From := from\<rparr>)) (\<lambda>receipt.
     res_bind (wrap_err ''failed to get EVM Logs out of fabric event''
         (fabricEventToEVMLogs F (ca_Events respPayload) (rc_BlockNumber receipt)
           (rc_TransactionHash receipt) (rc_TransactionIndex receipt) (rc_BlockHash receipt) [] [])) (\<lambda>txLogs.
       Ok (receipt\<lparr>rc_Logs := txLogs\<rparr>)))))))))"

definition eth_GetTransactionReceipt ::
    "('pk, 'z) fab_externals_scheme \<Rightarrow> 'w eth_service \<Rightarrow> string \<Rightarrow> 'w \<Rightarrow> tx_receipt res \<times> 'w" where
  "eth_GetTransactionReceipt F S txID w =
     (case QueryBlockByTxID (ledgerClient S) (strip0x txID) w of
        (Inl e, w') \<Rightarrow> (Err (Fmt ''Failed to query the ledger: %s'' [AErr e]), w')
      | (Inr block, w') \<Rightarrow> (receipt_of F (strip0x txID) block, w'))"

subsection \<open>Logs\<close>

fun transactions_logs ::
    "('pk, 'z) fab_externals_scheme \<Rightarrow> string list \<Rightarrow> string list list \<Rightarrow> string \<Rightarrow> string \<Rightarrow> bytes \<Rightarrow> nat \<Rightarrow>
     bytes option list \<Rightarrow> eth_log list res" where
  "transactions_logs F af tf bn bh flags index [] = Ok []"
| "transactions_logs F af tf bn bh flags index (d # ds) =
     res_bind (TxValidationFlags_IsValid F flags index) (\<lambda>valid.
       (case d of
          None \<Rightarrow> transactions_logs F af tf bn bh flags (index + 1) ds
        | Some transactionData \<Rightarrow>
            if \<not> valid then transactions_logs F af tf bn bh flags (index + 1) ds
            else res_bind (wrap_err ''failed to unmarshal the transaction''
                (getChannelHeaderandPayload F transactionData)) (\<lambda>(payload, chdr).
              if ch_Type chdr \<noteq> HeaderType_ENDORSER_TRANSACTION
              then transactions_logs F af tf bn bh flags (index + 1) ds
              else res_bind (wrap_err ''failed to unmarshal the transaction details''
                  (getTransactionInformation F (Some payload))) (\<lambda>(_, _, _, respPayload).
                res_bind (wrap_err ''failed to get EVM Logs out of fabric event''
                    (fabricEventToEVMLogs F (ca_Events respPayload) bn (''0x'' @ ch_TxId chdr)
                      (hex0x (word_of_nat index)) bh af tf)) (\<lambda>logs.
                  res_bind (transactions_logs F af tf bn bh flags (index + 1) ds) (\<lambda>rest.
                    Ok ((case logs of None \<Rightarrow> [] | Some ls \<Rightarrow> ls) @ rest)))))))"

definition block_logs ::
    "('pk, 'z) fab_externals_scheme \<Rightarrow> string list \<Rightarrow> string list list \<Rightarrow> 64 word \<Rightarrow> block \<Rightarrow> eth_log list res" where
  "block_logs F af tf blockNumber block =
     res_bind (header_hash F (blk_Header block)) (\<lambda>hash.
     res_bind (transactions_filter block) (\<lambda>flags.
       transactions_logs F af tf (hex0x blockNumber) (''0x'' @ hex_EncodeToString hash) flags 0 (blk_Data block)))"

text \<open>\<^verbatim>\<open>for blockNumber := from; blockNumber <= to; blockNumber++\<close>.\<close>

partial_function (option) logs_loop ::
    "('pk, 'z) fab_externals_scheme \<Rightarrow> 'w ledger_client \<Rightarrow> string list \<Rightarrow> string list list \<Rightarrow> 64 word \<Rightarrow>
     64 word \<Rightarrow> eth_log list \<Rightarrow> 'w \<Rightarrow> (eth_log list res \<times> 'w) option" where
  "logs_loop F C af tf to blockNumber txLogs w =
     (if blockNumber \<le> to
      then (case QueryBlock C blockNumber w of
          (Inl e, w') \<Rightarrow> Some (Err (Fmt ''failed to query the ledger'' [AErr e]), w')
        | (Inr block, w') \<Rightarrow>
            (case block_logs F af tf blockNumber block of
               Ok logs \<Rightarrow> logs_loop F C af tf to (blockNumber + 1) (txLogs @ logs) w'
             | Err e \<Rightarrow> Some (Err e, w')
             | Panic p \<Rightarrow> Some (Panic p, w')))
      else Some (Ok txLogs, w))"

text \<open>The range of blocks a request asks for.\<close>

definition logs_range ::
    "'w eth_service \<Rightarrow> get_logs_args \<Rightarrow> 'w \<Rightarrow> (64 word \<times> 64 word) res \<times> 'w" where
  "logs_range S args w =
     (if BlockHash args \<noteq> []
      then (case hex_DecodeString (BlockHash args) of
          Inl e \<Rightarrow> (Err (Fmt ''failed to parse the block hash'' [AErr e]), w)
        | Inr hash \<Rightarrow>
            (case QueryBlockByHash (ledgerClient S) hash w of
               (Inl e, w') \<Rightarrow> (Err (Fmt ''failed to find block by block hash'' [AErr e]), w')
             | (Inr block, w') \<Rightarrow>
                 (case blk_Header block of
                    None \<Rightarrow> (Panic ''nil pointer dereference'', w')
                  | Some h \<Rightarrow> (Ok (hd_Number h, hd_Number h), w'))))
      else
       (let FromB = (if FromBlock args = [] then ''latest'' else FromBlock args);
            ToB = (if ToBlock args = [] then ''latest'' else ToBlock args)
        in case parseBlockNum S FromB w of
          (Err e, w') \<Rightarrow> (Err (Fmt ''failed to parse the block number'' [AErr e]), w')
        | (Panic p, w') \<Rightarrow> (Panic p, w')
        | (Ok from, w') \<Rightarrow>
            (case (if FromB = ToB then (Ok from, w')
                   else apfst (wrap_err ''failed to parse the block number'') (parseBlockNum S ToB w')) of
               (Err e, w'') \<Rightarrow> (Err e, w'')
             | (Panic p, w'') \<Rightarrow> (Panic p, w'')
             | (Ok to, w'') \<Rightarrow>
                 (if from > to then (Err (Msg ''fromBlock number greater than toBlock number''), w'')
                  else (Ok (from, to), w'')))))"

definition eth_GetLogs ::
    "('pk, 'z) fab_externals_scheme \<Rightarrow> 'w eth_service \<Rightarrow> get_logs_args \<Rightarrow> 'w \<Rightarrow>
     (eth_log list option res \<times> 'w) option" where
  "eth_GetLogs F S args w =
     (case logs_range S args w of
        (Err e, w') \<Rightarrow> Some (Err e, w')
      | (Panic p, w') \<Rightarrow> Some (Panic p, w')
      | (Ok (from, to), w') \<Rightarrow>
          map_option (apfst (\<lambda>r. res_bind r (\<lambda>ls. Ok (nil_slice ls))))
            (logs_loop F (ledgerClient S) (Address_Filter args) (Topics_Filter args) to from [] w'))"

end
