(* ===== verification/Eth_Results.thy ===== *)
theory Eth_Results
  imports Eth_Service
begin

section \<open>What the handlers return\<close>

text \<open>
  Facts about the handlers of the service: block numbers, the loop of \<^verbatim>\<open>GetLogs\<close> (when
  it ends, and what it collects when the ledger only grows), the transaction a hash finds.
\<close>

subsection \<open>Block numbers\<close>

lemma strip0x_hex0x [simp]: "strip0x (hex0x n) = strconv_FormatUint16 n"
  unfolding hex0x_def by (rule strip0x_0x)

lemma FormatUint_named:
  "strconv_FormatUint16 n \<noteq> ''latest''" "strconv_FormatUint16 n \<noteq> ''earliest''"
  "strconv_FormatUint16 n \<noteq> ''pending''"
  using format_hex_hextable [of "unat n"]
  by (auto simp: strconv_FormatUint16_def hextable_def dest: arg_cong [where f = set])

lemma parseBlockNum_number: "parseBlockNum S (strconv_FormatUint16 n) w = (Ok n, w)"
  by (simp add: parseBlockNum_def FormatUint_named)

lemma parseBlockNum_latest:
  assumes "QueryInfo (ledgerClient S) w = (Inr height, w')"
  shows "parseBlockNum S ''latest'' w = (Ok (height - 1), w')"
  using assms by (simp add: parseBlockNum_def)

lemma parseBlockNum_not_panic: "parseBlockNum S input w \<noteq> (Panic p, w')"
  by (auto simp: parseBlockNum_def split: prod.splits sum.splits option.splits)

subsection \<open>The loop of GetLogs\<close>

declare logs_loop.simps [code]

lemma logs_loop_end: "\<not> n \<le> to \<Longrightarrow> logs_loop F C af tf to n acc w = Some (Ok acc, w)"
  by (subst logs_loop.simps) simp

lemma word_step_less:
  assumes "(n :: 64 word) \<le> to" and "to < - 1"
  shows "unat (n + 1) = unat n + 1"
proof -
  have "unat n \<noteq> 2 ^ 64 - 1"
    using assms by (auto simp: word_le_nat_alt word_less_nat_alt unsigned_minus_1_eq_mask mask_eq_exp_minus_1)
  then show ?thesis
    using unat_less_size [of n] by (simp add: unat_word_ariths)
qed

text \<open>A range that ends before the last 64-bit number is searched in finitely many steps.\<close>

lemma logs_loop_ends:
  assumes "to < - 1"
  shows "\<exists>r. logs_loop F C af tf to n acc w = Some r"
proof (induction "unat to + 1 - unat n" arbitrary: n acc w rule: less_induct)
  case less
  show ?case
  proof (cases "n \<le> to")
    case False
    then show ?thesis by (simp add: logs_loop_end)
  next
    case True
    then have "unat to + 1 - unat (n + 1) < unat to + 1 - unat n"
      using word_step_less [OF True assms] by (simp add: word_le_nat_alt)
    from less [OF this] show ?thesis
      by (subst logs_loop.simps) (auto split: prod.split sum.split res.split)
  qed
qed

text \<open>
  A range that ends at it is never left by its condition, which holds for every number: the number of the
  next block wraps around to 0, and only a block that cannot be read ends the loop.
\<close>

lemma largest_number [simp]: "(n :: 64 word) \<le> - 1"
  by (simp add: word_le_nat_alt unsigned_minus_1_eq_mask mask_eq_exp_minus_1) (use unat_less_size [of n] in simp)

lemma logs_loop_largest:
  assumes "logs_loop F C af tf (- 1) n acc w = Some (r, w')"
  shows "r \<noteq> Ok ls"
proof -
  have "to = - 1 \<longrightarrow> fst p \<noteq> Ok ls" if "logs_loop F C af tf to n acc w = Some p" for F C af tf to n acc w p
  proof (rule logs_loop.raw_induct [OF _ that, where P = "\<lambda>F C af tf to n acc w p. to = - 1 \<longrightarrow> fst p \<noteq> Ok ls"])
    fix loop F C af tf to n acc w p
    assume IH: "\<And>F C af tf to n acc w p. loop F C af tf to n acc w = Some p \<Longrightarrow> to = - 1 \<longrightarrow> fst p \<noteq> Ok ls"
      and step: "(if n \<le> to
        then (case QueryBlock C n w of
            (Inl e, w') \<Rightarrow> Some (Err (Fmt ''failed to query the ledger'' [AErr e]), w')
          | (Inr block, w') \<Rightarrow>
              (case block_logs F af tf n block of
                 Ok logs \<Rightarrow> loop F C af tf to (n + 1) (acc @ logs) w'
               | Err e \<Rightarrow> Some (Err e, w')
               | Panic p \<Rightarrow> Some (Panic p, w')))
        else Some (Ok acc, w)) = Some p"
    then show "to = - 1 \<longrightarrow> fst p \<noteq> Ok ls"
      by (auto split: prod.splits sum.splits res.splits if_splits)
  qed
  from this [OF assms] show ?thesis by simp
qed

text \<open>It ends where a block of the range is refused, as the first block beyond the height of a ledger is.\<close>

lemma logs_loop_refused:
  assumes "\<And>w. \<exists>e w'. QueryBlock C h w = (Inl e, w')" and "n \<le> h"
  shows "\<exists>p. logs_loop F C af tf to n acc w = Some p"
  using assms(2)
proof (induction "unat h - unat n" arbitrary: n acc w)
  case 0
  then have "n = h"
    by (simp add: word_le_nat_alt word_unat_eq_iff)
  with assms(1) [of w] show ?case
    by (subst logs_loop.simps) auto
next
  case (Suc d)
  then have less: "n < h"
    by (simp add: word_less_nat_alt)
  then have "h \<le> h" and next_n: "unat (n + 1) = unat n + 1"
    using unat_less_size [of h] by (auto simp: word_less_nat_alt unat_word_ariths)
  then have "d = unat h - unat (n + 1)" and "n + 1 \<le> h"
    using Suc(2) less by (simp_all add: word_le_nat_alt word_less_nat_alt)
  from Suc(1) [OF this] show ?case
    by (subst logs_loop.simps) (auto split: prod.split sum.split res.split)
qed

text \<open>
  What the loop collects over a ledger that holds the blocks of the range: their logs, in order, both ends
  included. \<open>I\<close> is what is known of the states in which the ledger is asked, which may move on in between
  as other transactions are committed: in all of them it answers the blocks of the range, since a block on a
  ledger is never changed.
\<close>

definition serves_blocks ::
    "('w \<Rightarrow> bool) \<Rightarrow> 'w ledger_client \<Rightarrow> (64 word \<Rightarrow> block) \<Rightarrow> 64 word \<Rightarrow> 64 word \<Rightarrow> bool" where
  "serves_blocks I C B from to \<longleftrightarrow>
     (\<forall>k w. from \<le> k \<longrightarrow> k \<le> to \<longrightarrow> I w \<longrightarrow> (\<exists>w'. QueryBlock C k w = (Inr (B k), w') \<and> I w'))"

definition block_range :: "64 word \<Rightarrow> 64 word \<Rightarrow> 64 word list" where
  "block_range from to = map word_of_nat [unat from ..< Suc (unat to)]"

lemma block_range_empty: "\<not> n \<le> to \<Longrightarrow> block_range n to = []"
  by (simp add: block_range_def word_le_nat_alt)

lemma block_range_step:
  assumes "n \<le> to" and "to < - 1"
  shows "block_range n to = n # block_range (n + 1) to"
proof -
  have "[unat n ..< Suc (unat to)] = unat n # [Suc (unat n) ..< Suc (unat to)]"
    using assms(1) by (simp add: upt_conv_Cons word_le_nat_alt)
  then show ?thesis
    using word_step_less [OF assms] by (simp add: block_range_def del: upt_Suc)
qed

lemma set_block_range: "set (block_range n to) = {k. n \<le> k \<and> k \<le> to}"
proof -
  have "k \<in> word_of_nat ` {unat n ..< Suc (unat to)} \<longleftrightarrow> n \<le> k \<and> k \<le> to" for k :: "64 word"
  proof
    assume "k \<in> word_of_nat ` {unat n ..< Suc (unat to)}"
    then obtain i where i: "unat n \<le> i" "i \<le> unat to" "k = word_of_nat i"
      by auto
    have "i < 2 ^ 64"
      using i(2) unat_less_size [of to] by simp
    then have "unat k = i"
      using i(3) by (simp add: unat_of_nat take_bit_eq_mod)
    with i show "n \<le> k \<and> k \<le> to"
      by (simp add: word_le_nat_alt)
  next
    assume "n \<le> k \<and> k \<le> to"
    then have "unat k \<in> {unat n ..< Suc (unat to)}"
      by (simp add: word_le_nat_alt)
    then show "k \<in> word_of_nat ` {unat n ..< Suc (unat to)}"
      by (intro image_eqI [of _ _ "unat k"]) simp_all
  qed
  then show ?thesis
    by (auto simp: block_range_def simp del: upt_Suc)
qed

lemma distinct_block_range: "to < - 1 \<Longrightarrow> distinct (block_range n to)"
proof (induction "unat to + 1 - unat n" arbitrary: n rule: less_induct)
  case less
  show ?case
  proof (cases "n \<le> to")
    case True
    have "unat to + 1 - unat (n + 1) < unat to + 1 - unat n"
      using word_step_less [OF True less.prems] True by (simp add: word_le_nat_alt)
    with less.hyps less.prems have "distinct (block_range (n + 1) to)"
      by blast
    moreover have "\<not> n + 1 \<le> n"
      using word_step_less [OF True less.prems] by (simp add: word_le_nat_alt)
    ultimately show ?thesis
      using block_range_step [OF True less.prems] by (simp add: set_block_range)
  qed (simp add: block_range_empty)
qed

lemma logs_loop_collects:
  assumes "to < - 1" and "serves_blocks I C B n to" and "I w"
    and "\<And>k. n \<le> k \<Longrightarrow> k \<le> to \<Longrightarrow> block_logs F af tf k (B k) = Ok (L k)"
  shows "\<exists>w'. logs_loop F C af tf to n acc w = Some (Ok (acc @ concat (map L (block_range n to))), w') \<and> I w'"
  using assms(2-4)
proof (induction "unat to + 1 - unat n" arbitrary: n acc w rule: less_induct)
  case less
  show ?case
  proof (cases "n \<le> to")
    case False
    with less.prems show ?thesis by (simp add: logs_loop_end block_range_empty)
  next
    case True
    note next_n = word_step_less [OF True assms(1)]
    have measure: "unat to + 1 - unat (n + 1) < unat to + 1 - unat n"
      using next_n True by (simp add: word_le_nat_alt)
    have up: "n \<le> k" if "n + 1 \<le> k" for k
      using that next_n by (simp add: word_le_nat_alt)
    obtain w1 where block: "QueryBlock C n w = (Inr (B n), w1)" and I: "I w1"
      using less.prems(1,2) True by (auto simp: serves_blocks_def)
    have "serves_blocks I C B (n + 1) to"
      using less.prems(1) up by (auto simp: serves_blocks_def)
    from less.hyps [OF measure this I, of "acc @ L n"] less.prems(3) up
    obtain w' where "logs_loop F C af tf to (n + 1) (acc @ L n) w1 =
        Some (Ok ((acc @ L n) @ concat (map L (block_range (n + 1) to))), w')" and "I w'"
      by blast
    with block less.prems(3) [OF order_refl True] True show ?thesis
      by (subst logs_loop.simps) (simp add: block_range_step [OF True assms(1)])
  qed
qed

subsection \<open>Ranges\<close>

lemma logs_range_ordered:
  assumes "logs_range S args w = (Ok (from, to), w')"
  shows "from \<le> to"
  using assms
  by (auto simp: logs_range_def Let_def split: if_splits sum.splits prod.splits option.splits res.splits)

lemma logs_range_hash:
  assumes "BlockHash args \<noteq> []" and "logs_range S args w = (Ok (from, to), w')"
  shows "\<exists>hash b h. hex_DecodeString (BlockHash args) = Inr hash \<and>
    QueryBlockByHash (ledgerClient S) hash w = (Inr b, w') \<and> blk_Header b = Some h \<and>
    from = hd_Number h \<and> to = hd_Number h"
  using assms by (auto simp: logs_range_def split: sum.splits prod.splits option.splits)

subsection \<open>The transactions of a block\<close>

lemma block_transactions_kind:
  "block_transactions F full bh bn flags i ds = Ok txns \<Longrightarrow>
   (\<exists>ts. txns = map FullTx ts) \<and> full \<or> (\<exists>hs. txns = map TxHash hs) \<and> \<not> full"
proof (induction F full bh bn flags i ds arbitrary: txns rule: block_transactions.induct)
  case (1 F full bh bn flags i)
  then show ?case by (cases full) (auto intro: exI [of _ "[]"])
next
  case (2 F full bh bn flags i d ds)
  show ?case
  proof (cases "block_transactions F full bh bn flags (i + 1) ds = Ok txns")
    case True
    with "2.IH" show ?thesis
      by (cases d) (metis "2.prems" block_transactions.simps(2) option.case res_bind_Ok)+
  next
    case False
    then obtain x valid payload chdr txn rest where d: "d = Some x"
      and "TxValidationFlags_IsValid F flags i = Ok valid" "valid"
      and "getChannelHeaderandPayload F x = Ok (payload, chdr)"
      and rest: "block_transactions F full bh bn flags (i + 1) ds = Ok rest" and txns: "txns = txn # rest"
      and txn: "if full then \<exists>t. txn = FullTx t else \<exists>h. txn = TxHash h"
      using "2.prems" by (auto simp: res_bind_Ok split: option.splits if_splits)
    with "2.IH" have "(\<exists>ts. rest = map FullTx ts) \<and> full \<or> (\<exists>hs. rest = map TxHash hs) \<and> \<not> full"
      by blast
    with txn show ?thesis
      unfolding txns by (cases full) (auto intro: exI [of _ "_ # _"])
  qed
qed

end
