(* ===== verification/Rpc_Codec.thy ===== *)
theory Rpc_Codec
  imports Go_Text
begin

section \<open>The JSON-RPC codec and the net service\<close>

text \<open>
  \<^verbatim>\<open>fab3/codec.go\<close>: an Ethereum method \<^verbatim>\<open>service_method\<close> is renamed to
  the \<^verbatim>\<open>service.Method\<close> that gorilla's server looks up. The name of a request is what
  gorilla's own codec returns for it. \<^verbatim>\<open>fab3/netservice.go\<close>: the network identifier.
\<close>

definition rpc_Method :: "(string \<Rightarrow> string) \<Rightarrow> go_error + string \<Rightarrow> string res" where
  "rpc_Method uni codec_Method =
     (case codec_Method of
        Inl e \<Rightarrow> Err e
      | Inr m \<Rightarrow>
          (let method = strings_Split m (CHR ''_'')
           in if length method > 2
              then Err (Fmt ''Received a malformed method: %s'' (map AStr method))
              else if length method < 2 then Panic ''index out of range''
              else Ok (method ! 0 @ ''.'' @ strings_Title uni (method ! 1))))"

definition NetworkID :: string where
  "NetworkID = ''fabevm''"

definition Net_Version :: string where
  "Net_Version = hex_EncodeToString (bytes_of NetworkID)"

subsection \<open>What the server looks up\<close>

lemma split_once:
  assumes "CHR ''_'' \<notin> set service" and "CHR ''_'' \<notin> set name"
  shows "strings_Split (service @ CHR ''_'' # name) (CHR ''_'') = [service, name]"
  using assms by (simp add: Split_append_sep Split_no_sep)

text \<open>The three results of the codec, by the number of underscores.\<close>

lemma rpc_Method_by_count:
  "count_list m (CHR ''_'') = 0 \<Longrightarrow> \<exists>p. rpc_Method uni (Inr m) = Panic p"
  "count_list m (CHR ''_'') = 1 \<Longrightarrow> \<exists>s. rpc_Method uni (Inr m) = Ok s"
  "count_list m (CHR ''_'') > 1 \<Longrightarrow> \<exists>e. rpc_Method uni (Inr m) = Err e"
  using length_Split [of m "CHR ''_''"] by (auto simp: rpc_Method_def Let_def)

lemma rpc_Method_word:
  assumes "CHR ''_'' \<notin> set service" and "CHR ''_'' \<notin> set (c # name)"
    and "is_ascii c" "list_all is_ascii name" "\<not> ascii_isSeparator c"
    and "list_all (\<lambda>c. \<not> ascii_isSeparator c) name"
  shows "rpc_Method uni (Inr (service @ CHR ''_'' # c # name)) = Ok (service @ CHR ''.'' # ascii_upper c # name)"
  using split_once [OF assms(1,2)] Title_word [OF assms(3-6), of uni]
  by (simp add: rpc_Method_def Let_def)

text \<open>The methods of the two services, by their Ethereum names.\<close>

definition registered :: "(string \<times> string) list" where
  "registered =
     [(''eth_getCode'', ''eth.GetCode''), (''eth_call'', ''eth.Call''),
      (''eth_sendTransaction'', ''eth.SendTransaction''),
      (''eth_getTransactionReceipt'', ''eth.GetTransactionReceipt''),
      (''eth_accounts'', ''eth.Accounts''), (''eth_estimateGas'', ''eth.EstimateGas''),
      (''eth_getBalance'', ''eth.GetBalance''), (''eth_getBlockByNumber'', ''eth.GetBlockByNumber''),
      (''eth_blockNumber'', ''eth.BlockNumber''),
      (''eth_getTransactionByHash'', ''eth.GetTransactionByHash''),
      (''eth_getTransactionCount'', ''eth.GetTransactionCount''), (''eth_getLogs'', ''eth.GetLogs''),
      (''eth_newFilter'', ''eth.NewFilter''), (''eth_uninstallFilter'', ''eth.UninstallFilter''),
      (''net_version'', ''net.Version'')]"

lemma rpc_Method_registered:
  "list_all (\<lambda>(m, m'). rpc_Method uni (Inr m) = Ok m') registered"
  by (simp add: registered_def rpc_Method_def Let_def strings_Title_def is_ascii_def
      ascii_isSeparator_def ascii_upper_def char_of_def bit_0)

lemma Net_Version_eq: "Net_Version = ''66616265766d''"
  by (simp add: Net_Version_def NetworkID_def bytes_of_def hex_Cons hextable_def unat_of_nat)

end
