(* ===== verification/Service_Properties.thy ===== *)
theory Service_Properties
  imports Eth_Results Rpc_Codec
begin

section \<open>Properties of the JSON-RPC service\<close>

text \<open>
  The results about \<^verbatim>\<open>fab3\<close>, with concrete decoders and a concrete ledger for the
  witnesses of those that have hypotheses.
\<close>

subsection \<open>Concrete decoders and a concrete ledger\<close>

definition demo_event :: event where
  "demo_event = \<lparr>ev_Address = ''aa'', ev_Data = ''01'', ev_Topics = [''t1'', ''t2'']\<rparr>"

text \<open>Every message is its own bytes; a transaction's id is its data and its events are fixed.\<close>

definition demo_fab :: "unit fab_externals" where
  "demo_fab =
     \<lparr>unmarshal_identity = (\<lambda>bs. Inr bs), pem_Decode = (\<lambda>bs. Some bs),
      x509_ParseCertificate = (\<lambda>_. Inr ()), x509_MarshalPKIXPublicKey = (\<lambda>_. Inr []),
      sha3_Sum256 = (\<lambda>_. replicate 32 7),
      unmarshal_Envelope = (\<lambda>bs. Inr bs),
      unmarshal_Payload = (\<lambda>bs. Inr \<lparr>pl_ChannelHeader = bs, pl_SignatureHeader = bs, pl_Data = bs\<rparr>),
      unmarshal_ChannelHeader = (\<lambda>bs. Inr \<lparr>ch_Type = 3, ch_TxId = string_of bs\<rparr>),
      unmarshal_SignatureHeader = (\<lambda>bs. Inr bs),
      unmarshal_Transaction = (\<lambda>bs. Inr (if bs = [] then [] else [bs])),
      unmarshal_ChaincodeActionPayload =
        (\<lambda>bs. Inr \<lparr>cap_ChaincodeProposalPayload = bs, cap_Action = Some (Some bs)\<rparr>),
      unmarshal_ChaincodeProposalPayload = (\<lambda>bs. Inr bs),
      unmarshal_ProposalResponsePayload = (\<lambda>bs. Inr (Some bs)),
      unmarshal_ChaincodeAction = (\<lambda>bs. Inr \<lparr>ca_Events = bs, ca_ResponsePayload = bytes_of ''ab''\<rparr>),
      unmarshal_ChaincodeInvocationSpec =
        (\<lambda>bs. Inr (Some [bytes_of (hex_EncodeToString ZeroAddress_bytes), bs])),
      unmarshal_ChaincodeEvent = (\<lambda>bs. Inr bs), json_Unmarshal_events = (\<lambda>bs. Inr [demo_event]),
      TxValidationFlags_IsValid =
        (\<lambda>flags i. if i < length flags then Ok (flags ! i = 0) else Panic ''index out of range''),
      fab_sha256 = (\<lambda>_. replicate 32 9), fab_ToLower = (\<lambda>s. s)\<rparr>"

definition demo_block :: "64 word \<Rightarrow> block" where
  "demo_block n = \<lparr>blk_Header = Some \<lparr>hd_Number = 5, hd_PreviousHash = [1], hd_DataHash = [2]\<rparr>,
     blk_Data = [Some (bytes_of ''id'')], blk_Metadata = [[], [], [0]]\<rparr>"

text \<open>A ledger of ten such blocks.\<close>

definition demo_service :: "unit eth_service" where
  "demo_service =
     \<lparr>channelClient = \<lparr>channel_Query = (\<lambda>_ w. (Inl (Msg ''none''), w)),
        channel_Execute = (\<lambda>_ w. (Inl (Msg ''none''), w))\<rparr>,
      ledgerClient = \<lparr>QueryInfo = (\<lambda>w. (Inr 10, w)), QueryBlock = (\<lambda>n w. (Inr (demo_block n), w)),
        QueryBlockByTxID = (\<lambda>t w. (Inr (demo_block 5), w)), QueryBlockByHash = (\<lambda>h w. (Inr (demo_block 5), w))\<rparr>,
      channelID = ''channel1'', ccid = ''evmcc''\<rparr>"

lemma demo_fab_simps [simp]:
  "TxValidationFlags_IsValid demo_fab flags i =
     (if i < length flags then Ok (flags ! i = 0) else Panic ''index out of range'')"
  "getChannelHeaderandPayload demo_fab d = Ok (\<lparr>pl_ChannelHeader = d, pl_SignatureHeader = d, pl_Data = d\<rparr>,
     \<lparr>ch_Type = 3, ch_TxId = string_of d\<rparr>)"
  "fab_sha256 demo_fab bs = replicate 32 9"
  "unmarshal_Transaction demo_fab [] = Inr []"
  by (simp_all add: demo_fab_def getChannelHeaderandPayload_def)

lemma zero_callee_not_getCode [simp]: "hex_EncodeToString ZeroAddress_bytes \<noteq> ''getCode''"
  by (auto simp: ZeroAddress_bytes_def dest: arg_cong [where f = length])

lemma demo_information [simp]:
  "d \<noteq> [] \<Longrightarrow> getTransactionInformation demo_fab (Some \<lparr>pl_ChannelHeader = d, pl_SignatureHeader = d, pl_Data = d\<rparr>) =
     Ok (hex_EncodeToString ZeroAddress_bytes, string_of d, ''0x'' @ hex_EncodeToString (replicate 20 7),
       \<lparr>ca_Events = d, ca_ResponsePayload = bytes_of ''ab''\<rparr>)"
  by (simp add: getTransactionInformation_def getPayloads_def demo_fab_def IdentityToAddr_def
      identity_ext.defs)

lemma demo_logs:
  "d \<noteq> [] \<Longrightarrow> fabricEventToEVMLogs demo_fab d bn th ti bh af tf =
     Ok (nil_slice (matching_logs (log_of_event bn th ti bh) af tf [demo_event]))"
  by (rule fabricEventToEVMLogs_eq) (simp_all add: demo_fab_def)

lemma bytes_of_Nil_iff [simp]: "bytes_of s = [] \<longleftrightarrow> s = []"
  by (simp add: bytes_of_def)

lemma demo_header_hash [simp]: "header_hash demo_fab (blk_Header (demo_block n)) = Ok (replicate 32 9)"
  by (simp add: header_hash_def demo_block_def blockHash_def)

lemma demo_flags [simp]: "transactions_filter (demo_block n) = Ok [0]"
  by (simp add: transactions_filter_def demo_block_def BlockMetadataIndex_TRANSACTIONS_FILTER_def)

lemma demo_block_data [simp]: "blk_Data (demo_block n) = [Some (bytes_of ''id'')]"
  by (simp add: demo_block_def)

lemma demo_block_logs:
  "block_logs demo_fab [] [] n (demo_block m) = Ok [log_of_event (hex0x n) ''0xid'' (hex0x 0)
     (''0x'' @ hex_EncodeToString (replicate 32 9)) 0 demo_event]"
  by (simp add: block_logs_def demo_logs matching_logs_def log_matches_empty nil_slice_def
      HeaderType_ENDORSER_TRANSACTION_def)

subsection \<open>Requests\<close>

text \<open>The codec renames a method with exactly one underscore, reports a method with more than one as
  malformed, and panics on a method with none.\<close>

theorem codec_results:
  "((\<exists>s. rpc_Method uni (Inr m) = Ok s) \<longleftrightarrow> count_list m (CHR ''_'') = 1) \<and>
   ((\<exists>e. rpc_Method uni (Inr m) = Err e) \<longleftrightarrow> count_list m (CHR ''_'') > 1) \<and>
   ((\<exists>p. rpc_Method uni (Inr m) = Panic p) \<longleftrightarrow> count_list m (CHR ''_'') = 0)"
  using rpc_Method_by_count [of m uni] by (cases "count_list m (CHR ''_'') = 0"; cases "count_list m (CHR ''_'') = 1") auto

text \<open>Every Ethereum method of the service reaches the Go method of that name.\<close>

theorem codec_reaches_the_service:
  "map (\<lambda>(m, _). rpc_Method uni (Inr m)) registered = map (\<lambda>(_, m'). Ok m') registered"
  using rpc_Method_registered [of uni] by (auto simp: list_all_iff)

text \<open>C35. Filter arguments that were decoded are well formed: every address is the lower-case form of 40
  characters, every topic has 64 characters or is the empty wildcard, and a block hash excludes a range.\<close>

theorem decoded_arguments_are_well_formed:
  assumes "GetLogsArgs_UnmarshalJSON uni gla data = Inr a" and "Address_Filter gla = []" "Topics_Filter gla = []"
  shows "args_ok uni a"
  using assms by (rule UnmarshalJSON_args_ok)

definition zero_args :: get_logs_args where
  "zero_args = \<lparr>FromBlock = [], ToBlock = [], Address_Filter = [], Topics_Filter = [], BlockHash = []\<rparr>"

theorem decoded_arguments_are_well_formed_witness:
  "\<exists>a. GetLogsArgs_UnmarshalJSON (\<lambda>s. s) zero_args
       (JObj [(''fromBlock'', JStr ''0x1''), (''topics'', JArr [JNull, JStr (replicate 64 CHR ''A'')])]) = Inr a \<and>
     args_ok (\<lambda>s. s) a"
proof -
  obtain a where a: "GetLogsArgs_UnmarshalJSON (\<lambda>s. s) zero_args
       (JObj [(''fromBlock'', JStr ''0x1''), (''topics'', JArr [JNull, JStr (replicate 64 CHR ''A'')])]) = Inr a"
    by (simp add: GetLogsArgs_UnmarshalJSON_def decode_input_def decode_member_def key_matches_def
        ascii_lower_def char_of_def bit_0 decode_string_def set_address_filter_def set_topics_filter_def
        NewTopicFilter_def strip0x_def strings_TrimPrefix_def strings_HasPrefix_def
        HexEncodedTopicLength_def numeral_eq_Suc)
  from decoded_arguments_are_well_formed [OF this] a show ?thesis
    by (simp add: zero_args_def)
qed

subsection \<open>Filters\<close>

lemma NewAddressFilter_hex:
  assumes "hex_DecodeString (strip0x s) = Inr (Address_Bytes a)" and "NewAddressFilter uni s = Inr af"
    and "list_all is_ascii (strip0x s)"
  shows "af = [hex_EncodeToString (Address_Bytes a)]"
  using assms hex_encode_decode [OF assms(1)]
  by (auto simp: NewAddressFilter_def Let_def strings_ToLower_def split: if_splits)

text \<open>An address filter made from the hex of an address, in whatever case, passes exactly the logs of
  that address.\<close>

theorem address_filter_selects_the_address:
  assumes "hex_DecodeString (strip0x s) = Inr (Address_Bytes a)" and "list_all is_ascii (strip0x s)"
    and "NewAddressFilter uni s = Inr af"
  shows "log_matches af [] (event_of_log log) \<longleftrightarrow> log_Address log = a"
  using NewAddressFilter_hex [OF assms(1,3,2)]
  by (auto simp: log_matches_def event_of_log_def hex.print_inject)

theorem address_filter_selects_the_address_witness:
  "log_matches [hex_EncodeToString (Address_Bytes 5)] []
     (event_of_log \<lparr>log_Address = 5, log_Data = [], log_Topics = []\<rparr>)"
proof -
  have "strip0x (''0x'' @ hex_EncodeUpperToString (Address_Bytes 5)) = hex_EncodeUpperToString (Address_Bytes 5)"
    by (rule strip0x_0x)
  moreover from this have "NewAddressFilter (\<lambda>s. s) (''0x'' @ hex_EncodeUpperToString (Address_Bytes 5)) =
      Inr [hex_EncodeToString (Address_Bytes 5)]"
    by (simp add: NewAddressFilter_def HexEncodedAddressLength_def del: append_Cons append_Nil)
  ultimately show ?thesis
    using address_filter_selects_the_address [of "''0x'' @ hex_EncodeUpperToString (Address_Bytes 5)" 5]
    by (simp del: append_Cons append_Nil)
qed

text \<open>A topic filter made from the hex of a topic passes the logs with that first topic only when it
  was written in lower case: one with an upper-case digit passes nothing.\<close>

theorem topic_filter_needs_lower_case:
  assumes "hex_DecodeString (strip0x t) = Inr (Word256_Bytes w)" and "NewTopicFilter t = Inr f"
  shows "log_matches [] [f] (event_of_log log) \<longleftrightarrow>
    strip0x t = map ascii_lower (strip0x t) \<and> (\<exists>ts. log_Topics log = w # ts)"
proof -
  have lower: "map ascii_lower (strip0x t) = hex_EncodeToString (Word256_Bytes w)"
    using hex_encode_decode [OF assms(1)] by simp
  have f: "f = [strip0x t]" and "length (strip0x t) = 64"
    using assms(2) by (auto simp: NewTopicFilter_def Let_def HexEncodedTopicLength_def split: if_splits)
  then have "strip0x t \<noteq> []"
    by auto
  with f have "log_matches [] [f] (event_of_log log) \<longleftrightarrow>
      (\<exists>v ts. log_Topics log = v # ts \<and> strip0x t = hex_EncodeToString (Word256_Bytes v))"
    by (cases "log_Topics log") (auto simp: log_matches_def topic_matches_def event_of_log_def)
  also have "\<dots> \<longleftrightarrow> strip0x t = map ascii_lower (strip0x t) \<and> (\<exists>ts. log_Topics log = w # ts)"
    using lower by (metis Word256_Bytes_inject hex.print_inject map_lower_hex)
  finally show ?thesis .
qed

theorem topic_filter_needs_lower_case_witness:
  "\<exists>w f. NewTopicFilter (hex_EncodeUpperToString (Word256_Bytes w)) = Inr f \<and>
     \<not> log_matches [] [f] (event_of_log \<lparr>log_Address = 5, log_Data = [], log_Topics = [w]\<rparr>)"
proof -
  let ?w = "word_of_nat (be_nat (171 # replicate 31 0)) :: word256"
  let ?t = "hex_EncodeUpperToString (Word256_Bytes ?w)"
  have bytes: "Word256_Bytes ?w = 171 # replicate 31 0"
    by (rule Word256_Bytes_of) simp
  have t: "?t = CHR ''A'' # CHR ''B'' # hex_EncodeUpperToString (replicate 31 0)"
    by (simp add: bytes hex_Cons upper_hextable_def)
  have strip: "strip0x ?t = ?t"
    unfolding t by (simp add: strip0x_def strings_TrimPrefix_def strings_HasPrefix_def)
  have f: "NewTopicFilter ?t = Inr [?t]"
    by (simp add: NewTopicFilter_def Let_def HexEncodedTopicLength_def strip)
  have "?t \<noteq> map ascii_lower ?t"
    unfolding t by (simp add: ascii_lower_def char_of_def bit_0)
  with topic_filter_needs_lower_case [of ?t ?w, OF _ f] f show ?thesis
    unfolding strip by auto
qed

text \<open>C33. The logs taken out of the event of a transaction are those of its events that pass the filters,
  in order, each with its place among all the events of the transaction; nothing panics.\<close>

theorem logs_are_the_matching_events:
  assumes "events \<noteq> []" and "unmarshal_ChaincodeEvent F events = Inr p" and "json_Unmarshal_events F p = Inr evs"
  shows "fabricEventToEVMLogs F events bn th ti bh af tf =
    Ok (nil_slice (map (\<lambda>(i, ev). log_of_event bn th ti bh i ev)
      (filter (\<lambda>(i, ev). log_matches af tf ev) (enumerate 0 evs))))"
  using fabricEventToEVMLogs_eq [OF assms] by (simp add: matching_logs_def)

theorem logs_are_the_matching_events_witness:
  "\<exists>ls. fabricEventToEVMLogs demo_fab [1] [] [] [] [] [''aa''] [[], [''x'', ''t2'']] = Ok (Some [ls]) \<and>
     lg_Address ls = ''0xaa''"
  using logs_are_the_matching_events [of "[1]" demo_fab "[1]" "[demo_event]" "[]" "[]" "[]" "[]" "[''aa'']"
      "[[], [''x'', ''t2'']]"]
  by (simp add: demo_fab_def log_matches_def topic_matches_def demo_event_def nil_slice_def log_of_event_def)

text \<open>C32. In every reachable state of the service an id is given out that is not in use, uninstalling it
  answers true and restores the state's filters, and uninstalling it again removes nothing.\<close>

theorem filter_ids_are_fresh:
  assumes "filters_reachable n s" and "n + 1 < 2 ^ 64" and "NewFilter s args = (r, t)"
  shows "filterMap s (filter_id r) = None \<and> filterMap t = (filterMap s)(filter_id r \<mapsto> args) \<and>
    (\<exists>u. UninstallFilter t r False = (Inr True, u) \<and> filterMap u = filterMap s \<and>
      UninstallFilter u r False = (Inr False, u))"
proof -
  have ok: "ids_ok s" and "unat (filterSeq s) = n"
    using filters_reachable_ok [OF assms(1)] assms(2) by simp_all
  then have left: "ids_left s > 0"
    using assms(2) by (simp add: ids_left_def)
  have r: "r = ''0x'' @ strconv_FormatUint16 (filterSeq s + 1)"
    and t: "t = s\<lparr>filterSeq := filterSeq s + 1, filterMap := (filterMap s)(filterSeq s + 1 \<mapsto> args)\<rparr>"
    using assms(3) by (auto simp: NewFilter_def Let_def)
  note free = next_id_free [OF ok left]
  have id: "filter_id r = filterSeq s + 1"
    unfolding r by (rule filter_id_reply)
  show ?thesis
    unfolding id unfolding r UninstallFilter_number t using free by (simp add: fun_upd_idem UninstallFilter_number)
qed

theorem filter_ids_are_fresh_witness:
  "\<exists>t u. NewFilter NewEthService_filters zero_args = (''0x'' @ strconv_FormatUint16 1, t) \<and>
     UninstallFilter t (''0x'' @ strconv_FormatUint16 1) False = (Inr True, u)"
proof -
  obtain t where t: "NewFilter NewEthService_filters zero_args = (''0x'' @ strconv_FormatUint16 1, t)"
    by (simp add: NewFilter_def NewEthService_filters_def Let_def)
  from filter_ids_are_fresh [OF filters_reachable.start _ this] t show ?thesis
    by auto
qed

text \<open>Filters installed one after the other get different ids, none of which was in use, and every id
  still stands for its filter afterwards.\<close>

theorem installed_filters_are_kept:
  assumes "filters_reachable n s" and "n + length argss < 2 ^ 64"
    and "filters.install_all s argss = (ids, t)"
  shows "distinct ids \<and> length ids = length argss \<and> (\<forall>i < length argss. filterMap t (ids ! i) = Some (argss ! i)) \<and>
    (\<forall>k. filterMap s k \<noteq> None \<longrightarrow> filterMap t k = filterMap s k)"
proof -
  have "ids_ok s" and "length argss \<le> ids_left s"
    using filters_reachable_ok [OF assms(1)] assms(2) by (simp_all add: ids_left_def)
  note all = filters.install_all_ok [OF this assms(3)]
  then have "k \<notin> set ids" if "filterMap s k \<noteq> None" for k
    using that by auto
  with all show ?thesis
    by simp
qed

theorem installed_filters_are_kept_witness:
  "\<exists>ids t. filters.install_all NewEthService_filters [zero_args, zero_args\<lparr>FromBlock := ''1''\<rparr>] = (ids, t) \<and> distinct ids"
proof -
  obtain ids t where run: "filters.install_all NewEthService_filters [zero_args, zero_args\<lparr>FromBlock := ''1''\<rparr>] = (ids, t)"
    by (cases "filters.install_all NewEthService_filters [zero_args, zero_args\<lparr>FromBlock := ''1''\<rparr>]")
  from installed_filters_are_kept [OF filters_reachable.start _ this] run show ?thesis
    by auto
qed

subsection \<open>GetLogs\<close>

text \<open>C27. Over a ledger that holds the blocks of the range, in whatever states it is asked while other
  transactions are committed, a request for the range answers with the logs of every one of its blocks, both
  ends included, in the order of the blocks.\<close>

theorem logs_of_a_range:
  assumes "logs_range S args w = (Ok (n, to), w')" and "to < - 1"
    and "serves_blocks I (ledgerClient S) B n to" and "I w'"
    and "\<And>k. n \<le> k \<Longrightarrow> k \<le> to \<Longrightarrow> block_logs F (Address_Filter args) (Topics_Filter args) k (B k) = Ok (L k)"
  shows "(\<exists>w''. eth_GetLogs F S args w = Some (Ok (nil_slice (concat (map L (block_range n to)))), w'') \<and> I w'') \<and>
    set (block_range n to) = {k. n \<le> k \<and> k \<le> to} \<and> distinct (block_range n to)"
  using logs_loop_collects [OF assms(2-4), of F "Address_Filter args" "Topics_Filter args" L "[]"] assms(1,2,5)
  by (auto simp: eth_GetLogs_def set_block_range distinct_block_range)

definition demo_args :: "64 word \<Rightarrow> 64 word \<Rightarrow> get_logs_args" where
  "demo_args n to = zero_args\<lparr>FromBlock := strconv_FormatUint16 n, ToBlock := strconv_FormatUint16 to\<rparr>"

lemma demo_args_simps [simp]:
  "FromBlock (demo_args n to) = strconv_FormatUint16 n" "ToBlock (demo_args n to) = strconv_FormatUint16 to"
  "BlockHash (demo_args n to) = []" "Address_Filter (demo_args n to) = []" "Topics_Filter (demo_args n to) = []"
  by (simp_all add: demo_args_def zero_args_def)

lemma demo_range: "n \<le> to \<Longrightarrow> logs_range S (demo_args n to) w = (Ok (n, to), w)"
  by (auto simp: logs_range_def parseBlockNum_number hex_number.print_inject)

text \<open>A ledger of ten blocks, each with its own number, that refuses every other number.\<close>

definition demo_numbered :: "64 word \<Rightarrow> block" where
  "demo_numbered n = (demo_block n)\<lparr>blk_Header := Some \<lparr>hd_Number = n, hd_PreviousHash = [1], hd_DataHash = [2]\<rparr>\<rparr>"

definition ten_blocks :: "unit eth_service" where
  "ten_blocks = demo_service\<lparr>ledgerClient := (ledgerClient demo_service)\<lparr>QueryBlock := (\<lambda>n w.
     if n < 10 then (Inr (demo_numbered n), w) else (Inl (Msg ''entry not found in index''), w))\<rparr>\<rparr>"

lemma demo_numbered_logs:
  assumes "n < 10"
  shows "block_logs demo_fab [] [] n (demo_numbered n) = Ok [log_of_event (hex0x n) ''0xid'' (hex0x 0)
    (''0x'' @ hex_EncodeToString (replicate 32 9)) 0 demo_event]"
proof -
  have "unat n < 2 ^ 63"
    using assms by (simp add: word_less_nat_alt)
  then have "header_hash demo_fab (blk_Header (demo_numbered n)) = Ok (replicate 32 9)"
    by (simp add: demo_numbered_def header_hash_def blockHash_def)
  moreover have "transactions_filter (demo_numbered n) = Ok [0]" "blk_Data (demo_numbered n) = [Some (bytes_of ''id'')]"
    by (simp_all add: demo_numbered_def demo_block_def transactions_filter_def BlockMetadataIndex_TRANSACTIONS_FILTER_def)
  ultimately show ?thesis
    by (simp add: block_logs_def demo_logs matching_logs_def log_matches_empty nil_slice_def
        HeaderType_ENDORSER_TRANSACTION_def)
qed

theorem logs_of_a_range_witness:
  "\<exists>ls. eth_GetLogs demo_fab ten_blocks (demo_args 8 9) () = Some (Ok (Some ls), ()) \<and> length ls = 2"
proof -
  let ?L = "\<lambda>n. [log_of_event (hex0x n) ''0xid'' (hex0x 0) (''0x'' @ hex_EncodeToString (replicate 32 9)) 0 demo_event]"
  have range: "block_range 8 9 = [8, 9]"
    using block_range_step [of 8 9] block_range_step [of 9 9] by (simp add: block_range_empty)
  have small: "k < 10" if "k \<le> 9" for k :: "64 word"
    using that by (simp add: word_le_nat_alt word_less_nat_alt)
  have "serves_blocks (\<lambda>_. True) (ledgerClient ten_blocks) demo_numbered 8 9"
    using small by (simp add: serves_blocks_def ten_blocks_def)
  from logs_of_a_range [OF demo_range _ this, of demo_fab ?L "()"] small show ?thesis
    by (simp add: demo_numbered_logs range nil_slice_def)
qed

text \<open>C28. A request whose range ends before the last 64-bit block number is always answered, with logs,
  an error or a panic, whatever the ledger does.\<close>

theorem bounded_requests_end:
  assumes "logs_range S args w = (Ok (n, to), w')" and "to < - 1"
  shows "\<exists>r w''. eth_GetLogs F S args w = Some (r, w'')"
proof -
  obtain r where "logs_loop F (ledgerClient S) (Address_Filter args) (Topics_Filter args) to n [] w' = Some r"
    using logs_loop_ends [OF assms(2), of F "ledgerClient S" "Address_Filter args" "Topics_Filter args" n "[]" w']
    by blast
  with assms(1) show ?thesis
    by (cases r) (simp add: eth_GetLogs_def)
qed

theorem bounded_requests_end_witness: "\<exists>r w''. eth_GetLogs demo_fab demo_service (demo_args 0 9) () = Some (r, w'')"
  by (rule bounded_requests_end [OF demo_range]) simp_all

text \<open>C36. A request whose range ends at the last 64-bit block number is never answered with logs, whatever
  the ledger holds: the condition of the loop holds for every number, so only an error or a panic of a block
  ends it. It ends so when the ledger refuses a block of the range, as it does those beyond its height.\<close>

theorem largest_request_never_succeeds:
  assumes "logs_range S args w = (Ok (n, - 1), w')"
  shows "eth_GetLogs F S args w \<noteq> Some (Ok ls, w'') \<and>
    (n \<le> h \<and> (\<forall>v. \<exists>e v'. QueryBlock (ledgerClient S) h v = (Inl e, v')) \<longrightarrow> eth_GetLogs F S args w \<noteq> None)"
proof -
  have "eth_GetLogs F S args w \<noteq> Some (Ok ls, w'')"
    using assms logs_loop_largest [of F "ledgerClient S" "Address_Filter args" "Topics_Filter args" n "[]" w']
    by (auto simp: eth_GetLogs_def res_bind_Ok)
  moreover have "eth_GetLogs F S args w \<noteq> None" if "n \<le> h" "\<forall>v. \<exists>e v'. QueryBlock (ledgerClient S) h v = (Inl e, v')"
    using assms logs_loop_refused [of "ledgerClient S" h n F "Address_Filter args" "Topics_Filter args" "- 1" "[]" w'] that
    by (auto simp: eth_GetLogs_def)
  ultimately show ?thesis
    by blast
qed

theorem largest_request_never_succeeds_witness:
  "\<exists>r. eth_GetLogs demo_fab ten_blocks (demo_args 8 (- 1)) () = Some (r, ()) \<and> (\<forall>ls. r \<noteq> Ok ls)"
proof -
  note never = largest_request_never_succeeds [OF demo_range [OF largest_number], of demo_fab ten_blocks 8 "()" _ "()" 10]
  have "\<forall>v. \<exists>e v'. QueryBlock (ledgerClient ten_blocks) 10 v = (Inl e, v')"
    by (simp add: ten_blocks_def)
  moreover have "(8 :: 64 word) \<le> 10"
    by (simp add: word_le_nat_alt)
  ultimately have "eth_GetLogs demo_fab ten_blocks (demo_args 8 (- 1)) () \<noteq> None"
    using never by blast
  then obtain r where "eth_GetLogs demo_fab ten_blocks (demo_args 8 (- 1)) () = Some (r, ())"
    by auto
  with never show ?thesis
    by auto
qed

text \<open>A block number the service prints is the block number it reads: the answer of
  \<^verbatim>\<open>eth_blockNumber\<close> names the block below the height, also to
  \<^verbatim>\<open>eth_getBlockByNumber\<close>, which asks the ledger for that block and prints the same number.\<close>

theorem block_number_round_trip:
  assumes "QueryInfo (ledgerClient S) w = (Inr height, w1)" and "height \<noteq> 0"
    and "QueryBlock (ledgerClient S) (height - 1) w2 = (Inr b, w3)" and "eth_block_of F full (height - 1) b = Ok blk"
  shows "\<exists>number. eth_BlockNumber S w = (Ok number, w1) \<and>
    eth_GetBlockByNumber F S [JStr number, JBool full] w2 = (Ok blk, w3) \<and>
    bd_Number (bl_BlockData blk) = number \<and> unat (height - 1) + 1 = unat height"
proof -
  have "unat (height - 1) + 1 = unat height"
    using assms(2) by (simp add: unat_sub word_le_nat_alt unat_gt_0 Suc_leI)
  moreover have "eth_BlockNumber S w = (Ok (hex0x (height - 1)), w1)"
    using parseBlockNum_latest [OF assms(1)] by (simp add: eth_BlockNumber_def)
  moreover have "eth_GetBlockByNumber F S [JStr (hex0x (height - 1)), JBool full] w2 = (Ok blk, w3)"
    using assms(3,4) by (simp add: eth_GetBlockByNumber_def parseBlockNum_number)
  moreover have "bd_Number (bl_BlockData blk) = hex0x (height - 1)"
    using assms(4) by (auto simp: eth_block_of_def Let_def res_bind_Ok)
  ultimately show ?thesis by blast
qed

lemma demo_eth_block:
  "\<exists>blk. eth_block_of demo_fab True n (demo_block m) = Ok blk \<and> bl_Transactions blk \<noteq> None"
  by (simp add: eth_block_of_def Let_def)

theorem block_number_round_trip_witness:
  "\<exists>blk. eth_GetBlockByNumber demo_fab demo_service [JStr (hex0x 9), JBool True] () = (Ok blk, ()) \<and>
     bd_Number (bl_BlockData blk) = hex0x 9"
proof -
  obtain blk where blk: "eth_block_of demo_fab True (10 - 1) (demo_block 9) = Ok blk"
    using demo_eth_block by blast
  have "QueryInfo (ledgerClient demo_service) () = (Inr 10, ())"
    "QueryBlock (ledgerClient demo_service) (10 - 1) () = (Inr (demo_block 9), ())"
    by (simp_all add: demo_service_def)
  from block_number_round_trip [OF this(1) _ this(2) blk] show ?thesis
    by (auto simp: eth_BlockNumber_def parseBlockNum_def demo_service_def)
qed

subsection \<open>Blocks and transactions\<close>

text \<open>C34. The hash of a block is injective up to a collision of SHA-256: two different headers with the same
  hash give two different preimages with that digest. A header whose number exceeds a signed 64-bit integer
  has no hash.\<close>

theorem block_hash_identifies_the_header:
  assumes "blockHash sha b = Ok h" and "blockHash sha c = Ok h" and "header_ok b" and "header_ok c" and "b \<noteq> c"
  shows "(\<exists>x y. x \<noteq> y \<and> sha x = h \<and> sha y = h) \<and> unat (hd_Number b) < 2 ^ 63 \<and> unat (hd_Number c) < 2 ^ 63"
  using blockHash_preimage [OF assms] assms(1,2) by (auto simp: blockHash_def split: if_splits)

theorem block_hash_identifies_the_header_witness:
  "\<exists>x y. x \<noteq> y \<and> (\<lambda>_. [9 :: byte]) x = [9] \<and> (\<lambda>_ :: bytes. [9 :: byte]) y = [9]"
  using block_hash_identifies_the_header [of "\<lambda>_. [9]" "\<lparr>hd_Number = 1, hd_PreviousHash = [], hd_DataHash = []\<rparr>" "[9]"
      "\<lparr>hd_Number = 2, hd_PreviousHash = [], hd_DataHash = []\<rparr>"]
  by (simp add: blockHash_def header_ok_def)

lemma transaction_lookup_facts:
  assumes "findTransaction F txID ds = Ok (index, Some pl)"
  shows "\<exists>i d chdr. i < length ds \<and> index = hex0x (word_of_nat i) \<and> ds ! i = Some d \<and>
    getChannelHeaderandPayload F d = Ok (pl, chdr) \<and> ch_TxId chdr = txID \<and>
    (\<forall>j<i. tx_id_at F ds j \<noteq> Some txID)"
  using assms findTransaction_from_Some [of F 0 txID ds index pl] by (simp add: findTransaction_def hex0x_def)

text \<open>The transaction found for an id is the first of the block with that id, reported with its index;
  none is found only when no transaction of the block has it.\<close>

theorem transaction_lookup:
  assumes "findTransaction F txID ds = Ok (index, p)"
  shows "case p of
      Some pl \<Rightarrow> \<exists>i d chdr. i < length ds \<and> index = hex0x (word_of_nat i) \<and> ds ! i = Some d \<and>
        getChannelHeaderandPayload F d = Ok (pl, chdr) \<and> ch_TxId chdr = txID \<and>
        (\<forall>j<i. tx_id_at F ds j \<noteq> Some txID)
    | None \<Rightarrow> index = [] \<and> (\<forall>j<length ds. tx_id_at F ds j \<noteq> Some txID)"
proof (cases p)
  case None
  with assms findTransaction_from_None [of F 0 txID ds index] show ?thesis
    by (simp add: findTransaction_def)
next
  case (Some pl)
  with assms transaction_lookup_facts [of F txID ds index pl] show ?thesis
    by simp
qed

theorem transaction_lookup_witness:
  "\<exists>p. findTransaction demo_fab ''id'' [None, Some (bytes_of ''other''), Some (bytes_of ''id'')] = Ok (hex0x 2, Some p) \<and>
     (\<exists>i. hex0x 2 = hex0x (word_of_nat i) \<and> [None, Some (bytes_of ''other''), Some (bytes_of ''id'')] ! i = Some (bytes_of ''id''))"
proof -
  have "findTransaction demo_fab ''id'' [None, Some (bytes_of ''other''), Some (bytes_of ''id'')] =
      Ok (hex0x 2, Some \<lparr>pl_ChannelHeader = bytes_of ''id'', pl_SignatureHeader = bytes_of ''id'', pl_Data = bytes_of ''id''\<rparr>)"
    by (simp add: findTransaction_def hex0x_def)
  from transaction_lookup [OF this] this show ?thesis
    by (auto simp: less_Suc_eq)
qed

text \<open>Asking for a transaction that the block the ledger names does not hold is a panic, not an
  error: the payload is nil and its first action is taken.\<close>

theorem unknown_transaction_panics:
  assumes "QueryBlockByTxID (ledgerClient S) (strip0x t) w = (Inr b, w')" and "strip0x t \<noteq> []"
    and "header_hash F (blk_Header b) = Ok h" and "findTransaction F (strip0x t) (blk_Data b) = Ok (i, None)"
    and "unmarshal_Transaction F [] = Inr []"
  shows "eth_GetTransactionByHash F S t w = (Panic ''index out of range'', w')"
  using assms by (simp add: eth_GetTransactionByHash_def transaction_of_def getTransactionInformation_def)

theorem unknown_transaction_panics_witness:
  "eth_GetTransactionByHash demo_fab demo_service ''ab'' () = (Panic ''index out of range'', ())"
proof (rule unknown_transaction_panics [of demo_service "''ab''" "()" "demo_block 5" "()" demo_fab _ "[]"])
  have strip: "strip0x ''ab'' = ''ab''"
    by (simp add: strip0x_def strings_TrimPrefix_def strings_HasPrefix_def)
  show "findTransaction demo_fab (strip0x ''ab'') (blk_Data (demo_block 5)) = Ok ([], None)"
    by (simp add: findTransaction_def strip)
  show "strip0x ''ab'' \<noteq> []"
    by (simp add: strip)
qed (simp_all add: demo_service_def)

text \<open>C29. The receipt answered for a transaction is the one of the first transaction of the block with that id:
  it names the transaction, its place, its sender, and the hash and number of the block; its status says
  whether the block's validation flags hold that very transaction valid; it names the created contract when
  the callee is the zero address and the callee otherwise; its logs are those of the transaction's event, and
  its JSON always has a list of them.\<close>

theorem receipts_are_consistent:
  assumes "eth_GetTransactionReceipt F S txID w = (Ok r, w')"
    and "QueryBlockByTxID (ledgerClient S) (strip0x txID) w = (Inr b, w')"
    and "length (blk_Data b) < 2 ^ 64" and "unmarshal_Transaction F [] = Inr []"
  shows "\<exists>i d pl chdr to input sender action hash flags valid.
    i < length (blk_Data b) \<and> blk_Data b ! i = Some d \<and> getChannelHeaderandPayload F d = Ok (pl, chdr) \<and>
    ch_TxId chdr = strip0x txID \<and> (\<forall>j<i. tx_id_at F (blk_Data b) j \<noteq> Some (strip0x txID)) \<and>
    getTransactionInformation F (Some pl) = Ok (to, input, sender, action) \<and>
    header_hash F (blk_Header b) = Ok hash \<and>
    transactions_filter b = Ok flags \<and> TxValidationFlags_IsValid F flags i = Ok valid \<and>
    (to \<noteq> [] \<longrightarrow> (\<exists>callee. hex_DecodeString to = Inr callee)) \<and>
    r = \<lparr>rc_TransactionHash = ''0x'' @ strip0x txID, rc_TransactionIndex = hex0x (word_of_nat i),
      rc_BlockHash = ''0x'' @ hex_EncodeToString hash, rc_BlockNumber = hex0x (header_number (blk_Header b)),
      rc_ContractAddress = (if hex_DecodeString to = Inr ZeroAddress_bytes
        then ''0x'' @ string_of (ca_ResponsePayload action) else []),
      rc_GasUsed = 0, rc_CumulativeGasUsed = 0,
      rc_To = (if to = [] \<or> hex_DecodeString to = Inr ZeroAddress_bytes then [] else ''0x'' @ to),
      rc_Logs = rc_Logs r, rc_Status = (if valid then ''0x1'' else ''0x0''), rc_From = sender\<rparr> \<and>
    fabricEventToEVMLogs F (ca_Events action) (rc_BlockNumber r) (rc_TransactionHash r) (rc_TransactionIndex r)
      (rc_BlockHash r) [] [] = Ok (rc_Logs r) \<and>
    TxReceipt_MarshalJSON r = TxReceipt_fields (r\<lparr>rc_Logs := Some (case rc_Logs r of None \<Rightarrow> [] | Some ls \<Rightarrow> ls)\<rparr>)"
proof -
  let ?t = "strip0x txID"
  let ?receipt = "\<lambda>index hash valid sender. \<lparr>rc_TransactionHash = ''0x'' @ ?t, rc_TransactionIndex = index,
    rc_BlockHash = ''0x'' @ hex_EncodeToString hash, rc_BlockNumber = hex0x (header_number (blk_Header b)),
    rc_ContractAddress = [], rc_GasUsed = 0, rc_CumulativeGasUsed = 0, rc_To = [], rc_Logs = None,
    rc_Status = (if valid then ''0x1'' else ''0x0''), rc_From = sender\<rparr>"
  have "receipt_of F ?t b = Ok r"
    using assms(1,2) by (simp add: eth_GetTransactionReceipt_def)
  then obtain flags hash index p valid to input sender action receipt txLogs where
    flags: "transactions_filter b = Ok flags" and hash: "header_hash F (blk_Header b) = Ok hash"
    and found: "findTransaction F ?t (blk_Data b) = Ok (index, p)"
    and valid: "TxValidationFlags_IsValid F flags (unat (fst (strconv_ParseUint16 (strip0x index)))) = Ok valid"
    and info: "getTransactionInformation F p = Ok (to, input, sender, action)"
    and callee: "receipt_callee to action (?receipt index hash valid sender) = Ok receipt"
    and logs: "fabricEventToEVMLogs F (ca_Events action) (rc_BlockNumber receipt) (rc_TransactionHash receipt)
      (rc_TransactionIndex receipt) (rc_BlockHash receipt) [] [] = Ok txLogs"
    and r: "r = receipt\<lparr>rc_Logs := txLogs\<rparr>"
    by (auto simp: receipt_of_def Let_def res_bind_Ok)
  from info assms(4) obtain pl where p: "p = Some pl"
    by (cases p) (auto simp: getTransactionInformation_def)
  from transaction_lookup_facts [OF found [unfolded p]] obtain i d chdr where
    at: "i < length (blk_Data b)" "index = hex0x (word_of_nat i)" "blk_Data b ! i = Some d"
      "getChannelHeaderandPayload F d = Ok (pl, chdr)" "ch_TxId chdr = ?t" "\<forall>j<i. tx_id_at F (blk_Data b) j \<noteq> Some ?t"
    by blast
  have "unat (word_of_nat i :: 64 word) = i"
    using at(1) assms(3) by (simp add: unat_of_nat take_bit_eq_mod)
  then have flag: "TxValidationFlags_IsValid F flags i = Ok valid"
    using valid at(2) by simp
  have receipt: "receipt = (?receipt index hash valid sender)\<lparr>
      rc_ContractAddress := (if hex_DecodeString to = Inr ZeroAddress_bytes
        then ''0x'' @ string_of (ca_ResponsePayload action) else []),
      rc_To := (if to = [] \<or> hex_DecodeString to = Inr ZeroAddress_bytes then [] else ''0x'' @ to)\<rparr>"
    and decoded: "to \<noteq> [] \<longrightarrow> (\<exists>callee. hex_DecodeString to = Inr callee)"
    using callee by (auto simp: receipt_callee_def ZeroAddress_bytes_def split: if_splits sum.splits)
  have json: "TxReceipt_MarshalJSON r =
      TxReceipt_fields (r\<lparr>rc_Logs := Some (case rc_Logs r of None \<Rightarrow> [] | Some ls \<Rightarrow> ls)\<rparr>)"
    by (cases r) (auto simp: TxReceipt_MarshalJSON_def Let_def split: option.split)
  have "r = \<lparr>rc_TransactionHash = ''0x'' @ ?t, rc_TransactionIndex = hex0x (word_of_nat i),
      rc_BlockHash = ''0x'' @ hex_EncodeToString hash, rc_BlockNumber = hex0x (header_number (blk_Header b)),
      rc_ContractAddress = (if hex_DecodeString to = Inr ZeroAddress_bytes
        then ''0x'' @ string_of (ca_ResponsePayload action) else []),
      rc_GasUsed = 0, rc_CumulativeGasUsed = 0,
      rc_To = (if to = [] \<or> hex_DecodeString to = Inr ZeroAddress_bytes then [] else ''0x'' @ to),
      rc_Logs = rc_Logs r, rc_Status = (if valid then ''0x1'' else ''0x0''), rc_From = sender\<rparr>"
    unfolding r receipt at(2) by simp
  moreover have "fabricEventToEVMLogs F (ca_Events action) (rc_BlockNumber r) (rc_TransactionHash r)
      (rc_TransactionIndex r) (rc_BlockHash r) [] [] = Ok (rc_Logs r)"
    using logs unfolding r by simp
  ultimately show ?thesis
    using at(1,3-6) info [unfolded p] hash flags flag decoded json by blast
qed

lemma demo_receipt: "\<exists>r. eth_GetTransactionReceipt demo_fab demo_service ''id'' () = (Ok r, ())"
  by (simp add: eth_GetTransactionReceipt_def demo_service_def strip0x_def strings_TrimPrefix_def strings_HasPrefix_def
      receipt_of_def Let_def findTransaction_def receipt_callee_def demo_logs ZeroAddress_bytes_def)

theorem receipts_are_consistent_witness:
  "\<exists>r. eth_GetTransactionReceipt demo_fab demo_service ''id'' () = (Ok r, ()) \<and> rc_TransactionHash r = ''0xid'' \<and>
     rc_BlockNumber r = hex0x 5 \<and> rc_Status r = ''0x1''"
proof -
  obtain r where r: "eth_GetTransactionReceipt demo_fab demo_service ''id'' () = (Ok r, ())"
    using demo_receipt by blast
  have strip: "strip0x ''id'' = ''id''"
    by (simp add: strip0x_def strings_TrimPrefix_def strings_HasPrefix_def)
  have "QueryBlockByTxID (ledgerClient demo_service) (strip0x ''id'') () = (Inr (demo_block 5), ())"
    and "length (blk_Data (demo_block 5)) < 2 ^ 64" and "unmarshal_Transaction demo_fab [] = Inr []"
    by (simp_all add: demo_service_def)
  from receipts_are_consistent [OF r this] show ?thesis
  proof (elim exE conjE)
    fix i flags valid hash to action sender
    assume "i < length (blk_Data (demo_block 5))" "transactions_filter (demo_block 5) = Ok flags"
      and "TxValidationFlags_IsValid demo_fab flags i = Ok valid"
      and eq: "r = \<lparr>rc_TransactionHash = ''0x'' @ strip0x ''id'', rc_TransactionIndex = hex0x (word_of_nat i),
        rc_BlockHash = ''0x'' @ hex_EncodeToString hash, rc_BlockNumber = hex0x (header_number (blk_Header (demo_block 5))),
        rc_ContractAddress = (if hex_DecodeString to = Inr ZeroAddress_bytes
          then ''0x'' @ string_of (ca_ResponsePayload action) else []),
        rc_GasUsed = 0, rc_CumulativeGasUsed = 0,
        rc_To = (if to = [] \<or> hex_DecodeString to = Inr ZeroAddress_bytes then [] else ''0x'' @ to),
        rc_Logs = rc_Logs r, rc_Status = (if valid then ''0x1'' else ''0x0''), rc_From = sender\<rparr>"
    then have valid
      by (cases flags) auto
    then have "rc_TransactionHash r = ''0xid'' \<and> rc_BlockNumber r = hex0x 5 \<and> rc_Status r = ''0x1''"
      by (subst (1 2 3) eq) (simp add: strip demo_block_def header_number_def)
    with r show ?thesis
      by blast
  qed
qed

text \<open>The JSON of a block the service returned has its gas limit filled in and a list of transactions,
  all full ones, with their gas price and value filled in, or all hashes, as the request asked.\<close>

theorem blocks_marshal:
  assumes "eth_block_of F full number b = Ok blk"
  shows "\<exists>items. Block_MarshalJSON blk = Ok (JObj (BlockData_members ((bl_BlockData blk)\<lparr>bd_GasLimit := ''0x0''\<rparr>) @
      [(''transactions'', JArr items)])) \<and>
    (if full then \<exists>ts. items = map Transaction_MarshalJSON ts else \<exists>hs. items = map JStr hs)"
proof -
  obtain bh bn flags txns where txns: "block_transactions F full bh bn flags 0 (blk_Data b) = Ok txns"
    and blk: "bl_Transactions blk = Some txns"
    using assms by (auto simp: eth_block_of_def Let_def res_bind_Ok)
  have all: "all_full (map FullTx ts) = Ok ts" for ts
    by (induction ts) simp_all
  from block_transactions_kind [OF txns] show ?thesis
  proof (elim disjE conjE exE)
    fix ts
    assume "txns = map FullTx ts" and full
    with blk all [of ts] show ?thesis
      by (cases ts) (auto simp: Block_MarshalJSON_def Let_def Block_fields_def intro: exI [of _ "_ # _"])
  next
    fix hs
    assume "txns = map TxHash hs" and "\<not> full"
    with blk show ?thesis
      by (cases hs) (auto simp: Block_MarshalJSON_def Let_def Block_fields_def tx_item_fields_def comp_def
          intro: exI [of _ "_ # _"])
  qed
qed

theorem blocks_marshal_witness:
  "\<exists>blk ms items. eth_block_of demo_fab True 9 (demo_block 9) = Ok blk \<and>
     Block_MarshalJSON blk = Ok (JObj (ms @ [(''transactions'', JArr items)]))"
proof -
  obtain blk where blk: "eth_block_of demo_fab True 9 (demo_block 9) = Ok blk"
    using demo_eth_block by blast
  from blocks_marshal [OF this] blk show ?thesis
    by blast
qed

end
