(* ===== verification/Evm_Numbers.thy ===== *)
theory Evm_Numbers
  imports Burrow_Words
begin

unbundle bit_operations_syntax

section \<open>Numbers of the EVM\<close>

text \<open>
  The conversions between 256-bit words, Go's \<^verbatim>\<open>big.Int\<close> (an \<^typ>\<open>int\<close>),
  \<^verbatim>\<open>uint64\<close>, \<^verbatim>\<open>int64\<close> and addresses that the interpreter makes: Burrow's
  \<^verbatim>\<open>binary/integer.go\<close>, \<^verbatim>\<open>binary/word256.go\<close>, \<^verbatim>\<open>binary/word160.go\<close>. An array of
  bytes is the word it spells (\<^verbatim>\<open>Burrow_Words\<close>), so \<^verbatim>\<open>SetBytes\<close> is \<^const>\<open>uint\<close>.
\<close>

definition One256 :: word256 where "One256 = 1"

definition U256 :: "int \<Rightarrow> int" where
  "U256 x = x AND (2 ^ 256 - 1)"

definition S256 :: "int \<Rightarrow> int" where
  "S256 x = (if x < 2 ^ 255 then x else x - 2 ^ 256)"

text \<open>\<^verbatim>\<open>LeftPadWord256(U256(x).Bytes())\<close>.\<close>

definition word_of_big :: "int \<Rightarrow> word256" where
  "word_of_big x = word_of_int (U256 x)"

text \<open>\<^verbatim>\<open>big.Int\<close>'s \<^verbatim>\<open>Div\<close> and \<^verbatim>\<open>Mod\<close> are Euclidean: the remainder is
  never negative.\<close>

definition big_Div :: "int \<Rightarrow> int \<Rightarrow> int" where
  "big_Div x y = sgn y * (x div \<bar>y\<bar>)"

definition big_Mod :: "int \<Rightarrow> int \<Rightarrow> int" where
  "big_Mod x y = x mod \<bar>y\<bar>"

definition SignExtend :: "64 word \<Rightarrow> int \<Rightarrow> int" where
  "SignExtend back x =
     (let signBit = unat back * 8 + 7; mask = 2 ^ signBit - 1
      in if bit x signBit then x OR (NOT mask) else x AND mask)"

definition Uint64ToWord256 :: "64 word \<Rightarrow> word256" where
  "Uint64ToWord256 i = ucast i"

definition Int64ToWord256 :: "int \<Rightarrow> word256" where
  "Int64ToWord256 i = ucast (word_of_int i :: 64 word)"

definition Uint64FromWord256 :: "word256 \<Rightarrow> 64 word" where
  "Uint64FromWord256 w = ucast w"

definition Int64FromWord256 :: "word256 \<Rightarrow> int" where
  "Int64FromWord256 w = sint (ucast w :: 64 word)"

definition Is64BitOverflow :: "word256 \<Rightarrow> bool" where
  "Is64BitOverflow w = (drop_bit 64 w \<noteq> 0)"

definition AddressFromWord256 :: "word256 \<Rightarrow> address" where
  "AddressFromWord256 w = ucast w"

definition Address_Word256 :: "address \<Rightarrow> word256" where
  "Address_Word256 a = ucast a"

text \<open>\<^verbatim>\<open>sha3(0xff ++ caller ++ salt ++ sha3(initcode))[12:]\<close>; the hash is a parameter.\<close>

definition NewContractAddress2 :: "(bytes \<Rightarrow> bytes) \<Rightarrow> address \<Rightarrow> word256 \<Rightarrow> bytes \<Rightarrow> address" where
  "NewContractAddress2 keccak caller salt initcode =
     copy_to_address (drop 12 (keccak ([0xff] @ Address_Bytes caller @ Word256_Bytes salt @ keccak initcode)))"

text \<open>\<^verbatim>\<open>make([]byte, n)\<close> panics above the address space of the runtime (48 bits).\<close>

definition make_bytes :: "nat \<Rightarrow> bytes res" where
  "make_bytes n = (if 2 ^ 48 < n then Panic ''makeslice: len out of range'' else Ok (replicate n 0))"

definition bytes_RightPad :: "bytes \<Rightarrow> int \<Rightarrow> bytes res" where
  "bytes_RightPad bz l =
     (if l < int (length bz) then Ok bz
      else if 2 ^ 48 < l then Panic ''makeslice: len out of range''
      else Ok (bz @ replicate (nat l - length bz) 0))"

definition bytes_LeftPad :: "bytes \<Rightarrow> nat \<Rightarrow> bytes" where
  "bytes_LeftPad bz l = (if l < length bz then bz else replicate (l - length bz) 0 @ bz)"

text \<open>
  \<^verbatim>\<open>subslice(data, offset, length)\<close> with the offset and the length as \<^verbatim>\<open>int64\<close>:
  \<open>None\<close> where the code pushes an error. The end wraps around.
\<close>

definition int64 :: "int \<Rightarrow> int" where
  "int64 i = sint (word_of_int i :: 64 word)"

definition subslice :: "bytes \<Rightarrow> int \<Rightarrow> int \<Rightarrow> bytes option res" where
  "subslice data offset len =
     (let size = int (length data); e = int64 (offset + len)
      in if size < offset \<or> offset < 0 \<or> len < 0 then Ok None
      else if size < e
      then (if 2 ^ 48 < len then Panic ''makeslice: len out of range''
            else (let rest = drop (nat offset) data
                  in Ok (Some (take (nat len) (rest @ replicate (nat len - length rest) 0)))))
      else if e < offset then Panic ''slice bounds out of range''
      else Ok (Some (take (nat len) (drop (nat offset) data))))"

subsection \<open>The conversions are arithmetic on words\<close>

lemma U256_eq: "U256 x = take_bit 256 x"
  by (simp add: U256_def take_bit_eq_mask mask_eq_exp_minus_1)

lemma word_of_big_eq: "word_of_big x = word_of_int x"
  by (simp add: word_of_big_def U256_eq word_of_int_eq_iff)

lemma word_of_big_uint [simp]: "word_of_big (uint (w :: word256)) = w"
  by (simp add: word_of_big_eq)

lemma S256_uint: "S256 (uint (w :: word256)) = sint w"
proof -
  have "sint w = signed_take_bit 255 (uint w)"
    using sint_uint [of w] by simp
  also have "\<dots> = (uint w + 2 ^ 255) mod 2 ^ 256 - 2 ^ 255"
    by (simp add: signed_take_bit_eq_take_bit_shift take_bit_eq_mod)
  also have "\<dots> = (if uint w < 2 ^ 255 then uint w else uint w - 2 ^ 256)"
  proof (cases "uint w < 2 ^ 255")
    case True
    then have "(uint w + 2 ^ 255) mod 2 ^ 256 = uint w + 2 ^ 255"
      using uint_ge_0 [of w] by (intro mod_pos_pos_trivial) simp_all
    with True show ?thesis by simp
  next
    case False
    have "(uint w + 2 ^ 255) mod 2 ^ 256 = (uint w + 2 ^ 255 - 2 ^ 256) mod 2 ^ 256"
      by (simp only: minus_mod_self2)
    also have "\<dots> = uint w + 2 ^ 255 - 2 ^ 256"
      using False uint_bounded [of w] by (intro mod_pos_pos_trivial) simp_all
    finally show ?thesis
      using False by simp
  qed
  finally show ?thesis
    by (simp add: S256_def)
qed

lemma word_of_big_sint [simp]: "word_of_big (sint (w :: word256)) = w"
  by (simp add: word_of_big_eq)

lemma Is64BitOverflow_iff: "Is64BitOverflow w \<longleftrightarrow> 2 ^ 64 \<le> uint w"
proof -
  have "drop_bit 64 w = 0 \<longleftrightarrow> uint (drop_bit 64 w) = uint (0 :: word256)"
    by (rule word_uint_eq_iff)
  also have "uint (drop_bit 64 w) = uint w div 2 ^ 64"
    using take_bit_int_eq_self [of "uint w" 256] uint_bounded [of w]
    by (simp only: unsigned_drop_bit_eq drop_bit_eq_div [where ?'a = int]) simp
  finally have "drop_bit 64 w = 0 \<longleftrightarrow> uint w div 2 ^ 64 = 0"
    by simp
  also have "\<dots> \<longleftrightarrow> uint w < 2 ^ 64"
    using uint_ge_0 [of w] by (auto simp: zdiv_eq_0_iff)
  finally show ?thesis
    by (auto simp: Is64BitOverflow_def)
qed

lemma Int64FromWord256_small:
  assumes "uint w < 2 ^ 63"
  shows "Int64FromWord256 w = uint w"
proof -
  have "sint (ucast w :: 64 word) = signed_take_bit 63 (uint (ucast w :: 64 word))"
    using sint_uint [of "ucast w :: 64 word"] by simp
  also have "uint (ucast w :: 64 word) = uint w"
    using assms by (simp add: unsigned_ucast_eq take_bit_int_eq_self)
  also have "signed_take_bit 63 (uint w) = uint w"
    using assms order_trans [of "- (2 ^ 63)" 0 "uint w"] by (intro signed_take_bit_int_eq_self) simp_all
  finally show ?thesis
    by (simp add: Int64FromWord256_def)
qed

lemma int64_small: "- (2 ^ 63) \<le> i \<Longrightarrow> i < 2 ^ 63 \<Longrightarrow> int64 i = i"
  by (simp only: int64_def sint_sbintrunc') (simp add: signed_take_bit_int_eq_self)

lemma AddressFromWord256_Word256 [simp]: "AddressFromWord256 (Address_Word256 a) = a"
  unfolding AddressFromWord256_def Address_Word256_def
  by (rule bit_word_eqI) (simp add: bit_simps)

end
