(* ===== verification/Abi.thy ===== *)
theory Abi
  imports Evm_Numbers
begin

section \<open>Arguments and results in Ethereum's ABI\<close>

text \<open>
  The part of Burrow's \<^verbatim>\<open>execution/evm/abi/abi.go\<close> that the secure native contracts and the reasons of
  reverts use: the
  types a Go struct is described by, their signatures, and the decoding of arguments into the fields of a
  struct and the encoding of the fields of a result. A field's type fixes both the ABI type and the Go
  type it is decoded into, so of each \<^verbatim>\<open>unpack\<close> the case of that Go type is modelled.

  A slice made by \<^verbatim>\<open>make\<close> has no capacity beyond its length, so a slice expression that leaves
  the data panics. Offsets are \<^verbatim>\<open>int\<close>s of 64 bits (\<^const>\<open>int64\<close>).
\<close>

datatype go_kind = K_Address | K_Bool | K_String | K_Uint64 | K_Int64

datatype evm_type = EVMBool | EVMUint nat | EVMInt nat | EVMAddress | EVMString

fun EVMTypeFromReflect :: "go_kind \<Rightarrow> evm_type" where
  "EVMTypeFromReflect K_Address = EVMAddress"
| "EVMTypeFromReflect K_Bool = EVMBool"
| "EVMTypeFromReflect K_String = EVMString"
| "EVMTypeFromReflect K_Uint64 = EVMUint 64"
| "EVMTypeFromReflect K_Int64 = EVMInt 64"

definition Dynamic :: "evm_type \<Rightarrow> bool" where
  "Dynamic t = (t = EVMString)"

text \<open>The \<^verbatim>\<open>%d\<close> of \<^verbatim>\<open>fmt\<close> for a number that is not negative.\<close>

fun decimal :: "nat \<Rightarrow> string" where
  "decimal n = (if n < 10 then [char_of (48 + n)] else decimal (n div 10) @ [char_of (48 + n mod 10)])"

declare decimal.simps [simp del]

fun GetSignature :: "evm_type \<Rightarrow> string" where
  "GetSignature EVMBool = ''bool''"
| "GetSignature (EVMUint M) = ''uint'' @ decimal M"
| "GetSignature (EVMInt M) = ''int'' @ decimal M"
| "GetSignature EVMAddress = ''address''"
| "GetSignature EVMString = ''string''"

fun comma_separated :: "string list \<Rightarrow> string" where
  "comma_separated [] = []"
| "comma_separated [s] = s"
| "comma_separated (s # ss) = s @ '','' @ comma_separated ss"

definition Signature :: "string \<Rightarrow> evm_type list \<Rightarrow> string" where
  "Signature name args = name @ ''('' @ comma_separated (map GetSignature args) @ '')''"

definition GetFunctionID :: "(bytes \<Rightarrow> bytes) \<Rightarrow> string \<Rightarrow> bytes" where
  "GetFunctionID keccak signature = take 4 (keccak (bytes_of signature))"

subsection \<open>Decoding\<close>

datatype abi_value = VBool bool | VUint "64 word" | VInt int | VAddress address | VString string

definition go_slice :: "bytes \<Rightarrow> int \<Rightarrow> int \<Rightarrow> bytes res" where
  "go_slice data lo hi =
     (if 0 \<le> lo \<and> lo \<le> hi \<and> hi \<le> int (length data) then Ok (take (nat (hi - lo)) (drop (nat lo) data))
      else Panic ''slice bounds out of range'')"

text \<open>\<^verbatim>\<open>if len(data)-offset < ElementSize { return error }; data = data[offset:]\<close>.\<close>

definition data_at :: "bytes \<Rightarrow> int \<Rightarrow> bytes res" where
  "data_at data offset =
     (if int64 (int (length data) - offset) < 32 then Err (Msg ''not enough data'')
      else go_slice data offset (int (length data)))"

text \<open>The number of bytes of an element after the leading ones that only extend it.\<close>

definition significant :: "byte \<Rightarrow> bytes \<Rightarrow> nat" where
  "significant b data = 32 - length (takeWhile (\<lambda>x. x = b) (take 32 data))"

definition EVMBool_unpack :: "bytes \<Rightarrow> int \<Rightarrow> bool res" where
  "EVMBool_unpack data offset = res_bind (data_at data offset) (\<lambda>d. Ok (d ! 31 = 1))"

definition low64 :: "bytes \<Rightarrow> 64 word" where
  "low64 d = word_of_nat (be_nat (take 8 (drop 24 d)))"

definition EVMUint_unpack :: "bytes \<Rightarrow> int \<Rightarrow> 64 word res" where
  "EVMUint_unpack data offset = res_bind (data_at data offset) (\<lambda>d.
     if 8 < significant 0 d then Err (Msg ''value to large for uint64'') else Ok (low64 d))"

definition EVMInt_unpack :: "bytes \<Rightarrow> int \<Rightarrow> int res" where
  "EVMInt_unpack data offset = res_bind (data_at data offset) (\<lambda>d.
     let negative = bit (d ! 0) 7
     in if 8 < significant (if negative then 255 else 0) d \<or> bit (d ! 24) 7 \<noteq> negative
        then Err (Msg ''value to large for int64'') else Ok (sint (low64 d)))"

definition EVMAddress_unpack :: "bytes \<Rightarrow> int \<Rightarrow> address res" where
  "EVMAddress_unpack data offset =
     res_bind (go_slice data (int64 (offset + 12)) (int64 (offset + 32))) (\<lambda>bs.
       case AddressFromBytes bs of (a, None) \<Rightarrow> Ok a | (_, Some e) \<Rightarrow> Err e)"

definition EVMString_unpack :: "bytes \<Rightarrow> int \<Rightarrow> string res" where
  "EVMString_unpack data offset = res_bind (EVMInt_unpack data offset) (\<lambda>len.
     let start = int64 (offset + 32)
     in res_bind (go_slice data start (int64 (start + len))) (\<lambda>bs. Ok (string_of bs)))"

definition map_res :: "('a \<Rightarrow> 'b) \<Rightarrow> 'a res \<Rightarrow> 'b res" where
  "map_res f r = res_bind r (\<lambda>x. Ok (f x))"

fun unpack_value :: "evm_type \<Rightarrow> bytes \<Rightarrow> int \<Rightarrow> abi_value res" where
  "unpack_value EVMBool data offset = map_res VBool (EVMBool_unpack data offset)"
| "unpack_value (EVMUint M) data offset = map_res VUint (EVMUint_unpack data offset)"
| "unpack_value (EVMInt M) data offset = map_res VInt (EVMInt_unpack data offset)"
| "unpack_value EVMAddress data offset = map_res VAddress (EVMAddress_unpack data offset)"
| "unpack_value EVMString data offset = map_res VString (EVMString_unpack data offset)"

text \<open>The arguments from a position on: a dynamic one is behind the offset that stands in its place.\<close>

fun unpack_from :: "evm_type list \<Rightarrow> bytes \<Rightarrow> int \<Rightarrow> abi_value list res" where
  "unpack_from [] data offset = Ok []"
| "unpack_from (t # ts) data offset =
     res_bind (if Dynamic t then res_bind (EVMInt_unpack data offset) (\<lambda>place. unpack_value t data place)
               else unpack_value t data offset) (\<lambda>v.
     res_bind (unpack_from ts data (int64 (offset + 32))) (\<lambda>vs. Ok (v # vs)))"

definition UnpackIntoStruct :: "evm_type list \<Rightarrow> bytes \<Rightarrow> abi_value list res" where
  "UnpackIntoStruct argSpec data = unpack_from argSpec data 0"

text \<open>
  The reason of a \<^verbatim>\<open>REVERT\<close> is encoded as the arguments of a function
  \<^verbatim>\<open>Error(string)\<close>, the only one of \<^verbatim>\<open>RevertAbi\<close> (\<^verbatim>\<open>core.go\<close>), whose outputs have
  the same types. An identifier is four bytes, filled up with zeros where the data are shorter.
\<close>

definition RevertAbi :: "(bytes \<Rightarrow> bytes) \<Rightarrow> (bytes \<times> evm_type list) list" where
  "RevertAbi keccak = [(GetFunctionID keccak (Signature ''Error'' [EVMString]), [EVMString])]"

definition UnpackWithID :: "(bytes \<times> evm_type list) list \<Rightarrow> bytes \<Rightarrow> abi_value list res" where
  "UnpackWithID functions data =
     (let ident = take 4 (data @ replicate 4 0)
      in case map_of functions ident of
           None \<Rightarrow> Err (Fmt ''Unknown function %x'' [ABytes ident])
         | Some outputs \<Rightarrow> res_bind (go_slice data 4 (int (length data))) (\<lambda>args. unpack_from outputs args 0))"

definition UnpackRevert :: "(bytes \<Rightarrow> bytes) \<Rightarrow> bytes \<Rightarrow> string option res" where
  "UnpackRevert keccak data =
     (if 0 < length data
      then map_res (\<lambda>args. case args of [VString msg] \<Rightarrow> Some msg | _ \<Rightarrow> Some [])
             (UnpackWithID (RevertAbi keccak) data)
      else Ok None)"

subsection \<open>Encoding\<close>

text \<open>
  The results of the native functions are truth values and 64-bit words. An ABI type that does not fit
  the Go type of the value is an error, except that every value that is neither an address nor a string
  is packed as the zero address.
\<close>

datatype abi_result = R_bool bool | R_uint64 "64 word"

fun Kind_String :: "abi_result \<Rightarrow> string" where
  "Kind_String (R_bool b) = ''bool''"
| "Kind_String (R_uint64 n) = ''uint64''"

fun pack_value :: "evm_type \<Rightarrow> abi_result \<Rightarrow> go_error + bytes" where
  "pack_value EVMBool (R_bool b) = Inr (replicate 31 0 @ [if b then 1 else 0])"
| "pack_value EVMBool (R_uint64 n) = Inl (Fmt ''%s cannot be converted to EVM Bool type'' [AStr ''uint64''])"
| "pack_value (EVMUint M) (R_uint64 n) =
     (if M < 8 \<and> 256 ^ M \<le> unat n then Inl (Fmt ''value to large for int%d'' [ANat M])
      else Inr (be_bytes 32 (unat n)))"
| "pack_value (EVMUint M) (R_bool b) = Inl (Fmt ''cannot convert type %s to uint%d'' [AStr ''bool'', ANat M])"
| "pack_value (EVMInt M) (R_uint64 n) =
     (if M < 8 \<and> 256 ^ M \<le> unat n then Inl (Fmt ''value to large for int%d'' [ANat M])
      else Inr (be_bytes 32 (unat n)))"
| "pack_value (EVMInt M) (R_bool b) = Inl (Fmt ''cannot convert type %s to int%d'' [AStr ''bool'', ANat M])"
| "pack_value EVMAddress r = Inr (replicate 32 0)"
| "pack_value EVMString r = Inl (Fmt ''cannot map to %s to EVM bytes'' [AStr (Kind_String r)])"

fun pack_values :: "evm_type list \<Rightarrow> abi_result list \<Rightarrow> go_error + bytes" where
  "pack_values (t # ts) (r # rs) =
     (case pack_value t r of
        Inl e \<Rightarrow> Inl e
      | Inr b \<Rightarrow> (case pack_values ts rs of Inl e \<Rightarrow> Inl e | Inr bs \<Rightarrow> Inr (b @ bs)))"
| "pack_values _ _ = Inr []"

definition PackIntoStruct :: "evm_type list \<Rightarrow> abi_result list \<Rightarrow> go_error + bytes" where
  "PackIntoStruct argSpec fields =
     (if length fields \<noteq> length argSpec
      then Inl (Fmt ''%d arguments expected, %d received'' [ANat (length argSpec), ANat (length fields)])
      else pack_values argSpec fields)"

end
