(* ===== verification/Evm_Opcodes.thy ===== *)
theory Evm_Opcodes
  imports Burrow_Words
begin

section \<open>Opcodes and gas\<close>

text \<open>
  Burrow's \<^verbatim>\<open>execution/evm/asm/opcodes.go\<close> and \<^verbatim>\<open>execution/evm/gas.go\<close>: the bytes of the
  instructions and what they cost. The four families that carry a number (\<^verbatim>\<open>PUSH1\<close> to
  \<^verbatim>\<open>PUSH32\<close> and so on) are one constructor each; every byte the interpreter has no case for is
  \<open>OP_UNKNOWN\<close>.
\<close>

datatype call_kind = KIND_CALL | KIND_CALLCODE | KIND_DELEGATECALL | KIND_STATICCALL

text \<open>Arithmetic, comparison and bitwise instructions: 0x01 to 0x1d.\<close>

datatype alu_op =
    ALU_ADD | ALU_MUL | ALU_SUB | ALU_DIV | ALU_SDIV | ALU_MOD | ALU_SMOD | ALU_ADDMOD | ALU_MULMOD
  | ALU_EXP | ALU_SIGNEXTEND
  | ALU_LT | ALU_GT | ALU_SLT | ALU_SGT | ALU_EQ | ALU_ISZERO | ALU_AND | ALU_OR | ALU_XOR | ALU_NOT
  | ALU_BYTE | ALU_SHL | ALU_SHR | ALU_SAR

text \<open>The state of the closure, 0x30 to 0x3f, and of the block, 0x40 to 0x45.\<close>

datatype env_op =
    ENV_ADDRESS | ENV_BALANCE | ENV_ORIGIN | ENV_CALLER | ENV_CALLVALUE | ENV_CALLDATALOAD
  | ENV_CALLDATASIZE | ENV_CALLDATACOPY | ENV_CODESIZE | ENV_CODECOPY | ENV_GASPRICE_DEPRECATED
  | ENV_EXTCODESIZE | ENV_EXTCODECOPY | ENV_RETURNDATASIZE | ENV_RETURNDATACOPY | ENV_EXTCODEHASH
  | ENV_BLOCKHASH | ENV_COINBASE | ENV_TIMESTAMP | ENV_BLOCKHEIGHT | ENV_GASLIMIT

text \<open>Storage and execution, 0x50 to 0x5b.\<close>

datatype exec_op =
    X_POP | X_MLOAD | X_MSTORE | X_MSTORE8 | X_SLOAD | X_SSTORE | X_JUMP | X_JUMPI | X_PC | X_MSIZE
  | X_GAS | X_JUMPDEST

datatype opcode =
    OP_STOP | OP_ALU alu_op | OP_SHA3 | OP_ENV env_op | OP_EXEC exec_op
  | OP_PUSH nat | OP_DUP nat | OP_SWAP nat | OP_LOG nat
  | OP_CREATE | OP_CREATE2 | OP_CALLS call_kind | OP_RETURN | OP_REVERT | OP_INVALID | OP_SELFDESTRUCT
  | OP_UNKNOWN byte

definition opcode_table :: "(nat \<times> opcode) list" where
  "opcode_table =
     [(0x00, OP_STOP), (0x01, OP_ALU ALU_ADD), (0x02, OP_ALU ALU_MUL),
      (0x03, OP_ALU ALU_SUB), (0x04, OP_ALU ALU_DIV), (0x05, OP_ALU ALU_SDIV),
      (0x06, OP_ALU ALU_MOD), (0x07, OP_ALU ALU_SMOD), (0x08, OP_ALU ALU_ADDMOD),
      (0x09, OP_ALU ALU_MULMOD), (0x0a, OP_ALU ALU_EXP), (0x0b, OP_ALU ALU_SIGNEXTEND),
      (0x10, OP_ALU ALU_LT), (0x11, OP_ALU ALU_GT), (0x12, OP_ALU ALU_SLT),
      (0x13, OP_ALU ALU_SGT), (0x14, OP_ALU ALU_EQ), (0x15, OP_ALU ALU_ISZERO),
      (0x16, OP_ALU ALU_AND), (0x17, OP_ALU ALU_OR), (0x18, OP_ALU ALU_XOR),
      (0x19, OP_ALU ALU_NOT), (0x1a, OP_ALU ALU_BYTE), (0x1b, OP_ALU ALU_SHL),
      (0x1c, OP_ALU ALU_SHR), (0x1d, OP_ALU ALU_SAR), (0x20, OP_SHA3),
      (0x30, OP_ENV ENV_ADDRESS), (0x31, OP_ENV ENV_BALANCE), (0x32, OP_ENV ENV_ORIGIN),
      (0x33, OP_ENV ENV_CALLER), (0x34, OP_ENV ENV_CALLVALUE), (0x35, OP_ENV ENV_CALLDATALOAD),
      (0x36, OP_ENV ENV_CALLDATASIZE), (0x37, OP_ENV ENV_CALLDATACOPY), (0x38, OP_ENV ENV_CODESIZE),
      (0x39, OP_ENV ENV_CODECOPY), (0x3a, OP_ENV ENV_GASPRICE_DEPRECATED), (0x3b, OP_ENV ENV_EXTCODESIZE),
      (0x3c, OP_ENV ENV_EXTCODECOPY), (0x3d, OP_ENV ENV_RETURNDATASIZE), (0x3e, OP_ENV ENV_RETURNDATACOPY),
      (0x3f, OP_ENV ENV_EXTCODEHASH), (0x40, OP_ENV ENV_BLOCKHASH), (0x41, OP_ENV ENV_COINBASE),
      (0x42, OP_ENV ENV_TIMESTAMP), (0x43, OP_ENV ENV_BLOCKHEIGHT), (0x45, OP_ENV ENV_GASLIMIT),
      (0x50, OP_EXEC X_POP), (0x51, OP_EXEC X_MLOAD), (0x52, OP_EXEC X_MSTORE),
      (0x53, OP_EXEC X_MSTORE8), (0x54, OP_EXEC X_SLOAD), (0x55, OP_EXEC X_SSTORE),
      (0x56, OP_EXEC X_JUMP), (0x57, OP_EXEC X_JUMPI), (0x58, OP_EXEC X_PC),
      (0x59, OP_EXEC X_MSIZE), (0x5a, OP_EXEC X_GAS), (0x5b, OP_EXEC X_JUMPDEST),
      (0xf0, OP_CREATE), (0xf1, OP_CALLS KIND_CALL), (0xf2, OP_CALLS KIND_CALLCODE),
      (0xf3, OP_RETURN), (0xf4, OP_CALLS KIND_DELEGATECALL), (0xfa, OP_CALLS KIND_STATICCALL),
      (0xfb, OP_CREATE2), (0xfd, OP_REVERT), (0xfe, OP_INVALID),
      (0xff, OP_SELFDESTRUCT)]"

text \<open>The argument of \<open>OP_SWAP\<close> is the depth the code computes, \<^verbatim>\<open>op - SWAP1 + 2\<close>.\<close>

definition decode_op :: "byte \<Rightarrow> opcode" where
  "decode_op b =
     (let n = unat b
      in if 0x60 \<le> n \<and> n \<le> 0x7f then OP_PUSH (n - 0x60 + 1)
      else if 0x80 \<le> n \<and> n \<le> 0x8f then OP_DUP (n - 0x80 + 1)
      else if 0x90 \<le> n \<and> n \<le> 0x9f then OP_SWAP (n - 0x90 + 2)
      else if 0xa0 \<le> n \<and> n \<le> 0xa4 then OP_LOG (n - 0xa0)
      else (case map_of opcode_table n of Some op \<Rightarrow> op | None \<Rightarrow> OP_UNKNOWN b))"

definition GasSha3 :: "64 word" where "GasSha3 = 1"
definition GasGetAccount :: "64 word" where "GasGetAccount = 1"
definition GasStorageUpdate :: "64 word" where "GasStorageUpdate = 1"
definition GasCreateAccount :: "64 word" where "GasCreateAccount = 1"
definition GasBaseOp :: "64 word" where "GasBaseOp = 0"
definition GasStackOp :: "64 word" where "GasStackOp = 1"
definition GasSha256Word :: "64 word" where "GasSha256Word = 1"
definition GasSha256Base :: "64 word" where "GasSha256Base = 1"
definition GasRipemd160Word :: "64 word" where "GasRipemd160Word = 1"
definition GasRipemd160Base :: "64 word" where "GasRipemd160Base = 1"
definition GasIdentityWord :: "64 word" where "GasIdentityWord = 1"
definition GasIdentityBase :: "64 word" where "GasIdentityBase = 1"

lemmas gas_defs =
  GasSha3_def GasGetAccount_def GasStorageUpdate_def GasCreateAccount_def GasBaseOp_def GasStackOp_def

text \<open>What the program counter points at: past the end of the code there is a \<^verbatim>\<open>STOP\<close>; a
  negative index panics.\<close>

definition codeGetOp :: "bytes \<Rightarrow> int \<Rightarrow> opcode res" where
  "codeGetOp code n =
     (if int (length code) \<le> n then Ok OP_STOP
      else if n < 0 then Panic ''index out of range''
      else Ok (decode_op (code ! nat n)))"

lemma codeGetOp_not_Err [simp]: "codeGetOp code n \<noteq> Err e"
  by (simp add: codeGetOp_def)

lemma codeGetOp_Panic: "codeGetOp code n = Panic p \<longleftrightarrow> n < 0 \<and> p = ''index out of range''"
  by (auto simp: codeGetOp_def)

lemma unat_eq_numeral: "n < 256 \<Longrightarrow> unat (b :: byte) = n \<longleftrightarrow> b = word_of_nat n"
  by (auto simp: word_unat_eq_iff unat_of_nat take_bit_eq_mod)

lemma decode_op_JUMPDEST: "decode_op b = OP_EXEC X_JUMPDEST \<longleftrightarrow> b = 0x5b"
proof
  assume op: "decode_op b = OP_EXEC X_JUMPDEST"
  have "unat b = 0x5b"
  proof (rule ccontr)
    assume ne: "unat b \<noteq> 0x5b"
    have "map_of opcode_table n = Some (OP_EXEC X_JUMPDEST) \<Longrightarrow> n = 0x5b" for n
      by (simp add: opcode_table_def split: if_splits)
    with op ne show False
      by (auto simp: decode_op_def Let_def split: if_splits option.splits)
  qed
  then show "b = 0x5b"
    by (simp add: unat_eq_numeral)
qed (simp add: decode_op_def opcode_table_def)

end
