(* ===== verification/Evm_Memory.thy ===== *)
theory Evm_Memory
  imports Evm_Numbers
begin

section \<open>The memory of the EVM\<close>

text \<open>
  Burrow's \<^verbatim>\<open>execution/evm/memory.go\<close>: a slice of bytes that grows on access, from 1 MiB to at
  most 16 MiB. The bytes are a function of the index that is zero from the length on. Offsets and lengths
  are \<^verbatim>\<open>big.Int\<close>s that must fit 64 bits; their sum is a \<^verbatim>\<open>uint64\<close> and wraps around, and an
  offset above the wrapped sum is a slice expression out of bounds. An error is returned beside the memory,
  for the caller to push.
\<close>

record memory =
  mem_bytes :: "nat \<Rightarrow> byte"
  mem_len :: nat

definition defaultInitialMemoryCapacity :: nat where "defaultInitialMemoryCapacity = 0x100000"
definition defaultMaximumMemoryCapacity :: nat where "defaultMaximumMemoryCapacity = 0x1000000"

definition DefaultDynamicMemory :: memory where
  "DefaultDynamicMemory = \<lparr>mem_bytes = (\<lambda>_. 0), mem_len = defaultInitialMemoryCapacity\<rparr>"

definition MaxInt32 :: nat where "MaxInt32 = 2 ^ 31 - 1"

definition mem_ensureCapacity :: "nat \<Rightarrow> memory \<Rightarrow> go_error option \<times> memory" where
  "mem_ensureCapacity newCapacity mem =
     (if MaxInt32 < newCapacity
      then (Some (Fmt ''cannot address memory beyond a maximum index with int32 width (%v bytes)''
              [ANat MaxInt32]), mem)
      else if newCapacity \<le> mem_len mem then (None, mem)
      else if defaultMaximumMemoryCapacity < newCapacity
      then (Some (Fmt ''cannot grow memory because it would exceed the current maximum limit of %v bytes''
              [ANat defaultMaximumMemoryCapacity]), mem)
      else (None, mem\<lparr>mem_len := newCapacity\<rparr>))"

definition mem_slice :: "memory \<Rightarrow> nat \<Rightarrow> nat \<Rightarrow> bytes" where
  "mem_slice mem offset len = map (mem_bytes mem) [offset..<offset + len]"

definition mem_put :: "memory \<Rightarrow> nat \<Rightarrow> bytes \<Rightarrow> memory" where
  "mem_put mem offset v = mem\<lparr>mem_bytes := \<lambda>i.
     if offset \<le> i \<and> i < offset + length v then v ! (i - offset) else mem_bytes mem i\<rparr>"

definition mem_read :: "nat \<Rightarrow> nat \<Rightarrow> memory \<Rightarrow> bytes res \<times> memory" where
  "mem_read offset len mem =
     (let capacity = (offset + len) mod 2 ^ 64
      in case mem_ensureCapacity capacity mem of
        (Some e, mem') \<Rightarrow> (Err e, mem')
      | (None, mem') \<Rightarrow>
          (if capacity < offset then (Panic ''slice bounds out of range'', mem')
           else (Ok (mem_slice mem' offset len), mem')))"

definition mem_write :: "nat \<Rightarrow> bytes \<Rightarrow> memory \<Rightarrow> unit res \<times> memory" where
  "mem_write offset v mem =
     (let capacity = (offset + length v) mod 2 ^ 64
      in case mem_ensureCapacity capacity mem of
        (Some e, mem') \<Rightarrow> (Err e, mem')
      | (None, mem') \<Rightarrow>
          (if capacity < offset then (Panic ''slice bounds out of range'', mem')
           else (Ok (), mem_put mem' offset (take (capacity - offset) v))))"

definition IsUint64 :: "int \<Rightarrow> bool" where
  "IsUint64 i = (0 \<le> i \<and> i < 2 ^ 64)"

text \<open>The error for a length that is too wide formats the offset.\<close>

definition memory_Read :: "int \<Rightarrow> int \<Rightarrow> memory \<Rightarrow> bytes res \<times> memory" where
  "memory_Read offset len mem =
     (if \<not> IsUint64 offset
      then (Err (Fmt ''offset %v does not fit inside an unsigned 64-bit integer'' [ANat (nat offset)]), mem)
      else if \<not> IsUint64 len
      then (Err (Fmt ''length %v does not fit inside an unsigned 64-bit integer'' [ANat (nat offset)]), mem)
      else mem_read (nat offset) (nat len) mem)"

definition memory_Write :: "int \<Rightarrow> bytes \<Rightarrow> memory \<Rightarrow> unit res \<times> memory" where
  "memory_Write offset v mem =
     (if \<not> IsUint64 offset
      then (Err (Fmt ''offset %v does not fit inside an unsigned 64-bit integer'' [ANat (nat offset)]), mem)
      else mem_write (nat offset) v mem)"

subsection \<open>Laws\<close>

text \<open>Within the maximum, and zero from the length on.\<close>

definition memory_ok :: "memory \<Rightarrow> bool" where
  "memory_ok mem \<longleftrightarrow> mem_len mem \<le> defaultMaximumMemoryCapacity \<and> (\<forall>i\<ge>mem_len mem. mem_bytes mem i = 0)"

lemma memory_ok_Default: "memory_ok DefaultDynamicMemory"
  by (simp add: memory_ok_def DefaultDynamicMemory_def defaultInitialMemoryCapacity_def
      defaultMaximumMemoryCapacity_def)

lemma ensureCapacity_grows:
  assumes "mem_ensureCapacity n mem = (e, mem')"
  shows "mem_bytes mem' = mem_bytes mem" and "mem_len mem \<le> mem_len mem'" and "e = None \<Longrightarrow> n \<le> mem_len mem'"
    and "memory_ok mem \<Longrightarrow> memory_ok mem'"
  using assms by (auto simp: mem_ensureCapacity_def memory_ok_def split: if_splits)

lemma ensureCapacity_has_text: "mem_ensureCapacity n mem = (Some e, mem') \<Longrightarrow> \<exists>f a. e = Fmt f a \<and> f \<noteq> []"
  by (auto simp: mem_ensureCapacity_def split: if_splits)

lemma memory_Read_mem:
  assumes "memory_Read off len mem = (r, mem')"
  shows "mem_bytes mem' = mem_bytes mem" and "mem_len mem \<le> mem_len mem'" and "memory_ok mem \<Longrightarrow> memory_ok mem'"
  using assms ensureCapacity_grows
  by (auto simp: memory_Read_def mem_read_def Let_def split: if_splits prod.splits option.splits)

lemma memory_ok_put: "memory_ok m \<Longrightarrow> off + length v \<le> mem_len m \<Longrightarrow> memory_ok (mem_put m off v)"
  by (auto simp: memory_ok_def mem_put_def)

lemma mem_len_put [simp]: "mem_len (mem_put m off v) = mem_len m"
  by (simp add: mem_put_def)

lemma memory_Write_mem:
  assumes "memory_Write off v mem = (r, mem')"
  shows "memory_ok mem \<Longrightarrow> memory_ok mem'" and "mem_len mem \<le> mem_len mem'"
proof -
  let ?cap = "(nat off + length v) mod 2 ^ 64"
  obtain e m where e: "mem_ensureCapacity ?cap mem = (e, m)"
    by (cases "mem_ensureCapacity ?cap mem")
  note grows = ensureCapacity_grows [OF e]
  have in_bounds: "nat off + length (take (?cap - nat off) v) \<le> mem_len m" if "e = None" "nat off \<le> ?cap"
    using grows(3) [OF that(1)] that(2) by simp
  show "memory_ok mem \<Longrightarrow> memory_ok mem'" and "mem_len mem \<le> mem_len mem'"
    using assms e grows(2,4) memory_ok_put [OF _ in_bounds]
    by (auto simp: memory_Write_def mem_write_def Let_def split: if_splits option.splits)
qed

lemma memory_errors_have_text:
  "memory_Read off len mem = (Err e, mem') \<Longrightarrow> \<exists>f a. e = Fmt f a \<and> f \<noteq> []"
  "memory_Write off v mem = (Err e, mem') \<Longrightarrow> \<exists>f a. e = Fmt f a \<and> f \<noteq> []"
  by (auto simp: memory_Read_def memory_Write_def mem_read_def mem_write_def Let_def
      split: if_splits option.splits prod.splits dest: ensureCapacity_has_text)

text \<open>What was written is read back; other bytes are what they were.\<close>

lemma mem_slice_put_same: "mem_slice (mem_put m off v) off (length v) = v"
  by (rule nth_equalityI) (auto simp: mem_slice_def mem_put_def)

lemma mem_slice_put_other:
  "off' + len \<le> off \<or> off + length v \<le> off' \<Longrightarrow> mem_slice (mem_put m off v) off' len = mem_slice m off' len"
  by (auto simp: mem_slice_def mem_put_def)

lemma mem_slice_bytes: "mem_bytes m = mem_bytes m' \<Longrightarrow> mem_slice m = mem_slice m'"
  by (simp add: mem_slice_def fun_eq_iff)

lemma memory_Write_Ok:
  assumes "memory_Write off v mem = (Ok u, mem')" and "length v < 2 ^ 64"
  shows "0 \<le> off" and "nat off + length v \<le> mem_len mem'"
    and "mem_slice mem' = mem_slice (mem_put mem (nat off) v)"
proof -
  let ?cap = "(nat off + length v) mod 2 ^ 64"
  obtain m where off: "0 \<le> off" "nat off < 2 ^ 64" and e: "mem_ensureCapacity ?cap mem = (None, m)"
    and le: "nat off \<le> ?cap" and mem': "mem' = mem_put m (nat off) (take (?cap - nat off) v)"
    using assms(1) by (auto simp: memory_Write_def mem_write_def IsUint64_def Let_def
        split: if_splits option.splits prod.splits)
  have no_wrap: "nat off + length v < 2 ^ 64"
  proof (rule ccontr)
    assume "\<not> nat off + length v < 2 ^ 64"
    then have "?cap = nat off + length v - 2 ^ 64"
      using off(2) assms(2) by (simp add: mod_if)
    with le assms(2) \<open>\<not> nat off + length v < 2 ^ 64\<close> show False by simp
  qed
  note grows = ensureCapacity_grows [OF e]
  show "0 \<le> off" by (rule off)
  show "nat off + length v \<le> mem_len mem'"
    using grows(3) no_wrap mem' by simp
  have "mem_bytes mem' = mem_bytes (mem_put mem (nat off) v)"
    using grows(1) no_wrap mem' by (simp add: mem_put_def fun_eq_iff)
  then show "mem_slice mem' = mem_slice (mem_put mem (nat off) v)"
    by (rule mem_slice_bytes)
qed

text \<open>A read that succeeds returns exactly the bytes asked for.\<close>

lemma memory_Read_Ok:
  assumes "memory_Read off len mem = (Ok v, mem')"
  shows "0 \<le> off" and "0 \<le> len" and "v = mem_slice mem (nat off) (nat len)" and "length v = nat len"
    and "nat off + nat len \<le> mem_len mem'"
proof -
  let ?cap = "(nat off + nat len) mod 2 ^ 64"
  obtain m where off: "0 \<le> off" "nat off < 2 ^ 64" and len: "0 \<le> len" "nat len < 2 ^ 64"
    and e: "mem_ensureCapacity ?cap mem = (None, m)" and le: "nat off \<le> ?cap" and mem': "mem' = m"
    and v: "v = mem_slice m (nat off) (nat len)"
    using assms(1) by (auto simp: memory_Read_def mem_read_def IsUint64_def Let_def
        split: if_splits option.splits prod.splits)
  have no_wrap: "nat off + nat len < 2 ^ 64"
  proof (rule ccontr)
    assume "\<not> nat off + nat len < 2 ^ 64"
    then have "?cap = nat off + nat len - 2 ^ 64"
      using off(2) len(2) by (simp add: mod_if)
    with le len \<open>\<not> nat off + nat len < 2 ^ 64\<close> show False by simp
  qed
  note grows = ensureCapacity_grows [OF e]
  show "0 \<le> off" and "0 \<le> len" by (fact off len)+
  show v': "v = mem_slice mem (nat off) (nat len)"
    using v mem_slice_bytes [OF grows(1)] by simp
  show "length v = nat len"
    by (simp add: v' mem_slice_def)
  show "nat off + nat len \<le> mem_len mem'"
    using grows(3) no_wrap mem' by simp
qed

end
