(* ===== verification/Evm_Machine.thy ===== *)
theory Evm_Machine
  imports Evm_Opcodes Evm_Memory Evm_Calls Evm_Chaincode
begin

section \<open>The machine\<close>

text \<open>
  What \<^verbatim>\<open>VM.execute\<close> of Burrow's \<^verbatim>\<open>execution/evm/vm.go\<close> works on. An \<^emph>\<open>activation\<close> is what a
  call hands to the code it runs and gets back: the state, the event sink, the gas the pointer
  \<^verbatim>\<open>*gas\<close> stands for and the machine's counter \<^verbatim>\<open>vm.sequence\<close>. A \<^emph>\<open>machine\<close> adds the
  local variables of \<^verbatim>\<open>execute\<close>. A \<^emph>\<open>frame\<close> holds the arguments that do not change.

  An operation maps a machine to its result and the machine it leaves; \<open>None\<close> is a run that never
  returns, and \<open>Panic\<close> ends everything. Errors are pushed to the state, where the loop looks for them.
\<close>

record activation =
  ac_state :: evm_state
  ac_sink :: event_manager
  ac_gas :: "64 word"
  ac_sequence :: "64 word"

record machine = activation +
  mc_pc :: int
  mc_stack :: "word256 list"
  mc_slots :: nat
  mc_memory :: memory
  mc_value :: "64 word"
  mc_returnData :: "bytes option"

text \<open>\<open>fr_logfree\<close>: the sink is wrapped in a \<^verbatim>\<open>logFreeEventSink\<close>. \<open>fr_depth\<close> is
  \<^verbatim>\<open>vm.stackDepth\<close> while the code runs.\<close>

record frame =
  fr_caller :: address
  fr_callee :: address
  fr_code :: bytes
  fr_input :: bytes
  fr_value :: "64 word"
  fr_depth :: "64 word"
  fr_logfree :: bool

record vm =
  vm_params :: evm_params
  vm_origin :: address
  vm_nonce :: bytes
  vm_blockHash :: "64 word \<Rightarrow> bytes res"

text \<open>
  A native contract gets the state, the caller, the input and the gas. The two hashes are
  parameters.
\<close>

type_synonym native_contract =
  "evm_state \<Rightarrow> address \<Rightarrow> bytes \<Rightarrow> 64 word \<Rightarrow> bytes option res \<times> evm_state \<times> 64 word"

record 'pk evm_externals = "'pk externals" +
  keccak256 :: "bytes \<Rightarrow> bytes"
  ripemd160_Sum :: "bytes \<Rightarrow> bytes"

datatype outcome = Next | Continue | Return "bytes option"

subsection \<open>Operations and their composition\<close>

type_synonym 'a op = "machine \<Rightarrow> ('a res \<times> machine) option"

definition ret :: "'a \<Rightarrow> 'a op" where
  "ret x m = Some (Ok x, m)"

definition bind_op :: "'a op \<Rightarrow> ('a \<Rightarrow> 'b op) \<Rightarrow> 'b op" where
  "bind_op f g m =
     (case f m of
        None \<Rightarrow> None
      | Some (Ok x, m') \<Rightarrow> g x m'
      | Some (Err e, m') \<Rightarrow> Some (Err e, m')
      | Some (Panic p, m') \<Rightarrow> Some (Panic p, m'))"

definition seq_op :: "'a op \<Rightarrow> 'b op \<Rightarrow> 'b op" where
  "seq_op f g = bind_op f (\<lambda>_. g)"

definition get_op :: "(machine \<Rightarrow> 'a) \<Rightarrow> 'a op" where
  "get_op f m = Some (Ok (f m), m)"

definition upd_op :: "(machine \<Rightarrow> machine) \<Rightarrow> unit op" where
  "upd_op f m = Some (Ok (), f m)"

definition panic_op :: "string \<Rightarrow> 'a op" where
  "panic_op p m = Some (Panic p, m)"

definition lift_res :: "'a res \<Rightarrow> 'a op" where
  "lift_res r m = Some (r, m)"

text \<open>Operations of the state.\<close>

definition state_op :: "(evm_state \<Rightarrow> 'a \<times> evm_state) \<Rightarrow> 'a op" where
  "state_op f m = (case f (ac_state m) of (x, st) \<Rightarrow> Some (Ok x, m\<lparr>ac_state := st\<rparr>))"

definition state_upd :: "(evm_state \<Rightarrow> evm_state) \<Rightarrow> unit op" where
  "state_upd f m = Some (Ok (), m\<lparr>ac_state := f (ac_state m)\<rparr>)"

definition state_res_op :: "(evm_state \<Rightarrow> 'a res \<times> evm_state) \<Rightarrow> 'a op" where
  "state_res_op f m = (case f (ac_state m) of (r, st) \<Rightarrow> Some (r, m\<lparr>ac_state := st\<rparr>))"

definition push_error :: "go_error \<Rightarrow> machine \<Rightarrow> machine" where
  "push_error e m = m\<lparr>ac_state := es_PushError (ac_state m) (Some e)\<rparr>"

definition PushError_op :: "go_error option \<Rightarrow> unit op" where
  "PushError_op e = state_upd (\<lambda>st. es_PushError st e)"

definition code_error :: "error_code \<Rightarrow> go_error" where
  "code_error c = Coded c (Code_String c) []"

text \<open>\<^verbatim>\<open>if callState.Error() != nil { continue }\<close>.\<close>

definition unless_error :: "outcome op \<Rightarrow> outcome op" where
  "unless_error f m = (if st_error (ac_state m) \<noteq> None then ret Continue m else f m)"

subsection \<open>Gas\<close>

definition useGasNegative :: "64 word \<Rightarrow> machine \<Rightarrow> machine" where
  "useGasNegative gasToUse m =
     (if gasToUse \<le> ac_gas m then m\<lparr>ac_gas := ac_gas m - gasToUse\<rparr>
      else push_error (code_error ErrorCodeInsufficientGas) m)"

text \<open>The stack charges only when gas is left over.\<close>

definition stack_useGas :: "64 word \<Rightarrow> machine \<Rightarrow> machine" where
  "stack_useGas gasToUse m =
     (if gasToUse < ac_gas m then m\<lparr>ac_gas := ac_gas m - gasToUse\<rparr>
      else push_error (code_error ErrorCodeInsufficientGas) m)"

subsection \<open>The stack\<close>

text \<open>
  \<^verbatim>\<open>execution/evm/stack.go\<close>. The first word of the list is the top; \<open>mc_slots\<close> is the length of the
  backing slice, which only grows, up to the maximum when there is one. After an error an operation goes
  on: a pop from the empty stack is the zero word.
\<close>

definition stack_ensureCapacity :: "64 word \<Rightarrow> nat \<Rightarrow> nat \<Rightarrow> nat option" where
  "stack_ensureCapacity maxCapacity newCapacity slots =
     (if MaxInt32 < newCapacity then None
      else if newCapacity \<le> slots then Some slots
      else if 0 < maxCapacity \<and> unat maxCapacity < newCapacity then None
      else Some newCapacity)"

definition stack_Push :: "vm \<Rightarrow> word256 \<Rightarrow> machine \<Rightarrow> machine" where
  "stack_Push V d m =
     (let m = stack_useGas GasStackOp m
      in case stack_ensureCapacity (DataStackMaxDepth (vm_params V)) (length (mc_stack m) + 1) (mc_slots m) of
        None \<Rightarrow> push_error (code_error ErrorCodeDataStackOverflow) m
      | Some slots \<Rightarrow> m\<lparr>mc_stack := d # mc_stack m, mc_slots := slots\<rparr>)"

definition stack_Pop :: "machine \<Rightarrow> word256 \<times> machine" where
  "stack_Pop m =
     (let m = stack_useGas GasStackOp m
      in case mc_stack m of
        [] \<Rightarrow> (Zero256, push_error (code_error ErrorCodeDataStackUnderflow) m)
      | d # ds \<Rightarrow> (d, m\<lparr>mc_stack := ds\<rparr>))"

definition stack_Dup :: "vm \<Rightarrow> nat \<Rightarrow> machine \<Rightarrow> machine" where
  "stack_Dup V n m =
     (let m = stack_useGas GasStackOp m
      in if length (mc_stack m) < n then push_error (code_error ErrorCodeDataStackUnderflow) m
      else stack_Push V (mc_stack m ! (n - 1)) m)"

definition stack_Swap :: "nat \<Rightarrow> machine \<Rightarrow> machine" where
  "stack_Swap n m =
     (let m = stack_useGas GasStackOp m; s = mc_stack m
      in if length s < n then push_error (code_error ErrorCodeDataStackUnderflow) m
      else m\<lparr>mc_stack := s[n - 1 := s ! 0, 0 := s ! (n - 1)]\<rparr>)"

definition Push :: "vm \<Rightarrow> word256 \<Rightarrow> unit op" where
  "Push V d = upd_op (stack_Push V d)"

definition PushBytes :: "vm \<Rightarrow> bytes \<Rightarrow> unit op" where
  "PushBytes V bz =
     (if length bz \<noteq> 32 then panic_op ''Invalid bytes size: expected 32''
      else bind_op (lift_res (LeftPadWord256 bz)) (Push V))"

definition PushAddress :: "vm \<Rightarrow> address \<Rightarrow> unit op" where
  "PushAddress V a = Push V (Address_Word256 a)"

definition Push64 :: "vm \<Rightarrow> int \<Rightarrow> unit op" where
  "Push64 V i = Push V (Int64ToWord256 i)"

definition PushU64 :: "vm \<Rightarrow> 64 word \<Rightarrow> unit op" where
  "PushU64 V i = Push V (Uint64ToWord256 i)"

definition PushBigInt :: "vm \<Rightarrow> int \<Rightarrow> unit op" where
  "PushBigInt V x = Push V (word_of_big x)"

definition Pop :: "word256 op" where
  "Pop m = (case stack_Pop m of (d, m') \<Rightarrow> Some (Ok d, m'))"

definition PopAddress :: "address op" where
  "PopAddress = bind_op Pop (\<lambda>d. ret (AddressFromWord256 d))"

definition int64_overflow :: "word256 \<Rightarrow> go_error" where
  "int64_overflow d = Coded ErrorCodeCallStackOverflow ''int64 overflow from word: %v'' [ABytes (Word256_Bytes d)]"

definition Pop64 :: "int op" where
  "Pop64 = bind_op Pop (\<lambda>d.
     if Is64BitOverflow d then seq_op (PushError_op (Some (int64_overflow d))) (ret 0)
     else ret (Int64FromWord256 d))"

definition PopU64 :: "64 word op" where
  "PopU64 = bind_op Pop (\<lambda>d.
     if Is64BitOverflow d then seq_op (PushError_op (Some (int64_overflow d))) (ret 0)
     else ret (Uint64FromWord256 d))"

definition PopBigInt :: "int op" where
  "PopBigInt = bind_op Pop (\<lambda>d. ret (uint d))"

definition PopBigIntSigned :: "int op" where
  "PopBigIntSigned = bind_op PopBigInt (\<lambda>x. ret (S256 x))"

text \<open>\<^verbatim>\<open>x, y := stack.Pop(), stack.Pop()\<close>, from left to right.\<close>

definition bind2 :: "'a op \<Rightarrow> 'b op \<Rightarrow> ('a \<Rightarrow> 'b \<Rightarrow> 'c op) \<Rightarrow> 'c op" where
  "bind2 f g h = bind_op f (\<lambda>x. bind_op g (h x))"

definition bind3 :: "'a op \<Rightarrow> 'b op \<Rightarrow> 'c op \<Rightarrow> ('a \<Rightarrow> 'b \<Rightarrow> 'c \<Rightarrow> 'd op) \<Rightarrow> 'd op" where
  "bind3 f g h k = bind_op f (\<lambda>x. bind2 g h (k x))"

fun Pop_n :: "nat \<Rightarrow> word256 list op" where
  "Pop_n 0 = ret []"
| "Pop_n (Suc n) = bind_op Pop (\<lambda>t. bind_op (Pop_n n) (\<lambda>ts. ret (t # ts)))"

subsection \<open>Memory and slices in an operation\<close>

text \<open>The memory pushes its errors to the state; a failed read is nil.\<close>

definition Memory_Read :: "int \<Rightarrow> int \<Rightarrow> bytes option op" where
  "Memory_Read offset len m =
     (case memory_Read offset len (mc_memory m) of
        (Ok v, mem) \<Rightarrow> Some (Ok (Some v), m\<lparr>mc_memory := mem\<rparr>)
      | (Err e, mem) \<Rightarrow> Some (Ok None, push_error e (m\<lparr>mc_memory := mem\<rparr>))
      | (Panic p, mem) \<Rightarrow> Some (Panic p, m\<lparr>mc_memory := mem\<rparr>))"

definition Memory_Write :: "int \<Rightarrow> bytes \<Rightarrow> unit op" where
  "Memory_Write offset v m =
     (case memory_Write offset v (mc_memory m) of
        (Ok _, mem) \<Rightarrow> Some (Ok (), m\<lparr>mc_memory := mem\<rparr>)
      | (Err e, mem) \<Rightarrow> Some (Ok (), push_error e (m\<lparr>mc_memory := mem\<rparr>))
      | (Panic p, mem) \<Rightarrow> Some (Panic p, m\<lparr>mc_memory := mem\<rparr>))"

definition Subslice :: "bytes \<Rightarrow> int \<Rightarrow> int \<Rightarrow> bytes op" where
  "Subslice data offset len =
     (case subslice data offset len of
        Ok (Some v) \<Rightarrow> ret v
      | Ok None \<Rightarrow> seq_op (PushError_op (Some (Coded ErrorCodeInputOutOfBounds
            ''subslice could not slice data of size %d at offset %d for length %d''
            [ANat (length data), AInt offset, AInt len]))) (ret [])
      | Err e \<Rightarrow> lift_res (Err e)
      | Panic p \<Rightarrow> panic_op p)"

text \<open>The sink of the frame: a log-free one refuses every log.\<close>

definition Log_op :: "('pk, 'z) externals_scheme \<Rightarrow> frame \<Rightarrow> log_event \<Rightarrow> unit op" where
  "Log_op X F log m =
     (if fr_logfree F
      then PushError_op (Some (Coded ErrorCodeIllegalWrite
        ''Log emitted from contract %v, but current call should be log-free''
        [AStr (Address_String (log_Address log))])) m
      else (case em_Log X (ac_sink m) log of
          (e, sink) \<Rightarrow> PushError_op e (m\<lparr>ac_sink := sink\<rparr>)))"

end
