(* ===== verification/Secure_Natives.thy ===== *)
theory Secure_Natives
  imports Abi Evm_Machine
begin

section \<open>Secure native contracts\<close>

text \<open>
  Burrow's \<^verbatim>\<open>execution/evm/snative.go\<close>: one contract in Go, named \<^verbatim>\<open>Permissions\<close>, whose
  functions read and change the permissions of accounts. A call carries the four bytes of a function's
  identifier and its arguments in Ethereum's ABI; the caller needs the function's own permission.

  A function gets the fields of its argument struct. The type assertion on the struct is the pattern; the
  caller and the gas, which every function ignores, are left out.
\<close>

subsection \<open>The functions\<close>

type_synonym 'x native_function = "'x \<Rightarrow> evm_state \<Rightarrow> abi_value list \<Rightarrow> abi_result list res \<times> evm_state"

abbreviation bad_struct :: "abi_result list res" where
  "bad_struct \<equiv> Panic ''interface conversion''"

definition unknown_account :: "address \<Rightarrow> go_error" where
  "unknown_account a = Fmt ''unknown account %s'' [AStr (Address_String a)]"

definition native_hasBase :: "('pk, 'z) externals_scheme native_function" where
  "native_hasBase X st args =
     (case args of [VAddress a, VUint permN] \<Rightarrow>
        (case es_Exists X st a of
           (False, st1) \<Rightarrow> (Err (unknown_account a), st1)
         | (True, st1) \<Rightarrow>
             (if \<not> IsValid permN then (Err (ErrInvalidPermission permN), st1)
              else (case HasPermission X st1 a permN of (has, st2) \<Rightarrow> (Ok [R_bool has], st2))))
      | _ \<Rightarrow> (bad_struct, st))"

definition native_setBase :: "('pk, 'z) externals_scheme native_function" where
  "native_setBase X st args =
     (case args of [VAddress a, VUint permN, VBool value] \<Rightarrow>
        (case es_Exists X st a of
           (False, st1) \<Rightarrow> (Err (unknown_account a), st1)
         | (True, st1) \<Rightarrow>
             (if \<not> IsValid permN then (Err (ErrInvalidPermission permN), st1)
              else (Ok [R_uint64 permN], es_SetPermission X st1 a permN value)))
      | _ \<Rightarrow> (bad_struct, st))"

definition native_unsetBase :: "('pk, 'z) externals_scheme native_function" where
  "native_unsetBase X st args =
     (case args of [VAddress a, VUint permN] \<Rightarrow>
        (case es_Exists X st a of
           (False, st1) \<Rightarrow> (Err (unknown_account a), st1)
         | (True, st1) \<Rightarrow>
             (if \<not> IsValid permN then (Err (ErrInvalidPermission permN), st1)
              else (Ok [R_uint64 permN], es_UnsetPermission X st1 a permN)))
      | _ \<Rightarrow> (bad_struct, st))"

definition native_setGlobal :: "('pk, 'z) externals_scheme native_function" where
  "native_setGlobal X st args =
     (case args of [VUint permN, VBool value] \<Rightarrow>
        (if \<not> IsValid permN then (Err (ErrInvalidPermission permN), st)
         else (Ok [R_uint64 permN], es_SetPermission X st GlobalPermissionsAddress permN value))
      | _ \<Rightarrow> (bad_struct, st))"

definition native_hasRole :: "('pk, 'z) externals_scheme native_function" where
  "native_hasRole X st args =
     (case args of [VAddress a, VString role] \<Rightarrow>
        (case es_GetPermissions X st a of (perms, st1) \<Rightarrow>
          (case st_error st1 of
             Some e \<Rightarrow> (Err (Fmt ''hasRole could not get permissions: %v'' [AErr e]), st1)
           | None \<Rightarrow> (Ok [R_bool (HasRole perms role)], st1)))
      | _ \<Rightarrow> (bad_struct, st))"

definition native_addRole :: "('pk, 'z) externals_scheme native_function" where
  "native_addRole X st args =
     (case args of [VAddress a, VString role] \<Rightarrow>
        (case es_AddRole X st a role of (added, st1) \<Rightarrow> (Ok [R_bool added], st1))
      | _ \<Rightarrow> (bad_struct, st))"

definition native_removeRole :: "('pk, 'z) externals_scheme native_function" where
  "native_removeRole X st args =
     (case args of [VAddress a, VString role] \<Rightarrow>
        (case es_RemoveRole X st a role of (removed, st1) \<Rightarrow> (Ok [R_bool removed], st1))
      | _ \<Rightarrow> (bad_struct, st))"

subsection \<open>The contract\<close>

text \<open>\<open>sn_Arguments\<close> and \<open>sn_Returns\<close> are the types of the fields of the two structs.\<close>

record 'x SNativeFunctionDescription =
  sn_Name :: string
  sn_Arguments :: "go_kind list"
  sn_Returns :: "go_kind list"
  sn_PermFlag :: perm_flag
  sn_F :: "'x native_function"

definition SNative_functions :: "('pk, 'z) externals_scheme SNativeFunctionDescription list" where
  "SNative_functions =
     [\<lparr>sn_Name = ''addRole'', sn_Arguments = [K_Address, K_String], sn_Returns = [K_Bool],
       sn_PermFlag = perm_AddRole, sn_F = native_addRole\<rparr>,
      \<lparr>sn_Name = ''removeRole'', sn_Arguments = [K_Address, K_String], sn_Returns = [K_Bool],
       sn_PermFlag = perm_RemoveRole, sn_F = native_removeRole\<rparr>,
      \<lparr>sn_Name = ''hasRole'', sn_Arguments = [K_Address, K_String], sn_Returns = [K_Bool],
       sn_PermFlag = perm_HasRole, sn_F = native_hasRole\<rparr>,
      \<lparr>sn_Name = ''setBase'', sn_Arguments = [K_Address, K_Uint64, K_Bool], sn_Returns = [K_Uint64],
       sn_PermFlag = perm_SetBase, sn_F = native_setBase\<rparr>,
      \<lparr>sn_Name = ''unsetBase'', sn_Arguments = [K_Address, K_Uint64], sn_Returns = [K_Uint64],
       sn_PermFlag = perm_UnsetBase, sn_F = native_unsetBase\<rparr>,
      \<lparr>sn_Name = ''hasBase'', sn_Arguments = [K_Address, K_Uint64], sn_Returns = [K_Bool],
       sn_PermFlag = perm_HasBase, sn_F = native_hasBase\<rparr>,
      \<lparr>sn_Name = ''setGlobal'', sn_Arguments = [K_Uint64, K_Bool], sn_Returns = [K_Uint64],
       sn_PermFlag = perm_SetGlobal, sn_F = native_setGlobal\<rparr>]"

definition sn_Inputs :: "'x SNativeFunctionDescription \<Rightarrow> evm_type list" where
  "sn_Inputs f = map EVMTypeFromReflect (sn_Arguments f)"

definition sn_Outputs :: "'x SNativeFunctionDescription \<Rightarrow> evm_type list" where
  "sn_Outputs f = map EVMTypeFromReflect (sn_Returns f)"

definition FunctionID ::
    "('pk, 'z) evm_externals_scheme \<Rightarrow> 'x SNativeFunctionDescription \<Rightarrow> bytes" where
  "FunctionID X f = GetFunctionID (keccak256 X) (Signature (sn_Name f) (sn_Inputs f))"

text \<open>A text that \<^verbatim>\<open>String\<close> formats, inside another text.\<close>

definition SNativeFunction_String :: "'x SNativeFunctionDescription \<Rightarrow> fmt_arg" where
  "SNativeFunction_String f = AErr (Fmt ''SNativeFunction{Name: %s; Inputs: %d; Outputs: %d}''
     [AStr (sn_Name f), ANat (length (sn_Inputs f)), ANat (length (sn_Outputs f))])"

text \<open>The process does not start when two functions have the same identifier, so the map the contract keeps
  has one function for each.\<close>

definition FunctionByID ::
    "('pk, 'z) evm_externals_scheme \<Rightarrow> bytes \<Rightarrow>
     go_error + ('pk, 'z) evm_externals_scheme SNativeFunctionDescription" where
  "FunctionByID X ident =
     (case find (\<lambda>f. FunctionID X f = ident) SNative_functions of
        None \<Rightarrow> Inl (Coded ErrorCodeNativeFunction ''unknown SNative function with ID %x'' [ABytes ident])
      | Some f \<Rightarrow> Inr f)"

definition LacksSNativePermission :: "address \<Rightarrow> string \<Rightarrow> go_error" where
  "LacksSNativePermission a name = Fmt ''account %s does not have SNative function call permission: %s''
     [AStr (Address_String a), AStr name]"

text \<open>A call of a found function: permission, arguments, the function, an error of the state, the result.\<close>

definition dispatch_to ::
    "('pk, 'z) externals_scheme \<Rightarrow> ('pk, 'z) externals_scheme SNativeFunctionDescription \<Rightarrow>
     evm_state \<Rightarrow> address \<Rightarrow> bytes \<Rightarrow> bytes option res \<times> evm_state" where
  "dispatch_to X f st caller remainingArgs =
     (case HasPermission X st caller (sn_PermFlag f) of
        (False, st1) \<Rightarrow> (Err (LacksSNativePermission caller (sn_Name f)), st1)
      | (True, st1) \<Rightarrow>
     (case UnpackIntoStruct (sn_Inputs f) remainingArgs of
        Err e \<Rightarrow> (Err e, st1)
      | Panic p \<Rightarrow> (Panic p, st1)
      | Ok nativeArgs \<Rightarrow>
     (case sn_F f X st1 nativeArgs of
        (Err e, st2) \<Rightarrow> (Err e, st2)
      | (Panic p, st2) \<Rightarrow> (Panic p, st2)
      | (Ok nativeRets, st2) \<Rightarrow>
     (case st_error st2 of
        Some e \<Rightarrow> (Err (Fmt ''state error in %v: %v'' [SNativeFunction_String f, AErr e]), st2)
      | None \<Rightarrow> (map_res Some (res_of_sum (PackIntoStruct (sn_Outputs f) nativeRets)), st2)))))"

definition Dispatch :: "('pk, 'z) evm_externals_scheme \<Rightarrow> native_contract" where
  "Dispatch X st caller args gas =
     (if length args < 4
      then (Err (Coded ErrorCodeNativeFunction
        ''SNatives dispatch requires a 4-byte function identifier but arguments are only %v bytes long''
        [ANat (length args)]), st, gas)
      else (case FunctionByID X (take 4 args) of
          Inl e \<Rightarrow> (Err e, st, gas)
        | Inr f \<Rightarrow>
            (case dispatch_to X f st caller (drop 4 args) of
               (r, st') \<Rightarrow> (r, st', gas))))"

text \<open>The last 20 bytes of the hash of the name; a shorter hash is a negative index.\<close>

definition SNative_Address :: "('pk, 'z) evm_externals_scheme \<Rightarrow> address" where
  "SNative_Address X =
     (let hash = keccak256 X (bytes_of ''Permissions'') in copy_to_address (drop (length hash - 20) hash))"

end
