(* ===== verification/Evm_Natives.thy ===== *)
theory Evm_Natives
  imports Secure_Natives
begin

section \<open>Native contracts\<close>

text \<open>
  Burrow's \<^verbatim>\<open>execution/evm/native.go\<close>: contracts written in Go behind reserved addresses, three
  of this file and the secure one (\<^verbatim>\<open>Secure_Natives\<close>). The
  addresses are array literals, \<^verbatim>\<open>crypto.Address{2}\<close>, so it is their first byte that is 2, 3 or 4.
\<close>

definition native_gas :: "64 word \<Rightarrow> 64 word \<Rightarrow> bytes \<Rightarrow> 64 word" where
  "native_gas word base input = word_of_nat ((length input + 31) div 32) * word + base"

definition charge_native ::
    "64 word \<Rightarrow> bytes \<Rightarrow> evm_state \<Rightarrow> 64 word \<Rightarrow> bytes option res \<times> evm_state \<times> 64 word" where
  "charge_native gasRequired output st gas =
     (if gas < gasRequired then (Err (code_error ErrorCodeInsufficientGas), st, gas)
      else (Ok (Some output), st, gas - gasRequired))"

definition sha256Func :: "('pk, 'z) externals_scheme \<Rightarrow> native_contract" where
  "sha256Func X st caller input gas =
     charge_native (native_gas GasSha256Word GasSha256Base input) (sha256_Sum X input) st gas"

definition ripemd160Func :: "('pk, 'z) evm_externals_scheme \<Rightarrow> native_contract" where
  "ripemd160Func X st caller input gas =
     charge_native (native_gas GasRipemd160Word GasRipemd160Base input)
       (bytes_LeftPad (ripemd160_Sum X input) 32) st gas"

definition identityFunc :: native_contract where
  "identityFunc st caller input gas =
     charge_native (native_gas GasIdentityWord GasIdentityBase input) input st gas"

text \<open>The three are registered first; the secure one must not find its address taken.\<close>

definition registeredNativeContracts ::
    "('pk, 'z) evm_externals_scheme \<Rightarrow> address \<Rightarrow> native_contract option" where
  "registeredNativeContracts X address =
     (if address = copy_to_address [2] then Some (sha256Func X)
      else if address = copy_to_address [3] then Some (ripemd160Func X)
      else if address = copy_to_address [4] then Some identityFunc
      else if address = SNative_Address X then Some (Dispatch X)
      else None)"

definition IsRegisteredNativeContract :: "('pk, 'z) evm_externals_scheme \<Rightarrow> address \<Rightarrow> bool" where
  "IsRegisteredNativeContract X address = (registeredNativeContracts X address \<noteq> None)"

text \<open>\<^verbatim>\<open>Error\<close> of a coded error names its code, so only a plain error can be without a text.\<close>

definition has_message :: "go_error \<Rightarrow> bool" where
  "has_message e = (case e of Coded _ _ _ \<Rightarrow> True | _ \<Rightarrow> has_text e)"

text \<open>The output, the error, the state and the gas. An error without a text becomes a nil exception in a
  non-nil interface, whose \<^verbatim>\<open>ErrorCode\<close> the caller dereferences.\<close>

definition ExecuteNativeContract ::
    "('pk, 'z) evm_externals_scheme \<Rightarrow> address \<Rightarrow> evm_state \<Rightarrow> address \<Rightarrow> bytes \<Rightarrow> 64 word \<Rightarrow>
     (bytes option \<times> go_error option) res \<times> evm_state \<times> 64 word" where
  "ExecuteNativeContract X address st caller input gas =
     (case registeredNativeContracts X address of
        None \<Rightarrow> (Ok (None, Some (Coded ErrorCodeNativeFunction
            ''no native contract registered at address: %v'' [AStr (Address_String address)])), st, gas)
      | Some contract \<Rightarrow>
          (case contract st caller input gas of
             (Ok output, st', gas') \<Rightarrow> (Ok (output, None), st', gas')
           | (Err e, st', gas') \<Rightarrow>
               (if \<not> has_message e then (Panic ''nil pointer dereference'', st', gas')
                else (Ok (None, Some (Coded ErrorCodeNativeFunction ''%s'' [AErr e])), st', gas'))
           | (Panic p, st', gas') \<Rightarrow> (Panic p, st', gas')))"

end
