(* ===== verification/Evm_Ops.thy ===== *)
theory Evm_Ops
  imports Evm_Natives
begin

unbundle bit_operations_syntax

section \<open>The instructions that do not call\<close>

text \<open>
  The cases of \<^verbatim>\<open>VM.execute\<close> (\<^verbatim>\<open>execution/evm/vm.go\<close>) up to \<^verbatim>\<open>LOG4\<close>, and \<^verbatim>\<open>RETURN\<close>,
  \<^verbatim>\<open>REVERT\<close> and \<^verbatim>\<open>SELFDESTRUCT\<close>. Popping and pushing is written in the order of the code.
\<close>

definition and_next :: "unit op \<Rightarrow> outcome op" where
  "and_next f = seq_op f (ret Next)"

definition push_bool :: "vm \<Rightarrow> bool \<Rightarrow> unit op" where
  "push_bool V b = Push V (if b then One256 else Zero256)"

subsection \<open>Arithmetic\<close>

fun exec_alu :: "vm \<Rightarrow> alu_op \<Rightarrow> unit op" where
  "exec_alu V ALU_ADD = bind2 PopBigInt PopBigInt (\<lambda>x y. PushBigInt V (x + y))"
| "exec_alu V ALU_MUL = bind2 PopBigInt PopBigInt (\<lambda>x y. PushBigInt V (x * y))"
| "exec_alu V ALU_SUB = bind2 PopBigInt PopBigInt (\<lambda>x y. PushBigInt V (x - y))"
| "exec_alu V ALU_DIV = bind2 PopBigInt PopBigInt (\<lambda>x y.
     if y = 0 then Push V Zero256 else PushBigInt V (big_Div x y))"
| "exec_alu V ALU_SDIV = bind2 PopBigIntSigned PopBigIntSigned (\<lambda>x y.
     if y = 0 then Push V Zero256 else PushBigInt V (big_Div x y))"
| "exec_alu V ALU_MOD = bind2 PopBigInt PopBigInt (\<lambda>x y.
     if y = 0 then Push V Zero256 else PushBigInt V (big_Mod x y))"
| "exec_alu V ALU_SMOD = bind2 PopBigIntSigned PopBigIntSigned (\<lambda>x y.
     if y = 0 then Push V Zero256 else PushBigInt V (big_Mod x y))"
| "exec_alu V ALU_ADDMOD = bind3 PopBigInt PopBigInt PopBigInt (\<lambda>x y z.
     if z = 0 then Push V Zero256 else PushBigInt V (big_Mod (x + y) z))"
| "exec_alu V ALU_MULMOD = bind3 PopBigInt PopBigInt PopBigInt (\<lambda>x y z.
     if z = 0 then Push V Zero256 else PushBigInt V (big_Mod (x * y) z))"
| "exec_alu V ALU_EXP = bind2 PopBigInt PopBigInt (\<lambda>x y. PushBigInt V (x ^ nat y))"
| "exec_alu V ALU_SIGNEXTEND = bind_op PopU64 (\<lambda>back.
     if back < 31 then bind_op PopBigInt (\<lambda>x. PushBigInt V (SignExtend back x)) else ret ())"
| "exec_alu V ALU_LT = bind2 PopBigInt PopBigInt (\<lambda>x y. push_bool V (x < y))"
| "exec_alu V ALU_GT = bind2 PopBigInt PopBigInt (\<lambda>x y. push_bool V (x > y))"
| "exec_alu V ALU_SLT = bind2 PopBigIntSigned PopBigIntSigned (\<lambda>x y. push_bool V (x < y))"
| "exec_alu V ALU_SGT = bind2 PopBigIntSigned PopBigIntSigned (\<lambda>x y. push_bool V (x > y))"
| "exec_alu V ALU_EQ = bind2 Pop Pop (\<lambda>x y. push_bool V (x = y))"
| "exec_alu V ALU_ISZERO = bind_op Pop (\<lambda>x. push_bool V (x = 0))"
| "exec_alu V ALU_AND = bind2 Pop Pop (\<lambda>x y. Push V (x AND y))"
| "exec_alu V ALU_OR = bind2 Pop Pop (\<lambda>x y. Push V (x OR y))"
| "exec_alu V ALU_XOR = bind2 Pop Pop (\<lambda>x y. Push V (x XOR y))"
| "exec_alu V ALU_NOT = bind_op Pop (\<lambda>x. Push V (NOT x))"
| "exec_alu V ALU_BYTE = bind2 Pop64 Pop (\<lambda>idx val.
     if idx < 32
     then (if idx < 0 then panic_op ''index out of range''
           else Push64 V (uint (Word256_Bytes val ! nat idx)))
     else Push64 V 0)"
| "exec_alu V ALU_SHL = bind2 PopBigInt PopBigInt (\<lambda>shift x.
     if 256 \<le> shift then PushBigInt V 0 else PushBigInt V (push_bit (nat shift) x))"
| "exec_alu V ALU_SHR = bind2 PopBigInt PopBigInt (\<lambda>shift x.
     if 256 \<le> shift then PushBigInt V 0 else PushBigInt V (drop_bit (nat shift) x))"
| "exec_alu V ALU_SAR = bind2 PopBigInt PopBigIntSigned (\<lambda>shift x.
     if 256 \<le> shift then PushBigInt V (if x < 0 then - 1 else 0)
     else PushBigInt V (drop_bit (nat shift) x))"

definition exec_SHA3 :: "('pk, 'z) evm_externals_scheme \<Rightarrow> vm \<Rightarrow> unit op" where
  "exec_SHA3 X V = seq_op (upd_op (useGasNegative GasSha3))
     (bind2 PopBigInt PopBigInt (\<lambda>offset size.
        bind_op (Memory_Read offset size) (\<lambda>data. PushBytes V (keccak256 X (code_bytes data)))))"

subsection \<open>The closure and the block\<close>

text \<open>The three copies of code or call data into memory.\<close>

definition copy_to_memory :: "bytes \<Rightarrow> unit op" where
  "copy_to_memory source = bind3 PopBigInt Pop64 Pop64 (\<lambda>memOff off len.
     bind_op (Subslice source off len) (Memory_Write memOff))"

definition exec_EXTCODESIZE :: "('pk, 'z) evm_externals_scheme \<Rightarrow> vm \<Rightarrow> outcome op" where
  "exec_EXTCODESIZE X V = bind_op PopAddress (\<lambda>address.
     seq_op (upd_op (useGasNegative GasGetAccount))
     (bind_op (state_op (\<lambda>st. es_Exists X st address)) (\<lambda>exists.
        if exists
        then bind_op (state_op (\<lambda>st. es_GetCode X st address)) (\<lambda>code.
               and_next (Push64 V (int (length (code_bytes code)))))
        else if registeredNativeContracts X address = None
        then seq_op (PushError_op (Some (code_error ErrorCodeUnknownAddress))) (ret Continue)
        else and_next (Push V One256))))"

definition exec_EXTCODECOPY :: "('pk, 'z) evm_externals_scheme \<Rightarrow> outcome op" where
  "exec_EXTCODECOPY X = bind_op PopAddress (\<lambda>address.
     seq_op (upd_op (useGasNegative GasGetAccount))
     (bind_op (state_op (\<lambda>st. es_Exists X st address)) (\<lambda>exists.
        if \<not> exists
        then seq_op (PushError_op (if registeredNativeContracts X address = None then None
                       else Some (code_error ErrorCodeNativeContractCodeCopy)))
               (seq_op (PushError_op (Some (code_error ErrorCodeUnknownAddress))) (ret Continue))
        else bind_op (state_op (\<lambda>st. es_GetCode X st address)) (\<lambda>code.
               and_next (copy_to_memory (code_bytes code))))))"

text \<open>The offset and the length only guard the copy: all of the return data is written.\<close>

definition exec_RETURNDATACOPY :: "outcome op" where
  "exec_RETURNDATACOPY = bind3 PopBigInt PopBigInt PopBigInt (\<lambda>memOff outputOff len.
     bind_op (get_op mc_returnData) (\<lambda>returnData.
       let e = outputOff + len
       in if 2 ^ 64 \<le> e \<or> int (length (code_bytes returnData)) < e
          then seq_op (PushError_op (Some (code_error ErrorCodeReturnDataOutOfBounds))) (ret Continue)
          else and_next (Memory_Write memOff (code_bytes returnData))))"

definition exec_EXTCODEHASH :: "('pk, 'z) evm_externals_scheme \<Rightarrow> vm \<Rightarrow> unit op" where
  "exec_EXTCODEHASH X V = bind_op PopAddress (\<lambda>address.
     bind_op (state_op (\<lambda>st. es_Exists X st address)) (\<lambda>exists.
       if \<not> exists then PushU64 V 0
       else bind_op (state_op (\<lambda>st. es_GetCode X st address)) (\<lambda>code.
              Push V (RightPadWord256 (keccak256 X (code_bytes code))))))"

definition MaximumAllowedBlockLookBack :: "64 word" where
  "MaximumAllowedBlockLookBack = 256"

text \<open>The getter either returns bytes or panics: \<open>Err\<close> stands for the error of
  \<^verbatim>\<open>GetBlockHash\<close>.\<close>

definition push_blockHash :: "vm \<Rightarrow> 64 word \<Rightarrow> unit op" where
  "push_blockHash V blockNumber m =
     (case es_GetBlockHash (vm_blockHash V) (ac_state m) blockNumber of
        (Ok blockHash, st) \<Rightarrow> Push V blockHash (m\<lparr>ac_state := st\<rparr>)
      | (Err _, st) \<Rightarrow> PushError_op (Some (code_error ErrorCodeInvalidBlockNumber)) (m\<lparr>ac_state := st\<rparr>)
      | (Panic p, st) \<Rightarrow> panic_op p (m\<lparr>ac_state := st\<rparr>))"

definition exec_BLOCKHASH :: "vm \<Rightarrow> unit op" where
  "exec_BLOCKHASH V = bind_op PopU64 (\<lambda>blockNumber.
     if BlockHeight (vm_params V) \<le> blockNumber
     then PushError_op (Some (code_error ErrorCodeInvalidBlockNumber))
     else if MaximumAllowedBlockLookBack < BlockHeight (vm_params V) - blockNumber
     then PushError_op (Some (code_error ErrorCodeBlockNumberOutOfRange))
     else push_blockHash V blockNumber)"

fun exec_env :: "('pk, 'z) evm_externals_scheme \<Rightarrow> vm \<Rightarrow> frame \<Rightarrow> env_op \<Rightarrow> outcome op" where
  "exec_env X V F ENV_ADDRESS = and_next (Push V (Address_Word256 (fr_callee F)))"
| "exec_env X V F ENV_BALANCE = bind_op PopAddress (\<lambda>address.
     seq_op (upd_op (useGasNegative GasGetAccount))
     (bind_op (state_op (\<lambda>st. es_GetBalance X st address)) (\<lambda>balance. and_next (PushU64 V balance))))"
| "exec_env X V F ENV_ORIGIN = and_next (Push V (Address_Word256 (vm_origin V)))"
| "exec_env X V F ENV_CALLER = and_next (Push V (Address_Word256 (fr_caller F)))"
| "exec_env X V F ENV_CALLVALUE = bind_op (get_op mc_value) (\<lambda>value. and_next (PushU64 V value))"
| "exec_env X V F ENV_CALLDATALOAD = bind_op Pop64 (\<lambda>offset.
     bind_op (Subslice (fr_input F) offset 32) (\<lambda>data.
     bind_op (lift_res (LeftPadWord256 data)) (\<lambda>res. and_next (Push V res))))"
| "exec_env X V F ENV_CALLDATASIZE = and_next (Push64 V (int (length (fr_input F))))"
| "exec_env X V F ENV_CALLDATACOPY = and_next (copy_to_memory (fr_input F))"
| "exec_env X V F ENV_CODESIZE = and_next (Push64 V (int (length (fr_code F))))"
| "exec_env X V F ENV_CODECOPY = and_next (copy_to_memory (fr_code F))"
| "exec_env X V F ENV_GASPRICE_DEPRECATED = and_next (Push V Zero256)"
| "exec_env X V F ENV_EXTCODESIZE = exec_EXTCODESIZE X V"
| "exec_env X V F ENV_EXTCODECOPY = exec_EXTCODECOPY X"
| "exec_env X V F ENV_RETURNDATASIZE = bind_op (get_op mc_returnData) (\<lambda>returnData.
     and_next (Push64 V (int (length (code_bytes returnData)))))"
| "exec_env X V F ENV_RETURNDATACOPY = exec_RETURNDATACOPY"
| "exec_env X V F ENV_EXTCODEHASH = and_next (exec_EXTCODEHASH X V)"
| "exec_env X V F ENV_BLOCKHASH = and_next (exec_BLOCKHASH V)"
| "exec_env X V F ENV_COINBASE = and_next (Push V Zero256)"
| "exec_env X V F ENV_TIMESTAMP = and_next (Push V (Uint64ToWord256 (BlockTime (vm_params V))))"
| "exec_env X V F ENV_BLOCKHEIGHT = and_next (PushU64 V (BlockHeight (vm_params V)))"
| "exec_env X V F ENV_GASLIMIT = and_next (PushU64 V (evm_params.GasLimit (vm_params V)))"

subsection \<open>Memory, storage and jumps\<close>

definition jump :: "bytes \<Rightarrow> int \<Rightarrow> unit op" where
  "jump code to =
     (case codeGetOp code to of
        Ok dest \<Rightarrow>
          (if dest \<noteq> OP_EXEC X_JUMPDEST then PushError_op (Some (code_error ErrorCodeInvalidJumpDest))
           else upd_op (\<lambda>m. m\<lparr>mc_pc := to\<rparr>))
      | Err e \<Rightarrow> lift_res (Err e)
      | Panic p \<Rightarrow> panic_op p)"

fun exec_basic :: "('pk, 'z) evm_externals_scheme \<Rightarrow> vm \<Rightarrow> frame \<Rightarrow> exec_op \<Rightarrow> outcome op" where
  "exec_basic X V F X_POP = bind_op Pop (\<lambda>_. ret Next)"
| "exec_basic X V F X_MLOAD = bind_op PopBigInt (\<lambda>offset.
     bind_op (Memory_Read offset 32) (\<lambda>data.
     bind_op (lift_res (LeftPadWord256 (code_bytes data))) (\<lambda>w. and_next (Push V w))))"
| "exec_basic X V F X_MSTORE = bind2 PopBigInt Pop (\<lambda>offset data.
     and_next (Memory_Write offset (Word256_Bytes data)))"
| "exec_basic X V F X_MSTORE8 = bind2 PopBigInt Pop64 (\<lambda>offset val64.
     and_next (Memory_Write offset [word_of_int val64]))"
| "exec_basic X V F X_SLOAD = bind_op Pop (\<lambda>loc.
     bind_op (state_res_op (\<lambda>st. es_GetStorage X st (fr_callee F) loc)) (\<lambda>data. and_next (Push V data)))"
| "exec_basic X V F X_SSTORE = bind2 Pop Pop (\<lambda>loc data.
     seq_op (upd_op (useGasNegative GasStorageUpdate))
     (and_next (state_res_op (\<lambda>st. es_SetStorage X st (fr_callee F) loc data))))"
| "exec_basic X V F X_JUMP = bind_op Pop64 (\<lambda>to. seq_op (jump (fr_code F) to) (ret Continue))"
| "exec_basic X V F X_JUMPI = bind2 Pop64 Pop (\<lambda>pos cond.
     if cond \<noteq> 0 then seq_op (jump (fr_code F) pos) (ret Continue) else ret Next)"
| "exec_basic X V F X_PC = bind_op (get_op mc_pc) (\<lambda>pc. and_next (Push64 V pc))"
| "exec_basic X V F X_MSIZE = bind_op (get_op (\<lambda>m. mem_len (mc_memory m))) (\<lambda>capacity.
     and_next (PushBigInt V (int capacity)))"
| "exec_basic X V F X_GAS = bind_op (get_op ac_gas) (\<lambda>gas. and_next (PushU64 V gas))"
| "exec_basic X V F X_JUMPDEST = ret Next"

definition exec_PUSH :: "vm \<Rightarrow> frame \<Rightarrow> nat \<Rightarrow> outcome op" where
  "exec_PUSH V F a = bind_op (get_op mc_pc) (\<lambda>pc.
     bind_op (Subslice (fr_code F) (pc + 1) (int a)) (\<lambda>codeSegment.
     bind_op (lift_res (LeftPadWord256 codeSegment)) (\<lambda>res.
     seq_op (Push V res) (and_next (upd_op (\<lambda>m. m\<lparr>mc_pc := mc_pc m + int a\<rparr>))))))"

definition exec_LOG :: "('pk, 'z) evm_externals_scheme \<Rightarrow> frame \<Rightarrow> nat \<Rightarrow> outcome op" where
  "exec_LOG X F n = bind2 PopBigInt PopBigInt (\<lambda>offset size.
     bind_op (Pop_n n) (\<lambda>topics.
     bind_op (Memory_Read offset size) (\<lambda>data.
       and_next (Log_op X F \<lparr>log_Address = fr_callee F, log_Data = code_bytes data, log_Topics = topics\<rparr>))))"

subsection \<open>The end of a run\<close>

text \<open>The reason is decoded from the output; where the decoder fails the code alone is the error, and where it
  panics so does the machine.\<close>

definition newRevertException :: "('pk, 'z) evm_externals_scheme \<Rightarrow> bytes \<Rightarrow> go_error res" where
  "newRevertException X out =
     (if length out > 0
      then (case UnpackRevert (keccak256 X) out of
              Ok (Some reason) \<Rightarrow> Ok (Coded ErrorCodeExecutionReverted (''with reason '%s'' @ [CHR 0x27]) [AStr reason])
            | Ok None \<Rightarrow> Panic ''nil pointer dereference''
            | Err _ \<Rightarrow> Ok (code_error ErrorCodeExecutionReverted)
            | Panic p \<Rightarrow> Panic p)
      else Ok (code_error ErrorCodeExecutionReverted))"

definition exec_RETURN :: "outcome op" where
  "exec_RETURN = bind2 PopBigInt PopBigInt (\<lambda>offset size.
     bind_op (Memory_Read offset size) (\<lambda>output. ret (Return output)))"

definition exec_REVERT :: "('pk, 'z) evm_externals_scheme \<Rightarrow> outcome op" where
  "exec_REVERT X = bind2 PopBigInt PopBigInt (\<lambda>offset size.
     bind_op (Memory_Read offset size) (\<lambda>output.
     bind_op (lift_res (newRevertException X (code_bytes output))) (\<lambda>e.
     seq_op (PushError_op (Some e)) (ret (Return output)))))"

definition create :: "('pk, 'z) evm_externals_scheme \<Rightarrow> evm_state \<Rightarrow> address \<Rightarrow> evm_state" where
  "create X st address =
     es_CreateAccount X (if IsRegisteredNativeContract X address
       then es_PushError st (Some (Coded ErrorCodeReservedAddress
         ''cannot create account at %v because that address is reserved for a native contract''
         [AStr (Address_String address)]))
       else st) address"

definition createAccount :: "('pk, 'z) evm_externals_scheme \<Rightarrow> evm_state \<Rightarrow> address \<Rightarrow> address \<Rightarrow> evm_state" where
  "createAccount X st creator address = create X (EnsurePermission X st creator perm_CreateAccount) address"

definition exec_SELFDESTRUCT :: "('pk, 'z) evm_externals_scheme \<Rightarrow> frame \<Rightarrow> outcome op" where
  "exec_SELFDESTRUCT X F = bind_op PopAddress (\<lambda>receiver.
     let finish = bind_op (state_op (\<lambda>st. es_GetBalance X st (fr_callee F))) (\<lambda>balance.
           seq_op (state_upd (\<lambda>st. es_AddToBalance X st receiver balance))
           (seq_op (state_upd (\<lambda>st. es_RemoveAccount X st (fr_callee F))) (ret (Return None))))
     in seq_op (upd_op (useGasNegative GasGetAccount))
        (bind_op (state_op (\<lambda>st. es_Exists X st receiver)) (\<lambda>exists.
          if exists then finish
          else seq_op (upd_op (useGasNegative GasCreateAccount))
            (seq_op (state_upd (\<lambda>st. createAccount X st (fr_callee F) receiver))
            (unless_error finish)))))"

end
