(* ===== verification/Evm_Interpreter.thy ===== *)
theory Evm_Interpreter
  imports Evm_Ops
begin

section \<open>Calls and the interpreter loop\<close>

text \<open>
  The cases of \<^verbatim>\<open>VM.execute\<close> that run other code, the loop, and \<^verbatim>\<open>VM.Call\<close>. The nested
  \<^verbatim>\<open>execute\<close> is an argument \<open>exec\<close> of the instructions; \<open>run\<close>, a partial function, passes
  itself. A run that does not end is \<open>None\<close>: the loop itself spends gas, so this is a recursion without
  end, which exhausts the stack of the goroutine and kills the process.

  A nested state is \<open>es_NewCache\<close> of the caller's: its backend is the caller's chain, and reading through
  it fills the caller's caches, so afterwards the caller's chain is the backend of the nested state
  (\<open>adopt\<close>).
\<close>

type_synonym exec = "frame \<Rightarrow> activation \<Rightarrow> (bytes option res \<times> activation) option"

definition adopt :: "evm_state \<Rightarrow> evm_state \<Rightarrow> evm_state" where
  "adopt st child = set_chain st (st_backend child)"

text \<open>\<^verbatim>\<open>callState.PushError(childCallState.Sync())\<close>.\<close>

definition sync_child :: "('pk, 'z) externals_scheme \<Rightarrow> evm_state \<Rightarrow> evm_state \<Rightarrow> unit res \<times> evm_state" where
  "sync_child X st child =
     (case es_Sync X child of
        (Ok _, child') \<Rightarrow> (Ok (), adopt st child')
      | (Err e, child') \<Rightarrow> (Ok (), es_PushError (adopt st child') (Some e))
      | (Panic p, child') \<Rightarrow> (Panic p, adopt st child'))"

subsection \<open>VM.call and VM.delegateCall\<close>

definition ensureStackDepth :: "vm \<Rightarrow> 64 word \<Rightarrow> go_error option" where
  "ensureStackDepth V stackDepth =
     (if 0 < CallStackMaxDepth (vm_params V) \<and> stackDepth = CallStackMaxDepth (vm_params V)
      then Some (code_error ErrorCodeCallStackOverflow) else None)"

definition fireCallEvent :: "activation \<Rightarrow> activation" where
  "fireCallEvent act =
     (case em_Call (ac_sink act) of (eventErr, sink) \<Rightarrow>
        act\<lparr>ac_sink := sink, ac_state := es_PushError (ac_state act) eventErr\<rparr>)"

text \<open>The output of a call, with the error the state holds when it returns.\<close>

type_synonym call_result = "((bytes option \<times> go_error option) res \<times> activation) option"

definition return_call :: "bytes option \<Rightarrow> activation \<Rightarrow> call_result" where
  "return_call output act =
     (let act' = fireCallEvent act in Some (Ok (output, st_error (ac_state act')), act'))"

text \<open>Run the code, if there is any, one level deeper; the frame comes with the depth of the caller.\<close>

definition enter_code :: "vm \<Rightarrow> exec \<Rightarrow> frame \<Rightarrow> activation \<Rightarrow> call_result" where
  "enter_code V exec F act =
     (let act1 = act\<lparr>ac_state := es_PushError (ac_state act) (ensureStackDepth V (fr_depth F))\<rparr>
      in if st_error (ac_state act1) \<noteq> None then return_call None act1
      else if length (fr_code F) > 0
      then (case exec (F\<lparr>fr_depth := fr_depth F + 1\<rparr>) act1 of
              None \<Rightarrow> None
            | Some (Ok output, act2) \<Rightarrow> return_call output act2
            | Some (Err e, act2) \<Rightarrow> Some (Err e, act2)
            | Some (Panic p, act2) \<Rightarrow> Some (Panic p, act2))
      else return_call None act1)"

definition vm_call :: "('pk, 'z) externals_scheme \<Rightarrow> vm \<Rightarrow> exec \<Rightarrow> frame \<Rightarrow> activation \<Rightarrow> call_result" where
  "vm_call X V exec F act =
     (case transfer X (ac_state act) (fr_caller F) (fr_callee F) (fr_value F) of
        (err, st) \<Rightarrow> enter_code V exec F (act\<lparr>ac_state := es_PushError st err\<rparr>))"

definition delegateCall :: "vm \<Rightarrow> exec \<Rightarrow> frame \<Rightarrow> activation \<Rightarrow> call_result" where
  "delegateCall = enter_code"

subsection \<open>Running a nested call from an instruction\<close>

text \<open>
  A nested call on a cache of the state, with its own gas. The sink and the counter are shared; what the
  call read has filled the caller's caches. A call without an error is committed (\<open>finish\<close> is what is
  still done to its state before) and synced into the caller's cache. The result is the output, the error
  of the call and the gas it left.
\<close>

definition child_activation :: "cache_option list \<Rightarrow> 64 word \<Rightarrow> machine \<Rightarrow> activation" where
  "child_activation opts gas m =
     \<lparr>ac_state = es_NewCache (ac_state m) opts, ac_sink = ac_sink m, ac_gas = gas, ac_sequence = ac_sequence m\<rparr>"

definition after_child :: "machine \<Rightarrow> activation \<Rightarrow> evm_state \<Rightarrow> machine" where
  "after_child m act st = m\<lparr>ac_state := st, ac_sink := ac_sink act, ac_sequence := ac_sequence act\<rparr>"

definition commit_child ::
    "('pk, 'z) externals_scheme \<Rightarrow> evm_state \<Rightarrow> go_error option \<Rightarrow> evm_state \<Rightarrow> evm_state \<Rightarrow> unit res \<times> evm_state" where
  "commit_child X st callErr child finished =
     (case callErr of Some _ \<Rightarrow> (Ok (), adopt st child) | None \<Rightarrow> sync_child X st finished)"

definition nested ::
    "('pk, 'z) externals_scheme \<Rightarrow> cache_option list \<Rightarrow> 64 word \<Rightarrow> (activation \<Rightarrow> call_result) \<Rightarrow>
     (bytes option \<Rightarrow> evm_state \<Rightarrow> evm_state) \<Rightarrow> (bytes option \<times> go_error option \<times> 64 word) op" where
  "nested X opts gas call finish m =
     (case call (child_activation opts gas m) of
        None \<Rightarrow> None
      | Some (Ok (output, callErr), act) \<Rightarrow>
          (case commit_child X (ac_state m) callErr (ac_state act) (finish output (ac_state act)) of
             (Panic p, st) \<Rightarrow> Some (Panic p, after_child m act st)
           | (_, st) \<Rightarrow> Some (Ok (output, callErr, ac_gas act), after_child m act st))
      | Some (Err e, act) \<Rightarrow> Some (Err e, after_child m act (adopt (ac_state m) (ac_state act)))
      | Some (Panic p, act) \<Rightarrow> Some (Panic p, after_child m act (adopt (ac_state m) (ac_state act))))"

definition set_returnData :: "bytes option \<Rightarrow> unit op" where
  "set_returnData output = upd_op (\<lambda>m. m\<lparr>mc_returnData := output\<rparr>)"

text \<open>Gas lent to a nested call, and what is left of it given back.\<close>

definition take_gas :: "64 word \<Rightarrow> 64 word op" where
  "take_gas limit m = Some (Ok limit, m\<lparr>ac_gas := ac_gas m - limit\<rparr>)"

definition give_gas :: "64 word \<Rightarrow> unit op" where
  "give_gas gas = upd_op (\<lambda>m. m\<lparr>ac_gas := ac_gas m + gas\<rparr>)"

subsection \<open>CREATE and CREATE2\<close>

text \<open>The nonce of a new account: 32 bytes of the machine's nonce and the counter.\<close>

definition create_nonce :: "vm \<Rightarrow> 64 word \<Rightarrow> bytes" where
  "create_nonce V sequence = take 32 (vm_nonce V @ replicate 32 0) @ be_bytes 8 (unat sequence)"

definition new_address :: "('pk, 'z) evm_externals_scheme \<Rightarrow> vm \<Rightarrow> frame \<Rightarrow> bool \<Rightarrow> address op" where
  "new_address X V F create2 =
     (if \<not> create2
      then seq_op (upd_op (\<lambda>m. m\<lparr>ac_sequence := ac_sequence m + 1\<rparr>))
        (bind_op (get_op ac_sequence) (\<lambda>sequence.
          ret (NewContractAddress (sha256_Sum X) (fr_callee F) (create_nonce V sequence))))
      else bind_op Pop (\<lambda>salt.
        bind_op (state_op (\<lambda>st. es_GetCode X st (fr_callee F))) (\<lambda>code.
          ret (NewContractAddress2 (keccak256 X) (fr_callee F) salt (code_bytes code)))))"

text \<open>The call runs the input as code, with all of the gas left.\<close>

definition create_call ::
    "('pk, 'z) evm_externals_scheme \<Rightarrow> vm \<Rightarrow> exec \<Rightarrow> frame \<Rightarrow> address \<Rightarrow> bytes \<Rightarrow> 64 word \<Rightarrow> activation \<Rightarrow>
     call_result" where
  "create_call X V exec F newAccount input contractValue act =
     vm_call X V exec
       \<lparr>fr_caller = fr_callee F, fr_callee = newAccount, fr_code = input, fr_input = input,
        fr_value = contractValue, fr_depth = fr_depth F, fr_logfree = fr_logfree F\<rparr>
       (act\<lparr>ac_state := create X (ac_state act) newAccount\<rparr>)"

text \<open>The nested call works on the caller's own gas: all of it is lent, and what is left comes back.\<close>

definition create_nested ::
    "('pk, 'z) evm_externals_scheme \<Rightarrow> vm \<Rightarrow> exec \<Rightarrow> frame \<Rightarrow> address \<Rightarrow> bytes \<Rightarrow> 64 word \<Rightarrow>
     (bytes option \<times> go_error option) op" where
  "create_nested X V exec F newAccount input contractValue =
     bind_op (get_op ac_gas) (\<lambda>gas.
     bind_op (take_gas gas) (\<lambda>limit.
     bind_op (nested X [] limit (create_call X V exec F newAccount input contractValue)
         (\<lambda>output st. es_InitCode X st newAccount output))
       (\<lambda>(output, callErr, left). seq_op (give_gas left) (ret (output, callErr)))))"

definition create_with ::
    "('pk, 'z) evm_externals_scheme \<Rightarrow> vm \<Rightarrow> exec \<Rightarrow> frame \<Rightarrow> bool \<Rightarrow> 64 word \<Rightarrow> outcome op" where
  "create_with X V exec F create2 contractValue =
     bind2 PopBigInt PopBigInt (\<lambda>offset size.
     bind_op (Memory_Read offset size) (\<lambda>input.
     seq_op (upd_op (useGasNegative GasCreateAccount))
     (bind_op (new_address X V F create2) (\<lambda>newAccount.
     seq_op (state_upd (\<lambda>st. EnsurePermission X st (fr_callee F) perm_CreateContract))
     (unless_error
      (bind_op (create_nested X V exec F newAccount (code_bytes input) contractValue)
         (\<lambda>(output, callErr).
            if callErr \<noteq> None then seq_op (Push V Zero256) (and_next (set_returnData output))
            else and_next (PushAddress V newAccount))))))))"

definition exec_CREATE ::
    "('pk, 'z) evm_externals_scheme \<Rightarrow> vm \<Rightarrow> exec \<Rightarrow> frame \<Rightarrow> bool \<Rightarrow> outcome op" where
  "exec_CREATE X V exec F create2 =
     seq_op (set_returnData None) (bind_op PopU64 (create_with X V exec F create2))"

subsection \<open>CALL, CALLCODE, DELEGATECALL and STATICCALL\<close>

text \<open>EIP 150: at most 63/64 of the gas left.\<close>

definition call_gas :: "64 word \<Rightarrow> 64 word \<Rightarrow> 64 word" where
  "call_gas gas gasLimit = (if gas < gasLimit then gas - gas div 64 else gasLimit)"

text \<open>A native contract as the body of a nested call.\<close>

definition native_call ::
    "('pk, 'z) evm_externals_scheme \<Rightarrow> address \<Rightarrow> frame \<Rightarrow> bytes \<Rightarrow> activation \<Rightarrow> call_result" where
  "native_call X address F args act =
     (case ExecuteNativeContract X address (ac_state act) (fr_callee F) args (ac_gas act) of
        (Ok (output, callErr), st, gas) \<Rightarrow>
          Some (Ok (output, callErr), fireCallEvent (act\<lparr>ac_state := es_PushError st callErr, ac_gas := gas\<rparr>))
      | (Err e, st, gas) \<Rightarrow> Some (Err e, act\<lparr>ac_state := st, ac_gas := gas\<rparr>)
      | (Panic p, st, gas) \<Rightarrow> Some (Panic p, act\<lparr>ac_state := st, ac_gas := gas\<rparr>))"

definition call_frame :: "frame \<Rightarrow> call_kind \<Rightarrow> address \<Rightarrow> bytes \<Rightarrow> bytes \<Rightarrow> 64 word \<Rightarrow> frame" where
  "call_frame F k address code args value =
     (let G = \<lparr>fr_caller = fr_callee F, fr_callee = address, fr_code = code, fr_input = args,
               fr_value = value, fr_depth = fr_depth F, fr_logfree = fr_logfree F\<rparr>
      in case k of
        KIND_CALL \<Rightarrow> G
      | KIND_CALLCODE \<Rightarrow> G\<lparr>fr_callee := fr_callee F\<rparr>
      | KIND_DELEGATECALL \<Rightarrow> G\<lparr>fr_caller := fr_caller F, fr_callee := fr_callee F\<rparr>
      | KIND_STATICCALL \<Rightarrow> G\<lparr>fr_logfree := True\<rparr>)"

definition run_contract ::
    "('pk, 'z) evm_externals_scheme \<Rightarrow> vm \<Rightarrow> exec \<Rightarrow> call_kind \<Rightarrow> frame \<Rightarrow> activation \<Rightarrow> call_result" where
  "run_contract X V exec k G =
     (if k = KIND_CALL \<or> k = KIND_CALLCODE then vm_call X V exec G else delegateCall V exec G)"

text \<open>The target must exist, except that a \<^verbatim>\<open>CALL\<close> creates it: \<open>False\<close> where the code goes on
  with the loop.\<close>

definition ensure_target ::
    "('pk, 'z) evm_externals_scheme \<Rightarrow> frame \<Rightarrow> call_kind \<Rightarrow> address \<Rightarrow> bool op" where
  "ensure_target X F k address =
     bind_op (state_op (\<lambda>st. es_Exists X st address)) (\<lambda>exists.
       if exists then ret True
       else if k \<noteq> KIND_CALL
       then seq_op (PushError_op (Some (code_error ErrorCodeUnknownAddress))) (ret False)
       else seq_op (state_upd (\<lambda>st. createAccount X st (fr_callee F) address))
              (get_op (\<lambda>m. st_error (ac_state m) = None)))"

text \<open>The result of the call: 1 and the output written to memory, or 0, with the output only when the
  call was reverted. The output is padded to the size asked for; a longer one is written whole.\<close>

definition write_output :: "int \<Rightarrow> bytes option \<Rightarrow> int \<Rightarrow> unit op" where
  "write_output retOffset output retSize =
     bind_op (lift_res (bytes_RightPad (code_bytes output) retSize)) (Memory_Write retOffset)"

definition error_code_of :: "go_error \<Rightarrow> error_code" where
  "error_code_of e = (case e of Coded c _ _ \<Rightarrow> c | _ \<Rightarrow> ErrorCodeGeneric)"

definition finish_call ::
    "vm \<Rightarrow> int \<Rightarrow> int \<Rightarrow> bytes option \<Rightarrow> go_error option \<Rightarrow> 64 word \<Rightarrow> outcome op" where
  "finish_call V retOffset retSize output callErr left =
     seq_op (set_returnData output)
     (seq_op
       (case callErr of
          None \<Rightarrow> seq_op (Push V One256) (write_output retOffset output retSize)
        | Some e \<Rightarrow> seq_op (Push V Zero256)
            (if error_code_of e = ErrorCodeExecutionReverted then write_output retOffset output retSize
             else ret ()))
       (and_next (give_gas left)))"

definition call_body ::
    "('pk, 'z) evm_externals_scheme \<Rightarrow> vm \<Rightarrow> exec \<Rightarrow> frame \<Rightarrow> call_kind \<Rightarrow> address \<Rightarrow> bytes \<Rightarrow> 64 word \<Rightarrow>
     int \<Rightarrow> int \<Rightarrow> outcome op" where
  "call_body X V exec F k address args limit retOffset retSize =
     (if IsRegisteredNativeContract X address
      then bind_op (nested X [] limit (native_call X address F args) (\<lambda>_ st. st))
             (\<lambda>(output, callErr, left). finish_call V retOffset retSize output callErr left)
      else seq_op (upd_op (useGasNegative GasGetAccount))
        (bind_op (ensure_target X F k address) (\<lambda>ok.
          if \<not> ok then ret Continue
          else bind_op (get_op mc_value) (\<lambda>value.
            bind_op (state_op (\<lambda>st. es_GetCode X st address)) (\<lambda>code.
            bind_op (nested X (if k = KIND_STATICCALL then [ReadOnly] else []) limit
                (run_contract X V exec k (call_frame F k address (code_bytes code) args value)) (\<lambda>_ st. st))
              (\<lambda>(output, callErr, left). finish_call V retOffset retSize output callErr left))))))"

text \<open>After the gas limit and the address: \<^verbatim>\<open>CALL\<close> and \<^verbatim>\<open>CALLCODE\<close> pop a value, into the
  variable that \<^verbatim>\<open>CALLVALUE\<close> reads.\<close>

definition call_address ::
    "('pk, 'z) evm_externals_scheme \<Rightarrow> vm \<Rightarrow> exec \<Rightarrow> frame \<Rightarrow> call_kind \<Rightarrow> 64 word \<Rightarrow> address \<Rightarrow> outcome op" where
  "call_address X V exec F k gasLimit address =
     seq_op (if k = KIND_DELEGATECALL \<or> k = KIND_STATICCALL then ret ()
             else bind_op PopU64 (\<lambda>value. upd_op (\<lambda>m. m\<lparr>mc_value := value\<rparr>)))
     (bind2 PopBigInt PopBigInt (\<lambda>inOffset inSize.
      bind2 PopBigInt Pop64 (\<lambda>retOffset retSize.
      bind_op (Memory_Read inOffset inSize) (\<lambda>args.
      bind_op (get_op ac_gas) (\<lambda>gas.
      bind_op (take_gas (call_gas gas gasLimit)) (\<lambda>limit.
        call_body X V exec F k address (code_bytes args) limit retOffset retSize))))))"

definition exec_CALL ::
    "('pk, 'z) evm_externals_scheme \<Rightarrow> vm \<Rightarrow> exec \<Rightarrow> frame \<Rightarrow> call_kind \<Rightarrow> outcome op" where
  "exec_CALL X V exec F k =
     seq_op (set_returnData None)
     (seq_op (state_upd (\<lambda>st. EnsurePermission X st (fr_callee F) perm_Call))
     (unless_error (bind2 PopU64 PopAddress (call_address X V exec F k))))"

subsection \<open>The loop\<close>

fun exec_op :: "('pk, 'z) evm_externals_scheme \<Rightarrow> vm \<Rightarrow> exec \<Rightarrow> frame \<Rightarrow> opcode \<Rightarrow> outcome op" where
  "exec_op X V exec F OP_STOP = ret (Return None)"
| "exec_op X V exec F (OP_ALU a) = and_next (exec_alu V a)"
| "exec_op X V exec F OP_SHA3 = and_next (exec_SHA3 X V)"
| "exec_op X V exec F (OP_ENV e) = exec_env X V F e"
| "exec_op X V exec F (OP_EXEC e) = exec_basic X V F e"
| "exec_op X V exec F (OP_PUSH n) = exec_PUSH V F n"
| "exec_op X V exec F (OP_DUP n) = and_next (upd_op (stack_Dup V n))"
| "exec_op X V exec F (OP_SWAP n) = and_next (upd_op (stack_Swap n))"
| "exec_op X V exec F (OP_LOG n) = exec_LOG X F n"
| "exec_op X V exec F OP_CREATE = exec_CREATE X V exec F False"
| "exec_op X V exec F OP_CREATE2 = exec_CREATE X V exec F True"
| "exec_op X V exec F (OP_CALLS k) = exec_CALL X V exec F k"
| "exec_op X V exec F OP_RETURN = exec_RETURN"
| "exec_op X V exec F OP_REVERT = exec_REVERT X"
| "exec_op X V exec F OP_INVALID =
     seq_op (PushError_op (Some (code_error ErrorCodeExecutionAborted))) (ret (Return None))"
| "exec_op X V exec F OP_SELFDESTRUCT = exec_SELFDESTRUCT X F"
| "exec_op X V exec F (OP_UNKNOWN b) =
     seq_op (PushError_op (Some (Coded ErrorCodeGeneric ''unknown opcode %v'' [ANat (unat b)]))) (ret (Return None))"

definition new_machine :: "vm \<Rightarrow> frame \<Rightarrow> activation \<Rightarrow> machine" where
  "new_machine V F act =
     \<lparr>ac_state = ac_state act, ac_sink = ac_sink act, ac_gas = ac_gas act, ac_sequence = ac_sequence act,
      mc_pc = 0, mc_stack = [], mc_slots = unat (DataStackInitialCapacity (vm_params V)),
      mc_memory = DefaultDynamicMemory, mc_value = fr_value F, mc_returnData = None\<rparr>"

text \<open>One turn of the loop: the instruction under the program counter, after the gas of every
  instruction.\<close>

definition step :: "('pk, 'z) evm_externals_scheme \<Rightarrow> vm \<Rightarrow> exec \<Rightarrow> frame \<Rightarrow> outcome op" where
  "step X V exec F =
     bind_op (get_op mc_pc) (\<lambda>pc.
     bind_op (lift_res (codeGetOp (fr_code F) pc)) (\<lambda>op.
     seq_op (upd_op (useGasNegative GasBaseOp)) (exec_op X V exec F op)))"

end
