(* ===== verification/Evm_Run.thy ===== *)
theory Evm_Run
  imports Evm_Interpreter
begin

section \<open>Running code\<close>

text \<open>
  The loop of \<^verbatim>\<open>VM.execute\<close> as a partial function, and \<^verbatim>\<open>evm.NewVM\<close> with the options the chaincode
  passes: the virtual machine \<^verbatim>\<open>evmcc\<close> runs on.
\<close>

subsection \<open>Instructions are monotone in the nested execution\<close>

lemma bind_op_via_bind:
  "bind_op f g m = Option.bind (f m) (\<lambda>(r, m'). case r of
     Ok x \<Rightarrow> g x m' | Err e \<Rightarrow> Some (Err e, m') | Panic p \<Rightarrow> Some (Panic p, m'))"
  by (auto simp: bind_op_def split: option.split res.split)

lemma bind_op_mono [partial_function_mono]:
  assumes "\<And>m. mono_option (\<lambda>f. A f m)" and "\<And>x m. mono_option (\<lambda>f. C f x m)"
  shows "mono_option (\<lambda>f. bind_op (A f) (C f) m)"
  unfolding bind_op_via_bind
proof (rule bind_mono [OF assms(1)])
  fix y :: "'c res \<times> machine"
  obtain r m' where "y = (r, m')"
    by (cases y)
  then show "mono_option (\<lambda>f. case y of (r, m') \<Rightarrow> case r of
      Ok x \<Rightarrow> C f x m' | Err e \<Rightarrow> Some (Err e, m') | Panic p \<Rightarrow> Some (Panic p, m'))"
    by (cases r) (simp_all add: assms(2) option.const_mono)
qed

lemma seq_op_mono [partial_function_mono]:
  assumes "\<And>m. mono_option (\<lambda>f. A f m)" and "\<And>m. mono_option (\<lambda>f. C f m)"
  shows "mono_option (\<lambda>f. seq_op (A f) (C f) m)"
  unfolding seq_op_def by (intro bind_op_mono assms)

lemma bind2_mono [partial_function_mono]:
  assumes "\<And>x y m. mono_option (\<lambda>f. C f x y m)"
  shows "mono_option (\<lambda>f. bind2 a b (C f) m)"
  unfolding bind2_def by (intro bind_op_mono assms option.const_mono)

lemma unless_error_mono [partial_function_mono]:
  assumes "\<And>m. mono_option (\<lambda>f. A f m)"
  shows "mono_option (\<lambda>f. unless_error (A f) m)"
  by (cases "st_error (ac_state m)") (simp_all add: unless_error_def assms option.const_mono)

lemma case_return_mono:
  assumes "mono_option A"
  shows "mono_option (\<lambda>f. case A f of None \<Rightarrow> None | Some (Ok x, act) \<Rightarrow> K x act
    | Some (Err e, act) \<Rightarrow> Some (Err e, act) | Some (Panic p, act) \<Rightarrow> Some (Panic p, act))"
proof -
  have "(\<lambda>f. case A f of None \<Rightarrow> None | Some (Ok x, act) \<Rightarrow> K x act
      | Some (Err e, act) \<Rightarrow> Some (Err e, act) | Some (Panic p, act) \<Rightarrow> Some (Panic p, act)) =
    (\<lambda>f. Option.bind (A f) (\<lambda>(r, act). case r of
      Ok x \<Rightarrow> K x act | Err e \<Rightarrow> Some (Err e, act) | Panic p \<Rightarrow> Some (Panic p, act)))"
    by (auto simp: fun_eq_iff split: option.split res.split)
  then show ?thesis
    by (simp only:) (intro bind_mono assms option.const_mono)
qed

lemma enter_code_mono [partial_function_mono]:
  assumes "\<And>G a. mono_option (\<lambda>f. B f G a)"
  shows "mono_option (\<lambda>f. enter_code V (B f) F act)"
proof -
  let ?act = "act\<lparr>ac_state := es_PushError (ac_state act) (ensureStackDepth V (fr_depth F))\<rparr>"
  show ?thesis
  proof (cases "st_error (ac_state ?act) = None \<and> fr_code F \<noteq> []")
    case True
    then show ?thesis
      by (simp add: enter_code_def Let_def) (rule case_return_mono [OF assms])
  next
    case False
    then show ?thesis
      by (cases "st_error (ac_state ?act)") (simp_all add: enter_code_def Let_def option.const_mono)
  qed
qed

lemma vm_call_mono [partial_function_mono]:
  assumes "\<And>G a. mono_option (\<lambda>f. B f G a)"
  shows "mono_option (\<lambda>f. vm_call X V (B f) F act)"
  by (cases "transfer X (ac_state act) (fr_caller F) (fr_callee F) (fr_value F)")
    (simp add: vm_call_def enter_code_mono assms)

lemma nested_mono [partial_function_mono]:
  assumes "\<And>a. mono_option (\<lambda>f. C f a)"
  shows "mono_option (\<lambda>f. nested X opts gas (C f) fin m)"
proof -
  have "nested X opts gas call fin m = Option.bind (call (child_activation opts gas m)) (\<lambda>(r, act). case r of
      Ok (output, callErr) \<Rightarrow>
        (case commit_child X (ac_state m) callErr (ac_state act) (fin output (ac_state act)) of
           (Panic p, st) \<Rightarrow> Some (Panic p, after_child m act st)
         | (_, st) \<Rightarrow> Some (Ok (output, callErr, ac_gas act), after_child m act st))
    | Err e \<Rightarrow> Some (Err e, after_child m act (adopt (ac_state m) (ac_state act)))
    | Panic p \<Rightarrow> Some (Panic p, after_child m act (adopt (ac_state m) (ac_state act))))" for call
    by (auto simp: nested_def split: option.split res.split)
  then show ?thesis
    by (simp only:) (intro bind_mono assms option.const_mono)
qed

lemma exec_CREATE_mono [partial_function_mono]:
  assumes "\<And>G a. mono_option (\<lambda>f. B f G a)"
  shows "mono_option (\<lambda>f. exec_CREATE X V (B f) F c m)"
  unfolding exec_CREATE_def create_with_def create_nested_def create_call_def
  by (intro seq_op_mono bind_op_mono bind2_mono unless_error_mono nested_mono vm_call_mono assms option.const_mono)

lemma run_contract_mono:
  assumes "\<And>G a. mono_option (\<lambda>f. B f G a)"
  shows "mono_option (\<lambda>f. run_contract X V (B f) k G act)"
  by (cases k) (simp_all add: run_contract_def delegateCall_def vm_call_mono enter_code_mono assms)

lemma if_op_mono:
  assumes "\<And>m. mono_option (\<lambda>f. A f m)" and "\<And>m. mono_option (\<lambda>f. C f m)"
  shows "mono_option (\<lambda>f. (if c then A f else C f) m)"
  by (cases c) (simp_all add: assms)

lemma call_body_mono:
  assumes "\<And>G a. mono_option (\<lambda>f. B f G a)"
  shows "mono_option (\<lambda>f. call_body X V (B f) F k a args limit ro rs m)"
  unfolding call_body_def
  by (intro if_op_mono seq_op_mono bind_op_mono nested_mono run_contract_mono assms option.const_mono)

lemma exec_CALL_mono [partial_function_mono]:
  assumes "\<And>G a. mono_option (\<lambda>f. B f G a)"
  shows "mono_option (\<lambda>f. exec_CALL X V (B f) F k m)"
  unfolding exec_CALL_def call_address_def
  by (intro seq_op_mono bind_op_mono bind2_mono unless_error_mono call_body_mono assms option.const_mono)

lemma step_mono [partial_function_mono]:
  assumes "\<And>G a. mono_option (\<lambda>f. B f G a)"
  shows "mono_option (\<lambda>f. step X V (B f) F m)"
proof -
  have "mono_option (\<lambda>f. exec_op X V (B f) F op m)" for op m
    by (cases op) (auto intro!: option.const_mono exec_CREATE_mono exec_CALL_mono assms)
  then show ?thesis
    unfolding step_def by (intro bind_op_mono seq_op_mono option.const_mono)
qed

subsection \<open>The loop\<close>

partial_function (option) run ::
    "('pk, 'z) evm_externals_scheme \<Rightarrow> vm \<Rightarrow> frame \<Rightarrow> machine \<Rightarrow> (bytes option res \<times> activation) option" where
  [code]: "run X V F m =
     (case st_error (ac_state m) of
        Some _ \<Rightarrow> Some (Ok (mc_returnData m), activation.truncate m)
      | None \<Rightarrow>
          Option.bind (step X V (\<lambda>G act. run X V G (new_machine V G act)) F m) (\<lambda>(r, m').
            case r of
              Ok Next \<Rightarrow> run X V F (m'\<lparr>mc_pc := mc_pc m' + 1\<rparr>)
            | Ok Continue \<Rightarrow> run X V F m'
            | Ok (Return output) \<Rightarrow> Some (Ok output, activation.truncate m')
            | Err e \<Rightarrow> Some (Err e, activation.truncate m')
            | Panic p \<Rightarrow> Some (Panic p, activation.truncate m')))"

definition execute :: "('pk, 'z) evm_externals_scheme \<Rightarrow> vm \<Rightarrow> exec" where
  "execute X V F act = run X V F (new_machine V F act)"

text \<open>\<^verbatim>\<open>VM.Call\<close>.\<close>

definition VM_Call :: "('pk, 'z) evm_externals_scheme \<Rightarrow> vm \<Rightarrow> frame \<Rightarrow> activation \<Rightarrow> call_result" where
  "VM_Call X V = vm_call X V (execute X V)"

text \<open>
  The machine of the chaincode: a new one for the transaction, and its \<^verbatim>\<open>Call\<close>. The chaincode looks at
  the error before the output. A call that does not return kills the process like a panic, with nothing
  written.
\<close>

definition evmcc_vm :: "evm_params \<Rightarrow> address \<Rightarrow> bytes \<Rightarrow> vm" where
  "evmcc_vm params origin nonce =
     \<lparr>vm_params = params, vm_origin = origin, vm_nonce = nonce,
      vm_blockHash = (\<lambda>_. Panic ''Block Hash shouldn't be called'')\<rparr>"

definition NewVM_Call :: "('pk, 'z) evm_externals_scheme \<Rightarrow> new_vm" where
  "NewVM_Call X params origin nonce st sink caller callee code input val gas =
     (case VM_Call X (evmcc_vm params origin nonce)
         \<lparr>fr_caller = caller, fr_callee = callee, fr_code = code_bytes code, fr_input = input,
          fr_value = val, fr_depth = 0, fr_logfree = False\<rparr>
         \<lparr>ac_state = st, ac_sink = sink, ac_gas = gas, ac_sequence = 0\<rparr> of
        None \<Rightarrow> (Panic ''goroutine stack exceeds limit'', st, sink)
      | Some (Ok (output, None), act) \<Rightarrow> (Ok output, ac_state act, ac_sink act)
      | Some (Ok (_, Some e), act) \<Rightarrow> (Err e, ac_state act, ac_sink act)
      | Some (Err e, act) \<Rightarrow> (Err e, ac_state act, ac_sink act)
      | Some (Panic p, act) \<Rightarrow> (Panic p, ac_state act, ac_sink act))"

end
