(* ===== verification/Evm_Nesting.thy ===== *)
theory Evm_Nesting
  imports Evm_Run
begin

section \<open>What a nested call does to its caller's state\<close>

text \<open>
  A nested state is a cache over its caller's chain. Whatever a nested call does, and its \<^verbatim>\<open>Sync\<close>,
  are steps of the caller's own state.
\<close>

abbreviation chain_steps :: "('pk, 'z) externals_scheme \<Rightarrow> backend \<Rightarrow> backend \<Rightarrow> bool" where
  "chain_steps X \<equiv> (chain_step X)\<^sup>*\<^sup>*"

lemma cache_get_steps:
  "cache_get X c b a = (r, c', b') \<Longrightarrow> chain_steps X b b'"
  by (erule cache_get_cases) (auto intro: chain_step.read_account)

lemma chain_step_inner:
  assumes "chain_step X (Layer c b) t"
  shows "\<exists>c' b'. t = Layer c' b' \<and> chain_steps X b b'"
  using assms
proof cases
  case (read_account a r)
  then show ?thesis
    by (auto split: prod.splits sum.splits dest: cache_get_steps simp del: cache_get.simps)
next
  case (read_storage a k v)
  obtain q c1 b1 where get: "cache_get X c b a = (q, c1, b1)"
    by (cases "cache_get X c b a")
  note below = cache_get_steps [OF get]
  have "chain_steps X b b2" if "backend_GetStorage X b1 a k = (r, b2)" for r b2
    using below chain_step.read_storage [OF that] by (rule rtranclp.rtrancl_into_rtrancl)
  with read_storage get below show ?thesis
    by (auto split: sum.splits option.splits prod.splits res.splits simp del: cache_get.simps)
qed (auto split: prod.splits sum.splits if_splits dest: cache_get_steps simp del: cache_get.simps)

lemma chain_steps_Layer:
  "chain_steps X b t \<Longrightarrow> \<exists>c d. b = Layer c d \<Longrightarrow> \<exists>c d. t = Layer c d"
  by (induction rule: rtranclp_induct) (auto dest: chain_step_inner)

text \<open>Steps of the chain are steps of the state.\<close>

lemma set_chain_set_chain: "b = Layer c d \<Longrightarrow> b' = Layer c' d' \<Longrightarrow> set_chain (set_chain st b) b' = set_chain st b'"
  by (simp add: set_chain_def)

lemma set_chain_chain [simp]: "set_chain st (chain st) = st"
  by (simp add: set_chain_def chain_def)

lemma steps_set_chain:
  assumes "chain_steps X (chain st) b"
  shows "evm_steps X st (set_chain st b)"
  using assms
proof (induction rule: rtranclp_induct)
  case base
  show ?case by simp
next
  case (step b b')
  obtain c d where b: "b = Layer c d"
    using chain_steps_Layer [OF step.hyps(1)] chain_Layer [of st] by blast
  obtain c' d' where b': "b' = Layer c' d'"
    using chain_step_inner step.hyps(2) b by blast
  have "chain (set_chain st b) = b"
    using b by (rule chain_set_chain)
  then have "evm_steps X st (set_chain (set_chain st b) b')"
    using step.hyps(2) by (intro steps_access [OF step.IH]) simp
  then show ?case
    by (simp only: set_chain_set_chain [OF b b'])
qed

lemma evm_steps_backend:
  assumes "evm_steps X st st'"
  shows "chain_steps X (st_backend st) (st_backend st')"
  using assms
proof (induction rule: rtranclp_induct)
  case (step st1 st2)
  from step.hyps(2) have "chain_steps X (st_backend st1) (st_backend st2)"
  proof cases
    case (access b)
    from chain_step_inner [OF access(2) [unfolded chain_def]] access(1) show ?thesis
      by (auto simp: set_chain_def)
  next
    case (push e)
    then show ?thesis
      by (auto simp: es_PushError_def split: option.splits)
  qed
  with step.IH show ?case
    by (rule rtranclp_trans)
qed simp

text \<open>Writing a cache back into the cache below it.\<close>

definition grown :: "('pk, 'z) externals_scheme \<Rightarrow> backend \<Rightarrow> backend \<Rightarrow> bool" where
  "grown X b t \<longleftrightarrow> chain_steps X b t \<and> (\<exists>c d. t = Layer c d)"

lemma grown_step:
  assumes "grown X b s" and "chain_step X s t"
  shows "grown X b t"
proof -
  obtain c d where "s = Layer c d"
    using assms(1) by (auto simp: grown_def)
  with assms chain_step_inner [of X c d t] show ?thesis
    by (auto simp: grown_def intro: rtranclp.rtrancl_into_rtrancl)
qed

lemma grown_update:
  assumes "grown X b s" and upd: "backend_UpdateAccount X s acc = (r, t)"
  shows "grown X b t"
proof (cases acc)
  case None
  then show ?thesis
    using assms by (auto simp: grown_def)
next
  case (Some a)
  with upd have "chain_step X s t"
    by (auto intro: chain_step.write_account)
  with assms(1) show ?thesis
    by (rule grown_step)
qed

lemma grown_words:
  "grown X b s \<Longrightarrow> run_all (\<lambda>st key. case map_of ws key of
       None \<Rightarrow> (Ok (), st) | Some val \<Rightarrow> backend_SetStorage X st a key val) ks s = (r, t) \<Longrightarrow> grown X b t"
  by (rule run_all_inv [where A = UNIV and P = "grown X b"])
    (auto split: option.splits intro: grown_step chain_step.write_storage)

lemma grown_account:
  assumes "grown X b s"
    and "Sync_account (backend_UpdateAccount X) (backend_RemoveAccount X) (backend_SetStorage X) a i s = (r, t)"
  shows "grown X b t"
proof (cases "ai_removed i \<or> \<not> ai_updated i")
  case True
  with assms show ?thesis
    by (auto simp: Sync_account_def split: if_splits intro: grown_step chain_step.remove_account)
next
  case False
  obtain q u where u: "backend_UpdateAccount X s (ai_account i) = (q, u)"
    by (cases "backend_UpdateAccount X s (ai_account i)")
  then have "grown X b u"
    by (rule grown_update [OF assms(1)])
  with False u assms(2) show ?thesis
    by (cases q) (auto simp: Sync_account_def dest: grown_words)
qed

lemma Sync_grown:
  assumes "backend_Sync X c b = (r, t)" and "\<exists>c d. b = Layer c d"
  shows "grown X b t"
proof (cases "c_readonly c")
  case True
  with assms show ?thesis
    by (simp add: backend_Sync_def Cache_Sync_def grown_def)
next
  case False
  let ?f = "\<lambda>s a. case map_of (c_accounts c) a of None \<Rightarrow> (Ok (), s) | Some i \<Rightarrow>
    Sync_account (backend_UpdateAccount X) (backend_RemoveAccount X) (backend_SetStorage X) a i s"
  have run: "run_all ?f (sort (map fst (c_accounts c))) b = (r, t)"
    using assms(1) False by (simp add: backend_Sync_def Cache_Sync_def)
  show ?thesis
  proof (rule run_all_inv [where P = "grown X b" and A = UNIV, OF _ _ _ run])
    show "grown X b b"
      using assms(2) by (simp add: grown_def)
  qed (auto split: option.splits dest: grown_account)
qed

subsection \<open>Adopting a nested state\<close>

lemma chain_NewCache [simp]: "st_backend (es_NewCache st opts) = chain st" "st_error (es_NewCache st opts) = None"
  by (simp_all add: es_NewCache_def NewState_def)

lemma adopt_set_chain: "adopt st child = set_chain st (st_backend child)"
  by (simp add: adopt_def)

lemma steps_adopt:
  assumes "evm_steps X (es_NewCache st opts) child"
  shows "evm_steps X st (adopt st child)"
  using evm_steps_backend [OF assms] by (simp add: adopt_def steps_set_chain)

lemma steps_sync_child:
  assumes "evm_steps X (es_NewCache st opts) child" and "sync_child X st child = (r, st')"
  shows "evm_steps X st st'"
proof -
  have below: "chain_steps X (chain st) (st_backend child)"
    using evm_steps_backend [OF assms(1)] by simp
  have "chain_steps X (chain st) t" if "backend_Sync X (st_cache child) (st_backend child) = (q, t)" for q t
  proof -
    have "\<exists>c d. st_backend child = Layer c d"
      using chain_steps_Layer [OF below] chain_Layer [of st] by blast
    then have "chain_steps X (st_backend child) t"
      using Sync_grown [OF that] by (simp add: grown_def)
    with below show ?thesis
      by (rule rtranclp_trans)
  qed
  note synced = steps_set_chain [OF this]
  note kept = steps_set_chain [OF below]
  from assms(2) kept synced show ?thesis
    by (cases "st_error child")
      (auto simp: sync_child_def es_Sync_def adopt_def split: prod.splits res.splits
        intro!: steps_push)
qed

end
