(* ===== verification/Evm_Effects.thy ===== *)
theory Evm_Effects
  imports Evm_Nesting
begin

section \<open>What the interpreter does to the state\<close>

text \<open>
  The interpreter works on the state through its methods, in caches over it that it adopts or writes back,
  and through the native contracts. The locale \<open>state_effects\<close> is the interface of a relation between
  states that all of this keeps; the operations of the interpreter that combine several methods keep it too.
  The first provider is \<open>evm_steps\<close>, any sequence of steps of the state.
\<close>

text \<open>Code is only put at the addresses that are derived for new contracts.\<close>

definition derived_address :: "('pk, 'z) evm_externals_scheme \<Rightarrow> address \<Rightarrow> bool" where
  "derived_address X a \<longleftrightarrow> (\<exists>creator nonce. a = NewContractAddress (sha256_Sum X) creator nonce) \<or>
     (\<exists>creator salt code. a = NewContractAddress2 (keccak256 X) creator salt code)"

locale state_effects =
  fixes X :: "('pk, 'z) evm_externals_scheme" and S :: "evm_state \<Rightarrow> evm_state \<Rightarrow> bool"
  assumes S_refl: "S st st" and S_trans: "S st1 st2 \<Longrightarrow> S st2 st3 \<Longrightarrow> S st1 st3"
    and S_pushed: "S st (es_PushError st e)"
    and S_account: "S st (snd (es_account X st a))" and S_Exists: "S st (snd (es_Exists X st a))"
    and S_GetStorage: "S st (snd (es_GetStorage X st a k))"
    and S_SetStorage: "S st (snd (es_SetStorage X st a k v))"
    and S_CreateAccount: "S st (es_CreateAccount X st a)" and S_RemoveAccount: "S st (es_RemoveAccount X st a)"
    and S_InitCode: "derived_address X a \<Longrightarrow> S st (es_InitCode X st a code)"
    and S_AddToBalance: "S st (es_AddToBalance X st a n)"
    and S_SubtractFromBalance: "S st (es_SubtractFromBalance X st a n)"
    and S_native: "registeredNativeContracts X a = Some c \<Longrightarrow> c st caller input gas = (r, st', gas') \<Longrightarrow> S st st'"
    and S_adopt: "S (es_NewCache st opts) child \<Longrightarrow> S st (adopt st child)"
    and S_sync: "S (es_NewCache st opts) child \<Longrightarrow> sync_child X st child = (q, st') \<Longrightarrow> S st st'"
begin

lemma S_push: "S st st' \<Longrightarrow> S st (es_PushError st' e)"
  by (rule S_trans [OF _ S_pushed])

lemma S_of_account: "snd (f st) = snd (es_account X st a) \<Longrightarrow> S st (snd (f st))"
  by (simp add: S_account)

lemma S_reads:
  "S st (snd (es_GetBalance X st a))" "S st (snd (es_GetPermissions X st a))" "S st (snd (es_GetCode X st a))"
  by (simp_all add: es_GetBalance_def es_GetPermissions_def es_GetCode_def S_account)

lemma S_GetBlockHash: "S st (snd (es_GetBlockHash g st h))"
  by (auto simp: es_GetBlockHash_def S_refl S_pushed split: res.splits)

lemma S_HasPermission: "S st (snd (HasPermission X st a p))"
proof -
  obtain g st1 where g: "es_GetPermissions X st GlobalPermissionsAddress = (g, st1)"
    by (cases "es_GetPermissions X st GlobalPermissionsAddress")
  obtain q st2 where q: "es_GetPermissions X st1 a = (q, st2)"
    by (cases "es_GetPermissions X st1 a")
  have "snd (HasPermission X st a p) = st2"
    by (auto simp: HasPermission_def g q split: sum.split)
  with S_reads(2) [of st] S_reads(2) [of st1 a] g q show ?thesis
    by (metis S_trans snd_conv)
qed

lemma S_EnsurePermission: "S st (EnsurePermission X st a p)"
  using S_HasPermission [of st a p]
  by (auto simp: EnsurePermission_def intro: S_push split: prod.split bool.split)

lemma S_create: "S st (create X st a)"
  unfolding create_def by (rule S_trans [OF _ S_CreateAccount]) (auto intro: S_refl S_pushed)

lemma S_createAccount: "S st (createAccount X st b a)"
  unfolding createAccount_def by (rule S_trans [OF S_EnsurePermission S_create])

lemma S_transfer: "S st (snd (transfer X st from to amount))"
proof -
  obtain v st1 where bal: "es_GetBalance X st from = (v, st1)"
    by (cases "es_GetBalance X st from")
  have st1: "S st st1"
    using S_reads(1) [of st "from"] bal by simp
  then have "S st (es_AddToBalance X (es_SubtractFromBalance X st1 from amount) to amount)"
    by (intro S_trans [OF S_trans [OF st1 S_SubtractFromBalance] S_AddToBalance])
  with st1 bal show ?thesis
    by (simp add: transfer_def Let_def S_refl)
qed

lemmas S_intros =
  S_account S_reads S_GetStorage S_GetBlockHash S_Exists S_CreateAccount S_RemoveAccount S_SetStorage
  S_AddToBalance S_SubtractFromBalance S_EnsurePermission S_createAccount

end

subsection \<open>Native contracts\<close>

text \<open>The secure native contracts read and write through the methods of the state, too, and are free.\<close>

lemma steps_HasPermission: "evm_steps X st (snd (HasPermission X st a p))"
proof -
  obtain g st1 where g: "es_GetPermissions X st GlobalPermissionsAddress = (g, st1)"
    by (cases "es_GetPermissions X st GlobalPermissionsAddress")
  obtain q st2 where q: "es_GetPermissions X st1 a = (q, st2)"
    by (cases "es_GetPermissions X st1 a")
  have "snd (HasPermission X st a p) = st2"
    by (auto simp: HasPermission_def g q split: sum.split)
  with steps_GetPermissions [OF g] steps_GetPermissions [OF q] show ?thesis
    by simp
qed

lemma steps_of: "f st = (x, st') \<Longrightarrow> evm_steps X st (snd (f st)) \<Longrightarrow> evm_steps X st st'"
  by simp

lemma native_functions_steps:
  "evm_steps X st (snd (native_hasBase X st args))" "evm_steps X st (snd (native_setBase X st args))"
  "evm_steps X st (snd (native_unsetBase X st args))" "evm_steps X st (snd (native_setGlobal X st args))"
  "evm_steps X st (snd (native_hasRole X st args))" "evm_steps X st (snd (native_addRole X st args))"
  "evm_steps X st (snd (native_removeRole X st args))"
  unfolding native_hasBase_def native_setBase_def native_unsetBase_def native_setGlobal_def native_hasRole_def
    native_addRole_def native_removeRole_def
  by (auto split: list.split abi_value.split prod.split bool.split option.split
      dest!: steps_of [OF _ steps_Exists] steps_of [OF _ steps_HasPermission] steps_of [OF _ steps_reads(3)]
        steps_of [OF _ steps_writes(6)] steps_of [OF _ steps_writes(7)]
      intro: steps_writes(4,5) rtranclp_trans)

lemma SNative_function_cases:
  assumes "f \<in> set (SNative_functions :: ('pk, 'z) externals_scheme SNativeFunctionDescription list)"
  shows "sn_F f \<in> {native_addRole, native_removeRole, native_hasRole, native_setBase, native_unsetBase,
    native_hasBase, native_setGlobal}"
  using assms by (auto simp: SNative_functions_def)

lemma SNative_steps: "f \<in> set SNative_functions \<Longrightarrow> evm_steps X st (snd (sn_F f X st args))"
  using SNative_function_cases [of f] native_functions_steps [of X st args] by auto

lemma FunctionByID_known: "FunctionByID X ident = Inr f \<Longrightarrow> f \<in> set SNative_functions"
  by (auto simp: FunctionByID_def find_Some_iff split: option.splits)

lemma dispatch_to_steps:
  assumes "f \<in> set SNative_functions"
  shows "evm_steps X st (snd (dispatch_to X f st caller args))"
proof -
  obtain permitted st1 where p: "HasPermission X st caller (sn_PermFlag f) = (permitted, st1)"
    by (cases "HasPermission X st caller (sn_PermFlag f)")
  have st1: "evm_steps X st st1"
    using steps_HasPermission [of X st caller "sn_PermFlag f"] p by simp
  then have "evm_steps X st (snd (sn_F f X st1 vs))" for vs
    by (rule rtranclp_trans) (rule SNative_steps [OF assms])
  with st1 p show ?thesis
    by (auto simp: dispatch_to_def split: bool.split res.split prod.split option.split) (metis snd_conv)+
qed

lemma registered_native:
  assumes "registeredNativeContracts X a = Some c" and "c st caller input gas = (r, st', gas')"
  shows "evm_steps X st st'" and "gas' \<le> gas"
proof -
  have own: "evm_steps X st st' \<and> gas' \<le> gas"
    if "charge_native g out st gas = (r, st', gas')" for g out
    using that by (auto simp: charge_native_def word_sub_le split: if_splits)
  have secure: "evm_steps X st st' \<and> gas' \<le> gas" if "Dispatch X st caller input gas = (r, st', gas')"
    using that dispatch_to_steps [OF FunctionByID_known, of X _ _ X st caller]
    by (auto simp: Dispatch_def split: if_splits sum.splits prod.splits) (metis snd_conv)
  from assms own secure have "evm_steps X st st' \<and> gas' \<le> gas"
    by (auto simp: registeredNativeContracts_def sha256Func_def ripemd160Func_def identityFunc_def
        split: if_splits)
  then show "evm_steps X st st'" and "gas' \<le> gas"
    by blast+
qed

interpretation any_steps: state_effects X "evm_steps X" for X
  by unfold_locales
    (auto intro: push steps_account steps_intros steps_adopt steps_sync_child registered_native(1))

end
