(* ===== verification/Evm_Relations.thy ===== *)
theory Evm_Relations
  imports Evm_Effects
begin

section \<open>What every instruction keeps\<close>

text \<open>
  One walk over the instructions for many results. A property of runs is a relation between the machine
  before and after; the locale \<open>machine_relation\<close> says what it must allow, and shows that every instruction
  then keeps it when the nested executions do. \<open>returns\<close> says whether the runs are also meant to return.
\<close>

named_theorems keeps "instructions that keep a relation between machines"

text \<open>A frame called from another.\<close>

definition subframe :: "vm \<Rightarrow> frame \<Rightarrow> frame \<Rightarrow> bool" where
  "subframe V F G \<longleftrightarrow> (fr_logfree F \<longrightarrow> fr_logfree G) \<and> fr_depth G = fr_depth F + 1 \<and>
     ensureStackDepth V (fr_depth F) = None"

text \<open>The event of a call changes nothing: the event manager ignores it.\<close>

lemma PushError_None [simp]: "es_PushError st None = st"
  by (simp add: es_PushError_def split: option.split)

lemma fireCallEvent_eq [simp]: "fireCallEvent act = act"
  by (simp add: fireCallEvent_def em_Call_def)

lemma ensureStackDepth_error:
  assumes "st_error (es_PushError st (ensureStackDepth V d)) = None"
  shows "ensureStackDepth V d = None"
  using assms PushError_has_text [of "code_error ErrorCodeCallStackOverflow" st]
  by (auto simp: ensureStackDepth_def has_text_def code_error_def split: if_splits)

lemma call_gas_le: "call_gas gas limit \<le> gas"
proof -
  have "gas - gas div 64 \<le> gas"
    by (intro word_sub_le) (simp add: word_le_nat_alt unat_div)
  then show ?thesis
    by (auto simp: call_gas_def not_less)
qed

subsection \<open>The interface of a relation\<close>

locale machine_relation = state_effects X S
  for X :: "('pk, 'z) evm_externals_scheme" and S :: "evm_state \<Rightarrow> evm_state \<Rightarrow> bool" +
  fixes V :: vm and F :: frame and returns :: bool
    and R :: "machine \<Rightarrow> machine \<Rightarrow> bool" and C :: "frame \<Rightarrow> activation \<Rightarrow> activation \<Rightarrow> bool"
  assumes R_refl: "R m m" and R_trans: "R m1 m2 \<Longrightarrow> R m2 m3 \<Longrightarrow> R m1 m3"
    and R_state: "S (ac_state m) st \<Longrightarrow> R m (m\<lparr>ac_state := st\<rparr>)"
    and R_gas: "g \<le> ac_gas m \<Longrightarrow> R m (m\<lparr>ac_gas := g\<rparr>)"
    and R_log: "\<not> fr_logfree F \<Longrightarrow> R m (m\<lparr>ac_sink := snd (em_Log X (ac_sink m) log)\<rparr>)"
    and R_push: "stack_ensureCapacity (DataStackMaxDepth (vm_params V)) (length (mc_stack m) + 1) (mc_slots m) = Some k \<Longrightarrow>
      R m (m\<lparr>mc_stack := d # mc_stack m, mc_slots := k\<rparr>)"
    and R_stack: "length s \<le> length (mc_stack m) \<Longrightarrow> R m (m\<lparr>mc_stack := s\<rparr>)"
    and R_read: "memory_Read off len (mc_memory m) = (x, mem) \<Longrightarrow> R m (m\<lparr>mc_memory := mem\<rparr>)"
    and R_write: "memory_Write off bs (mc_memory m) = (y, mem) \<Longrightarrow> R m (m\<lparr>mc_memory := mem\<rparr>)"
    and R_pc: "(0 \<le> mc_pc m \<Longrightarrow> 0 \<le> pc) \<Longrightarrow> R m (m\<lparr>mc_pc := pc\<rparr>)" and R_value: "R m (m\<lparr>mc_value := v\<rparr>)"
    and R_output: "R m (m\<lparr>mc_returnData := out\<rparr>)" and R_sequence: "R m (m\<lparr>ac_sequence := sq\<rparr>)"
    and R_lent: "R (m\<lparr>ac_gas := ac_gas m - l\<rparr>) m' \<Longrightarrow> l \<le> ac_gas m \<Longrightarrow> g \<le> l \<Longrightarrow>
      R m (m'\<lparr>ac_gas := ac_gas m' + g\<rparr>)"
    and R_child: "C G (child_activation opts gas m) act \<Longrightarrow> (fr_logfree F \<Longrightarrow> fr_logfree G) \<Longrightarrow>
      S (ac_state m) st \<Longrightarrow> R m (after_child m act st)"
    and C_refl: "C G a a" and C_trans: "C G a1 a2 \<Longrightarrow> C G a2 a3 \<Longrightarrow> C G a1 a3"
    and C_state: "S (ac_state a) st \<Longrightarrow> C G a (a\<lparr>ac_state := st\<rparr>)"
    and C_gas: "g \<le> ac_gas a \<Longrightarrow> C G a (a\<lparr>ac_gas := g\<rparr>)"
    and C_steps: "C G a1 a2 \<Longrightarrow> S (ac_state a1) (ac_state a2)"
    and C_down: "C G a1 a2 \<Longrightarrow> ac_gas a2 \<le> ac_gas a1"
    and C_frame: "C G a1 a2 \<Longrightarrow> fr_logfree G = fr_logfree G' \<Longrightarrow> C G' a1 a2"

text \<open>
  \<open>keeps P f\<close>: the relation holds between the machines before and after \<open>f\<close>, and a result satisfies \<open>P\<close>.
  \<open>lends l f\<close>: it holds up to some of the lent gas \<open>l\<close> that \<open>f\<close> gives back last.
\<close>

definition keeps_with ::
    "bool \<Rightarrow> (machine \<Rightarrow> machine \<Rightarrow> bool) \<Rightarrow> ('a \<Rightarrow> bool) \<Rightarrow> 'a op \<Rightarrow> bool" where
  "keeps_with rets R P f \<longleftrightarrow> (\<forall>m. case f m of
     None \<Rightarrow> \<not> rets | Some (r, m') \<Rightarrow> R m m' \<and> (\<forall>x. r = Ok x \<longrightarrow> P x))"

definition lends_with :: "bool \<Rightarrow> (machine \<Rightarrow> machine \<Rightarrow> bool) \<Rightarrow> 64 word \<Rightarrow> 'a op \<Rightarrow> bool" where
  "lends_with rets R l f \<longleftrightarrow> (\<forall>m. case f m of
     None \<Rightarrow> \<not> rets | Some (r, m') \<Rightarrow> \<exists>m2 g. R m m2 \<and> g \<le> l \<and> m' = m2\<lparr>ac_gas := ac_gas m2 + g\<rparr>)"

definition call_with ::
    "bool \<Rightarrow> (frame \<Rightarrow> activation \<Rightarrow> activation \<Rightarrow> bool) \<Rightarrow> frame \<Rightarrow> (activation \<Rightarrow> call_result) \<Rightarrow> bool" where
  "call_with rets C G call \<longleftrightarrow> (\<forall>act. case call act of
     None \<Rightarrow> \<not> rets | Some (r, act') \<Rightarrow> C G act act')"

definition exec_with ::
    "bool \<Rightarrow> (frame \<Rightarrow> activation \<Rightarrow> activation \<Rightarrow> bool) \<Rightarrow> vm \<Rightarrow> frame \<Rightarrow> exec \<Rightarrow> bool" where
  "exec_with rets C V F exec \<longleftrightarrow> (\<forall>G act. subframe V F G \<longrightarrow> (case exec G act of
     None \<Rightarrow> \<not> rets | Some (r, act') \<Rightarrow> C G act act'))"

context machine_relation
begin

abbreviation kp :: "('a \<Rightarrow> bool) \<Rightarrow> 'a op \<Rightarrow> bool" where "kp \<equiv> keeps_with returns R"
abbreviation kt :: "'a op \<Rightarrow> bool" where "kt \<equiv> keeps_with returns R (\<lambda>_. True)"
abbreviation ln :: "64 word \<Rightarrow> 'a op \<Rightarrow> bool" where "ln \<equiv> lends_with returns R"

subsection \<open>Composition\<close>

lemma keeps_ret [keeps]: "kt (ret x)"
  by (simp add: keeps_with_def ret_def R_refl)

lemma keeps_ret_with: "Q x \<Longrightarrow> kp Q (ret x)"
  by (simp add: keeps_with_def ret_def R_refl)

lemma keeps_panic [keeps]: "kt (panic_op p)"
  by (simp add: keeps_with_def panic_op_def R_refl)

lemma keeps_lift [keeps]: "kt (lift_res r)"
  by (simp add: keeps_with_def lift_res_def R_refl)

lemma keeps_get [keeps]: "kt (get_op f)"
  by (simp add: keeps_with_def get_op_def R_refl)

lemma keeps_bind_with:
  assumes "kp P f" and "\<And>x. P x \<Longrightarrow> kp Q (g x)"
  shows "kp Q (bind_op f g)"
  unfolding keeps_with_def
proof
  fix m
  from assms(1) have f: "case f m of None \<Rightarrow> \<not> returns | Some (r, m') \<Rightarrow> R m m' \<and> (\<forall>x. r = Ok x \<longrightarrow> P x)"
    by (simp add: keeps_with_def)
  show "case bind_op f g m of None \<Rightarrow> \<not> returns | Some (r, m') \<Rightarrow> R m m' \<and> (\<forall>x. r = Ok x \<longrightarrow> Q x)"
  proof (cases "f m")
    case None
    with f show ?thesis by (simp add: bind_op_def)
  next
    case (Some p)
    obtain r m' where p: "p = (r, m')"
      by (cases p)
    show ?thesis
    proof (cases r)
      case (Ok x)
      with f Some p have "R m m'" and "P x"
        by simp_all
      then have "case g x m' of None \<Rightarrow> \<not> returns | Some (r, m'') \<Rightarrow> R m' m'' \<and> (\<forall>x. r = Ok x \<longrightarrow> Q x)"
        using assms(2) [of x] by (simp add: keeps_with_def)
      with Some p Ok \<open>R m m'\<close> show ?thesis
        by (auto simp: bind_op_def split: option.splits intro: R_trans)
    qed (use f Some p in \<open>simp_all add: bind_op_def\<close>)
  qed
qed

lemma keeps_bind [keeps]: "kt f \<Longrightarrow> (\<And>x. kp Q (g x)) \<Longrightarrow> kp Q (bind_op f g)"
  by (rule keeps_bind_with)

lemma keeps_seq [keeps]: "kt f \<Longrightarrow> kp Q g \<Longrightarrow> kp Q (seq_op f g)"
  unfolding seq_op_def by (rule keeps_bind)

lemma keeps_bind2 [keeps]: "kt f \<Longrightarrow> kt g \<Longrightarrow> (\<And>x y. kp Q (h x y)) \<Longrightarrow> kp Q (bind2 f g h)"
  unfolding bind2_def by (intro keeps_bind)

lemma keeps_bind3 [keeps]:
  "kt f \<Longrightarrow> kt g \<Longrightarrow> kt h \<Longrightarrow> (\<And>x y z. kp Q (k x y z)) \<Longrightarrow> kp Q (bind3 f g h k)"
  unfolding bind3_def by (intro keeps_bind keeps_bind2)

lemma keeps_if [keeps]: "(c \<Longrightarrow> kp Q f) \<Longrightarrow> (\<not> c \<Longrightarrow> kp Q g) \<Longrightarrow> kp Q (if c then f else g)"
  by simp

lemma keeps_and_next [keeps]: "kt f \<Longrightarrow> kt (and_next f)"
  unfolding and_next_def by (intro keeps)

lemma keeps_unless_error [keeps]: "kt f \<Longrightarrow> kt (unless_error f)"
  by (auto simp: keeps_with_def unless_error_def ret_def R_refl)

subsection \<open>The primitive operations\<close>

lemma keeps_upd: "(\<And>m. R m (f m)) \<Longrightarrow> kt (upd_op f)"
  by (simp add: keeps_with_def upd_op_def)

lemma R_push_error: "R m (push_error e m)"
  unfolding push_error_def by (intro R_state S_pushed)

lemma R_stack_useGas: "R m (stack_useGas g m)"
  by (auto simp: stack_useGas_def intro!: R_gas R_push_error word_sub_le)

lemma keeps_useGasNegative [keeps]: "kt (upd_op (useGasNegative g))"
  by (rule keeps_upd) (auto simp: useGasNegative_def intro: R_gas R_push_error word_sub_le)

text \<open>Every stack operation charges first.\<close>

lemma R_after_useGas:
  "R (stack_useGas GasStackOp m) (stack_Push V d m)"
  "R (stack_useGas GasStackOp m) (snd (stack_Pop m))"
  "R (stack_useGas GasStackOp m) (stack_Swap n m)"
  by (auto simp: stack_Push_def stack_Pop_def stack_Swap_def Let_def
      intro: R_push R_stack R_push_error split: option.split list.split)

lemma R_stack_Push: "R m (stack_Push V d m)"
  by (rule R_trans [OF R_stack_useGas R_after_useGas(1)])

lemma R_Dup_after_useGas: "R (stack_useGas GasStackOp m) (stack_Dup V n m)"
  by (auto simp: stack_Dup_def Let_def intro: R_push_error R_stack_Push)

lemma keeps_Push [keeps]: "kt (Push V d)" "kt (PushAddress V a)" "kt (Push64 V i)" "kt (PushU64 V u)"
  "kt (PushBigInt V b)" "kt (push_bool V c)"
  by (simp_all add: Push_def PushAddress_def Push64_def PushU64_def PushBigInt_def push_bool_def
      keeps_upd R_stack_Push)

lemma keeps_PushBytes [keeps]: "kt (PushBytes V bz)"
  unfolding PushBytes_def by (intro keeps)

lemma keeps_Pop [keeps]: "kt Pop"
  unfolding keeps_with_def
proof
  fix m
  show "case Pop m of None \<Rightarrow> \<not> returns | Some (r, m') \<Rightarrow> R m m' \<and> (\<forall>x. r = Ok x \<longrightarrow> True)"
    using R_trans [OF R_stack_useGas R_after_useGas(2), of m] by (cases "stack_Pop m") (simp add: Pop_def)
qed

lemma keeps_Dup [keeps]: "kt (upd_op (stack_Dup V n))"
  by (rule keeps_upd) (rule R_trans [OF R_stack_useGas R_Dup_after_useGas])

lemma keeps_Swap [keeps]: "kt (upd_op (stack_Swap n))"
  by (rule keeps_upd) (rule R_trans [OF R_stack_useGas R_after_useGas(3)])

text \<open>The state through its interface.\<close>

lemma keeps_state_upd: "(\<And>st. S st (f st)) \<Longrightarrow> kt (state_upd f)"
  by (simp add: keeps_with_def state_upd_def R_state)

lemma keeps_state_op: "(\<And>st. S st (snd (f st))) \<Longrightarrow> kt (state_op f)"
  by (auto simp: keeps_with_def state_op_def split: prod.split intro!: R_state) (metis snd_conv)

lemma keeps_state_res_op: "(\<And>st. S st (snd (f st))) \<Longrightarrow> kt (state_res_op f)"
  by (auto simp: keeps_with_def state_res_op_def split: prod.split intro!: R_state) (metis snd_conv)

lemma keeps_PushError [keeps]: "kt (PushError_op e)"
  unfolding PushError_op_def by (intro keeps_state_upd S_pushed)

lemma keeps_pops [keeps]: "kt PopAddress" "kt Pop64" "kt PopU64" "kt PopBigInt" "kt PopBigIntSigned"
  unfolding PopAddress_def Pop64_def PopU64_def PopBigIntSigned_def PopBigInt_def by (intro keeps)+

lemma keeps_Pop_n [keeps]: "kt (Pop_n n)"
  by (induction n) (auto intro!: keeps)

lemma keeps_Memory_Read [keeps]: "kt (Memory_Read off len)"
  by (auto simp: keeps_with_def Memory_Read_def split: prod.split res.split
      intro: R_read R_trans [OF R_read R_push_error])

lemma keeps_Memory_Write [keeps]: "kt (Memory_Write off v)"
  by (auto simp: keeps_with_def Memory_Write_def split: prod.split res.split
      intro: R_write R_trans [OF R_write R_push_error])

lemma keeps_Subslice [keeps]: "kt (Subslice data off len)"
  unfolding Subslice_def by (cases "subslice data off len") (auto intro!: keeps split: option.split)

lemma keeps_Log [keeps]: "kt (Log_op X F log)"
proof -
  have "R m (m\<lparr>ac_sink := snd (em_Log X (ac_sink m) log), ac_state := es_PushError (ac_state m) e\<rparr>)"
    if "\<not> fr_logfree F" for m e
    using R_trans [OF R_log [OF that] R_state [OF S_pushed]] by simp
  then show ?thesis
    using keeps_PushError
    by (auto simp: Log_op_def keeps_with_def PushError_op_def state_upd_def
        intro: R_state S_push S_pushed split: prod.split)
      (metis snd_conv)
qed

lemma keeps_set_returnData [keeps]: "kt (set_returnData out)"
  unfolding set_returnData_def by (intro keeps_upd R_output)

subsection \<open>The instructions that do not call\<close>

lemma keeps_reads [keeps]:
  "kt (state_op (\<lambda>st. es_Exists X st a))" "kt (state_op (\<lambda>st. es_GetCode X st a))"
  "kt (state_op (\<lambda>st. es_GetBalance X st a))" "kt (state_res_op (\<lambda>st. es_GetStorage X st a k))"
  by (intro keeps_state_op keeps_state_res_op S_intros)+

lemma keeps_writes [keeps]:
  "kt (state_res_op (\<lambda>st. es_SetStorage X st a k v))"
  "kt (state_upd (\<lambda>st. es_AddToBalance X st a n))" "kt (state_upd (\<lambda>st. es_RemoveAccount X st a))"
  "kt (state_upd (\<lambda>st. EnsurePermission X st a p))" "kt (state_upd (\<lambda>st. createAccount X st b a))"
  by (intro keeps_state_upd keeps_state_res_op S_intros)+

lemma keeps_alu [keeps]: "kt (exec_alu V a)"
  by (cases a) (auto intro!: keeps)

lemma keeps_copy [keeps]: "kt (copy_to_memory src)"
  unfolding copy_to_memory_def by (intro keeps)

lemma keeps_blockHash [keeps]: "kt (push_blockHash V n)"
  unfolding keeps_with_def
proof
  fix m :: machine
  obtain r st where h: "es_GetBlockHash (vm_blockHash V) (ac_state m) n = (r, st)"
    by (cases "es_GetBlockHash (vm_blockHash V) (ac_state m) n")
  then have "R m (m\<lparr>ac_state := st\<rparr>)"
    using S_GetBlockHash [of "ac_state m" "vm_blockHash V" n] by (intro R_state) simp
  moreover have "R m' (stack_Push V w m')" "R m' (m'\<lparr>ac_state := es_PushError (ac_state m') e\<rparr>)"
    for w e and m' :: machine
    by (rule R_stack_Push, intro R_state S_pushed)
  ultimately have "R m (stack_Push V w (m\<lparr>ac_state := st\<rparr>))"
    "R m (m\<lparr>ac_state := es_PushError st e\<rparr>)" "R m (m\<lparr>ac_state := st\<rparr>)" for w e
    using R_trans [of m "m\<lparr>ac_state := st\<rparr>"] by fastforce+
  with h show "case push_blockHash V n m of None \<Rightarrow> \<not> returns | Some (r, m') \<Rightarrow> R m m' \<and> (\<forall>x. r = Ok x \<longrightarrow> True)"
    by (cases r) (simp_all add: push_blockHash_def Push_def upd_op_def PushError_op_def state_upd_def panic_op_def)
qed

lemma keeps_BLOCKHASH [keeps]: "kt (exec_BLOCKHASH V)"
  unfolding exec_BLOCKHASH_def by (intro keeps)

lemma keeps_env [keeps]: "kt (exec_env X V F e)"
  by (cases e) (auto intro!: keeps
    simp: exec_EXTCODESIZE_def exec_EXTCODECOPY_def exec_RETURNDATACOPY_def exec_EXTCODEHASH_def Let_def)

lemma keeps_jump [keeps]: "kt (jump code to)"
proof (cases "codeGetOp code to")
  case (Ok op)
  then show ?thesis
    by (auto simp: jump_def codeGetOp_def split: if_splits intro!: keeps keeps_upd R_pc)
qed (auto simp: jump_def intro!: keeps)

lemma keeps_basic [keeps]: "kt (exec_basic X V F e)"
  by (cases e) (auto intro!: keeps)

lemma keeps_PUSH [keeps]: "kt (exec_PUSH V F n)"
  unfolding exec_PUSH_def by (intro keeps keeps_upd R_pc) simp

lemma keeps_others [keeps]: "kt (exec_SHA3 X V)" "kt (exec_LOG X F n)" "kt exec_RETURN" "kt (exec_REVERT X)"
  "kt (exec_SELFDESTRUCT X F)"
  unfolding exec_SHA3_def exec_LOG_def exec_RETURN_def exec_REVERT_def exec_SELFDESTRUCT_def Let_def
  by (intro keeps)+

subsection \<open>Lent gas\<close>

lemma lends_refl: "\<exists>m2 g. R m m2 \<and> g \<le> l \<and> m' = m2\<lparr>ac_gas := ac_gas m2 + g\<rparr>" if "R m m'"
  using that by (intro exI [of _ m'] exI [of _ "0 :: 64 word"]) simp

lemma lends_keeps: "kt f \<Longrightarrow> ln l f"
  unfolding keeps_with_def lends_with_def
proof
  fix m
  assume "\<forall>m. case f m of None \<Rightarrow> \<not> returns | Some (r, m') \<Rightarrow> R m m' \<and> (\<forall>x. r = Ok x \<longrightarrow> True)"
  from spec [OF this, of m]
  show "case f m of None \<Rightarrow> \<not> returns
    | Some (r, m') \<Rightarrow> \<exists>m2 g. R m m2 \<and> g \<le> l \<and> m' = m2\<lparr>ac_gas := ac_gas m2 + g\<rparr>"
    using lends_refl [of m] by (auto split: option.splits)
qed

lemma lends_bind:
  assumes "kp P f" and "\<And>x. P x \<Longrightarrow> ln l (g x)"
  shows "ln l (bind_op f g)"
  unfolding lends_with_def
proof
  fix m
  let ?Q = "\<lambda>m' m''. \<exists>m2 g. R m' m2 \<and> g \<le> l \<and> m'' = m2\<lparr>ac_gas := ac_gas m2 + g\<rparr>"
  have refl: "?Q m' m'" for m'
    using lends_refl [OF R_refl] .
  have trans: "R m1 m2 \<Longrightarrow> ?Q m2 m3 \<Longrightarrow> ?Q m1 m3" for m1 m2 m3
    using R_trans by blast
  from assms(1) have f: "case f m of None \<Rightarrow> \<not> returns | Some (r, m') \<Rightarrow> R m m' \<and> (\<forall>x. r = Ok x \<longrightarrow> P x)"
    by (simp add: keeps_with_def)
  show "case bind_op f g m of None \<Rightarrow> \<not> returns | Some (r, m') \<Rightarrow> ?Q m m'"
  proof (cases "f m")
    case None
    with f show ?thesis by (simp add: bind_op_def)
  next
    case (Some p)
    obtain r m' where p: "p = (r, m')"
      by (cases p)
    with f Some have "R m m'"
      by simp
    show ?thesis
    proof (cases r)
      case (Ok x)
      with f Some p have "P x"
        by simp
      then have "case g x m' of None \<Rightarrow> \<not> returns | Some (r, m'') \<Rightarrow> ?Q m' m''"
        using assms(2) [of x] by (simp add: lends_with_def)
      with Some p Ok trans [OF \<open>R m m'\<close>] show ?thesis
        by (auto simp: bind_op_def split: option.splits)
    next
      case (Err e)
      with Some p trans [OF \<open>R m m'\<close> refl] show ?thesis
        by (simp add: bind_op_def)
    next
      case (Panic e)
      with Some p trans [OF \<open>R m m'\<close> refl] show ?thesis
        by (simp add: bind_op_def)
    qed
  qed
qed

lemma lends_seq: "kt f \<Longrightarrow> ln l g \<Longrightarrow> ln l (seq_op f g)"
  unfolding seq_op_def by (rule lends_bind)

lemma lends_if: "(c \<Longrightarrow> ln l f) \<Longrightarrow> (\<not> c \<Longrightarrow> ln l g) \<Longrightarrow> ln l (if c then f else g)"
  by simp

lemma lends_give: "g \<le> l \<Longrightarrow> ln l (seq_op (give_gas g) (ret x))"
  by (auto simp: lends_with_def seq_op_def bind_op_def give_gas_def upd_op_def ret_def
      intro!: exI [of _ g] R_refl)

lemma keeps_take:
  assumes "\<And>l. ln l (f l)"
  shows "kt (bind_op (get_op ac_gas) (\<lambda>gas. bind_op (take_gas (call_gas gas limit)) f))"
    and "kt (bind_op (get_op ac_gas) (\<lambda>gas. bind_op (take_gas gas) f))"
proof -
  have taken: "f l (m\<lparr>ac_gas := ac_gas m - l\<rparr>) = None \<Longrightarrow> \<not> returns"
    "f l (m\<lparr>ac_gas := ac_gas m - l\<rparr>) = Some (r, m') \<Longrightarrow> R m m'" if "l \<le> ac_gas m" for l m r m'
    using assms [of l, unfolded lends_with_def, THEN spec, of "m\<lparr>ac_gas := ac_gas m - l\<rparr>"] that
    by (auto dest: R_lent)
  note taken [OF call_gas_le] taken [OF order_refl]
  then show "kt (bind_op (get_op ac_gas) (\<lambda>gas. bind_op (take_gas (call_gas gas limit)) f))"
    and "kt (bind_op (get_op ac_gas) (\<lambda>gas. bind_op (take_gas gas) f))"
    by (auto simp: keeps_with_def bind_op_def get_op_def take_gas_def split: option.split)
qed

subsection \<open>Nested calls\<close>

lemma call_enter:
  assumes "exec_with returns C V F exec" and G: "fr_logfree F \<Longrightarrow> fr_logfree G" "fr_depth G = fr_depth F"
  shows "call_with returns C G (enter_code V exec G)"
  unfolding call_with_def
proof
  fix act :: activation
  let ?act = "act\<lparr>ac_state := es_PushError (ac_state act) (ensureStackDepth V (fr_depth G))\<rparr>"
  let ?G = "G\<lparr>fr_depth := fr_depth G + 1\<rparr>"
  have pushed: "C G act ?act"
    by (intro C_state S_pushed)
  show "case enter_code V exec G act of None \<Rightarrow> \<not> returns | Some (r, act') \<Rightarrow> C G act act'"
  proof (cases "st_error (ac_state ?act) = None \<and> fr_code G \<noteq> []")
    case False
    with pushed show ?thesis
      by (cases "st_error (ac_state ?act)") (simp_all add: enter_code_def Let_def return_call_def)
  next
    case True
    then have "ensureStackDepth V (fr_depth G) = None"
      by (auto dest: ensureStackDepth_error)
    then have "subframe V F ?G"
      using G by (simp add: subframe_def)
    then have ran: "case exec ?G ?act of None \<Rightarrow> \<not> returns | Some (r, act') \<Rightarrow> C ?G ?act act'"
      using assms(1) unfolding exec_with_def by blast
    have lifted: "C G act act'" if "C ?G ?act act'" for act'
      using C_trans [OF pushed C_frame [OF that]] by simp
    from True ran lifted show ?thesis
      by (auto simp: enter_code_def Let_def return_call_def split: option.splits res.splits)
  qed
qed

lemma call_after_steps:
  assumes "call_with returns C G call" and "\<And>st. S st (f st)"
  shows "call_with returns C G (\<lambda>act. call (act\<lparr>ac_state := f (ac_state act)\<rparr>))"
  unfolding call_with_def
proof
  fix act :: activation
  have "C G act (act\<lparr>ac_state := f (ac_state act)\<rparr>)"
    by (intro C_state assms)
  then show "case call (act\<lparr>ac_state := f (ac_state act)\<rparr>) of
      None \<Rightarrow> \<not> returns | Some (r, act') \<Rightarrow> C G act act'"
    using assms(1) [unfolded call_with_def, THEN spec, of "act\<lparr>ac_state := f (ac_state act)\<rparr>"]
    by (auto split: option.splits intro: C_trans)
qed

lemma call_vm_call:
  assumes "exec_with returns C V F exec" and "fr_logfree F \<Longrightarrow> fr_logfree G" "fr_depth G = fr_depth F"
  shows "call_with returns C G (vm_call X V exec G)"
proof -
  let ?f = "\<lambda>st. case transfer X st (fr_caller G) (fr_callee G) (fr_value G) of (e, st') \<Rightarrow> es_PushError st' e"
  have "S st (?f st)" for st
    using S_transfer [of st "fr_caller G" "fr_callee G" "fr_value G"]
    by (auto intro: S_push split: prod.split)
  from call_after_steps [OF call_enter [OF assms] this]
  have "call_with returns C G (\<lambda>act. enter_code V exec G (act\<lparr>ac_state := ?f (ac_state act)\<rparr>))" .
  moreover have "vm_call X V exec G = (\<lambda>act. enter_code V exec G (act\<lparr>ac_state := ?f (ac_state act)\<rparr>))"
    by (simp add: fun_eq_iff vm_call_def split: prod.split)
  ultimately show ?thesis
    by simp
qed

lemma call_create:
  assumes "exec_with returns C V F exec"
  shows "\<exists>G. (fr_logfree F \<longrightarrow> fr_logfree G) \<and> call_with returns C G (create_call X V exec F a input v)"
proof -
  let ?G = "\<lparr>fr_caller = fr_callee F, fr_callee = a, fr_code = input, fr_input = input,
    fr_value = v, fr_depth = fr_depth F, fr_logfree = fr_logfree F\<rparr>"
  have "call_with returns C ?G (\<lambda>act. vm_call X V exec ?G (act\<lparr>ac_state := create X (ac_state act) a\<rparr>))"
    by (intro call_after_steps call_vm_call assms S_create) simp_all
  then show ?thesis
    by (intro exI [of _ ?G]) (simp add: create_call_def [abs_def])
qed

lemma call_native: "call_with returns C F (native_call X a F args)"
  unfolding call_with_def
proof
  fix act :: activation
  obtain r st gas where ran: "ExecuteNativeContract X a (ac_state act) (fr_callee F) args (ac_gas act) = (r, st, gas)"
    by (cases "ExecuteNativeContract X a (ac_state act) (fr_callee F) args (ac_gas act)")
  then have "S (ac_state act) st" and gas: "gas \<le> ac_gas act"
    using registered_native(2) [of X a] S_native [of a]
    by (auto simp: ExecuteNativeContract_def intro: S_refl split: option.splits prod.splits res.splits if_splits)
  then have "S (ac_state act) (es_PushError st e)" for e
    by (intro S_push)
  then have "C F act (act\<lparr>ac_state := es_PushError st e\<rparr>)" for e
    by (rule C_state)
  moreover have "C F (act\<lparr>ac_state := t\<rparr>) (act\<lparr>ac_state := t, ac_gas := gas\<rparr>)" for t
    using gas by (intro C_gas) simp
  ultimately have "C F act (act\<lparr>ac_state := es_PushError st e, ac_gas := gas\<rparr>)" for e
    by (rule C_trans)
  from this this [of None] ran
  show "case native_call X a F args act of None \<Rightarrow> \<not> returns | Some (r, act') \<Rightarrow> C F act act'"
    by (auto simp: native_call_def split: res.split prod.split)
qed

lemma call_contract:
  assumes "exec_with returns C V F exec"
  shows "\<exists>G. (fr_logfree F \<longrightarrow> fr_logfree G) \<and>
    call_with returns C G (run_contract X V exec k (call_frame F k a code args v))"
proof -
  let ?G = "call_frame F k a code args v"
  have G: "fr_logfree F \<Longrightarrow> fr_logfree ?G" "fr_depth ?G = fr_depth F"
    by (cases k; simp add: call_frame_def Let_def)+
  then show ?thesis
    using call_vm_call [OF assms G] call_enter [OF assms G]
    by (auto simp: run_contract_def delegateCall_def)
qed

lemma keeps_nested:
  assumes "\<exists>G. (fr_logfree F \<longrightarrow> fr_logfree G) \<and> call_with returns C G call"
    and fin: "\<And>out st. S st (fin out st)"
  shows "kp (\<lambda>(out, callErr, left). left \<le> gas) (nested X opts gas call fin)"
  unfolding keeps_with_def
proof
  fix m :: machine
  let ?child = "child_activation opts gas m"
  from assms(1) obtain G where G: "fr_logfree F \<Longrightarrow> fr_logfree G"
    and call: "case call ?child of None \<Rightarrow> \<not> returns | Some (r, act) \<Rightarrow> C G ?child act"
    unfolding call_with_def by blast
  show "case nested X opts gas call fin m of None \<Rightarrow> \<not> returns
    | Some (r, m') \<Rightarrow> R m m' \<and> (\<forall>x. r = Ok x \<longrightarrow> (case x of (out, callErr, left) \<Rightarrow> left \<le> gas))"
  proof (cases "call ?child")
    case None
    with call show ?thesis
      by (simp add: nested_def)
  next
    case (Some p)
    obtain r act where p: "p = (r, act)"
      by (cases p)
    with Some call have C: "C G ?child act"
      by simp
    then have steps: "S (es_NewCache (ac_state m) opts) (ac_state act)" and gas: "ac_gas act \<le> gas"
      using C_steps [OF C] C_down [OF C] by (simp_all add: child_activation_def)
    have finished: "S (es_NewCache (ac_state m) opts) (fin out (ac_state act))" for out
      by (rule S_trans [OF steps fin])
    have after: "R m (after_child m act st)" if "S (ac_state m) st" for st
      using C G that by (rule R_child)
    have committed: "S (ac_state m) st"
      if "commit_child X (ac_state m) e (ac_state act) (fin out (ac_state act)) = (q, st)" for e out q st
      using that S_adopt [OF steps] S_sync [OF finished]
      by (cases e) (auto simp: commit_child_def)
    from p Some S_adopt [OF steps] gas show ?thesis
      by (auto simp: nested_def intro!: after split: res.splits prod.splits dest!: committed)
  qed
qed

lemma lends_nested:
  assumes "\<exists>G. (fr_logfree F \<longrightarrow> fr_logfree G) \<and> call_with returns C G call"
    and "\<And>out st. S st (fin out st)"
    and "\<And>out e left. left \<le> gas \<Longrightarrow> ln gas (h out e left)"
  shows "ln gas (bind_op (nested X opts gas call fin) (\<lambda>(out, e, left). h out e left))"
  using keeps_nested [OF assms(1,2)] by (rule lends_bind) (auto intro: assms(3))

lemma lends_finish: "left \<le> l \<Longrightarrow> ln l (finish_call V ro rs out e left)"
  unfolding finish_call_def and_next_def
  by (cases e) (auto intro!: lends_seq lends_give keeps simp: write_output_def)

lemma keeps_new_address: "kp (derived_address X) (new_address X V F c)"
proof -
  have "derived_address X (NewContractAddress (sha256_Sum X) a n)"
    "derived_address X (NewContractAddress2 (keccak256 X) a salt code)" for a n salt code
    unfolding derived_address_def by blast+
  then show ?thesis
    unfolding new_address_def by (intro keeps keeps_ret_with keeps_upd R_sequence)
qed

lemma keeps_create_with:
  assumes "exec_with returns C V F exec"
  shows "kt (create_with X V exec F c v)"
proof -
  have "kt (create_nested X V exec F a input v)" if "derived_address X a" for a input v
    using that unfolding create_nested_def
    by (intro keeps_take lends_nested call_create assms S_InitCode lends_give)
  then show ?thesis
    unfolding create_with_def
    by (intro keeps_bind2 keeps_bind keeps_seq keeps_bind_with [OF keeps_new_address] keeps) (auto intro!: keeps)
qed

lemma keeps_CREATE: "exec_with returns C V F exec \<Longrightarrow> kt (exec_CREATE X V exec F c)"
  unfolding exec_CREATE_def by (intro keeps keeps_create_with)

lemma keeps_target [keeps]: "kt (ensure_target X F k a)"
  unfolding ensure_target_def by (intro keeps)

lemma keeps_call_address:
  assumes "exec_with returns C V F exec"
  shows "kt (call_address X V exec F k gasLimit a)"
proof -
  have native: "\<exists>G. (fr_logfree F \<longrightarrow> fr_logfree G) \<and> call_with returns C G (native_call X a F args)" for a args
    using call_native by blast
  have "ln l (call_body X V exec F k a args l ro rs)" for a args l ro rs
    unfolding call_body_def
    by (intro lends_if lends_seq lends_bind [where P = "\<lambda>_. True"] lends_nested native call_contract assms
        lends_finish S_refl keeps lends_keeps) auto
  then show ?thesis
    unfolding call_address_def by (intro keeps keeps_take keeps_upd R_value)
qed

lemma keeps_CALL: "exec_with returns C V F exec \<Longrightarrow> kt (exec_CALL X V exec F k)"
  unfolding exec_CALL_def by (intro keeps keeps_call_address)

theorem keeps_step:
  assumes "exec_with returns C V F exec"
  shows "kt (step X V exec F)"
proof -
  have "kt (exec_op X V exec F op)" for op
    using keeps_CREATE [OF assms] keeps_CALL [OF assms] by (cases op) (auto intro!: keeps)
  then show ?thesis
    unfolding step_def by (intro keeps)
qed

end

end
