(* ===== verification/Evm_Contract.thy ===== *)
theory Evm_Contract
  imports Evm_Relations Transaction
begin

section \<open>What a run may do\<close>

text \<open>
  The first relation: a run works on the state only through its interface, only appends logs to the events
  (none under a log-free sink), and never makes gas; its memory and stack stay within their bounds. For
  whole calls this is the contract \<open>vm_ok\<close> that the chaincode's results rest on.
\<close>

definition uses :: "('pk, 'z) externals_scheme \<Rightarrow> frame \<Rightarrow> 'a activation_scheme \<Rightarrow> 'b activation_scheme \<Rightarrow> bool" where
  "uses X F a b \<longleftrightarrow> evm_steps X (ac_state a) (ac_state b) \<and>
     (\<exists>logs. EventCache (ac_sink b) = EventCache (ac_sink a) @ map event_of_log logs \<and> (fr_logfree F \<longrightarrow> logs = [])) \<and>
     ac_gas b \<le> ac_gas a"

definition stack_limit :: "vm \<Rightarrow> nat" where
  "stack_limit V = max (unat (DataStackInitialCapacity (vm_params V)))
     (if DataStackMaxDepth (vm_params V) = 0 then MaxInt32 else unat (DataStackMaxDepth (vm_params V)))"

definition bounded :: "vm \<Rightarrow> machine \<Rightarrow> bool" where
  "bounded V m \<longleftrightarrow> memory_ok (mc_memory m) \<and> length (mc_stack m) \<le> mc_slots m \<and> mc_slots m \<le> stack_limit V \<and>
     0 \<le> mc_pc m"

definition runs_to :: "('pk, 'z) externals_scheme \<Rightarrow> vm \<Rightarrow> frame \<Rightarrow> machine \<Rightarrow> machine \<Rightarrow> bool" where
  "runs_to X V F m m' \<longleftrightarrow> uses X F m m' \<and> (bounded V m \<longrightarrow> bounded V m')"

lemma uses_refl: "ac_state b = ac_state a \<Longrightarrow> ac_sink b = ac_sink a \<Longrightarrow> ac_gas b = ac_gas a \<Longrightarrow> uses X F a b"
  by (auto simp: uses_def intro: exI [of _ "[]"])

lemma uses_trans: "uses X F a b \<Longrightarrow> uses X F b c \<Longrightarrow> uses X F a c"
  unfolding uses_def
  by (elim conjE exE, intro conjI)
    (auto intro: rtranclp_trans order_trans exI [of _ "l1 @ l2" for l1 l2] simp flip: map_append)

lemma uses_state: "evm_steps X (ac_state a) st \<Longrightarrow> uses X F a (a\<lparr>ac_state := st\<rparr>)"
  by (auto simp: uses_def intro: exI [of _ "[]"])

lemma uses_gas: "g \<le> ac_gas a \<Longrightarrow> uses X F a (a\<lparr>ac_gas := g\<rparr>)"
  by (auto simp: uses_def intro: exI [of _ "[]"])

lemma uses_lent:
  assumes "uses X F (m\<lparr>ac_gas := ac_gas m - l\<rparr>) (m' :: machine)" and "l \<le> ac_gas m" and "g \<le> l"
  shows "uses X F (m :: machine) (m'\<lparr>ac_gas := ac_gas m' + g\<rparr>)"
proof -
  have "ac_gas m' \<le> ac_gas m - l"
    using assms(1) by (simp add: uses_def)
  then have "unat (ac_gas m') + unat g \<le> unat (ac_gas m)"
    using assms(2,3) by (simp add: word_le_nat_alt unat_sub)
  then have "ac_gas m' + g \<le> ac_gas m"
    using unat_less_size [of "ac_gas m"] by (simp add: word_le_nat_alt unat_word_ariths)
  with assms(1) show ?thesis
    by (simp add: uses_def)
qed

lemma stack_ensureCapacity_bound:
  assumes "stack_ensureCapacity (DataStackMaxDepth (vm_params V)) n slots = Some k" and "slots \<le> stack_limit V"
  shows "n \<le> k" and "k \<le> stack_limit V"
  using assms
  by (auto simp: stack_ensureCapacity_def stack_limit_def word_neq_0_conv split: if_splits)

interpretation world: machine_relation X "evm_steps X" V F False "runs_to X V F" "uses X" for X V F
proof
  fix m :: machine and st
  assume "evm_steps X (ac_state m) st"
  then show "runs_to X V F m (m\<lparr>ac_state := st\<rparr>)"
    by (simp add: runs_to_def uses_state bounded_def)
next
  fix m :: machine and log
  assume "\<not> fr_logfree F"
  then show "runs_to X V F m (m\<lparr>ac_sink := snd (em_Log X (ac_sink m) log)\<rparr>)"
    by (auto simp: runs_to_def uses_def em_Log_eq bounded_def intro: exI [of _ "[log]"])
next
  fix m :: machine and act :: activation and G opts gas st
  assume "uses X G (child_activation opts gas m) act" and "fr_logfree F \<Longrightarrow> fr_logfree G"
    and "evm_steps X (ac_state m) st"
  then show "runs_to X V F m (after_child m act st)"
    by (auto simp: runs_to_def uses_def child_activation_def after_child_def bounded_def)
next
  fix m m' :: machine and l g :: "64 word"
  assume "runs_to X V F (m\<lparr>ac_gas := ac_gas m - l\<rparr>) m'" and "l \<le> ac_gas m" "g \<le> l"
  then show "runs_to X V F m (m'\<lparr>ac_gas := ac_gas m' + g\<rparr>)"
    by (auto simp: runs_to_def bounded_def intro: uses_lent)
next
  show "uses X G a b \<Longrightarrow> uses X G b c \<Longrightarrow> uses X G a c" for G and a b c :: activation
    by (rule uses_trans)
qed (auto simp: runs_to_def bounded_def stack_ensureCapacity_bound memory_Read_mem memory_Write_mem
    intro: uses_refl uses_trans uses_gas uses_state, auto simp: uses_def)

subsection \<open>Whole runs\<close>

lemma truncate_simps [simp]:
  "ac_state (activation.truncate m) = ac_state m" "ac_sink (activation.truncate m) = ac_sink m"
  "ac_gas (activation.truncate m) = ac_gas m" "ac_sequence (activation.truncate m) = ac_sequence m"
  by (simp_all add: activation.truncate_def)

lemma new_machine_simps [simp]:
  "ac_state (new_machine V F act) = ac_state act" "ac_sink (new_machine V F act) = ac_sink act"
  "ac_gas (new_machine V F act) = ac_gas act" "ac_sequence (new_machine V F act) = ac_sequence act"
  "mc_pc (new_machine V F act) = 0" "mc_stack (new_machine V F act) = []"
  "mc_value (new_machine V F act) = fr_value F" "mc_returnData (new_machine V F act) = None"
  "mc_memory (new_machine V F act) = DefaultDynamicMemory"
  by (simp_all add: new_machine_def)

lemma uses_cong:
  "ac_state b = ac_state b' \<Longrightarrow> ac_sink b = ac_sink b' \<Longrightarrow> ac_gas b = ac_gas b' \<Longrightarrow> uses X F a b = uses X F a b'"
  by (simp add: uses_def)

lemma uses_new_machine [simp]: "uses X F (new_machine V G act) a = uses X F act a"
  by (simp add: uses_def)

lemma uses_truncate [simp]: "uses X F a (activation.truncate m) = uses X F a m"
  by (simp add: uses_def)

text \<open>A relation between activations that every instruction keeps when the nested executions do is kept
  by whole runs: an induction over the fuel behind \<^const>\<open>run\<close>.\<close>

lemma truncate_new_machine [simp]: "activation.truncate (new_machine V F act) = act"
  by (simp add: activation.truncate_def)

lemma truncate_pc [simp]: "activation.truncate (m\<lparr>mc_pc := p\<rparr>) = activation.truncate m"
  by (simp add: activation.truncate_def)

lemma run_keeps:
  assumes refl: "\<And>F act. C F act act" and trans: "\<And>F a b c. C F a b \<Longrightarrow> C F b c \<Longrightarrow> C F a c"
    and step: "\<And>F exec. exec_with False C V F exec \<Longrightarrow>
      keeps_with False (\<lambda>m m'. C F (activation.truncate m) (activation.truncate m')) (\<lambda>_. True) (step X V exec F)"
    and run: "run X V F m = Some (r, act)"
  shows "C F (activation.truncate m) act"
proof -
  let ?P = "\<lambda>X' V' F (m :: machine) (y :: bytes option res \<times> activation).
    X' = X \<longrightarrow> V' = V \<longrightarrow> C F (activation.truncate m) (snd y)"
  have "?P X V F m (r, act)"
  proof (rule run.raw_induct [where P = ?P, OF _ run])
    fix rec X' V' F and m :: machine and y
    assume IH: "\<And>X V F m y. rec X V F m = Some y \<Longrightarrow> ?P X V F m y"
      and body: "(case st_error (ac_state m) of
          None \<Rightarrow> Option.bind (step X' V' (\<lambda>G act. rec X' V' G (new_machine V' G act)) F m) (\<lambda>(r, m').
            case r of
              Ok Next \<Rightarrow> rec X' V' F (m'\<lparr>mc_pc := mc_pc m' + 1\<rparr>)
            | Ok Continue \<Rightarrow> rec X' V' F m'
            | Ok (Return output) \<Rightarrow> Some (Ok output, activation.truncate m')
            | Err e \<Rightarrow> Some (Err e, activation.truncate m')
            | Panic p \<Rightarrow> Some (Panic p, activation.truncate m'))
        | Some _ \<Rightarrow> Some (Ok (mc_returnData m), activation.truncate m)) = Some y"
    let ?exec = "\<lambda>G act. rec X V G (new_machine V G act)"
    show "?P X' V' F m y"
    proof (intro impI)
      assume here: "X' = X" "V' = V"
      have rec: "C F (activation.truncate m2) (snd y)" if "rec X V F m2 = Some y" for F and m2 :: machine and y
        using IH [OF that] by simp
      have "exec_with False C V F ?exec"
        using rec by (fastforce simp: exec_with_def split: option.split)
      then have stepped: "C F (activation.truncate m) (activation.truncate m')"
        if "step X V ?exec F m = Some (q, m')" for q m'
        using that step [of F "\<lambda>G act. rec X V G (new_machine V G act)"] \<open>exec_with False C V F ?exec\<close>
        unfolding keeps_with_def by (auto dest!: spec [of _ m])
      show "C F (activation.truncate m) (snd y)"
      proof (cases "st_error (ac_state m)")
        case (Some e)
        with body show ?thesis
          by (auto intro: refl)
      next
        case None
        then obtain q m' where q: "step X V ?exec F m = Some (q, m')"
          using body here by (auto simp: Option.bind_eq_Some_conv)
        note now = stepped [OF q]
        have onward: "C F (activation.truncate m) (snd y)"
          if "rec X V F m2 = Some y" "activation.truncate m2 = activation.truncate m'" for m2 :: machine
          using rec [OF that(1)] now that(2) by (auto intro: trans)
        from body None q now onward here show ?thesis
          by (auto split: res.splits outcome.splits)
      qed
    qed
  qed
  then show ?thesis
    by simp
qed

lemma execute_keeps:
  assumes "\<And>F act. C F act act" and "\<And>F a b c. C F a b \<Longrightarrow> C F b c \<Longrightarrow> C F a c"
    and "\<And>F exec. exec_with False C V F exec \<Longrightarrow>
      keeps_with False (\<lambda>m m'. C F (activation.truncate m) (activation.truncate m')) (\<lambda>_. True) (step X V exec F)"
  shows "exec_with False C V F (execute X V)"
  using run_keeps [OF assms] by (fastforce simp: exec_with_def execute_def split: option.split)

lemma run_uses:
  assumes "run X V F m = Some (r, act)"
  shows "uses X F m act"
proof -
  have "keeps_with False (\<lambda>m m'. uses X F (activation.truncate m) (activation.truncate m')) (\<lambda>_. True) (step X V exec F)"
    if "exec_with False (uses X) V F exec" for F exec
    using world.keeps_step [OF that] by (auto simp: keeps_with_def runs_to_def uses_def split: option.splits)
  from run_keeps [of "uses X", OF uses_refl uses_trans this assms] show ?thesis
    by (simp add: uses_def)
qed

lemma execute_uses: "exec_with False (uses X) V F (execute X V)"
  by (auto simp: exec_with_def execute_def split: option.split dest: run_uses)

lemma VM_Call_uses:
  assumes "VM_Call X V F act = Some (r, act')"
  shows "uses X F act act'"
  using world.call_vm_call [OF execute_uses, of F F X V] assms
  by (force simp: call_with_def VM_Call_def split: option.splits)

text \<open>The machine of the chaincode meets the contract its results assume.\<close>

lemma NewVM_Call_ok: "vm_ok X (NewVM_Call X params origin nonce)"
  unfolding vm_ok_def
proof (intro allI impI)
  fix st sink caller callee code input val gas r st' sink'
  assume run: "NewVM_Call X params origin nonce st sink caller callee code input val gas = (r, st', sink')"
  let ?F = "\<lparr>fr_caller = caller, fr_callee = callee, fr_code = code_bytes code, fr_input = input,
    fr_value = val, fr_depth = 0, fr_logfree = False\<rparr>"
  let ?act = "\<lparr>ac_state = st, ac_sink = sink, ac_gas = gas, ac_sequence = 0\<rparr>"
  show "evm_steps X st st' \<and> (\<exists>logs. EventCache sink' = EventCache sink @ map event_of_log logs)"
  proof (cases "VM_Call X (evmcc_vm params origin nonce) ?F ?act")
    case None
    with run show ?thesis
      by (auto simp: NewVM_Call_def intro: exI [of _ "[]"])
  next
    case (Some p)
    obtain q act where p: "p = (q, act)"
      by (cases p)
    have "uses X ?F ?act act"
      using Some p by (intro VM_Call_uses) simp_all
    moreover have "st' = ac_state act" "sink' = ac_sink act"
      using run Some p by (auto simp: NewVM_Call_def split: res.splits prod.splits option.splits)
    ultimately show ?thesis
      by (auto simp: uses_def)
  qed
qed

end
