(* ===== verification/Evm_Alu.thy ===== *)
theory Evm_Alu
  imports Evm_Contract "HOL-Library.Signed_Division"
begin

unbundle bit_operations_syntax

section \<open>Arithmetic against its reference\<close>

text \<open>
  The arithmetic instructions work on \<^verbatim>\<open>big.Int\<close>s and cut the result to 32 bytes. Here is what
  Ethereum defines them to be, on 256-bit words, and that the code computes it where it does: for all but
  the two signed divisions, which round the other way, and \<^verbatim>\<open>BYTE\<close>, whose index must be small.
\<close>

fun alu_arity :: "alu_op \<Rightarrow> nat" where
  "alu_arity ALU_ISZERO = 1" | "alu_arity ALU_NOT = 1"
| "alu_arity ALU_ADDMOD = 3" | "alu_arity ALU_MULMOD = 3"
| "alu_arity _ = 2"

fun alu_reference :: "alu_op \<Rightarrow> word256 \<Rightarrow> word256 \<Rightarrow> word256 \<Rightarrow> word256" where
  "alu_reference ALU_ADD x y z = x + y"
| "alu_reference ALU_MUL x y z = x * y"
| "alu_reference ALU_SUB x y z = x - y"
| "alu_reference ALU_DIV x y z = (if y = 0 then 0 else x div y)"
| "alu_reference ALU_SDIV x y z = (if y = 0 then 0 else word_of_int (sint x sdiv sint y))"
| "alu_reference ALU_MOD x y z = (if y = 0 then 0 else x mod y)"
| "alu_reference ALU_SMOD x y z = (if y = 0 then 0 else word_of_int (sint x smod sint y))"
| "alu_reference ALU_ADDMOD x y z = (if z = 0 then 0 else word_of_int ((uint x + uint y) mod uint z))"
| "alu_reference ALU_MULMOD x y z = (if z = 0 then 0 else word_of_int ((uint x * uint y) mod uint z))"
| "alu_reference ALU_EXP x y z = x ^ unat y"
| "alu_reference ALU_SIGNEXTEND x y z = (if x < 31 then signed_take_bit (8 * unat x + 7) y else y)"
| "alu_reference ALU_LT x y z = (if x < y then 1 else 0)"
| "alu_reference ALU_GT x y z = (if y < x then 1 else 0)"
| "alu_reference ALU_SLT x y z = (if sint x < sint y then 1 else 0)"
| "alu_reference ALU_SGT x y z = (if sint y < sint x then 1 else 0)"
| "alu_reference ALU_EQ x y z = (if x = y then 1 else 0)"
| "alu_reference ALU_ISZERO x y z = (if x = 0 then 1 else 0)"
| "alu_reference ALU_AND x y z = x AND y"
| "alu_reference ALU_OR x y z = x OR y"
| "alu_reference ALU_XOR x y z = x XOR y"
| "alu_reference ALU_NOT x y z = NOT x"
| "alu_reference ALU_BYTE x y z = (if x < 32 then drop_bit (248 - 8 * unat x) y AND 0xff else 0)"
| "alu_reference ALU_SHL x y z = (if x < 256 then push_bit (unat x) y else 0)"
| "alu_reference ALU_SHR x y z = (if x < 256 then drop_bit (unat x) y else 0)"
| "alu_reference ALU_SAR x y z = signed_drop_bit (if x < 256 then unat x else 256) y"

text \<open>Where the code computes the reference.\<close>

definition alu_agrees :: "alu_op \<Rightarrow> word256 \<Rightarrow> word256 \<Rightarrow> bool" where
  "alu_agrees a x y \<longleftrightarrow>
     (a = ALU_SDIV \<or> a = ALU_SMOD \<longrightarrow> 0 \<le> sint x \<or> sint y dvd sint x) \<and>
     (a = ALU_BYTE \<longrightarrow> uint x < 2 ^ 63) \<and> (a = ALU_SIGNEXTEND \<longrightarrow> uint x < 2 ^ 64)"

subsection \<open>The stack with gas\<close>

text \<open>Room to go on: no error, gas for \<open>n\<close> operations, and the slice holds the stack.\<close>

definition ready :: "nat \<Rightarrow> machine \<Rightarrow> bool" where
  "ready n m \<longleftrightarrow> n < unat (ac_gas m) \<and> length (mc_stack m) \<le> mc_slots m \<and> mc_slots m \<le> MaxInt32"

definition popped :: "nat \<Rightarrow> machine \<Rightarrow> machine" where
  "popped n m = m\<lparr>mc_stack := drop n (mc_stack m), ac_gas := ac_gas m - word_of_nat n\<rparr>"

lemma popped_0: "popped 0 m = m"
  by (simp add: popped_def)

lemma popped_popped: "popped n (popped k m) = popped (n + k) m"
  by (simp add: popped_def)

lemma gas_minus: "n \<le> unat (g :: 64 word) \<Longrightarrow> unat (g - word_of_nat n) = unat g - n"
  using unat_less_size [of g] by (simp add: unat_sub unat_of_nat take_bit_eq_mod word_le_nat_alt)

lemma ready_popped: "ready (n + k) m \<Longrightarrow> ready n (popped k m)"
  by (auto simp: ready_def popped_def gas_minus)

lemma useGas_ready: "ready (Suc n) m \<Longrightarrow> stack_useGas GasStackOp m = m\<lparr>ac_gas := ac_gas m - 1\<rparr>"
  by (simp add: stack_useGas_def GasStackOp_def ready_def word_less_nat_alt)

lemma Pop_ready:
  assumes "ready (Suc n) m" and "mc_stack m = d # ds"
  shows "Pop m = Some (Ok d, popped (Suc 0) m)"
  using assms by (simp add: Pop_def stack_Pop_def Let_def useGas_ready popped_def)

text \<open>After a pop there is room for a push.\<close>

definition pushed :: "word256 \<Rightarrow> machine \<Rightarrow> machine" where
  "pushed w m = m\<lparr>mc_stack := w # mc_stack m, ac_gas := ac_gas m - 1\<rparr>"

lemma Push_ready:
  assumes "ready (Suc n) m" and "length (mc_stack m) < mc_slots m"
  shows "Push V w m = Some (Ok (), pushed w m)"
  using assms(2) assms(1) [unfolded ready_def]
  by (simp add: Push_def upd_op_def stack_Push_def Let_def useGas_ready [OF assms(1)] pushed_def
      stack_ensureCapacity_def)

text \<open>The pops of an instruction as one function of the words on the stack.\<close>

lemma bind_Pop:
  assumes "ready (Suc n) m" and "mc_stack m = d # ds"
  shows "bind_op Pop f m = f d (popped (Suc 0) m)"
  by (simp add: bind_op_def Pop_ready [OF assms])

lemma bind_PopBigInt:
  assumes "ready (Suc n) m" and "mc_stack m = d # ds"
  shows "bind_op PopBigInt f m = f (uint d) (popped (Suc 0) m)"
    and "bind_op PopBigIntSigned f m = f (sint d) (popped (Suc 0) m)"
  by (simp_all add: PopBigInt_def PopBigIntSigned_def bind_op_def ret_def Pop_ready [OF assms] S256_uint)

lemma bind_PopU64:
  assumes "ready (Suc n) m" and "mc_stack m = d # ds" and "uint d < 2 ^ 64"
  shows "bind_op PopU64 f m = f (ucast d) (popped (Suc 0) m)"
    and "bind_op Pop64 g m = g (sint (ucast d :: 64 word)) (popped (Suc 0) m)"
  using assms(3)
  by (simp_all add: PopU64_def Pop64_def bind_op_def ret_def Pop_ready [OF assms(1,2)] Is64BitOverflow_iff
      Uint64FromWord256_def Int64FromWord256_def)

lemma stack_popped [simp]: "mc_stack (popped n m) = drop n (mc_stack m)"
  by (simp add: popped_def)

lemma Push_popped:
  assumes "ready (n + k) m" and "0 < n" and "0 < k" and "k \<le> length (mc_stack m)"
  shows "Push V w (popped k m) = Some (Ok (), pushed w (popped k m))"
proof (rule Push_ready)
  show "ready (Suc (n - 1)) (popped k m)"
    using ready_popped [OF assms(1)] assms(2) by simp
  show "length (mc_stack (popped k m)) < mc_slots (popped k m)"
    using assms by (auto simp: ready_def popped_def)
qed

subsection \<open>Words for the exact results\<close>

lemma word_of_big_pow: "word_of_big (uint (x :: word256) ^ n) = x ^ n"
  by (simp add: word_of_big_eq)

lemma big_Div_uint: "word_of_big (big_Div (uint x) (uint y)) = (x :: word256) div y"
  if "y \<noteq> 0"
proof -
  have "0 < uint y"
    using that uint_ge_0 [of y] by (metis order_le_less uint_0_iff)
  then have "big_Div (uint x) (uint y) = uint (x div y)"
    using that by (simp add: big_Div_def uint_div_distrib)
  then show ?thesis
    by simp
qed

lemma big_Mod_uint: "word_of_big (big_Mod (uint x) (uint y)) = (x :: word256) mod y"
proof -
  have "big_Mod (uint x) (uint y) = uint (x mod y)"
    by (simp add: big_Mod_def uint_mod_distrib)
  then show ?thesis
    by simp
qed

text \<open>The Euclidean division is the truncating one where the dividend is not negative or the division is
  exact.\<close>

lemma big_Div_sdiv:
  assumes "y \<noteq> 0" and "0 \<le> x \<or> y dvd x"
  shows "big_Div x y = x sdiv y"
proof (cases "0 \<le> x")
  case True
  then show ?thesis
    by (cases "x = 0") (simp_all add: big_Div_def signed_divide_int_def)
next
  case False
  then obtain k where k: "x = y * k"
    using assms(2) by (auto elim: dvdE)
  have "x = \<bar>y\<bar> * (sgn y * k)"
    using mult_sgn_abs [of y] by (simp add: k mult.commute mult.left_commute)
  then have quotient: "x div \<bar>y\<bar> = sgn y * k"
    using assms(1) by (metis abs_eq_0_iff nonzero_mult_div_cancel_left)
  have "\<bar>x\<bar> div \<bar>y\<bar> = \<bar>k\<bar>"
    using assms(1) by (simp add: k abs_mult)
  then have "x sdiv y = (sgn y * sgn y) * (sgn k * \<bar>k\<bar>)"
    by (simp only: signed_divide_int_def) (simp add: k sgn_mult mult.commute mult.left_commute)
  moreover have "big_Div x y = (sgn y * sgn y) * k"
    by (simp only: big_Div_def quotient mult.assoc)
  ultimately show ?thesis
    by (simp add: sgn_mult_abs)
qed

text \<open>The remainders agree under the same condition.\<close>

lemma big_Mod_smod:
  assumes "y \<noteq> 0" and "0 \<le> x \<or> y dvd x"
  shows "big_Mod x y = x smod y"
proof (cases "0 \<le> x")
  case True
  then show ?thesis
    by (cases "x = 0") (simp_all add: big_Mod_def signed_modulo_int_def)
next
  case False
  then have "y dvd x"
    using assms(2) by simp
  then have "x mod \<bar>y\<bar> = 0" "\<bar>x\<bar> mod \<bar>y\<bar> = 0"
    by simp_all
  then show ?thesis
    by (simp add: big_Mod_def signed_modulo_int_def)
qed

text \<open>Extending the sign of a number that is given by its low bytes.\<close>

lemma SignExtend_signed: "word_of_big (SignExtend back (uint (x :: word256))) = signed_take_bit (unat back * 8 + 7) x"
proof (rule bit_word_eqI)
  fix n
  assume "n < LENGTH(256)"
  let ?s = "unat back * 8 + 7"
  have "bit (SignExtend back (uint x)) n = (if bit (uint x) ?s then bit (uint x) n \<or> \<not> n < ?s else bit (uint x) n \<and> n < ?s)"
    by (auto simp: SignExtend_def Let_def bit_simps simp flip: mask_eq_exp_minus_1)
  then have "bit (SignExtend back (uint x)) n = bit x (if n < ?s then n else ?s)"
    by (auto simp: bit_uint_iff dest: bit_imp_le_length)
  with \<open>n < LENGTH(256)\<close> show "bit (word_of_big (SignExtend back (uint x))) n = bit (signed_take_bit ?s x) n"
    by (auto simp: word_of_big_eq bit_simps min_def)
qed

text \<open>The byte at an index.\<close>

lemma nth_be_bytes: "i < n \<Longrightarrow> be_bytes n v ! i = word_of_nat (v div 256 ^ (n - 1 - i))"
proof (induction n v arbitrary: i rule: be_bytes.induct)
  case (2 n v)
  show ?case
  proof (cases "i < n")
    case True
    with 2 have "be_bytes n (v div 256) ! i = word_of_nat (v div 256 div 256 ^ (n - 1 - i))"
      by simp
    moreover have "v div 256 div 256 ^ (n - 1 - i) = v div 256 ^ (n - i)"
      using True by (simp add: div_mult2_eq [symmetric] Suc_diff_Suc flip: power_Suc)
    ultimately show ?thesis
      using True by (simp add: nth_append)
  next
    case False
    with "2.prems" show ?thesis
      by (simp add: nth_append less_Suc_eq)
  qed
qed simp

lemma Word256_byte:
  assumes "i < 32"
  shows "Int64ToWord256 (uint (Word256_Bytes w ! i)) = drop_bit (248 - 8 * i) w AND 0xff"
proof -
  have "Word256_Bytes w ! i = word_of_nat (unat w div 256 ^ (31 - i))"
    using assms by (simp add: Word256_Bytes_def nth_be_bytes)
  moreover have "(256 :: nat) ^ (31 - i) = 2 ^ (8 * (31 - i))"
    by (simp add: power_mult)
  moreover have "8 * (31 - i) = 248 - 8 * i"
    by simp
  ultimately have b: "unat (Word256_Bytes w ! i) = unat w div 2 ^ (248 - 8 * i) mod 256"
    by (simp add: unat_of_nat take_bit_eq_mod)
  have "Int64ToWord256 (uint (Word256_Bytes w ! i)) = ucast (Word256_Bytes w ! i)"
    by (rule bit_word_eqI) (auto simp: Int64ToWord256_def bit_simps dest: bit_imp_le_length)
  moreover have "unat (ucast c :: word256) = unat (c :: byte)" for c
    using unat_byte_less [of c] by (simp add: unsigned_ucast_eq take_bit_nat_eq_self)
  ultimately have "unat (Int64ToWord256 (uint (Word256_Bytes w ! i))) = unat (Word256_Bytes w ! i)"
    by simp
  moreover have "unat (drop_bit k w AND 0xff) = unat w div 2 ^ k mod 256" for k
  proof -
    have "drop_bit k w AND 0xff = take_bit 8 (drop_bit k w)"
      by (simp add: take_bit_eq_mask mask_eq_exp_minus_1)
    then have "unat (drop_bit k w AND 0xff) = take_bit 8 (drop_bit k (unat w))"
      by (simp only: unsigned_take_bit_eq unat_drop_bit_eq)
    then show ?thesis
      by (simp add: take_bit_eq_mod drop_bit_eq_div)
  qed
  ultimately show ?thesis
    using b by (intro word_unat_eq_iff [THEN iffD2]) (simp only:)
qed

subsection \<open>The instructions compute the reference\<close>

definition alu_cost :: "alu_op \<Rightarrow> word256 \<Rightarrow> nat" where
  "alu_cost a x = (if a = ALU_SIGNEXTEND \<and> \<not> x < 31 then 1 else alu_arity a + 1)"

text \<open>The machine with the arguments replaced by a result.\<close>

definition alu_done :: "alu_op \<Rightarrow> word256 \<Rightarrow> word256 \<Rightarrow> machine \<Rightarrow> machine" where
  "alu_done a x w m =
     m\<lparr>mc_stack := w # drop (alu_arity a) (mc_stack m), ac_gas := ac_gas m - word_of_nat (alu_cost a x)\<rparr>"

lemma pushed_popped: "pushed w (popped n m) =
    m\<lparr>mc_stack := w # drop n (mc_stack m), ac_gas := ac_gas m - word_of_nat (n + 1)\<rparr>"
  by (simp add: pushed_def popped_def)

lemma pops2:
  assumes "ready 3 m" and "mc_stack m = x # y # ds"
  shows "bind2 PopBigInt PopBigInt f m = f (uint x) (uint y) (popped 2 m)"
    and "bind2 PopBigIntSigned PopBigIntSigned f m = f (sint x) (sint y) (popped 2 m)"
    and "bind2 PopBigInt PopBigIntSigned f m = f (uint x) (sint y) (popped 2 m)"
    and "bind2 Pop Pop g m = g x y (popped 2 m)"
proof -
  have 1: "ready (Suc 2) m" and 2: "ready (Suc 1) (popped (Suc 0) m)" "mc_stack (popped (Suc 0) m) = y # ds"
    using assms ready_popped [of 2 "Suc 0" m] by (simp_all add: eval_nat_numeral)
  show "bind2 PopBigInt PopBigInt f m = f (uint x) (uint y) (popped 2 m)"
    and "bind2 PopBigIntSigned PopBigIntSigned f m = f (sint x) (sint y) (popped 2 m)"
    and "bind2 PopBigInt PopBigIntSigned f m = f (uint x) (sint y) (popped 2 m)"
    and "bind2 Pop Pop g m = g x y (popped 2 m)"
    by (simp_all add: bind2_def bind_PopBigInt [OF 1 assms(2)] bind_PopBigInt [OF 2] bind_Pop [OF 1 assms(2)]
        bind_Pop [OF 2] popped_popped eval_nat_numeral)
qed

lemma pops3:
  assumes "ready 4 m" and "mc_stack m = x # y # z # ds"
  shows "bind3 PopBigInt PopBigInt PopBigInt f m = f (uint x) (uint y) (uint z) (popped 3 m)"
proof -
  have 1: "ready (Suc 3) m" and 2: "ready 3 (popped (Suc 0) m)" "mc_stack (popped (Suc 0) m) = y # z # ds"
    using assms ready_popped [of 3 "Suc 0" m] by (simp_all add: eval_nat_numeral)
  show ?thesis
    by (simp add: bind3_def bind_PopBigInt [OF 1 assms(2)] pops2 [OF 2] popped_popped)
qed

lemma Push_popped_done:
  assumes "ready (k + 1) m" and "0 < k" and "k \<le> length (mc_stack m)"
  shows "Push V w (popped k m) =
    Some (Ok (), m\<lparr>mc_stack := w # drop k (mc_stack m), ac_gas := ac_gas m - word_of_nat (k + 1)\<rparr>)"
  using Push_popped [of 1 k m V w] assms by (simp add: pushed_popped add.commute)

lemma signed_drop_bit_word: "word_of_big (drop_bit n (sint (x :: word256))) = signed_drop_bit n x"
  by (simp add: word_of_big_eq flip: sint_signed_drop_bit_eq)

lemma word_of_big_arith:
  "word_of_big (uint (x :: word256) + uint y) = x + y" "word_of_big (uint x * uint y) = x * y"
  "word_of_big (uint x - uint y) = x - y" "word_of_big 0 = 0" "word_of_big (- 1) = - 1"
  by (simp_all add: word_of_big_eq)

lemma word_of_big_shifts:
  "word_of_big (push_bit n (uint (x :: word256))) = push_bit n x" "word_of_big (drop_bit n (uint x)) = drop_bit n x"
  by (rule bit_word_eqI; auto simp: word_of_big_eq bit_simps dest: bit_imp_le_length)+

lemma uint_less_numeral: "uint (x :: word256) < numeral n \<longleftrightarrow> unat x < numeral n"
  by (simp add: nat_less_iff flip: nat_uint_eq)

lemma signed_drop_all: "signed_drop_bit 256 (x :: word256) = (if sint x < 0 then - 1 else 0)"
  using bit_last_iff [of x] by (simp add: signed_drop_bit_beyond)

lemma alu_shift:
  assumes "a = ALU_SHL \<or> a = ALU_SHR \<or> a = ALU_SAR" and "ready 3 m" and "mc_stack m = x # y # ds"
  shows "exec_alu V a m = Some (Ok (), alu_done a x (alu_reference a x y z) m)"
proof -
  have small: "\<not> 256 \<le> uint x \<longleftrightarrow> x < 256"
    by (simp add: not_le word_less_def)
  note push = Push_popped_done [of 2 m V, unfolded assms(3)]
  show ?thesis
    using assms(1,2) push signed_drop_all [of y] small
    by (elim disjE) (simp_all add: pops2 [OF assms(2,3)] PushBigInt_def word_of_big_arith word_of_big_shifts
        alu_done_def alu_cost_def assms(3) signed_drop_bit_word word_less_def)
qed

lemma alu_binary:
  assumes "a \<in> {ALU_ADD, ALU_MUL, ALU_SUB, ALU_DIV, ALU_MOD, ALU_EXP, ALU_LT, ALU_GT, ALU_SLT, ALU_SGT,
      ALU_EQ, ALU_AND, ALU_OR, ALU_XOR}"
    and "ready 3 m" and "mc_stack m = x # y # ds"
  shows "exec_alu V a m = Some (Ok (), alu_done a x (alu_reference a x y z) m)"
proof -
  note push = Push_popped_done [of 2 m V, unfolded assms(3)]
  have zero: "uint y = 0 \<longleftrightarrow> y = 0"
    by (metis uint_0_iff)
  show ?thesis
    using assms(1,2) push
    by (elim insertE emptyE)
      (simp_all add: pops2 [OF assms(2,3)] PushBigInt_def push_bool_def One256_def Zero256_def word_of_big_arith
        word_of_big_pow big_Div_uint big_Mod_uint zero word_less_def alu_done_def alu_cost_def assms(3))
qed

lemma alu_signed_division:
  assumes "a = ALU_SDIV \<or> a = ALU_SMOD" and "ready 3 m" and "mc_stack m = x # y # ds"
    and agrees: "0 \<le> sint x \<or> sint y dvd sint x"
  shows "exec_alu V a m = Some (Ok (), alu_done a x (alu_reference a x y z) m)"
proof -
  note push = Push_popped_done [of 2 m V, unfolded assms(3)]
  have zero: "sint y = 0 \<longleftrightarrow> y = 0"
    by (rule signed_eq_0_iff)
  show ?thesis
    using assms(1,2) push big_Div_sdiv [OF _ agrees] big_Mod_smod [OF _ agrees]
    by (elim disjE)
      (simp_all add: pops2 [OF assms(2,3)] PushBigInt_def Zero256_def zero word_of_big_eq alu_done_def
        alu_cost_def assms(3))
qed

lemma alu_unary:
  assumes "a = ALU_ISZERO \<or> a = ALU_NOT" and "ready 2 m" and "mc_stack m = x # ds"
  shows "exec_alu V a m = Some (Ok (), alu_done a x (alu_reference a x y z) m)"
proof -
  have 1: "ready (Suc 1) m"
    using assms(2) by (simp add: eval_nat_numeral)
  have "Push V w (popped (Suc 0) m) = Some (Ok (), m\<lparr>mc_stack := w # ds, ac_gas := ac_gas m - 2\<rparr>)" for w
    using Push_popped_done [of "Suc 0" m V w] assms(2,3) by (simp add: eval_nat_numeral)
  then show ?thesis
    using assms(1)
    by (elim disjE)
      (simp_all add: bind_Pop [OF 1 assms(3)] push_bool_def One256_def Zero256_def alu_done_def alu_cost_def assms(3))
qed

lemma alu_ternary:
  assumes "a = ALU_ADDMOD \<or> a = ALU_MULMOD" and "ready 4 m" and "mc_stack m = x # y # z # ds"
  shows "exec_alu V a m = Some (Ok (), alu_done a x (alu_reference a x y z) m)"
proof -
  note push = Push_popped_done [of 3 m V, unfolded assms(3)]
  have zero: "uint z = 0 \<longleftrightarrow> z = 0"
    by (metis uint_0_iff)
  show ?thesis
    using assms(1,2) push
    by (elim disjE)
      (simp_all add: pops3 [OF assms(2,3)] PushBigInt_def Zero256_def zero big_Mod_def word_of_big_eq
        alu_done_def alu_cost_def assms(3))
qed

lemma uint_less_small: "uint (x :: word256) < 2 ^ 64 \<Longrightarrow> unat (ucast x :: 64 word) = unat x"
  by (simp add: unsigned_ucast_eq take_bit_nat_eq_self uint_less_numeral)

lemma alu_SIGNEXTEND:
  assumes "ready 3 m" and "mc_stack m = x # y # ds" and small: "uint x < 2 ^ 64"
  shows "exec_alu V ALU_SIGNEXTEND m = Some (Ok (), alu_done ALU_SIGNEXTEND x (alu_reference ALU_SIGNEXTEND x y z) m)"
proof -
  have 1: "ready (Suc 2) m" and 2: "ready (Suc 1) (popped (Suc 0) m)" "mc_stack (popped (Suc 0) m) = y # ds"
    using assms ready_popped [of 2 "Suc 0" m] by (simp_all add: eval_nat_numeral)
  have "(ucast x :: 64 word) < 31 \<longleftrightarrow> x < 31"
    by (simp add: word_less_nat_alt uint_less_small [OF small])
  moreover have "8 * unat x + 7 = unat x * 8 + 7"
    by simp
  moreover note push = Push_popped_done [of 2 m V, unfolded assms(2)]
  ultimately show ?thesis
    using assms(1)
    by (simp add: bind_PopU64 [OF 1 assms(2) small] bind_PopBigInt [OF 2] PushBigInt_def popped_popped
        SignExtend_signed uint_less_small [OF small] alu_done_def alu_cost_def assms(2) eval_nat_numeral ret_def)
      (simp add: popped_def assms(2))
qed

lemma alu_BYTE:
  assumes "ready 3 m" and "mc_stack m = x # y # ds" and small: "uint x < 2 ^ 63"
  shows "exec_alu V ALU_BYTE m = Some (Ok (), alu_done ALU_BYTE x (alu_reference ALU_BYTE x y z) m)"
proof -
  have 1: "ready (Suc 2) m" and 2: "ready (Suc 1) (popped (Suc 0) m)" "mc_stack (popped (Suc 0) m) = y # ds"
    using assms ready_popped [of 2 "Suc 0" m] by (simp_all add: eval_nat_numeral)
  have small': "uint x < 2 ^ 64"
    using small by simp
  have idx: "sint (ucast x :: 64 word) = int (unat x)"
    using Int64FromWord256_small [OF small] by (simp add: Int64FromWord256_def)
  have pops: "bind2 Pop64 Pop f m = f (int (unat x)) y (popped 2 m)" for f :: "int \<Rightarrow> word256 \<Rightarrow> unit op"
    by (simp only: bind2_def bind_PopU64 [OF 1 assms(2) small'] bind_Pop [OF 2] idx popped_popped)
      (simp add: numeral_2_eq_2)
  have "Int64ToWord256 0 = 0"
    by (simp add: Int64ToWord256_def)
  moreover note push = Push_popped_done [of 2 m V, unfolded assms(2)]
  ultimately show ?thesis
    using assms(1) push Word256_byte [of "unat x" y]
    by (simp add: pops Push64_def word_less_nat_alt alu_done_def alu_cost_def assms(2) del: of_nat_unat)
qed

text \<open>All of them: with its arguments on the stack and gas for them, an instruction replaces the arguments
  by what the reference says.\<close>

lemma exec_alu_reference:
  assumes "ready (alu_arity a + 1) m" and "alu_arity a \<le> length (mc_stack m)"
    and "alu_agrees a (mc_stack m ! 0) (mc_stack m ! 1)"
  shows "exec_alu V a m = Some (Ok (), alu_done a (mc_stack m ! 0)
    (alu_reference a (mc_stack m ! 0) (mc_stack m ! 1) (mc_stack m ! 2)) m)"
proof -
  consider "alu_arity a = 1" | "alu_arity a = 2" | "alu_arity a = 3"
    by (cases a) simp_all
  then show ?thesis
  proof cases
    case 1
    then obtain x ds where s: "mc_stack m = x # ds"
      using assms(2) by (cases "mc_stack m") auto
    have a: "a = ALU_ISZERO \<or> a = ALU_NOT"
      using 1 by (cases a) simp_all
    with assms(1) have "ready 2 m"
      by (elim disjE) (simp_all add: numeral_2_eq_2)
    from alu_unary [OF a this s] show ?thesis
      by (simp add: s)
  next
    case 2
    then obtain x y ds where s: "mc_stack m = x # y # ds"
      using assms(2) by (auto simp: numeral_2_eq_2 Suc_le_length_iff)
    have r: "ready 3 m"
      using assms(1) 2 by simp
    have agrees: "alu_agrees a x y"
      using assms(3) by (simp add: s)
    consider "a = ALU_SHL \<or> a = ALU_SHR \<or> a = ALU_SAR" | "a = ALU_SDIV \<or> a = ALU_SMOD"
      | "a = ALU_SIGNEXTEND" | "a = ALU_BYTE"
      | "a \<in> {ALU_ADD, ALU_MUL, ALU_SUB, ALU_DIV, ALU_MOD, ALU_EXP, ALU_LT, ALU_GT, ALU_SLT, ALU_SGT,
          ALU_EQ, ALU_AND, ALU_OR, ALU_XOR}"
      using 2 by (cases a) simp_all
    then have "exec_alu V a m = Some (Ok (), alu_done a x (alu_reference a x y (mc_stack m ! 2)) m)"
    proof cases
      case 1
      from alu_shift [OF this r s] show ?thesis .
    next
      case 2
      with agrees have "0 \<le> sint x \<or> sint y dvd sint x"
        by (auto simp: alu_agrees_def)
      from alu_signed_division [OF 2 r s this] show ?thesis .
    next
      case 3
      with agrees have "uint x < 2 ^ 64"
        by (auto simp: alu_agrees_def)
      from alu_SIGNEXTEND [OF r s this] 3 show ?thesis
        by (simp only:)
    next
      case 4
      with agrees have "uint x < 2 ^ 63"
        by (auto simp: alu_agrees_def)
      from alu_BYTE [OF r s this] 4 show ?thesis
        by (simp only:)
    next
      case 5
      from alu_binary [OF this r s] show ?thesis .
    qed
    then show ?thesis
      by (simp add: s)
  next
    case 3
    then obtain x y z ds where s: "mc_stack m = x # y # z # ds"
      using assms(2) by (auto simp: numeral_3_eq_3 Suc_le_length_iff)
    have a: "a = ALU_ADDMOD \<or> a = ALU_MULMOD"
      using 3 by (cases a) simp_all
    have "ready 4 m"
      using assms(1) 3 by simp
    from alu_ternary [OF a this s] show ?thesis
      by (simp add: s numeral_2_eq_2)
  qed
qed

subsection \<open>Signed division rounds the other way\<close>

lemma div_neg_not_dvd:
  assumes "x < (0 :: int)" and "0 < y" and "\<not> y dvd x"
  shows "x div y = - (\<bar>x\<bar> div y) - 1" and "x mod y = y - \<bar>x\<bar> mod y"
proof -
  have m: "\<bar>x\<bar> mod y \<noteq> 0"
    using assms(3) by (simp flip: dvd_eq_mod_eq_0)
  have x: "x = - \<bar>x\<bar>"
    using assms(1) by simp
  show "x div y = - (\<bar>x\<bar> div y) - 1"
    using m assms(2) by (subst x) (simp add: zdiv_zminus1_eq_if)
  show "x mod y = y - \<bar>x\<bar> mod y"
    using m by (subst x) (simp add: zmod_zminus1_eq_if)
qed

lemma big_Div_below:
  assumes "x < 0" and "\<not> y dvd x" and "y \<noteq> 0"
  shows "big_Div x y = x sdiv y - sgn y" and "big_Mod x y = x smod y + \<bar>y\<bar>"
  using div_neg_not_dvd [of x "\<bar>y\<bar>"] assms
  by (simp_all add: big_Div_def big_Mod_def signed_divide_int_def signed_modulo_int_def right_diff_distrib)

lemma exec_signed_division_below:
  assumes "ready 3 m" and "mc_stack m = x # y # ds"
    and "sint x < 0" and "y \<noteq> 0" and "\<not> sint y dvd sint x"
  shows "exec_alu V ALU_SDIV m =
      Some (Ok (), alu_done ALU_SDIV x (alu_reference ALU_SDIV x y 0 - word_of_int (sgn (sint y))) m)"
    and "exec_alu V ALU_SMOD m =
      Some (Ok (), alu_done ALU_SMOD x (alu_reference ALU_SMOD x y 0 + word_of_int \<bar>sint y\<bar>) m)"
proof -
  note push = Push_popped_done [of 2 m V, unfolded assms(2)]
  have zero: "sint y \<noteq> 0"
    using assms(4) signed_eq_0_iff [of y] by simp
  show "exec_alu V ALU_SDIV m =
      Some (Ok (), alu_done ALU_SDIV x (alu_reference ALU_SDIV x y 0 - word_of_int (sgn (sint y))) m)"
    and "exec_alu V ALU_SMOD m =
      Some (Ok (), alu_done ALU_SMOD x (alu_reference ALU_SMOD x y 0 + word_of_int \<bar>sint y\<bar>) m)"
    using assms(1,4) push zero big_Div_below [OF assms(3,5) zero]
    by (simp_all add: pops2 [OF assms(1,2)] PushBigInt_def word_of_big_eq alu_done_def alu_cost_def assms(2))
qed

end
