(* ===== verification/Evm_Control.thy ===== *)
theory Evm_Control
  imports Evm_Contract
begin

section \<open>Control flow and invariants of the loop\<close>

text \<open>
  The turns of the loop as a step relation, what holds of every machine the loop reaches, and where the
  program counter can go.
\<close>

inductive turn :: "('pk, 'z) evm_externals_scheme \<Rightarrow> vm \<Rightarrow> frame \<Rightarrow> machine \<Rightarrow> machine \<Rightarrow> bool" for X V F where
  advance: "st_error (ac_state m) = None \<Longrightarrow> step X V (execute X V) F m = Some (Ok Next, m') \<Longrightarrow>
    turn X V F m (m'\<lparr>mc_pc := mc_pc m' + 1\<rparr>)"
| resume: "st_error (ac_state m) = None \<Longrightarrow> step X V (execute X V) F m = Some (Ok Continue, m') \<Longrightarrow>
    turn X V F m m'"

inductive_cases turnE: "turn X V F m m'"

abbreviation reaches :: "('pk, 'z) evm_externals_scheme \<Rightarrow> vm \<Rightarrow> frame \<Rightarrow> machine \<Rightarrow> machine \<Rightarrow> bool" where
  "reaches X V F \<equiv> (turn X V F)\<^sup>*\<^sup>*"

text \<open>A turn does not change what the run returns.\<close>

lemma turn_run: "turn X V F m m' \<Longrightarrow> run X V F m = run X V F m'"
  by (erule turnE; subst run.simps; simp add: execute_def [abs_def])

lemma reaches_run: "reaches X V F m m' \<Longrightarrow> run X V F m = run X V F m'"
  by (induction rule: rtranclp_induct) (auto dest: turn_run)

lemma step_runs_to: "step X V (execute X V) F m = Some (r, m') \<Longrightarrow> runs_to X V F m m'"
  using world.keeps_step [OF execute_uses] by (fastforce simp: keeps_with_def split: option.splits)

lemma turn_runs_to:
  assumes "turn X V F m m'"
  shows "runs_to X V F m m'"
  using assms
proof cases
  case (advance m1)
  from step_runs_to [OF this(3)] advance(1) show ?thesis
    by (auto simp: runs_to_def uses_def bounded_def)
next
  case resume
  from step_runs_to [OF this(2)] show ?thesis .
qed

lemma reaches_runs_to:
  assumes "reaches X V F m m'"
  shows "runs_to X V F m m'"
  using assms
  by (induction rule: rtranclp_induct)
    (auto intro: world.R_refl world.R_trans [OF _ turn_runs_to])

lemma bounded_new_machine: "bounded V (new_machine V F act)"
  by (simp add: bounded_def memory_ok_Default stack_limit_def new_machine_def)

lemma reaches_bounded: "reaches X V F (new_machine V F act) m \<Longrightarrow> bounded V m"
  using reaches_runs_to bounded_new_machine by (fastforce simp: runs_to_def)

subsection \<open>Going on elsewhere\<close>

text \<open>Only a jump goes on without an error and without advancing.\<close>

definition advances :: "outcome op \<Rightarrow> bool" where
  "advances f \<longleftrightarrow> (\<forall>m m'. f m = Some (Ok Continue, m') \<longrightarrow> st_error (ac_state m') \<noteq> None)"

named_theorems advancing "instructions that advance, return or leave an error"

lemma advances_ret [advancing]: "advances (ret Next)" "advances (ret (Return out))"
  by (simp_all add: advances_def ret_def)

lemma advances_bind [advancing]:
  assumes "\<And>x. advances (g x)"
  shows "advances (bind_op f g)"
  using assms by (auto simp: advances_def bind_op_def split: option.splits res.splits)

lemma advances_seq [advancing]: "advances g \<Longrightarrow> advances (seq_op f g)"
  unfolding seq_op_def by (rule advances_bind)

lemma advances_bind2 [advancing]: "(\<And>x y. advances (h x y)) \<Longrightarrow> advances (bind2 f g h)"
  unfolding bind2_def by (intro advances_bind)

lemma advances_bind3 [advancing]: "(\<And>x y z. advances (k x y z)) \<Longrightarrow> advances (bind3 f g h k)"
  unfolding bind3_def by (intro advances_bind advances_bind2)

lemma advances_if [advancing]: "(c \<Longrightarrow> advances f) \<Longrightarrow> (\<not> c \<Longrightarrow> advances g) \<Longrightarrow> advances (if c then f else g)"
  by simp

lemma advances_and_next [advancing]: "advances (and_next f)"
  unfolding and_next_def by (intro advancing)

lemma advances_unless_error [advancing]: "advances f \<Longrightarrow> advances (unless_error f)"
  by (auto simp: advances_def unless_error_def ret_def)

lemma has_text_code_error [simp]: "has_text (code_error c)"
  by (simp add: has_text_def code_error_def)

lemma advances_error [advancing]:
  assumes "has_text e"
  shows "advances (seq_op (PushError_op (Some e)) (ret Continue))"
  using PushError_has_text [OF assms]
  by (auto simp: advances_def seq_op_def bind_op_def PushError_op_def state_upd_def ret_def)

lemma advances_target [advancing]:
  assumes "advances f"
  shows "advances (bind_op (ensure_target X F k a) (\<lambda>ok. if \<not> ok then ret Continue else f))"
proof -
  have "st_error (ac_state m') \<noteq> None" if "ensure_target X F k a m = Some (Ok False, m')" for m m'
    using that PushError_has_text [OF has_text_code_error]
    by (auto simp: ensure_target_def bind_op_def seq_op_def state_op_def ret_def PushError_op_def state_upd_def
        get_op_def split: prod.splits if_splits)
  with assms show ?thesis
    by (auto simp: advances_def bind_op_def ret_def split: option.splits res.splits if_splits)
qed

lemma advances_case [advancing]: "(\<And>a b c. advances (f a b c)) \<Longrightarrow> advances (case p of (a, b, c) \<Rightarrow> f a b c)"
  by (cases p) simp

lemma advances_finish [advancing]: "advances (finish_call V ro rs out e left)"
  unfolding finish_call_def by (intro advancing)

lemma advances_env [advancing]: "advances (exec_env X V F e)"
  by (cases e)
    (auto intro!: advancing simp: exec_EXTCODESIZE_def exec_EXTCODECOPY_def exec_RETURNDATACOPY_def Let_def)

lemma advances_basic [advancing]: "e \<noteq> X_JUMP \<Longrightarrow> e \<noteq> X_JUMPI \<Longrightarrow> advances (exec_basic X V F e)"
  by (cases e) (auto intro!: advancing)

lemma advances_CREATE [advancing]: "advances (exec_CREATE X V exec F c)"
  unfolding exec_CREATE_def create_with_def by (auto intro!: advancing)

lemma advances_call_address: "advances (call_address X V exec F k gasLimit a)"
  unfolding call_address_def call_body_def by (intro advancing)

lemma advances_CALL [advancing]: "advances (exec_CALL X V exec F k)"
  unfolding exec_CALL_def by (intro advancing advances_call_address)

lemma advances_op:
  assumes "op \<noteq> OP_EXEC X_JUMP" and "op \<noteq> OP_EXEC X_JUMPI"
  shows "advances (exec_op X V exec F op)"
  using assms
  by (cases op)
    (auto intro!: advancing simp: exec_PUSH_def exec_LOG_def exec_RETURN_def exec_REVERT_def
      exec_SELFDESTRUCT_def Let_def)

lemma jump_refused:
  assumes "PushError_op (Some (code_error c)) m = Some (Ok u, m')"
  shows "st_error (ac_state m') \<noteq> None"
proof -
  have "ac_state m' = es_PushError (ac_state m) (Some (code_error c))"
    using assms by (auto simp: PushError_op_def state_upd_def)
  with PushError_has_text [OF has_text_code_error, of "ac_state m" c] show ?thesis
    by (simp only: not_False_eq_True)
qed

lemma jump_target:
  assumes jump: "jump code dest m = Some (Ok (), m')" and "st_error (ac_state m') = None"
  shows "m' = m\<lparr>mc_pc := dest\<rparr> \<and> 0 \<le> dest \<and> dest < int (length code) \<and> code ! nat dest = 0x5b"
  using jump jump_refused [of ErrorCodeInvalidJumpDest m "()" m'] assms(2)
  unfolding jump_def
  by (auto simp: codeGetOp_def upd_op_def lift_res_def panic_op_def decode_op_JUMPDEST bind_op_def
      split: if_splits)

text \<open>Where the loop goes on without advancing, it is at a \<^verbatim>\<open>JUMPDEST\<close>.\<close>

lemma continue_at_jumpdest:
  assumes "step X V exec F m = Some (Ok Continue, m')" and "st_error (ac_state m') = None"
  shows "0 \<le> mc_pc m' \<and> mc_pc m' < int (length (fr_code F)) \<and> fr_code F ! nat (mc_pc m') = 0x5b"
proof -
  obtain op where ex: "exec_op X V exec F op m = Some (Ok Continue, m')"
    using assms(1) by (auto simp: step_def bind_op_def get_op_def lift_res_def seq_op_def upd_op_def
        useGasNegative_def GasBaseOp_def split: res.splits)
  then have "op = OP_EXEC X_JUMP \<or> op = OP_EXEC X_JUMPI"
    using advances_op assms(2) unfolding advances_def by blast
  then obtain dest m1 where "jump (fr_code F) dest m1 = Some (Ok (), m')"
    using ex by (auto simp: bind2_def bind_op_def seq_op_def ret_def split: option.splits res.splits if_splits)
  from jump_target [OF this assms(2)] show ?thesis
    by simp
qed

end
