(* ===== verification/Evm_Isolation.thy ===== *)
theory Evm_Isolation
  imports Evm_Contract
begin

section \<open>Calls that leave no trace\<close>

text \<open>
  What a caller can rely on when it runs other code: a call that failed changes nothing in its caller's
  state, and a static call to a contract changes nothing and logs nothing at all. \<open>quiet f\<close> says that an
  operation leaves every account, word and event as it is; the machine's own stack, memory and gas are free.
\<close>

definition quiet :: "('pk, 'z) externals_scheme \<Rightarrow> 'a op \<Rightarrow> bool" where
  "quiet X f \<longleftrightarrow> (\<forall>m r m'. f m = Some (r, m') \<longrightarrow>
     same_view X (chain (ac_state m)) (chain (ac_state m')) \<and>
     EventCache (ac_sink m') = EventCache (ac_sink m))"

named_theorems quiets "operations that leave the state as it is"

lemma quietI:
  assumes "\<And>m r m'. f m = Some (r, m') \<Longrightarrow> chain (ac_state m') = chain (ac_state m) \<and> ac_sink m' = ac_sink m"
  shows "quiet X f"
  using assms by (fastforce simp: quiet_def)

lemma quietD:
  assumes "quiet X f" and "f m = Some (r, m')"
  shows "same_view X (chain (ac_state m)) (chain (ac_state m'))" and "EventCache (ac_sink m') = EventCache (ac_sink m)"
  using assms by (simp_all add: quiet_def)

subsection \<open>Composition\<close>

lemma quiet_bind [quiets]:
  assumes "quiet X f" and "\<And>x. quiet X (g x)"
  shows "quiet X (bind_op f g)"
  unfolding quiet_def
proof (intro allI impI)
  fix m r m'
  assume run: "bind_op f g m = Some (r, m')"
  then obtain q m1 where f: "f m = Some (q, m1)"
    by (auto simp: bind_op_def split: option.splits)
  note first = quietD [OF assms(1) f]
  show "same_view X (chain (ac_state m)) (chain (ac_state m')) \<and> EventCache (ac_sink m') = EventCache (ac_sink m)"
  proof (cases q)
    case (Ok x)
    with run f have "g x m1 = Some (r, m')"
      by (simp add: bind_op_def)
    with first quietD [OF assms(2) this] show ?thesis
      by (auto intro: same_view_trans)
  qed (use run f first in \<open>simp_all add: bind_op_def\<close>)
qed

lemma quiet_seq [quiets]: "quiet X f \<Longrightarrow> quiet X g \<Longrightarrow> quiet X (seq_op f g)"
  unfolding seq_op_def by (rule quiet_bind)

lemma quiet_bind2 [quiets]: "quiet X f \<Longrightarrow> quiet X g \<Longrightarrow> (\<And>x y. quiet X (h x y)) \<Longrightarrow> quiet X (bind2 f g h)"
  unfolding bind2_def by (intro quiet_bind)

lemma quiet_if [quiets]: "(c \<Longrightarrow> quiet X f) \<Longrightarrow> (\<not> c \<Longrightarrow> quiet X g) \<Longrightarrow> quiet X (if c then f else g)"
  by simp

lemma quiet_unless_error [quiets]: "quiet X f \<Longrightarrow> quiet X (unless_error f)"
  by (auto simp: quiet_def unless_error_def ret_def)

lemma quiet_pure [quiets]: "quiet X (ret x)" "quiet X (get_op h)" "quiet X (lift_res q)" "quiet X (panic_op p)"
  by (auto intro!: quietI simp: ret_def get_op_def lift_res_def panic_op_def)

lemma quiet_and_next [quiets]: "quiet X f \<Longrightarrow> quiet X (and_next f)"
  unfolding and_next_def by (intro quiets)

subsection \<open>The operations around a call\<close>

lemma stack_useGas_state [simp]:
  "chain (ac_state (stack_useGas g m)) = chain (ac_state m)" "ac_sink (stack_useGas g m) = ac_sink m"
  "mc_stack (stack_useGas g m) = mc_stack m"
  by (simp_all add: stack_useGas_def push_error_def)

lemma useGasNegative_state [simp]:
  "chain (ac_state (useGasNegative g m)) = chain (ac_state m)" "ac_sink (useGasNegative g m) = ac_sink m"
  by (simp_all add: useGasNegative_def push_error_def)

lemma Pop_state:
  assumes "Pop m = Some (r, m')"
  shows "chain (ac_state m') = chain (ac_state m)" and "ac_sink m' = ac_sink m"
    and "mc_stack m = d # ds \<Longrightarrow> r = Ok d \<and> mc_stack m' = ds"
  using assms
  by (auto simp: Pop_def stack_Pop_def Let_def push_error_def split: list.splits)

lemma quiet_upd: "(\<And>m. chain (ac_state (f m)) = chain (ac_state m) \<and> ac_sink (f m) = ac_sink m) \<Longrightarrow> quiet X (upd_op f)"
  by (rule quietI) (auto simp: upd_op_def)

lemma quiet_PushError [quiets]: "quiet X (PushError_op e)"
  by (rule quietI) (auto simp: PushError_op_def state_upd_def)

lemma quiet_Pop [quiets]: "quiet X Pop"
  by (rule quietI) (blast dest: Pop_state)

lemma quiet_pops [quiets]: "quiet X PopAddress" "quiet X Pop64" "quiet X PopU64" "quiet X PopBigInt"
  unfolding PopAddress_def Pop64_def PopU64_def PopBigInt_def by (intro quiets)+

lemma quiet_gas [quiets]: "quiet X (upd_op (useGasNegative g))" "quiet X (take_gas l)" "quiet X (give_gas l)"
  by (auto intro!: quietI simp: upd_op_def take_gas_def give_gas_def)

lemma quiet_Push [quiets]: "quiet X (Push V d)"
  unfolding Push_def
  by (rule quiet_upd) (auto simp: stack_Push_def Let_def push_error_def split: option.split)

lemma quiet_Memory [quiets]: "quiet X (Memory_Read off len)" "quiet X (Memory_Write off v)"
  by (auto intro!: quietI simp: Memory_Read_def Memory_Write_def push_error_def split: prod.splits res.splits)

lemma quiet_set_returnData [quiets]: "quiet X (set_returnData out)"
  unfolding set_returnData_def by (rule quiet_upd) simp

lemma quiet_finish [quiets]: "quiet X (finish_call V ro rs out e left)"
  unfolding finish_call_def write_output_def by (cases e) (auto intro!: quiets)

lemma quiet_state_op:
  "(\<And>st x st'. f st = (x, st') \<Longrightarrow> same_view X (chain st) (chain st')) \<Longrightarrow> quiet X (state_op f)"
  by (auto simp: quiet_def state_op_def split: prod.splits)

lemma es_GetCode_read: "es_GetCode X st a = (c, st') \<Longrightarrow> same_view X (chain st) (chain st')"
  by (auto simp: es_GetCode_def apfst_def map_prod_def split: prod.splits dest: es_account_read(1))

lemma es_GetPermissions_read: "es_GetPermissions X st a = (p, st') \<Longrightarrow> same_view X (chain st) (chain st')"
  by (auto simp: es_GetPermissions_def apfst_def map_prod_def split: prod.splits dest: es_account_read(1))

lemma quiet_reads [quiets]: "quiet X (state_op (\<lambda>st. es_Exists X st a))" "quiet X (state_op (\<lambda>st. es_GetCode X st a))"
  by (auto intro!: quiet_state_op dest: es_Exists_read(1) es_GetCode_read)

lemma HasPermission_read: "HasPermission X st a p = (r, st') \<Longrightarrow> same_view X (chain st) (chain st')"
  by (auto simp: HasPermission_def split: prod.splits sum.splits
      dest!: es_GetPermissions_read intro: same_view_trans)

lemma EnsurePermission_read: "same_view X (chain st) (chain (EnsurePermission X st a p))"
  by (auto simp: EnsurePermission_def split: prod.splits bool.splits dest: HasPermission_read)

subsection \<open>Nested runs\<close>

lemma chain_adopt:
  assumes "evm_steps X (es_NewCache st opts) child"
  shows "chain (adopt st child) = st_backend child" and "same_view X (chain st) (chain (adopt st child))"
proof -
  have "\<exists>c d. st_backend child = Layer c d"
    using chain_steps_Layer [OF evm_steps_backend [OF assms]] chain_Layer [of st] by simp
  then show chain: "chain (adopt st child) = st_backend child"
    by (auto simp: adopt_def intro: chain_set_chain)
  show "same_view X (chain st) (chain (adopt st child))"
    using evm_steps_below [OF assms] by (simp add: chain)
qed

text \<open>A call that returned an error: its accounts and words are dropped. Its logs are not.\<close>

lemma failed_nested:
  assumes "call_with False (uses X) G call" and "nested X opts gas call fin m = Some (Ok (out, Some e, left), m')"
  shows "same_view X (chain (ac_state m)) (chain (ac_state m'))" and "left \<le> gas"
    and "\<exists>logs. EventCache (ac_sink m') = EventCache (ac_sink m) @ map event_of_log logs"
proof -
  let ?child = "child_activation opts gas m"
  obtain act where call: "call ?child = Some (Ok (out, Some e), act)"
    and m': "m' = after_child m act (adopt (ac_state m) (ac_state act))" and left: "left = ac_gas act"
    using assms(2) by (auto simp: nested_def commit_child_def split: option.splits res.splits prod.splits)
  have "uses X G ?child act"
    using assms(1) call by (auto simp: call_with_def split: option.splits)
  then have steps: "evm_steps X (es_NewCache (ac_state m) opts) (ac_state act)"
    and logs: "\<exists>logs. EventCache (ac_sink act) = EventCache (ac_sink m) @ map event_of_log logs"
    and gas: "ac_gas act \<le> gas"
    by (auto simp: uses_def child_activation_def)
  show "same_view X (chain (ac_state m)) (chain (ac_state m'))"
    using chain_adopt(2) [OF steps] by (simp add: m' after_child_def)
  show "left \<le> gas" and "\<exists>logs. EventCache (ac_sink m') = EventCache (ac_sink m) @ map event_of_log logs"
    using logs gas by (simp_all add: m' left after_child_def)
qed

text \<open>Any of the four calls of a contract.\<close>

lemma failed_contract:
  assumes "nested X opts gas (run_contract X V (execute X V) k (call_frame F k a code args v)) fin m =
      Some (Ok (out, Some e, left), m')"
  shows "same_view X (chain (ac_state m)) (chain (ac_state m'))" and "left \<le> gas"
    and "\<exists>logs. EventCache (ac_sink m') = EventCache (ac_sink m) @ map event_of_log logs"
proof -
  obtain G where "call_with False (uses X) G (run_contract X V (execute X V) k (call_frame F k a code args v))"
    using world.call_contract [OF execute_uses] by blast
  from failed_nested [OF this assms]
  show "same_view X (chain (ac_state m)) (chain (ac_state m'))" and "left \<le> gas"
    and "\<exists>logs. EventCache (ac_sink m') = EventCache (ac_sink m) @ map event_of_log logs"
    by blast+
qed

lemma readonly_steps:
  assumes "evm_steps X (es_NewCache st opts) child" and "ReadOnly \<in> set opts"
  shows "c_readonly (st_cache child)"
  using evm_steps_invariant(1) [OF assms(1)] assms(2)
  by (auto simp: same_layer_def chain_def es_NewCache_def NewState_def NewCache_def)

lemma sync_readonly:
  assumes "evm_steps X (es_NewCache st opts) child" and "ReadOnly \<in> set opts" and "sync_child X st child = (r, st')"
  shows "same_view X (chain st) (chain st')"
proof -
  have kept: "es_Sync X child = (q, child') \<Longrightarrow> child' = child" for q child'
    using readonly_steps [OF assms(1,2)]
    by (auto simp: es_Sync_def backend_Sync_def Cache_Sync_def split: option.splits)
  show ?thesis
    using assms(3) chain_adopt(2) [OF assms(1)]
    by (auto simp: sync_child_def split: prod.splits res.splits dest!: kept)
qed

lemma quiet_nested_static [quiets]:
  assumes "call_with False (uses X) G call" and "fr_logfree G" and "ReadOnly \<in> set opts"
  shows "quiet X (nested X opts gas call (\<lambda>_ st. st))"
  unfolding quiet_def
proof (intro allI impI)
  fix m r m'
  assume run: "nested X opts gas call (\<lambda>_ st. st) m = Some (r, m')"
  let ?child = "child_activation opts gas m"
  obtain q act where call: "call ?child = Some (q, act)"
    using run by (auto simp: nested_def split: option.splits)
  have "uses X G ?child act"
    using assms(1) call by (auto simp: call_with_def split: option.splits)
  with assms(2) have steps: "evm_steps X (es_NewCache (ac_state m) opts) (ac_state act)"
    and logs: "EventCache (ac_sink act) = EventCache (ac_sink m)"
    by (auto simp: uses_def child_activation_def)
  have "same_view X (chain (ac_state m)) (chain st)"
    if "commit_child X (ac_state m) e (ac_state act) (ac_state act) = (c, st)" for e c st
    using that chain_adopt(2) [OF steps] sync_readonly [OF steps assms(3)]
    by (auto simp: commit_child_def split: option.splits)
  moreover have "same_view X (chain (ac_state m)) (chain (adopt (ac_state m) (ac_state act)))"
    by (rule chain_adopt(2) [OF steps])
  ultimately show "same_view X (chain (ac_state m)) (chain (ac_state m')) \<and>
      EventCache (ac_sink m') = EventCache (ac_sink m)"
    using run call logs
    by (auto simp: nested_def after_child_def split: res.splits prod.splits)
qed

subsection \<open>Static calls\<close>

lemma static_contract:
  "call_with False (uses X) (call_frame F KIND_STATICCALL a code args v)
    (run_contract X V (execute X V) KIND_STATICCALL (call_frame F KIND_STATICCALL a code args v))"
proof -
  have "exec_with False (uses X) V F (execute X V)"
    by (rule execute_uses)
  from world.call_enter [OF this, of "call_frame F KIND_STATICCALL a code args v"] show ?thesis
    by (simp add: run_contract_def delegateCall_def call_frame_def)
qed

lemma quiet_target [quiets]: "k \<noteq> KIND_CALL \<Longrightarrow> quiet X (ensure_target X F k a)"
  unfolding ensure_target_def by (auto intro!: quiets)

lemma quiet_static_address:
  assumes "\<not> IsRegisteredNativeContract X a"
  shows "quiet X (call_address X V (execute X V) F KIND_STATICCALL gasLimit a)"
proof -
  have static: "quiet X (nested X [ReadOnly] l
      (run_contract X V (execute X V) KIND_STATICCALL (call_frame F KIND_STATICCALL a code args v)) (\<lambda>_ st. st))"
    for l code args v
    by (rule quiet_nested_static [OF static_contract]) (simp_all add: call_frame_def)
  have "quiet X (call_body X V (execute X V) F KIND_STATICCALL a args l ro rs)" for args l ro rs
    using assms unfolding call_body_def by (auto intro!: quiets static)
  then show ?thesis
    unfolding call_address_def by (auto intro!: quiets)
qed

lemma static_call_quiet:
  assumes stack: "mc_stack m = w # a # ds"
    and not_native: "\<not> IsRegisteredNativeContract X (AddressFromWord256 a)"
    and run: "exec_CALL X V (execute X V) F KIND_STATICCALL m = Some (r, m')"
  shows "same_view X (chain (ac_state m)) (chain (ac_state m')) \<and> EventCache (ac_sink m') = EventCache (ac_sink m)"
proof -
  let ?m1 = "m\<lparr>mc_returnData := None, ac_state := EnsurePermission X (ac_state m) (fr_callee F) perm_Call\<rparr>"
  note checked = EnsurePermission_read [of X "ac_state m" "fr_callee F" perm_Call]
  have started: "unless_error (bind2 PopU64 PopAddress (call_address X V (execute X V) F KIND_STATICCALL)) ?m1 = Some (r, m')"
    using run by (simp add: exec_CALL_def seq_op_def bind_op_def set_returnData_def upd_op_def state_upd_def)
  show ?thesis
  proof (cases "st_error (ac_state ?m1)")
    case (Some e)
    with started checked show ?thesis
      by (auto simp: unless_error_def ret_def)
  next
    case None
    obtain q m2 where pop: "PopU64 ?m1 = Some (q, m2)"
      using started None by (auto simp: unless_error_def bind2_def bind_op_def split: option.splits)
    have m2: "mc_stack m2 = a # ds" "chain (ac_state m2) = chain (ac_state ?m1)" "ac_sink m2 = ac_sink m" "\<exists>g. q = Ok g"
      using pop stack
      by (auto simp: PopU64_def Pop_def stack_Pop_def Let_def bind_op_def seq_op_def ret_def PushError_op_def
          state_upd_def split: if_splits)
    obtain m3 where pop2: "PopAddress m2 = Some (Ok (AddressFromWord256 a), m3)"
      and m3: "chain (ac_state m3) = chain (ac_state m2)" "ac_sink m3 = ac_sink m2"
      using m2(1) by (auto simp: PopAddress_def Pop_def stack_Pop_def Let_def bind_op_def ret_def)
    obtain g where "call_address X V (execute X V) F KIND_STATICCALL g (AddressFromWord256 a) m3 = Some (r, m')"
      using started None pop pop2 m2(4) by (auto simp: unless_error_def bind2_def bind_op_def)
    from quietD [OF quiet_static_address [OF not_native] this] checked show ?thesis
      by (simp add: m2 m3) (rule same_view_trans)
  qed
qed

subsection \<open>Contracts created by contracts\<close>

text \<open>A new account has no permissions of its own, so the global ones decide; where there is no global
  account, as on a ledger of the chaincode, every call and every creation of its code is refused.\<close>

lemma permission_of_none:
  assumes global: "acc_view X (chain st) GlobalPermissionsAddress = Inr None"
    and acc: "acc_view X (chain st) a = Inr (Some acc)" and none: "SetBit (Base (acc_Permissions acc)) = 0"
  shows "\<not> fst (HasPermission X st a p)" and "st_error (EnsurePermission X st a p) \<noteq> None"
proof -
  obtain g st1 where g: "es_GetPermissions X st GlobalPermissionsAddress = (g, st1)"
    by (cases "es_GetPermissions X st GlobalPermissionsAddress")
  obtain q st2 where q: "es_GetPermissions X st1 a = (q, st2)"
    by (cases "es_GetPermissions X st1 a")
  obtain u where u: "es_account X st GlobalPermissionsAddress = (u, st1)"
    using g by (auto simp: es_GetPermissions_def apfst_def map_prod_def split: prod.splits)
  have "Base g = \<lparr>Perms = 0, SetBit = 0\<rparr>"
    using g u es_account_read(2) [OF u] global by (auto simp: es_GetPermissions_def apfst_def map_prod_def)
  moreover have "acc_view X (chain st1) a = Inr (Some acc)"
    using es_account_read(1) [OF u] acc by (simp add: same_view_def)
  then have "q = acc_Permissions acc"
    using q es_account_read(2) [of X st1 a]
    by (auto simp: es_GetPermissions_def apfst_def map_prod_def split: prod.splits)
  ultimately have "perm_Get (perm_Compose (Base q) (Base g)) p = perm_Get \<lparr>Perms = 0, SetBit = 0\<rparr> p"
    using none by (simp add: perm_Get_Compose_unset)
  moreover have "perm_Get \<lparr>Perms = 0, SetBit = 0\<rparr> p \<noteq> Inr True"
    by (auto simp: perm_Get_def IsSet_def)
  ultimately show refused: "\<not> fst (HasPermission X st a p)"
    by (auto simp: HasPermission_def g q split: sum.split)
  have "st_error (es_PushError st' (Some (Coded ErrorCodeGeneric
      ''Account/contract %v does not have permission %v'' [AStr (Address_String a), ANat (unat p)]))) \<noteq> None" for st'
    by (rule PushError_has_text) (simp add: has_text_def)
  with refused show "st_error (EnsurePermission X st a p) \<noteq> None"
    by (auto simp: EnsurePermission_def simp del: not_None_eq split: prod.splits bool.splits)
qed

lemma created_account:
  assumes co: "coherent X (chain st)" and global: "acc_view X (chain st) GlobalPermissionsAddress = Inr None"
    and "a \<noteq> GlobalPermissionsAddress" and readable: "acc_view X (chain st) a = Inr y"
    and none: "st_error (create X st a) = None"
  shows "acc_view X (chain (create X st a)) a = Inr (Some (new_account a))"
    and "acc_view X (chain (create X st a)) GlobalPermissionsAddress = Inr None"
proof -
  have "st_error (if IsRegisteredNativeContract X a then es_PushError st (Some (Coded ErrorCodeReservedAddress
      ''cannot create account at %v because that address is reserved for a native contract''
      [AStr (Address_String a)])) else st) = None"
    using evm_steps_no_error [OF steps_CreateAccount] none unfolding create_def .
  moreover have "st_error (es_PushError st (Some (Coded ErrorCodeReservedAddress
      ''cannot create account at %v because that address is reserved for a native contract''
      [AStr (Address_String a)]))) \<noteq> None"
    by (rule PushError_has_text) (simp add: has_text_def)
  ultimately have "create X st a = es_CreateAccount X st a"
    by (cases "IsRegisteredNativeContract X a") (simp_all add: create_def)
  with es_CreateAccount_Ok(2) [OF co _ readable] none global assms(3)
  show "acc_view X (chain (create X st a)) a = Inr (Some (new_account a))"
    and "acc_view X (chain (create X st a)) GlobalPermissionsAddress = Inr None"
    by (simp_all add: put_account_def)
qed

text \<open>So its constructor cannot call: the instruction leaves the error of the permission.\<close>

lemma refused_instruction:
  assumes "st_error (EnsurePermission X (ac_state m) (fr_callee F) perm_Call) \<noteq> None"
  shows "\<exists>m'. exec_CALL X V exec F k m = Some (Ok Continue, m') \<and> st_error (ac_state m') \<noteq> None"
  using assms
  by (auto simp: exec_CALL_def seq_op_def bind_op_def set_returnData_def upd_op_def state_upd_def
      unless_error_def ret_def)

end
