(* ===== verification/Account_Invariants.thy ===== *)
theory Account_Invariants
  imports Evm_Isolation
begin

section \<open>Invariants of accounts\<close>

text \<open>
  A predicate on addresses and accounts that every account a state shows satisfies. The locale
  \<open>account_invariant\<close> says what the predicate must allow: a new account, a change of the balance, code at a
  derived address, the permissions of a deployed contract, and what the native contracts do. Then whatever a
  transaction runs, every account the state shows keeps satisfying it, and so does every account on the
  ledger after the transaction.
\<close>

fun all_accounts :: "('pk, 'z) externals_scheme \<Rightarrow> (address \<Rightarrow> account \<Rightarrow> bool) \<Rightarrow> backend \<Rightarrow> bool" where
  "all_accounts X P (Manager m) = (\<forall>a acc. sm_GetAccount X m a = Inr (Some acc) \<longrightarrow> P a acc)"
| "all_accounts X P (Layer c b) =
     ((\<forall>a i acc. map_of (c_accounts c) a = Some i \<longrightarrow> ai_account i = Some acc \<longrightarrow> P a acc) \<and> all_accounts X P b)"

definition state_accounts :: "('pk, 'z) externals_scheme \<Rightarrow> (address \<Rightarrow> account \<Rightarrow> bool) \<Rightarrow> evm_state \<Rightarrow> bool" where
  "state_accounts X P st = all_accounts X P (chain st)"

definition ledger_accounts ::
    "('pk, 'z) externals_scheme \<Rightarrow> (address \<Rightarrow> account \<Rightarrow> bool) \<Rightarrow> (string \<rightharpoonup> bytes) \<Rightarrow> bool" where
  "ledger_accounts X P L \<longleftrightarrow> (\<forall>a acc. ledger_account X L a = Inr (Some acc) \<longrightarrow> P a acc)"

definition keeps_accounts ::
    "('pk, 'z) externals_scheme \<Rightarrow> (address \<Rightarrow> account \<Rightarrow> bool) \<Rightarrow> evm_state \<Rightarrow> evm_state \<Rightarrow> bool" where
  "keeps_accounts X P st st' \<longleftrightarrow> evm_steps X st st' \<and> (state_accounts X P st \<longrightarrow> state_accounts X P st')"

subsection \<open>The chain of caches\<close>

lemma GetAccount_accounts:
  "backend_GetAccount X b a = (r, b') \<Longrightarrow> all_accounts X P b \<Longrightarrow>
   all_accounts X P b' \<and> (\<forall>acc. r = Inr (Some acc) \<longrightarrow> P a acc)"
proof (induction b arbitrary: r b')
  case (Manager m)
  then show ?case by auto
next
  case (Layer c b)
  obtain q c' b1 where get: "cache_get X c b a = (q, c', b1)"
    by (cases "cache_get X c b a")
  from get show ?case
  proof (cases rule: cache_get_cases)
    case (load acc)
    with Layer.IH [OF load(2)] Layer.prems get show ?thesis by auto
  next
    case (fail e)
    with Layer.IH [OF fail(2)] Layer.prems get show ?thesis by auto
  qed (use Layer.prems get in \<open>auto split: if_splits\<close>)
qed

lemma cache_get_accounts:
  assumes "cache_get X c b a = (r, c', b')" and "all_accounts X P (Layer c b)"
  shows "all_accounts X P (Layer c' b')" and "r = Inr i \<Longrightarrow> ai_account i = Some acc \<Longrightarrow> P a acc"
  using assms(1)
  by (cases rule: cache_get_cases; use assms GetAccount_accounts [of X b a] in \<open>force\<close>)+

lemma accounts_set_info:
  assumes "all_accounts X P (Layer c b)" and "\<And>acc. ai_account i = Some acc \<Longrightarrow> P a acc"
  shows "all_accounts X P (Layer (set_info c a i) b)"
  using assms by auto

lemma GetStorage_accounts:
  "backend_GetStorage X b a k = (r, b') \<Longrightarrow> all_accounts X P b \<Longrightarrow> all_accounts X P b'"
proof (induction X b a k arbitrary: r b' rule: backend_GetStorage.induct)
  case (1 X m a k)
  then show ?case by simp
next
  case (2 X c b a k)
  obtain q c1 b1 where get: "cache_get X c b a = (q, c1, b1)"
    by (cases "cache_get X c b a")
  note got = cache_get_accounts [OF get "2.prems"(2)]
  show ?case
  proof (cases q)
    case (Inl e)
    with "2.prems" get got show ?thesis by auto
  next
    case (Inr i)
    show ?thesis
    proof (cases "map_of (ai_storage i) k")
      case (Some v)
      with "2.prems" get Inr got(1) show ?thesis by auto
    next
      case None
      obtain v b2 where below: "backend_GetStorage X b1 a k = (v, b2)"
        by (cases "backend_GetStorage X b1 a k")
      with "2.IH" [OF get [symmetric] Inr refl None] got(1) have "all_accounts X P b2"
        by auto
      with got Inr have "all_accounts X P (Layer c1 b2)"
        and "all_accounts X P (Layer (set_info c1 a (i\<lparr>ai_storage := w\<rparr>)) b2)" for w
        by (auto intro!: accounts_set_info)
      with "2.prems" get Inr None below show ?thesis
        by (auto split: res.splits)
    qed
  qed
qed

text \<open>Writes into a cache.\<close>

lemma Layer_UpdateAccount_accounts:
  assumes "backend_UpdateAccount X (Layer c b) (Some acc) = (r, t)" and "all_accounts X P (Layer c b)"
    and "P (acc_Address acc) acc"
  shows "all_accounts X P t" and "\<exists>c' b'. t = Layer c' b'"
  using assms cache_get_accounts(1) [of X c b "acc_Address acc", OF _ assms(2)]
  by (auto split: if_splits prod.splits sum.splits)

lemma Layer_RemoveAccount_accounts:
  assumes "backend_RemoveAccount X (Layer c b) a = (r, t)" and "all_accounts X P (Layer c b)"
  shows "all_accounts X P t" and "\<exists>c' b'. t = Layer c' b'"
  using assms cache_get_accounts [of X c b a, OF _ assms(2)]
  by (auto split: if_splits prod.splits sum.splits)

lemma Layer_SetStorage_accounts:
  assumes "backend_SetStorage X (Layer c b) a k v = (r, t)" and "all_accounts X P (Layer c b)"
  shows "all_accounts X P t" and "\<exists>c' b'. t = Layer c' b'"
  using assms cache_get_accounts [of X c b a, OF _ assms(2)]
  by (auto split: if_splits prod.splits sum.splits)

subsection \<open>The methods of the state\<close>

lemma keeps_accounts_refl [simp]: "keeps_accounts X P st st"
  by (simp add: keeps_accounts_def)

lemma keeps_accounts_trans: "keeps_accounts X P st1 st2 \<Longrightarrow> keeps_accounts X P st2 st3 \<Longrightarrow> keeps_accounts X P st1 st3"
  by (auto simp: keeps_accounts_def)

lemma keeps_accounts_pushed [simp]: "keeps_accounts X P st (es_PushError st e)"
  by (auto simp: keeps_accounts_def state_accounts_def intro: push)

lemma keeps_accounts_push: "keeps_accounts X P st st' \<Longrightarrow> keeps_accounts X P st (es_PushError st' e)"
  by (rule keeps_accounts_trans [OF _ keeps_accounts_pushed])

lemma keeps_accounts_access:
  assumes "chain_step X (chain st) b" and "all_accounts X P (chain st) \<Longrightarrow> all_accounts X P b"
  shows "keeps_accounts X P st (set_chain st b)"
  using assms chain_step_of_chain(2) [OF assms(1)] by (auto simp: keeps_accounts_def state_accounts_def intro: access)

lemma account_accounts:
  assumes "es_account X st a = (r, st')"
  shows "keeps_accounts X P st st'" and "state_accounts X P st \<Longrightarrow> r = Some acc \<Longrightarrow> P a acc"
proof -
  obtain q b where get: "backend_GetAccount X (chain st) a = (q, b)"
    by (cases "backend_GetAccount X (chain st) a")
  have "keeps_accounts X P st (set_chain st b)"
    using get GetAccount_accounts [OF get] by (intro keeps_accounts_access) (auto intro: read_account)
  then show "keeps_accounts X P st st'"
    using assms get by (auto simp: es_account_def intro: keeps_accounts_push split: sum.splits)
  show "state_accounts X P st \<Longrightarrow> r = Some acc \<Longrightarrow> P a acc"
    using assms get GetAccount_accounts [OF get] by (auto simp: es_account_def state_accounts_def split: sum.splits)
qed

lemma mustAccount_accounts:
  assumes "es_mustAccount X st a = (r, st')"
  shows "keeps_accounts X P st st'" and "state_accounts X P st \<Longrightarrow> r = Some acc \<Longrightarrow> P a acc"
proof -
  obtain q st1 where q: "es_account X st a = (q, st1)"
    by (cases "es_account X st a")
  show "keeps_accounts X P st st'"
    using assms q account_accounts(1) [OF q] by (auto simp: es_mustAccount_def intro: keeps_accounts_push split: option.splits)
  show "state_accounts X P st \<Longrightarrow> r = Some acc \<Longrightarrow> P a acc"
    using assms q account_accounts(2) [OF q] by (auto simp: es_mustAccount_def split: option.splits)
qed

lemma updateAccount_accounts:
  assumes "state_accounts X P st \<Longrightarrow> P (acc_Address acc) acc"
  shows "keeps_accounts X P st (es_updateAccount X st acc)"
proof -
  obtain r b where upd: "backend_UpdateAccount X (chain st) (Some acc) = (r, b)"
    by (cases "backend_UpdateAccount X (chain st) (Some acc)")
  have "keeps_accounts X P st (set_chain st b)"
    using upd Layer_UpdateAccount_accounts(1) [of X "st_cache st" "st_backend st" acc r b] assms
    by (intro keeps_accounts_access) (auto intro: write_account simp: chain_def state_accounts_def
        simp del: backend_UpdateAccount.simps all_accounts.simps)
  with upd show ?thesis
    by (auto simp: es_updateAccount_def intro: keeps_accounts_push split: res.split)
qed

lemma removeAccount_accounts: "keeps_accounts X P st (es_removeAccount X st a)"
proof -
  obtain r b where rem: "backend_RemoveAccount X (chain st) a = (r, b)"
    by (cases "backend_RemoveAccount X (chain st) a")
  have "keeps_accounts X P st (set_chain st b)"
    using rem Layer_RemoveAccount_accounts(1) [of X "st_cache st" "st_backend st" a r b]
    by (intro keeps_accounts_access) (auto intro: remove_account simp: chain_def
        simp del: backend_RemoveAccount.simps all_accounts.simps)
  with rem show ?thesis
    by (auto simp: es_removeAccount_def intro: keeps_accounts_push split: res.split)
qed

lemma SetStorage_accounts: "keeps_accounts X P st (snd (es_SetStorage X st a k v))"
proof -
  obtain r b where put: "backend_SetStorage X (chain st) a k v = (r, b)"
    by (cases "backend_SetStorage X (chain st) a k v")
  have "keeps_accounts X P st (set_chain st b)"
    using put Layer_SetStorage_accounts(1) [of X "st_cache st" "st_backend st" a k v r b]
    by (intro keeps_accounts_access) (auto intro: write_storage simp: chain_def
        simp del: backend_SetStorage.simps all_accounts.simps)
  with put show ?thesis
    by (auto simp: es_SetStorage_def intro: keeps_accounts_push split: res.split)
qed

lemma GetStorage_keeps_accounts: "keeps_accounts X P st (snd (es_GetStorage X st a k))"
proof -
  obtain r b where get: "backend_GetStorage X (chain st) a k = (r, b)"
    by (cases "backend_GetStorage X (chain st) a k")
  have "keeps_accounts X P st (set_chain st b)"
    using get GetStorage_accounts [OF get] by (intro keeps_accounts_access) (auto intro: read_storage)
  with get show ?thesis
    by (auto simp: es_GetStorage_def intro: keeps_accounts_push split: res.split)
qed

lemma Exists_accounts: "keeps_accounts X P st (snd (es_Exists X st a))"
proof -
  obtain r b where get: "backend_GetAccount X (chain st) a = (r, b)"
    by (cases "backend_GetAccount X (chain st) a")
  have "keeps_accounts X P st (set_chain st b)"
    using get GetAccount_accounts [OF get] by (intro keeps_accounts_access) (auto intro: read_account)
  with get show ?thesis
    by (auto simp: es_Exists_def intro: keeps_accounts_push split: sum.split)
qed

text \<open>A change of an account that was read.\<close>

lemma modify_accounts:
  assumes "es_mustAccount X st a = (Some acc, st')" and "P a acc \<Longrightarrow> P (acc_Address acc') acc'"
  shows "keeps_accounts X P st (es_updateAccount X st' acc')"
proof -
  obtain "keeps_accounts X P st st'" and "state_accounts X P st \<Longrightarrow> P a acc"
    using mustAccount_accounts [OF assms(1)] by blast
  with updateAccount_accounts [of X P st' acc'] assms(2) steps_modify [OF assms(1)] show ?thesis
    by (auto simp: keeps_accounts_def)
qed

lemma GetPermissions_keeps_accounts: "keeps_accounts X P st (snd (es_GetPermissions X st a))"
  using account_accounts(1) [OF prod.collapse [symmetric], of X P st a] by (simp add: es_GetPermissions_def)

lemma HasPermission_accounts:
  assumes "HasPermission X st a flag = (has, st')"
  shows "keeps_accounts X P st st'"
proof -
  obtain g st1 where g: "es_GetPermissions X st GlobalPermissionsAddress = (g, st1)"
    by (cases "es_GetPermissions X st GlobalPermissionsAddress")
  obtain p st2 where p: "es_GetPermissions X st1 a = (p, st2)"
    by (cases "es_GetPermissions X st1 a")
  have "keeps_accounts X P st st1" "keeps_accounts X P st1 st2"
    using GetPermissions_keeps_accounts [of X P st GlobalPermissionsAddress] GetPermissions_keeps_accounts [of X P st1 a] g p
    by simp_all
  moreover have "st' = st2"
    using assms by (auto simp: HasPermission_def g p split: sum.splits)
  ultimately show ?thesis
    using keeps_accounts_trans by blast
qed

subsection \<open>Nested states\<close>

text \<open>Writing accounts back that satisfy the predicate, into a store whose updates with such accounts keep \<open>I\<close>.\<close>

lemma Cache_Sync_accounts:
  assumes run: "Cache_Sync upd rem put c s = (r, t)" and "I s"
    and cache: "\<And>a i acc. map_of (c_accounts c) a = Some i \<Longrightarrow> ai_account i = Some acc \<Longrightarrow> P a acc"
    and self: "\<And>a acc. P a acc \<Longrightarrow> P (acc_Address acc) acc"
    and upd: "\<And>s acc r t. I s \<Longrightarrow> pred_option (\<lambda>x. P (acc_Address x) x) acc \<Longrightarrow> upd s acc = (r, t) \<Longrightarrow> I t"
    and rem: "\<And>s a r t. I s \<Longrightarrow> rem s a = (r, t) \<Longrightarrow> I t"
    and put: "\<And>s a k v r t. I s \<Longrightarrow> put s a k v = (r, t) \<Longrightarrow> I t"
  shows "I t"
proof (cases "c_readonly c")
  case True
  with run \<open>I s\<close> show ?thesis by (simp add: Cache_Sync_def)
next
  case False
  have words: "I t" if "run_all (\<lambda>st key. case map_of sto key of None \<Rightarrow> (Ok (), st)
      | Some val \<Rightarrow> put st a key val) ks s = (r, t)" "I s" for sto a ks s r t
    by (rule run_all_inv [where P = I and A = UNIV, OF _ _ that(2,1)]) (auto split: option.splits intro: put)
  have account: "I t" if "Sync_account upd rem put a i s = (r, t)" "I s" "map_of (c_accounts c) a = Some i" for a i s r t
  proof -
    have "pred_option (\<lambda>x. P (acc_Address x) x) (ai_account i)"
      using cache [OF that(3)] self by (cases "ai_account i") simp_all
    then have "I u" if "upd s (ai_account i) = (q, u)" for q u
      using upd [OF \<open>I s\<close> _ that] by blast
    with that(1) rem [OF \<open>I s\<close>] \<open>I s\<close> show ?thesis
      unfolding Sync_account_def by (fastforce split: if_splits prod.splits res.splits intro: words)
  qed
  have "run_all (\<lambda>st a. case map_of (c_accounts c) a of None \<Rightarrow> (Ok (), st)
      | Some i \<Rightarrow> Sync_account upd rem put a i st) (sort (map fst (c_accounts c))) s = (r, t)"
    using run False by (simp add: Cache_Sync_def)
  then show ?thesis
    by (rule run_all_inv [where P = I and A = UNIV, OF _ _ \<open>I s\<close>, rotated 2])
      (auto split: option.splits intro: account \<open>I s\<close>)
qed

lemma Sync_into_layer_accounts:
  assumes "backend_Sync X c b = (r, t)" and "all_accounts X P (Layer c b)" and "\<exists>c' b'. b = Layer c' b'"
    and self: "\<And>a acc. P a acc \<Longrightarrow> P (acc_Address acc) acc"
  shows "all_accounts X P t \<and> (\<exists>c' b'. t = Layer c' b')"
proof (rule Cache_Sync_accounts [OF assms(1) [unfolded backend_Sync_def]])
  let ?I = "\<lambda>t. all_accounts X P t \<and> (\<exists>c' b'. t = Layer c' b')"
  show "?I t" if "?I s" "pred_option (\<lambda>x. P (acc_Address x) x) acc" "backend_UpdateAccount X s acc = (r, t)" for s acc r t
    using that Layer_UpdateAccount_accounts by (cases acc) (fastforce simp del: all_accounts.simps)+
  show "?I t" if "?I s" "backend_RemoveAccount X s a = (r, t)" for s a r t
    using that Layer_RemoveAccount_accounts by (fastforce simp del: all_accounts.simps backend_RemoveAccount.simps)
  show "?I t" if "?I s" "backend_SetStorage X s a k v = (r, t)" for s a k v r t
    using that Layer_SetStorage_accounts by (fastforce simp del: all_accounts.simps backend_SetStorage.simps)
qed (use assms(2,3) self in auto)

lemma accounts_NewCache [simp]: "state_accounts X P (es_NewCache st opts) = state_accounts X P st"
proof -
  have "chain (es_NewCache st opts) = Layer (NewCache (ReadOnly \<in> set (st_options st @ opts))) (chain st)"
    by (simp add: chain_def es_NewCache_def NewState_def)
  then show ?thesis
    by (simp add: state_accounts_def NewCache_def)
qed

lemma adopt_accounts:
  assumes "keeps_accounts X P (es_NewCache st opts) child"
  shows "keeps_accounts X P st (adopt st child)"
proof -
  have steps: "evm_steps X (es_NewCache st opts) child"
    using assms by (simp add: keeps_accounts_def)
  have "state_accounts X P st \<Longrightarrow> state_accounts X P child"
    using assms by (simp add: keeps_accounts_def)
  then show ?thesis
    using chain_adopt(1) [OF steps] steps_adopt [OF steps]
    by (simp add: keeps_accounts_def state_accounts_def chain_def [of child])
qed

lemma sync_accounts:
  assumes kept: "keeps_accounts X P (es_NewCache st opts) child" and run: "sync_child X st child = (q, st')"
    and self: "\<And>a acc. P a acc \<Longrightarrow> P (acc_Address acc) acc"
  shows "keeps_accounts X P st st'"
proof -
  have steps: "evm_steps X (es_NewCache st opts) child"
    using kept by (simp add: keeps_accounts_def)
  have layer: "\<exists>c d. st_backend child = Layer c d"
    using chain_steps_Layer [OF evm_steps_backend [OF steps]] chain_Layer [of st] by simp
  have child: "all_accounts X P (Layer (st_cache child) (st_backend child))" if "state_accounts X P st"
    using that kept by (simp add: keeps_accounts_def state_accounts_def [of X P child] chain_def [of child]
        del: all_accounts.simps)
  have "state_accounts X P st'" if ord: "state_accounts X P st"
  proof -
    obtain r child' where sync: "es_Sync X child = (r, child')"
      by (cases "es_Sync X child")
    have "all_accounts X P (st_backend child') \<and> (\<exists>c d. st_backend child' = Layer c d)"
      using sync layer child [OF ord] Sync_into_layer_accounts [OF _ child [OF ord] layer self]
      by (auto simp: es_Sync_def split: option.splits prod.splits)
    then have "state_accounts X P (adopt st child')"
      by (auto simp: state_accounts_def adopt_def chain_set_chain)
    with run sync show ?thesis
      by (auto simp: sync_child_def state_accounts_def split: res.splits)
  qed
  with steps_sync_child [OF steps run] show ?thesis
    by (simp add: keeps_accounts_def)
qed

subsection \<open>The interface of an invariant\<close>

locale account_invariant =
  fixes X :: "('pk, 'z) evm_externals_scheme" and P :: "address \<Rightarrow> account \<Rightarrow> bool"
  assumes P_new: "P a (new_account a)"
    and P_balance: "P a acc \<Longrightarrow> P (acc_Address acc) (acc\<lparr>acc_Balance := n\<rparr>)"
    and P_code: "P a acc \<Longrightarrow> derived_address X a \<Longrightarrow> P (acc_Address acc) (acc\<lparr>acc_Code := code\<rparr>)"
    and P_contract: "P a acc \<Longrightarrow> P (acc_Address acc) (map_base (\<lambda>bp. snd (perm_Set bp ContractPermFlags v)) acc)"
    and P_stored: "P (acc_Address acc) acc \<Longrightarrow> P (acc_Address acc) (stored_account acc)"
    and P_native: "registeredNativeContracts X a = Some c \<Longrightarrow> c st caller input gas = (r, st', gas') \<Longrightarrow>
      state_accounts X P st \<Longrightarrow> state_accounts X P st'"
begin

abbreviation keeps_P :: "evm_state \<Rightarrow> evm_state \<Rightarrow> bool" where "keeps_P \<equiv> keeps_accounts X P"

lemma P_self: "P a acc \<Longrightarrow> P (acc_Address acc) acc"
  using P_balance [of a acc "acc_Balance acc"] by simp

lemma keeps_P_writes:
  "keeps_P st (es_CreateAccount X st a)" "keeps_P st (es_RemoveAccount X st a)"
  "derived_address X a \<Longrightarrow> keeps_P st (es_InitCode X st a code)" "keeps_P st (es_AddToBalance X st a n)"
  "keeps_P st (es_SubtractFromBalance X st a n)" "keeps_P st (es_SetPermission X st a ContractPermFlags v)"
proof -
  obtain e st1 where e: "es_Exists X st a = (e, st1)"
    by (cases "es_Exists X st a")
  have "keeps_P st st1"
    using Exists_accounts [of X P st a] e by simp
  moreover have "keeps_P st1 (es_updateAccount X st1 (new_account a))"
    by (rule updateAccount_accounts) (use P_new [of a] in \<open>simp add: new_account_def\<close>)
  ultimately show "keeps_P st (es_CreateAccount X st a)" "keeps_P st (es_RemoveAccount X st a)"
    using e removeAccount_accounts [of X P st1 a]
    by (auto simp: es_CreateAccount_def es_RemoveAccount_def keeps_accounts_push split: bool.split
        intro: keeps_accounts_trans)
  obtain r st2 where r: "es_mustAccount X st a = (r, st2)"
    by (cases "es_mustAccount X st a")
  have "keeps_P st st2"
    using mustAccount_accounts(1) [OF r] .
  with r P_contract show "derived_address X a \<Longrightarrow> keeps_P st (es_InitCode X st a code)"
    "keeps_P st (es_AddToBalance X st a n)" "keeps_P st (es_SubtractFromBalance X st a n)"
    "keeps_P st (es_SetPermission X st a ContractPermFlags v)"
    by (auto simp: es_InitCode_def es_AddToBalance_def es_SubtractFromBalance_def es_SetPermission_def
        keeps_accounts_push map_base_def map_permissions_def split: option.split
        intro!: modify_accounts P_balance P_code)
qed

lemma native_keeps_P:
  assumes "registeredNativeContracts X a = Some c" and "c st caller input gas = (r, st', gas')"
  shows "keeps_P st st'"
  using registered_native(1) [OF assms] P_native [OF assms] by (simp add: keeps_accounts_def)

definition runs_P :: "vm \<Rightarrow> frame \<Rightarrow> machine \<Rightarrow> machine \<Rightarrow> bool" where
  "runs_P V F m m' \<longleftrightarrow> runs_to X V F m m' \<and> keeps_P (ac_state m) (ac_state m')"

definition uses_P :: "frame \<Rightarrow> activation \<Rightarrow> activation \<Rightarrow> bool" where
  "uses_P F a b \<longleftrightarrow> uses X F a b \<and> keeps_P (ac_state a) (ac_state b)"

end

sublocale account_invariant \<subseteq> kept: state_effects X "keeps_accounts X P"
proof unfold_locales
  show "keeps_accounts X P st (snd (es_account X st a))" for st a
    by (rule account_accounts(1) [OF prod.collapse [symmetric]])
qed (auto intro: keeps_accounts_trans Exists_accounts GetStorage_keeps_accounts SetStorage_accounts
    keeps_P_writes native_keeps_P adopt_accounts sync_accounts P_self)

sublocale account_invariant \<subseteq> kept: machine_relation X "keeps_accounts X P" V F False "runs_P V F" uses_P for V F
proof unfold_locales
  show "runs_P V F m1 m2 \<Longrightarrow> runs_P V F m2 m3 \<Longrightarrow> runs_P V F m1 m3" for m1 m2 m3
    by (auto simp: runs_P_def intro: world.R_trans keeps_accounts_trans)
  show "keeps_P (ac_state m) st \<Longrightarrow> runs_P V F m (m\<lparr>ac_state := st\<rparr>)" for m :: machine and st
    by (simp add: runs_P_def keeps_accounts_def world.R_state)
  show "uses_P G (child_activation opts gas m) act \<Longrightarrow> (fr_logfree F \<Longrightarrow> fr_logfree G) \<Longrightarrow>
      keeps_P (ac_state m) st \<Longrightarrow> runs_P V F m (after_child m act st)" for G opts gas m act st
    using world.R_child [of X G opts gas m act F st V]
    by (simp add: runs_P_def uses_P_def keeps_accounts_def after_child_def)
  show "runs_P V F (m\<lparr>ac_gas := ac_gas m - l\<rparr>) m' \<Longrightarrow> l \<le> ac_gas m \<Longrightarrow> g \<le> l \<Longrightarrow>
      runs_P V F m (m'\<lparr>ac_gas := ac_gas m' + g\<rparr>)" for m m' :: machine and l g
    using world.R_lent [of X V F m l m' g] by (simp add: runs_P_def)
  show "uses_P G a1 a2 \<Longrightarrow> uses_P G a2 a3 \<Longrightarrow> uses_P G a1 a3" for G a1 a2 a3
    by (auto simp: uses_P_def intro: uses_trans keeps_accounts_trans)
  show "uses_P G a1 a2 \<Longrightarrow> fr_logfree G = fr_logfree G' \<Longrightarrow> uses_P G' a1 a2" for G G' a1 a2
    using world.C_frame [of X G a1 a2 G'] by (simp add: uses_P_def)
  show "keeps_P (ac_state a) st \<Longrightarrow> uses_P G a (a\<lparr>ac_state := st\<rparr>)" for G a st
    by (simp add: uses_P_def keeps_accounts_def uses_state)
  show "uses_P G a1 a2 \<Longrightarrow> ac_gas a2 \<le> ac_gas a1" for G a1 a2
    by (simp add: uses_P_def uses_def)
  show "memory_Read off len (mc_memory m) = (x, mem) \<Longrightarrow> runs_P V F m (m\<lparr>mc_memory := mem\<rparr>)" for off len m x mem
    using world.R_read [of off len m x mem] by (simp add: runs_P_def)
  show "memory_Write off bs (mc_memory m) = (y, mem) \<Longrightarrow> runs_P V F m (m\<lparr>mc_memory := mem\<rparr>)" for off bs m y mem
    using world.R_write [of off bs m y mem] by (simp add: runs_P_def)
qed (simp_all add: runs_P_def uses_P_def uses_refl uses_gas world.R_refl world.R_gas world.R_log
    world.R_push world.R_stack world.R_pc world.R_value world.R_output world.R_sequence)

subsection \<open>Histories\<close>

text \<open>The ledgers a history of successful transactions leads to.\<close>

inductive evmcc_ledger :: "('pk, 'z) evm_externals_scheme \<Rightarrow> (string \<rightharpoonup> bytes) \<Rightarrow> bool" for X where
  genesis: "evmcc_ledger X Map.empty"
| transaction: "evmcc_ledger X (ledger s) \<Longrightarrow> write_set s = Map.empty \<Longrightarrow>
    evmcc_Invoke X (NewVM_Call X) s = (Ok (shim_Success payload), s') \<Longrightarrow> evmcc_ledger X (commit s')"

context account_invariant
begin

subsection \<open>The machine\<close>

lemma execute_P: "exec_with False uses_P V F (execute X V)"
proof -
  have "keeps_with False (\<lambda>m m'. uses_P F (activation.truncate m) (activation.truncate m')) (\<lambda>_. True)
      (step X V exec F)" if "exec_with False uses_P V F exec" for F exec
    using kept.keeps_step [OF that]
    by (auto simp: keeps_with_def runs_P_def uses_P_def runs_to_def uses_def split: option.splits)
  from execute_keeps [of uses_P, OF kept.C_refl kept.C_trans this] show ?thesis .
qed

lemma VM_Call_P:
  assumes "VM_Call X V F act = Some (r, act')"
  shows "keeps_P (ac_state act) (ac_state act')"
proof -
  have "call_with False uses_P F (vm_call X V (execute X V) F)"
    by (rule kept.call_vm_call [OF execute_P]) simp_all
  from this [unfolded call_with_def, THEN spec, of act] assms show ?thesis
    by (simp add: VM_Call_def uses_P_def)
qed

lemma NewVM_Call_P:
  assumes run: "NewVM_Call X params origin nonce st sink caller callee code input val gas = (r, st', sink')"
  shows "keeps_P st st'"
proof -
  let ?F = "\<lparr>fr_caller = caller, fr_callee = callee, fr_code = code_bytes code, fr_input = input,
    fr_value = val, fr_depth = 0, fr_logfree = False\<rparr>"
  let ?act = "\<lparr>ac_state = st, ac_sink = sink, ac_gas = gas, ac_sequence = 0\<rparr>"
  show ?thesis
  proof (cases "VM_Call X (evmcc_vm params origin nonce) ?F ?act")
    case None
    with run show ?thesis
      by (simp add: NewVM_Call_def)
  next
    case (Some p)
    obtain q act where p: "p = (q, act)"
      by (cases p)
    with Some VM_Call_P have "keeps_P (ac_state ?act) (ac_state act)"
      by blast
    with run Some p show ?thesis
      by (auto simp: NewVM_Call_def split: res.splits prod.splits option.splits)
  qed
qed

subsection \<open>Transactions\<close>

text \<open>The state of a transaction on its manager, with what the manager would commit.\<close>

definition tx_P :: "evm_state \<Rightarrow> bool" where
  "tx_P st \<longleftrightarrow> state_accounts X P st \<and>
     (\<exists>m. st_backend st = Manager m \<and> ledger_accounts X P (commit (sm_stub m)))"

lemma tx_P_commit: "tx_P st \<Longrightarrow> ledger_accounts X P (commit (st_stub st))"
  by (auto simp: tx_P_def st_stub_def)

lemma tx_P_keeps: "tx_P st \<Longrightarrow> keeps_P st st' \<Longrightarrow> tx_P st'"
  unfolding tx_P_def keeps_accounts_def by (blast dest: evm_steps_manager)

lemma tx_P_initial:
  assumes "write_set s = Map.empty" and "ledger_accounts X P (ledger s)"
  shows "tx_P (NewState (Manager (NewStateManager s)) [])"
proof -
  have "P a acc" if "sm_GetAccount X (NewStateManager s) a = Inr (Some acc)" for a acc
  proof -
    have "get_fault s (account_key X a) = None"
      using that by (auto simp: sm_GetAccount_def NewStateManager_def GetState_def split: option.splits)
    with that assms(2) sm_GetAccount_ledger [of "NewStateManager s" X a] show ?thesis
      by (simp add: NewStateManager_def ledger_accounts_def)
  qed
  with assms show ?thesis
    by (simp add: tx_P_def state_accounts_def chain_def NewState_def NewCache_def NewStateManager_def commit_initial)
qed

lemma tx_P_Flush:
  assumes "sink_Flush X em st name = (e, st')" and "tx_P st"
  shows "tx_P st'"
proof -
  obtain m where m: "st_backend st = Manager m" and commit: "ledger_accounts X P (commit (sm_stub m))"
    and ord: "state_accounts X P st"
    using assms(2) by (auto simp: tx_P_def)
  obtain s where s: "em_Flush X em (sm_stub m) name = (e, s)" and st': "st' = st\<lparr>st_backend := Manager (m\<lparr>sm_stub := s\<rparr>)\<rparr>"
    using assms(1) m by (auto simp: sink_Flush_def st_stub_def split: prod.splits)
  have "same_context (sm_stub m) s" "commit s = commit (sm_stub m)"
    using s by (auto simp: em_Flush_def Let_def split: if_splits sum.splits dest: frame commit_SetEvent)
  then have "sm_GetAccount X (m\<lparr>sm_stub := s\<rparr>) a = sm_GetAccount X m a" for a
    by (simp add: sm_GetAccount_def same_context_GetState)
  with ord commit \<open>commit s = commit (sm_stub m)\<close> show ?thesis
    by (simp add: tx_P_def state_accounts_def st' chain_def m)
qed

lemma sm_UpdateAccount_P:
  assumes "codec_ok X" and "sm_UpdateAccount X s acc = (r, t)" and "ledger_accounts X P (commit (sm_stub s))"
    and "pred_option (\<lambda>x. P (acc_Address x) x) acc"
  shows "ledger_accounts X P (commit (sm_stub t))"
proof (cases r)
  case (Ok x)
  with assms(2) have "sm_UpdateAccount X s acc = (Ok (), t)"
    by simp
  then obtain x where "acc = Some x" and "ledger_account X (commit (sm_stub t)) =
      put_account (ledger_account X (commit (sm_stub s))) (acc_Address x) (Some (stored_account x))"
    by (rule sm_UpdateAccount_commit [OF assms(1)])
  with assms(3,4) show ?thesis
    by (simp add: ledger_accounts_def put_account_apply P_stored)
qed (use assms(2,3) in \<open>auto simp: sm_UpdateAccount_def res_of_error_def split: option.splits sum.splits prod.splits
    dest: PutState_error\<close>)

lemma sm_RemoveAccount_P:
  assumes "sm_RemoveAccount X s a = (r, t)" and "ledger_accounts X P (commit (sm_stub s))"
  shows "ledger_accounts X P (commit (sm_stub t))"
proof (cases r)
  case (Ok x)
  with assms(1) have "sm_RemoveAccount X s a = (Ok (), t)"
    by simp
  from sm_RemoveAccount_commit(1) [OF this] assms(2) show ?thesis
    by (auto simp: ledger_accounts_def put_account_apply split: if_splits)
qed (use assms in \<open>auto simp: sm_RemoveAccount_def res_of_error_def split: option.splits prod.splits
    dest: DelState_error\<close>)

lemma sm_SetStorage_P:
  assumes "sm_SetStorage X s a k v = (r, t)" and "ledger_accounts X P (commit (sm_stub s))"
  shows "ledger_accounts X P (commit (sm_stub t))"
proof (cases r)
  case (Ok x)
  with assms(1) have "sm_SetStorage X s a k v = (Ok (), t)"
    by simp
  from sm_SetStorage_commit(2) [OF this] assms(2) show ?thesis
    by (simp add: ledger_accounts_def)
qed (use assms in \<open>auto simp: sm_SetStorage_def Let_def res_of_error_def split: if_splits option.splits prod.splits
    dest: DelState_error PutState_error\<close>)

lemma Sync_P:
  assumes "codec_ok X" and "tx_P st" and "es_Sync X st = (r, st')"
  shows "ledger_accounts X P (commit (st_stub st'))"
proof (cases "st_error st")
  case (Some e)
  with assms show ?thesis
    by (auto simp: es_Sync_def intro: tx_P_commit)
next
  case None
  obtain m where m: "st_backend st = Manager m" and commit: "ledger_accounts X P (commit (sm_stub m))"
    and ord: "state_accounts X P st"
    using assms(2) by (auto simp: tx_P_def)
  obtain q t where sync: "Cache_Sync (sm_UpdateAccount X) (sm_RemoveAccount X) (sm_SetStorage X) (st_cache st) m = (q, t)"
    by (cases "Cache_Sync (sm_UpdateAccount X) (sm_RemoveAccount X) (sm_SetStorage X) (st_cache st) m")
  have "ledger_accounts X P (commit (sm_stub t))"
  proof (rule Cache_Sync_accounts [OF sync, where I = "\<lambda>m. ledger_accounts X P (commit (sm_stub m))"])
    show "map_of (c_accounts (st_cache st)) a = Some i \<Longrightarrow> ai_account i = Some acc \<Longrightarrow> P a acc" for a i acc
      using ord by (auto simp: state_accounts_def chain_def)
  qed (use commit assms(1) P_self in \<open>auto intro: sm_UpdateAccount_P sm_RemoveAccount_P sm_SetStorage_P\<close>)
  with assms(3) None m sync show ?thesis
    by (auto simp: es_Sync_def backend_Sync_Manager st_stub_def)
qed

definition vm_P :: "vm_call \<Rightarrow> bool" where
  "vm_P vm_Call \<longleftrightarrow> (\<forall>st sink caller callee code input val gas r st' sink'.
     vm_Call st sink caller callee code input val gas = (r, st', sink') \<longrightarrow> keeps_P st st')"

lemma vm_PD:
  "vm_P vm \<Longrightarrow> vm st sink caller callee code input val gas = (r, st', sink') \<Longrightarrow> keeps_P st st'"
  unfolding vm_P_def by blast

lemma deploy_P:
  assumes "codec_ok X" and vm: "vm_P vm" and tx: "tx_P st"
    and run: "evmcc_deploy X vm st sink caller nonce input gas = (r, st')"
  shows "ledger_accounts X P (commit (st_stub st'))"
proof -
  let ?a = "NewContractAddress (sha256_Sum X) caller nonce"
  let ?st1 = "es_CreateAccount X st ?a" and ?st2 = "es_SetPermission X (es_CreateAccount X st ?a) ?a ContractPermFlags True"
  have tx1: "tx_P ?st1"
    using tx keeps_P_writes(1) by (rule tx_P_keeps)
  have tx2: "tx_P ?st2"
    using tx1 keeps_P_writes(6) by (rule tx_P_keeps)
  obtain out st3 sink3 where call: "vm ?st2 sink caller ?a (Some input) input 0 gas = (out, st3, sink3)"
    by (cases "vm ?st2 sink caller ?a (Some input) input 0 gas")
  have tx3: "tx_P st3"
    using tx2 vm_PD [OF vm call] by (rule tx_P_keeps)
  have derived: "derived_address X ?a"
    unfolding derived_address_def by blast
  have tx4: "tx_P (es_InitCode X st3 ?a code)" for code
    using tx3 keeps_P_writes(3) [OF derived] by (rule tx_P_keeps)
  have tx5: "tx_P st5" if "sink_Flush X em (es_InitCode X st3 ?a code) name = (e, st5)" for em code name e st5
    using that tx4 by (rule tx_P_Flush)
  from run call tx_P_commit [OF tx1] tx_P_commit [OF tx2] tx_P_commit [OF tx3]
    tx_P_commit [OF tx4] tx_P_commit [OF tx5] Sync_P [OF assms(1) tx5]
  show ?thesis
    by (auto simp: evmcc_deploy_def Let_def split: option.splits res.splits prod.splits)
qed

lemma call_P:
  assumes "codec_ok X" and vm: "vm_P vm" and tx: "tx_P st"
    and run: "evmcc_call X vm st sink caller callee arg input gas = (r, st')"
  shows "ledger_accounts X P (commit (st_stub st'))"
proof -
  obtain code st1 where code: "es_GetCode X st callee = (code, st1)"
    by (cases "es_GetCode X st callee")
  have "keeps_P st st1"
    using account_accounts(1) [OF prod.collapse [symmetric], of X P st callee] code
    by (auto simp: es_GetCode_def apfst_def map_prod_def split: prod.splits)
  with tx have tx1: "tx_P st1"
    by (rule tx_P_keeps)
  obtain out st2 sink2 where call: "vm st1 sink caller callee code input 0 gas = (out, st2, sink2)"
    by (cases "vm st1 sink caller callee code input 0 gas")
  have tx2: "tx_P st2"
    using tx1 vm_PD [OF vm call] by (rule tx_P_keeps)
  have tx3: "tx_P st3" if "sink_Flush X em st2 name = (e, st3)" for em name e st3
    using that tx2 by (rule tx_P_Flush)
  from run code call tx_P_commit [OF tx1] tx_P_commit [OF tx2] tx_P_commit [OF tx3]
    Sync_P [OF assms(1) tx3]
  show ?thesis
    by (auto simp: evmcc_call_def split: option.splits res.splits prod.splits)
qed

lemma Invoke_P:
  assumes "codec_ok X" and vm: "\<And>params origin nonce. vm_P (NewVM params origin nonce)"
    and fresh: "write_set s = Map.empty" and ord: "ledger_accounts X P (ledger s)"
    and run: "evmcc_Invoke X NewVM s = (r, s')"
  shows "ledger_accounts X P (commit s')"
proof -
  note tx = tx_P_initial [OF fresh ord]
  have unchanged: "ledger_accounts X P (commit s)"
    using ord by (simp add: commit_initial fresh)
  from run unchanged deploy_P [OF assms(1) vm tx] call_P [OF assms(1) vm tx] show ?thesis
    by (auto simp: evmcc_Invoke_def Let_def apsnd_def map_prod_def split: if_splits sum.splits prod.splits option.splits)
qed

lemma evmcc_ledger_accounts:
  assumes "evmcc_ledger X L" and "codec_ok X"
  shows "ledger_accounts X P L"
  using assms(1)
proof induction
  case genesis
  show ?case
    by (simp add: ledger_accounts_def ledger_account_def)
next
  case (transaction s payload s')
  have "vm_P (NewVM_Call X params origin nonce)" for params origin nonce
    unfolding vm_P_def using NewVM_Call_P by blast
  from Invoke_P [OF assms(2) this transaction.hyps(2) transaction.IH transaction.hyps(3)] show ?case .
qed

text \<open>The state a transaction on such a ledger starts in.\<close>

lemma initial_accounts:
  assumes "evmcc_ledger X (ledger s)" and "codec_ok X" and "write_set s = Map.empty"
  shows "state_accounts X P (initial_state s)"
  using tx_P_initial [OF assms(3) evmcc_ledger_accounts [OF assms(1,2)]] by (simp add: tx_P_def initial_state_def)

end

end
