(* ===== verification/Code_Provenance.thy ===== *)
theory Code_Provenance
  imports Account_Invariants
begin

section \<open>Where code comes from\<close>

text \<open>
  Code stands only at addresses that are derived for new contracts, by the chaincode or by an instruction, and
  an account stands at its own address: an invariant of accounts (\<open>account_invariant\<close>) that also the
  permitted calls of the secure native contract keep, which change permissions only.
\<close>

definition placed :: "('pk, 'z) evm_externals_scheme \<Rightarrow> address \<Rightarrow> account \<Rightarrow> bool" where
  "placed X a acc \<longleftrightarrow> acc_Address acc = a \<and> (code_bytes (acc_Code acc) \<noteq> [] \<longrightarrow> derived_address X a)"

subsection \<open>The native contracts change permissions only\<close>

lemma permission_writes_accounts:
  assumes "\<And>a acc p. P a acc \<Longrightarrow> P (acc_Address acc) (acc\<lparr>acc_Permissions := p\<rparr>)"
  shows "keeps_accounts X P st (es_SetPermission X st a flag v)" "keeps_accounts X P st (es_UnsetPermission X st a flag)"
    "keeps_accounts X P st (snd (es_AddRole X st a role))" "keeps_accounts X P st (snd (es_RemoveRole X st a role))"
proof -
  obtain r st2 where r: "es_mustAccount X st a = (r, st2)"
    by (cases "es_mustAccount X st a")
  have "keeps_accounts X P st st2"
    using mustAccount_accounts(1) [OF r] .
  with r assms show "keeps_accounts X P st (es_SetPermission X st a flag v)"
    "keeps_accounts X P st (es_UnsetPermission X st a flag)"
    "keeps_accounts X P st (snd (es_AddRole X st a role))" "keeps_accounts X P st (snd (es_RemoveRole X st a role))"
    by (auto simp: es_SetPermission_def es_UnsetPermission_def es_AddRole_def es_RemoveRole_def map_base_def
        map_permissions_def keeps_accounts_push split: option.split prod.split intro!: modify_accounts)
qed

lemma accounts_of: "f st = (x, st') \<Longrightarrow> keeps_accounts X P st (snd (f st)) \<Longrightarrow> keeps_accounts X P st st'"
  by simp

lemma native_functions_accounts:
  assumes "\<And>a acc p. P a acc \<Longrightarrow> P (acc_Address acc) (acc\<lparr>acc_Permissions := p\<rparr>)"
  shows "keeps_accounts X P st (snd (native_hasBase X st args))" "keeps_accounts X P st (snd (native_setBase X st args))"
    "keeps_accounts X P st (snd (native_unsetBase X st args))" "keeps_accounts X P st (snd (native_setGlobal X st args))"
    "keeps_accounts X P st (snd (native_hasRole X st args))" "keeps_accounts X P st (snd (native_addRole X st args))"
    "keeps_accounts X P st (snd (native_removeRole X st args))"
proof -
  note writes = permission_writes_accounts [of P, OF assms]
  show "keeps_accounts X P st (snd (native_hasBase X st args))" "keeps_accounts X P st (snd (native_setBase X st args))"
    "keeps_accounts X P st (snd (native_unsetBase X st args))" "keeps_accounts X P st (snd (native_setGlobal X st args))"
    "keeps_accounts X P st (snd (native_hasRole X st args))" "keeps_accounts X P st (snd (native_addRole X st args))"
    "keeps_accounts X P st (snd (native_removeRole X st args))"
    unfolding native_hasBase_def native_setBase_def native_unsetBase_def native_setGlobal_def native_hasRole_def
      native_addRole_def native_removeRole_def
    by (auto split: list.split abi_value.split prod.split bool.split option.split
        dest!: accounts_of [OF _ Exists_accounts] HasPermission_accounts [where P = P] accounts_of [OF _ GetPermissions_keeps_accounts]
          accounts_of [OF _ writes(3)] accounts_of [OF _ writes(4)]
        intro: writes(1,2) keeps_accounts_trans)
qed

lemma dispatch_to_accounts:
  assumes "\<And>a acc p. P a acc \<Longrightarrow> P (acc_Address acc) (acc\<lparr>acc_Permissions := p\<rparr>)" and "f \<in> set SNative_functions"
  shows "keeps_accounts X P st (snd (dispatch_to X f st caller args))"
proof -
  obtain permitted st1 where p: "HasPermission X st caller (sn_PermFlag f) = (permitted, st1)"
    by (cases "HasPermission X st caller (sn_PermFlag f)")
  have st1: "keeps_accounts X P st st1"
    using HasPermission_accounts [OF p] .
  have "keeps_accounts X P st1 (snd (sn_F f X st1 vs))" for vs
    using SNative_function_cases [OF assms(2)] native_functions_accounts [of P X st1 vs, OF assms(1)] by auto
  with st1 have "keeps_accounts X P st (snd (sn_F f X st1 vs))" for vs
    using keeps_accounts_trans by blast
  with st1 p show ?thesis
    by (auto simp: dispatch_to_def split: bool.split res.split prod.split option.split) (metis snd_conv)+
qed

lemma native_contract_accounts:
  assumes "\<And>a acc p. P a acc \<Longrightarrow> P (acc_Address acc) (acc\<lparr>acc_Permissions := p\<rparr>)"
    and "registeredNativeContracts X a = Some c" and "c st caller input gas = (r, st', gas')"
  shows "keeps_accounts X P st st'"
proof -
  have own: "keeps_accounts X P st st'" if "charge_native g out st gas = (r, st', gas')" for g out
    using that by (auto simp: charge_native_def split: if_splits)
  have to: "keeps_accounts X P st (snd (dispatch_to X f st caller args))" if "FunctionByID X ident = Inr f" for ident f args
    by (rule dispatch_to_accounts) (use assms(1) FunctionByID_known [OF that] in auto)
  have secure: "keeps_accounts X P st st'" if "Dispatch X st caller input gas = (r, st', gas')"
    using that to by (auto simp: Dispatch_def split: if_splits sum.splits prod.splits) (metis snd_conv)
  from assms(2,3) own secure show ?thesis
    by (auto simp: registeredNativeContracts_def sha256Func_def ripemd160Func_def identityFunc_def
        split: if_splits)
qed

subsection \<open>The invariant\<close>

interpretation placed: account_invariant X "placed X" for X
proof unfold_locales
  have perms: "placed X a acc \<Longrightarrow> placed X (acc_Address acc) (acc\<lparr>acc_Permissions := p\<rparr>)"
    for X :: "('c, 'd) evm_externals_scheme" and a acc p
    by (simp add: placed_def)
  show "state_accounts X (placed X) st'" if "registeredNativeContracts X a = Some c"
    "c st caller input gas = (r, st', gas')" "state_accounts X (placed X) st"
    for X :: "('c, 'd) evm_externals_scheme" and a c st caller input gas r st' gas'
    using native_contract_accounts [where P = "placed X", OF perms that(1,2)] that(3) by (auto simp: keeps_accounts_def)
qed (auto simp: placed_def new_account_def map_base_def map_permissions_def stored_account_def code_bytes_def)

lemma code_placed:
  assumes "state_accounts X (placed X) st" and "es_GetCode X st a = (code, st')" and "\<not> derived_address X a"
  shows "code_bytes code = []"
proof -
  obtain r where r: "es_account X st a = (r, st')" and code: "code = (case r of None \<Rightarrow> None | Some acc \<Rightarrow> acc_Code acc)"
    using assms(2) by (auto simp: es_GetCode_def apfst_def map_prod_def split: prod.splits)
  show ?thesis
    using account_accounts(2) [OF r assms(1)] code assms(3) by (auto simp: placed_def code_bytes_def split: option.splits)
qed

lemma evmcc_ledger_placed:
  assumes "evmcc_ledger X L" and "codec_ok X" and "ledger_account X L a = Inr (Some acc)"
  shows "placed X a acc"
  using placed.evmcc_ledger_accounts [OF assms(1,2)] assms(3) by (simp add: ledger_accounts_def)

end
