(* ===== verification/Evm_Termination.thy ===== *)
theory Evm_Termination
  imports Evm_Contract
begin

section \<open>Runs end\<close>

text \<open>
  Every instruction that goes on spends gas or leaves an error, except \<^verbatim>\<open>JUMPDEST\<close>, which only advances;
  so a loop ends. With a limit on the depth of calls, so does every run.
\<close>

subsection \<open>Instructions return when the nested executions do\<close>

interpretation total: machine_relation X "evm_steps X" V F True "\<lambda>_ _. True" "uses X" for X V F
proof
  show "uses X G a b \<Longrightarrow> uses X G b c \<Longrightarrow> uses X G a c" for G and a b c :: activation
    by (rule uses_trans)
qed (auto intro: uses_refl uses_state uses_gas, auto simp: uses_def)

lemma step_returns:
  assumes "exec_with True (uses X) V F exec"
  shows "\<exists>q m'. step X V exec F m = Some (q, m')"
  using total.keeps_step [OF assms] by (auto simp: keeps_with_def split: option.splits dest: spec [of _ m])

subsection \<open>Instructions spend gas\<close>

abbreviation lawful :: "('pk, 'z) evm_externals_scheme \<Rightarrow> vm \<Rightarrow> frame \<Rightarrow> 'a op \<Rightarrow> bool" where
  "lawful X V F \<equiv> keeps_with False (runs_to X V F) (\<lambda>_. True)"

definition spends :: "'a op \<Rightarrow> bool" where
  "spends f \<longleftrightarrow> (\<forall>m x m'. f m = Some (Ok x, m') \<longrightarrow> st_error (ac_state m') = None \<longrightarrow>
     1 < ac_gas m \<and> ac_gas m' < ac_gas m)"

named_theorems spends_rules "instructions that spend gas or leave an error"

lemma lawful_facts:
  assumes "lawful X V F f" and "f m = Some (r, m')"
  shows "evm_steps X (ac_state m) (ac_state m')" and "ac_gas m' \<le> ac_gas m"
    and "st_error (ac_state m') = None \<Longrightarrow> st_error (ac_state m) = None"
proof -
  have "runs_to X V F m m'"
    using assms by (fastforce simp: keeps_with_def split: option.splits)
  then show "evm_steps X (ac_state m) (ac_state m')" and "ac_gas m' \<le> ac_gas m"
    by (simp_all add: runs_to_def uses_def)
  then show "st_error (ac_state m') = None \<Longrightarrow> st_error (ac_state m) = None"
    by (blast intro: evm_steps_no_error)
qed

lemma bind_op_Ok:
  "bind_op f g m = Some (Ok x, m') \<longleftrightarrow> (\<exists>y m1. f m = Some (Ok y, m1) \<and> g y m1 = Some (Ok x, m'))"
  by (auto simp: bind_op_def split: option.splits res.splits)

lemma spends_then:
  assumes "spends f" and "\<And>x. lawful X V F (g x)"
  shows "spends (bind_op f g)"
  unfolding spends_def bind_op_Ok
proof (intro allI impI, elim exE conjE)
  fix m x m' y m1
  assume none: "st_error (ac_state m') = None" and f: "f m = Some (Ok y, m1)" and g: "g y m1 = Some (Ok x, m')"
  note law = lawful_facts [OF assms(2) g]
  have "1 < ac_gas m \<and> ac_gas m1 < ac_gas m"
    using assms(1) f law(3) none unfolding spends_def by blast
  with law(2) show "1 < ac_gas m \<and> ac_gas m' < ac_gas m"
    by (blast intro: le_less_trans)
qed

lemma then_spends:
  assumes "lawful X V F f" and "\<And>x. spends (g x)"
  shows "spends (bind_op f g)"
  unfolding spends_def bind_op_Ok
proof (intro allI impI, elim exE conjE)
  fix m x m' y m1
  assume none: "st_error (ac_state m') = None" and f: "f m = Some (Ok y, m1)" and g: "g y m1 = Some (Ok x, m')"
  have "1 < ac_gas m1 \<and> ac_gas m' < ac_gas m1"
    using assms(2) g none unfolding spends_def by blast
  with lawful_facts(2) [OF assms(1) f] show "1 < ac_gas m \<and> ac_gas m' < ac_gas m"
    by (blast intro: less_le_trans)
qed

lemma useGas_spends:
  assumes "st_error (ac_state (stack_useGas GasStackOp m)) = None"
  shows "1 < ac_gas m \<and> ac_gas (stack_useGas GasStackOp m) < ac_gas m"
proof (cases "1 < ac_gas m")
  case True
  then have "unat (ac_gas m - 1) < unat (ac_gas m)"
    by (simp add: word_less_nat_alt unat_sub word_le_nat_alt)
  with True show ?thesis
    by (simp add: stack_useGas_def GasStackOp_def word_less_nat_alt)
next
  case False
  with assms PushError_has_text [of "code_error ErrorCodeInsufficientGas" "ac_state m"] show ?thesis
    by (simp add: stack_useGas_def GasStackOp_def push_error_def has_text_def code_error_def)
qed

lemma after_useGas:
  assumes "runs_to X V F (stack_useGas GasStackOp m) m'" and "st_error (ac_state m') = None"
  shows "1 < ac_gas m \<and> ac_gas m' < ac_gas m"
proof -
  have "st_error (ac_state (stack_useGas GasStackOp m)) = None" and "ac_gas m' \<le> ac_gas (stack_useGas GasStackOp m)"
    using assms by (auto simp: runs_to_def uses_def intro: evm_steps_no_error)
  with useGas_spends [of m] show ?thesis
    by (blast intro: le_less_trans)
qed

lemma spends_stack [spends_rules]: "spends Pop" "spends (Push V d)" "spends (upd_op (stack_Dup V n))"
  "spends (upd_op (stack_Swap n))"
proof -
  show "spends Pop"
    unfolding spends_def Pop_def
    by (auto split: prod.splits) (metis after_useGas snd_conv world.R_after_useGas(2))+
  show "spends (Push V d)" "spends (upd_op (stack_Dup V n))" "spends (upd_op (stack_Swap n))"
    unfolding spends_def Push_def upd_op_def
    by (simp only: option.inject prod.inject, intro allI impI, elim conjE, hypsubst, rule after_useGas,
        rule world.R_after_useGas world.R_Dup_after_useGas, assumption)+
qed

lemma spends_seq: "spends f \<Longrightarrow> lawful X V F g \<Longrightarrow> spends (seq_op f g)"
  unfolding seq_op_def by (rule spends_then)

lemma seq_spends: "lawful X V F f \<Longrightarrow> spends g \<Longrightarrow> spends (seq_op f g)"
  unfolding seq_op_def by (rule then_spends)

lemma spends_bind2:
  "spends f \<Longrightarrow> lawful X V F g \<Longrightarrow> (\<And>x y. lawful X V F (h x y)) \<Longrightarrow> spends (bind2 f g h)"
  unfolding bind2_def by (rule spends_then) (auto intro!: keeps)

lemma spends_bind3:
  "spends f \<Longrightarrow> lawful X V F g \<Longrightarrow> lawful X V F h \<Longrightarrow> (\<And>x y z. lawful X V F (k x y z)) \<Longrightarrow>
   spends (bind3 f g h k)"
  unfolding bind3_def by (rule spends_then) (auto intro!: keeps)

lemma spends_and_next [spends_rules]: "spends f \<Longrightarrow> spends (and_next f)"
  unfolding and_next_def by (erule spends_seq) (rule world.keeps_ret)

lemma spends_unless_error [spends_rules]: "spends f \<Longrightarrow> spends (unless_error f)"
  by (auto simp: spends_def unless_error_def ret_def)

lemma spends_if [spends_rules]: "(c \<Longrightarrow> spends f) \<Longrightarrow> (\<not> c \<Longrightarrow> spends g) \<Longrightarrow> spends (if c then f else g)"
  by simp

lemma spends_pushes [spends_rules]: "spends (PushAddress V a)" "spends (Push64 V i)" "spends (PushU64 V u)"
  "spends (PushBigInt V b)"
  by (simp_all add: PushAddress_def Push64_def PushU64_def PushBigInt_def spends_rules)

lemma spends_pops [spends_rules]: "spends PopAddress" "spends Pop64" "spends PopU64" "spends PopBigInt"
  "spends PopBigIntSigned"
proof -
  show pops: "spends PopAddress" "spends Pop64" "spends PopU64" "spends PopBigInt"
    unfolding PopAddress_def Pop64_def PopU64_def PopBigInt_def
    by (rule spends_then [OF spends_stack(1)], intro keeps)+
  show "spends PopBigIntSigned"
    unfolding PopBigIntSigned_def by (rule spends_then [OF pops(4)], intro keeps)
qed

lemma spends_alu [spends_rules]: "spends (exec_alu V a)"
proof -
  fix X :: "('c, 'd) evm_externals_scheme" and F
  note binds = spends_then [where X = X and V = V and F = F] spends_bind2 [where X = X and V = V and F = F]
    spends_bind3 [where X = X and V = V and F = F]
  show ?thesis
    by (cases a) (auto intro!: binds keeps spends_rules)
qed

lemma spends_copy [spends_rules]: "spends (copy_to_memory src)"
proof -
  fix X :: "('c, 'd) evm_externals_scheme" and V F
  show ?thesis
    unfolding copy_to_memory_def
    by (rule spends_bind3 [where X = X and V = V and F = F]) (intro keeps spends_rules)+
qed

lemma spends_env [spends_rules]: "spends (exec_env X V F e)"
proof -
  note binds = spends_then [where X = X and V = V and F = F] spends_bind3 [where X = X and V = V and F = F]
  have "spends (exec_EXTCODESIZE X V)" "spends (exec_EXTCODECOPY X)" "spends exec_RETURNDATACOPY"
    "spends (exec_EXTCODEHASH X V)" "spends (exec_BLOCKHASH V)"
    unfolding exec_EXTCODESIZE_def exec_EXTCODECOPY_def exec_RETURNDATACOPY_def exec_EXTCODEHASH_def
      exec_BLOCKHASH_def Let_def
    by (rule binds; (intro keeps spends_rules)?; (intro keeps)?)+
  then show ?thesis
    by (cases e) (auto intro!: spends_rules binds keeps then_spends [where X = X and V = V and F = F, OF world.keeps_get])
qed

lemma spends_basic [spends_rules]: "e \<noteq> X_JUMPDEST \<Longrightarrow> spends (exec_basic X V F e)"
proof -
  note binds = spends_then [where X = X and V = V and F = F] spends_bind2 [where X = X and V = V and F = F]
    then_spends [where X = X and V = V and F = F, OF world.keeps_get]
  assume "e \<noteq> X_JUMPDEST"
  then show ?thesis
    by (cases e) (auto intro!: spends_rules binds keeps)
qed

lemma exec_op_spends:
  assumes exec: "exec_with False (uses X) V F exec"
    and "op \<noteq> OP_STOP" "op \<noteq> OP_INVALID" "\<forall>b. op \<noteq> OP_UNKNOWN b" "op \<noteq> OP_EXEC X_JUMPDEST"
  shows "spends (exec_op X V exec F op)"
proof -
  note first = spends_then [where X = X and V = V and F = F] spends_bind2 [where X = X and V = V and F = F]
  note later = then_spends [where X = X and V = V and F = F] seq_spends [where X = X and V = V and F = F]
    spends_seq [where X = X and V = V and F = F]
  have "spends (exec_CREATE X V exec F c)" for c
    unfolding exec_CREATE_def
    by (intro later first spends_rules keeps world.keeps_create_with exec)
  moreover have "spends (exec_CALL X V exec F k)" for k
    unfolding exec_CALL_def
    by (intro later(2) first spends_rules keeps world.keeps_call_address exec)
  moreover have "spends (exec_PUSH V F n)" for n
    unfolding exec_PUSH_def
    by (intro later(1) later(3) spends_rules keeps world.keeps_upd world.R_pc) simp
  moreover have "spends (exec_SHA3 X V)" "spends (exec_LOG X F n)" "spends exec_RETURN" "spends (exec_REVERT X)"
    "spends (exec_SELFDESTRUCT X F)" for n
    unfolding exec_SHA3_def exec_LOG_def exec_RETURN_def exec_REVERT_def exec_SELFDESTRUCT_def Let_def
    by (intro later(2) first spends_rules keeps)+
  ultimately show ?thesis
    using assms by (cases op) (auto intro!: spends_rules)
qed

subsection \<open>One turn of the loop makes progress\<close>

lemma useGasNegative_base [simp]: "useGasNegative GasBaseOp m = m"
  by (simp add: useGasNegative_def GasBaseOp_def)

lemma step_eq:
  "step X V exec F m =
     (case codeGetOp (fr_code F) (mc_pc m) of
        Ok op \<Rightarrow> exec_op X V exec F op m | Err e \<Rightarrow> Some (Err e, m) | Panic p \<Rightarrow> Some (Panic p, m))"
  by (simp add: step_def bind_op_def get_op_def lift_res_def seq_op_def upd_op_def split: res.split)

text \<open>The distance to the end of the code.\<close>

definition code_left :: "frame \<Rightarrow> machine \<Rightarrow> nat" where
  "code_left F m = nat (int (length (fr_code F)) - mc_pc m)"

lemma step_progress:
  assumes "exec_with False (uses X) V F exec"
    and run: "step X V exec F m = Some (Ok out, m')" and none: "st_error (ac_state m') = None"
  obtains (returned) data where "out = Return data"
  | (spent) "1 < ac_gas m" "ac_gas m' < ac_gas m"
  | (advanced) "out = Next" "m' = m" "mc_pc m < int (length (fr_code F))"
proof -
  obtain op where op: "codeGetOp (fr_code F) (mc_pc m) = Ok op" and ex: "exec_op X V exec F op m = Some (Ok out, m')"
    using run by (auto simp: step_eq split: res.splits)
  consider "op = OP_STOP" | "op = OP_INVALID" | b where "op = OP_UNKNOWN b" | "op = OP_EXEC X_JUMPDEST"
    | "op \<noteq> OP_STOP" "op \<noteq> OP_INVALID" "\<forall>b. op \<noteq> OP_UNKNOWN b" "op \<noteq> OP_EXEC X_JUMPDEST"
    by blast
  then show ?thesis
  proof cases
    case 4
    then have "mc_pc m < int (length (fr_code F))"
      using op by (auto simp: codeGetOp_def split: if_splits)
    with 4 ex show ?thesis
      by (intro advanced) (simp_all add: ret_def)
  next
    case 5
    from exec_op_spends [OF assms(1) this] ex none show ?thesis
      by (intro spent) (auto simp: spends_def)
  qed (use ex in \<open>auto simp: ret_def bind_op_Ok seq_op_def intro: returned\<close>)
qed

subsection \<open>Runs return\<close>

text \<open>One frame returns when the frames it calls do, from every machine that an invariant of its turns allows.\<close>

lemma run_returns_from:
  assumes turns: "\<And>m. J m \<Longrightarrow> st_error (ac_state m) = None \<Longrightarrow> \<exists>q m'. step X V (execute X V) F m = Some (q, m')"
    and kept: "\<And>m out m'. J m \<Longrightarrow> st_error (ac_state m) = None \<Longrightarrow> step X V (execute X V) F m = Some (Ok out, m') \<Longrightarrow>
      st_error (ac_state m') = None \<Longrightarrow> (\<forall>data. out \<noteq> Return data) \<Longrightarrow> J m'"
    and pc: "\<And>m i. J m \<Longrightarrow> J (m\<lparr>mc_pc := i\<rparr>)"
  shows "J m \<Longrightarrow> \<exists>r act. run X V F m = Some (r, act)"
proof (induction m rule: wf_induct_rule [OF wf_measures [of "[\<lambda>m. unat (ac_gas m), code_left F]"]])
  case (1 m)
  have weak: "exec_with False (uses X) V F (execute X V)"
    by (rule execute_uses)
  show ?case
  proof (cases "st_error (ac_state m)")
    case (Some e)
    then show ?thesis
      by (subst run.simps) simp
  next
    case None
    obtain q m' where q: "step X V (execute X V) F m = Some (q, m')"
      using turns [OF "1.prems" None] by blast
    then have q': "step X V (\<lambda>G act. run X V G (new_machine V G act)) F m = Some (q, m')"
      by (simp add: execute_def [abs_def])
    have ends: "\<exists>r act. run X V F m2 = Some (r, act)"
      if "q = Ok Next \<and> m2 = m'\<lparr>mc_pc := mc_pc m' + 1\<rparr> \<or> q = Ok Continue \<and> m2 = m'" for m2
    proof (cases "st_error (ac_state m')")
      case (Some e)
      with that show ?thesis
        by (subst run.simps) auto
    next
      case no_error: None
      from that obtain out where out: "q = Ok out" "\<forall>data. out \<noteq> Return data"
        by blast
      have "J m2"
        using that kept [OF "1.prems" None q [unfolded out(1)] no_error out(2)] pc by auto
      moreover from step_progress [OF weak q [unfolded out(1)] no_error]
      have "(m2, m) \<in> measures [\<lambda>m. unat (ac_gas m), code_left F]"
        by cases (use that out in \<open>auto simp: word_less_nat_alt code_left_def\<close>)
      ultimately show ?thesis
        using "1.IH" by blast
    qed
    show ?thesis
      by (subst run.simps) (use None q' ends in \<open>auto split: res.split outcome.split\<close>)
  qed
qed

lemma run_returns_if:
  assumes "\<And>m. \<exists>q m'. step X V (execute X V) F m = Some (q, m')"
  shows "\<exists>r act. run X V F m = Some (r, act)"
  by (rule run_returns_from [where J = "\<lambda>_. True"]) (use assms in auto)

text \<open>With a limit, the frames left below are a measure for all of them.\<close>

lemma run_returns:
  assumes limit: "0 < CallStackMaxDepth (vm_params V)"
    and "fr_depth F \<le> CallStackMaxDepth (vm_params V)"
  shows "\<exists>r act. run X V F m = Some (r, act) \<and> uses X F m act"
proof -
  have "\<exists>r act. run X V F m = Some (r, act)"
    using assms(2)
  proof (induction "unat (CallStackMaxDepth (vm_params V)) - unat (fr_depth F)" arbitrary: F m rule: less_induct)
    case less
    have "\<exists>r act'. execute X V G act = Some (r, act')" if sub: "subframe V F G" for G act
    proof -
      have depth: "fr_depth G = fr_depth F + 1" and "fr_depth F \<noteq> CallStackMaxDepth (vm_params V)"
        using sub limit by (auto simp: subframe_def ensureStackDepth_def)
      with less.prems have lt: "fr_depth F < CallStackMaxDepth (vm_params V)"
        by simp
      then have "unat (fr_depth F) + 1 < 2 ^ 64"
        using unat_less_size [of "CallStackMaxDepth (vm_params V)"] by (simp add: word_less_nat_alt)
      then have "unat (fr_depth G) = unat (fr_depth F) + 1"
        by (simp add: depth unat_word_ariths)
      with lt show ?thesis
        unfolding execute_def by (intro less.hyps) (simp_all add: word_less_nat_alt word_le_nat_alt)
    qed
    then have "exec_with True (uses X) V F (execute X V)"
      using execute_uses [of X V F] by (fastforce simp: exec_with_def split: option.splits)
    from run_returns_if [OF step_returns [OF this]] show ?case .
  qed
  with run_uses show ?thesis
    by blast
qed

lemma execute_returns:
  assumes limit: "0 < CallStackMaxDepth (vm_params V)"
    and "fr_depth F \<le> CallStackMaxDepth (vm_params V)"
  shows "exec_with True (uses X) V F (execute X V)"
  unfolding exec_with_def
proof (intro allI impI)
  fix G and act :: activation
  assume "subframe V F G"
  then have depth: "fr_depth G = fr_depth F + 1" and "fr_depth F \<noteq> CallStackMaxDepth (vm_params V)"
    using limit by (auto simp: subframe_def ensureStackDepth_def)
  with assms(2) have "fr_depth G \<le> CallStackMaxDepth (vm_params V)"
    by (simp add: inc_le)
  from run_returns [OF limit this]
  show "case execute X V G act of None \<Rightarrow> \<not> True | Some (r, act') \<Rightarrow> uses X G act act'"
    by (metis (mono_tags, lifting) case_prod_conv execute_def option.simps(5) uses_new_machine)
qed

lemma VM_Call_returns:
  assumes "0 < CallStackMaxDepth (vm_params V)"
    and "fr_depth F \<le> CallStackMaxDepth (vm_params V)"
  shows "\<exists>r act'. VM_Call X V F act = Some (r, act') \<and> uses X F act act'"
  using total.call_vm_call [OF execute_returns [OF assms, of X], of F]
  by (auto simp: call_with_def VM_Call_def split: option.splits dest: spec [of _ act])

text \<open>Without a limit, as in the chaincode: code that calls and creates nothing runs on no other.\<close>

definition leaf_op :: "opcode \<Rightarrow> bool" where
  "leaf_op op \<longleftrightarrow> op \<noteq> OP_CREATE \<and> op \<noteq> OP_CREATE2 \<and> (\<forall>k. op \<noteq> OP_CALLS k)"

definition leaf_code :: "bytes \<Rightarrow> bool" where
  "leaf_code code \<longleftrightarrow> list_all (\<lambda>b. leaf_op (decode_op b)) code"

lemma leaf_step:
  assumes "leaf_code (fr_code F)"
  shows "step X V exec F m = step X V exec' F m"
proof -
  have same: "exec_op X V exec F op m = exec_op X V exec' F op m" if "leaf_op op" for op
    using that by (cases op) (auto simp: leaf_op_def)
  have "leaf_op op" if "codeGetOp (fr_code F) (mc_pc m) = Ok op" for op
    using that assms by (auto simp: codeGetOp_def leaf_code_def list_all_length leaf_op_def split: if_splits)
  with same show ?thesis
    by (auto simp: step_eq split: res.split)
qed

lemma leaf_returns:
  assumes "leaf_code (fr_code F)"
  shows "\<exists>r act'. VM_Call X V F act = Some (r, act') \<and> uses X F act act'"
proof -
  let ?exec = "\<lambda>(G :: frame) act. Some (Ok None :: bytes option res, act :: activation)"
  have "exec_with True (uses X) V G ?exec" for G
    by (auto simp: exec_with_def intro: uses_refl)
  then have "\<exists>q m'. step X V ?exec G m = Some (q, m')" for G and m :: machine
    by (rule step_returns)
  then have "\<exists>q m'. step X V (execute X V) G m = Some (q, m')" if "leaf_code (fr_code G)" for G and m :: machine
    using leaf_step [OF that, of X V "execute X V" m ?exec] by simp
  from run_returns_if [OF this]
  have returns: "\<exists>r a'. execute X V G a = Some (r, a')" if "leaf_code (fr_code G)" for G a
    using that by (simp add: execute_def)
  let ?leaf = "\<lambda>G a. if leaf_code (fr_code G) then execute X V G a else ?exec G a"
  have "exec_with True (uses X) V F ?leaf"
    unfolding exec_with_def
  proof (intro allI impI)
    fix G and a :: activation
    assume "subframe V F G"
    then have used: "case execute X V G a of None \<Rightarrow> \<not> False | Some (r, a') \<Rightarrow> uses X G a a'"
      using execute_uses [of X V F] unfolding exec_with_def by blast
    show "case ?leaf G a of None \<Rightarrow> \<not> True | Some (r, a') \<Rightarrow> uses X G a a'"
    proof (cases "leaf_code (fr_code G)")
      case True
      with returns [OF True, of a] used show ?thesis
        by auto
    qed (auto intro: uses_refl)
  qed
  from total.call_vm_call [OF this, of F]
  have "\<exists>r act'. vm_call X V ?leaf F act = Some (r, act') \<and> uses X F act act'"
    by (auto simp: call_with_def split: option.splits dest: spec [of _ act])
  moreover have "vm_call X V ?leaf F act = VM_Call X V F act"
  proof -
    have "enter_code V ?leaf F = enter_code V (execute X V) F"
      using assms by (simp add: enter_code_def fun_eq_iff Let_def)
    then show ?thesis
      by (simp only: VM_Call_def vm_call_def)
  qed
  ultimately show ?thesis
    by simp
qed

end
