(* ===== verification/Gas_Termination.thy ===== *)
theory Gas_Termination
  imports Code_Provenance Evm_Termination Chaincode_Results
begin

section \<open>Gas ends every run\<close>

text \<open>
  The chaincode runs its machine without a limit on the depth of calls. A call instruction charges the gas of
  its arguments before it lends the rest, so every nested run has less gas than its caller, with one
  exception: when the gas does not suffice for the arguments, the call still runs, with at most one unit of
  gas, before the loop looks at the error. A nested run with so little gas can only call the zero address,
  whose zero words its empty stack yields. So runs end when no code stands there; no code does when the hashes
  that addresses are derived from never are zero (\<open>placed\<close>).
\<close>

subsection \<open>Instructions with the same nested executions\<close>

definition leads :: "(machine \<Rightarrow> bool) \<Rightarrow> 'a op \<Rightarrow> ('a \<Rightarrow> machine \<Rightarrow> bool) \<Rightarrow> bool" where
  "leads J f K \<longleftrightarrow> (\<forall>m x m'. J m \<longrightarrow> f m = Some (Ok x, m') \<longrightarrow> K x m')"

definition agree :: "(machine \<Rightarrow> bool) \<Rightarrow> 'a op \<Rightarrow> 'a op \<Rightarrow> bool" where
  "agree J f f' \<longleftrightarrow> (\<forall>m. J m \<longrightarrow> f m = f' m)"

lemma agree_refl [simp, intro]: "agree J f f"
  by (simp add: agree_def)

lemma agree_assume: "(\<And>m. J m \<Longrightarrow> c) \<Longrightarrow> (c \<Longrightarrow> agree J f f') \<Longrightarrow> agree J f f'"
  unfolding agree_def by blast

lemma agree_bind:
  assumes "leads J f K" and "\<And>x. agree (K x) (g x) (g' x)"
  shows "agree J (bind_op f g) (bind_op f g')"
  unfolding agree_def
proof (intro allI impI)
  fix m
  assume "J m"
  with assms show "bind_op f g m = bind_op f g' m"
    by (auto simp: bind_op_def leads_def agree_def split: option.split res.split)
qed

lemma agree_first: "agree J f f' \<Longrightarrow> agree J (bind_op f g) (bind_op f' g)"
  by (simp add: agree_def bind_op_def)

lemma agree_seq: "leads J f (\<lambda>_. K) \<Longrightarrow> agree K g g' \<Longrightarrow> agree J (seq_op f g) (seq_op f g')"
  unfolding seq_op_def by (rule agree_bind)

lemma agree_bind2:
  "leads J f K1 \<Longrightarrow> (\<And>x. leads (K1 x) g (K2 x)) \<Longrightarrow> (\<And>x y. agree (K2 x y) (h x y) (h' x y)) \<Longrightarrow>
   agree J (bind2 f g h) (bind2 f g h')"
  unfolding bind2_def by (intro agree_bind)

lemma agree_unless_error: "agree J f f' \<Longrightarrow> agree J (unless_error f) (unless_error f')"
  by (simp add: agree_def unless_error_def)

lemma agree_if: "(c \<Longrightarrow> agree J f f') \<Longrightarrow> (\<not> c \<Longrightarrow> agree J g g') \<Longrightarrow> agree J (if c then f else g) (if c then f' else g')"
  by simp

lemma leads_weaken: "leads J f K \<Longrightarrow> (\<And>m. J' m \<Longrightarrow> J m) \<Longrightarrow> (\<And>x m. K x m \<Longrightarrow> K' x m) \<Longrightarrow> leads J' f K'"
  unfolding leads_def by blast

lemma leads_bind:
  assumes "leads J f K1" and "\<And>x. leads (K1 x) (g x) K"
  shows "leads J (bind_op f g) K"
  using assms unfolding leads_def bind_op_Ok by blast

text \<open>A lawful operation keeps whatever is stable under the relation of runs.\<close>

abbreviation placed_state :: "('pk, 'z) evm_externals_scheme \<Rightarrow> evm_state \<Rightarrow> bool" where
  "placed_state X st \<equiv> state_accounts X (placed X) st"

definition stable :: "('pk, 'z) evm_externals_scheme \<Rightarrow> vm \<Rightarrow> frame \<Rightarrow> (machine \<Rightarrow> bool) \<Rightarrow> bool" where
  "stable X V F J \<longleftrightarrow> (\<forall>m m'. J m \<longrightarrow> account_invariant.runs_P X (placed X) V F m m' \<longrightarrow> J m')"

lemma leads_stable:
  assumes "keeps_with False (account_invariant.runs_P X (placed X) V F) (\<lambda>_. True) f" and "stable X V F J"
  shows "leads J f (\<lambda>_. J)"
  using assms by (fastforce simp: leads_def keeps_with_def stable_def split: option.splits)

lemma runs_P_facts:
  assumes "account_invariant.runs_P X (placed X) V F m m'"
  shows "placed_state X (ac_state m) \<Longrightarrow> placed_state X (ac_state m')" and "ac_gas m' \<le> ac_gas m"
    and "st_error (ac_state m') = None \<Longrightarrow> st_error (ac_state m) = None"
  using assms
  by (auto simp: placed.runs_P_def keeps_accounts_def runs_to_def uses_def intro: evm_steps_no_error)

lemma stable_placed: "stable X V F (\<lambda>m. placed_state X (ac_state m))"
  by (simp add: stable_def runs_P_facts)

lemma stable_gas: "(\<And>g g'. G g \<Longrightarrow> g' \<le> g \<Longrightarrow> G g') \<Longrightarrow> stable X V F (\<lambda>m. G (ac_gas m))"
  unfolding stable_def using runs_P_facts(2) by blast

lemma stable_error: "stable X V F (\<lambda>m. st_error (ac_state m) \<noteq> None)"
  by (auto simp: stable_def simp del: not_None_eq dest: runs_P_facts(3))

lemma stable_conj: "stable X V F J \<Longrightarrow> stable X V F K \<Longrightarrow> stable X V F (\<lambda>m. J m \<and> K m)"
  unfolding stable_def by blast

subsection \<open>What an instruction runs has less gas\<close>

definition small :: "64 word \<Rightarrow> 64 word \<Rightarrow> bool" where
  "small g w \<longleftrightarrow> w < g \<or> w \<le> 1"

abbreviation at_most :: "('pk, 'z) evm_externals_scheme \<Rightarrow> 64 word \<Rightarrow> machine \<Rightarrow> bool" where
  "at_most X g m \<equiv> placed_state X (ac_state m) \<and> ac_gas m \<le> g"

abbreviation below :: "('pk, 'z) evm_externals_scheme \<Rightarrow> 64 word \<Rightarrow> machine \<Rightarrow> bool" where
  "below X g m \<equiv> placed_state X (ac_state m) \<and> small g (ac_gas m)"

definition same_below :: "('pk, 'z) evm_externals_scheme \<Rightarrow> 64 word \<Rightarrow> exec \<Rightarrow> exec \<Rightarrow> bool" where
  "same_below X g exec exec' \<longleftrightarrow>
     (\<forall>G act. placed_state X (ac_state act) \<longrightarrow> small g (ac_gas act) \<longrightarrow> exec G act = exec' G act)"

lemma small_le: "small g w \<Longrightarrow> w' \<le> w \<Longrightarrow> small g w'"
  by (auto simp: small_def)

lemma stable_at_most: "stable X V F (at_most X g)"
  by (intro stable_conj stable_placed stable_gas) simp

lemma stable_below: "stable X V F (below X g)"
  by (intro stable_conj stable_placed stable_gas) (rule small_le)

lemmas leads_lawful = leads_stable [OF _ stable_placed] leads_stable [OF _ stable_at_most] leads_stable [OF _ stable_below]

lemma leads_Pop: "leads (at_most X g) Pop (\<lambda>_. below X g)"
  unfolding leads_def
proof (intro allI impI)
  fix m d m'
  assume m: "at_most X g m" and pop: "Pop m = Some (Ok d, m')"
  have "placed_state X (ac_state m')"
    using m pop leads_lawful(1) [OF placed.kept.keeps_Pop] by (auto simp: leads_def)
  moreover have "ac_gas m' = ac_gas (stack_useGas GasStackOp m)"
    using pop by (auto simp: Pop_def stack_Pop_def Let_def push_error_def split: list.splits)
  then have "small g (ac_gas m')"
    using m
    by (cases "1 < ac_gas m")
      (auto simp: small_def stack_useGas_def GasStackOp_def push_error_def word_less_nat_alt word_le_nat_alt unat_sub)
  ultimately show "below X g m'"
    by blast
qed

lemma leads_PopU64: "leads (at_most X g) PopU64 (\<lambda>_. below X g)"
  unfolding PopU64_def
  by (rule leads_bind [OF leads_Pop]) (intro leads_lawful(3) placed.kept.keeps_if placed.kept.keeps_ret
      placed.kept.keeps_seq placed.kept.keeps_PushError)

subsection \<open>Nested calls\<close>

lemma keeps_placed: "keeps_accounts X (placed X) st st' \<Longrightarrow> placed_state X st \<Longrightarrow> placed_state X st'"
  by (simp add: keeps_accounts_def)

lemma agree_nested:
  assumes "\<And>act. placed_state X (ac_state act) \<Longrightarrow> ac_gas act = limit \<Longrightarrow> call act = call' act"
  shows "agree (\<lambda>m. placed_state X (ac_state m)) (nested X opts limit call fin) (nested X opts limit call' fin)"
  using assms by (simp add: agree_def nested_def child_activation_def)

lemma enter_code_agree:
  assumes "same_below X g exec exec'" and "placed_state X (ac_state act)" and "small g (ac_gas act)"
  shows "enter_code V exec F act = enter_code V exec' F act"
proof -
  let ?act = "act\<lparr>ac_state := es_PushError (ac_state act) (ensureStackDepth V (fr_depth F))\<rparr>"
  have "placed_state X (ac_state ?act)"
    using keeps_placed [OF keeps_accounts_pushed assms(2)] by simp
  with assms have "exec (F\<lparr>fr_depth := fr_depth F + 1\<rparr>) ?act = exec' (F\<lparr>fr_depth := fr_depth F + 1\<rparr>) ?act"
    by (simp add: same_below_def)
  then show ?thesis
    by (simp add: enter_code_def Let_def)
qed

lemma vm_call_agree:
  assumes "same_below X g exec exec'" and "placed_state X (ac_state act)" and "small g (ac_gas act)"
  shows "vm_call X V exec F act = vm_call X V exec' F act"
proof -
  obtain e st where st: "transfer X (ac_state act) (fr_caller F) (fr_callee F) (fr_value F) = (e, st)"
    by (cases "transfer X (ac_state act) (fr_caller F) (fr_callee F) (fr_value F)")
  have "placed_state X (es_PushError st e)"
    using keeps_placed [OF placed.kept.S_transfer assms(2)] keeps_placed [OF keeps_accounts_pushed] st by (metis snd_conv)
  with enter_code_agree [OF assms(1), of "act\<lparr>ac_state := es_PushError st e\<rparr>"] assms(3) st show ?thesis
    by (simp add: vm_call_def)
qed

lemma create_call_agree:
  assumes "same_below X g exec exec'" and "placed_state X (ac_state act)" and "small g (ac_gas act)"
  shows "create_call X V exec F a input v act = create_call X V exec' F a input v act"
  unfolding create_call_def
  by (rule vm_call_agree [OF assms(1)]) (use keeps_placed [OF placed.kept.S_create assms(2)] assms(3) in simp_all)

lemma run_contract_agree:
  assumes "same_below X g exec exec'" and "placed_state X (ac_state act)" and "small g (ac_gas act)"
  shows "run_contract X V exec k F act = run_contract X V exec' k F act"
  using vm_call_agree [OF assms] enter_code_agree [OF assms] by (simp add: run_contract_def delegateCall_def)

subsection \<open>The instructions that call\<close>

lemma leads_take:
  assumes "\<And>m. J m \<Longrightarrow> placed_state X (ac_state m)" and "small g limit"
  shows "leads J (take_gas limit) (\<lambda>l m. placed_state X (ac_state m) \<and> small g l)"
  using assms by (auto simp: leads_def take_gas_def)

lemma leads_get: "leads J (get_op h) (\<lambda>x m. J m \<and> x = h m)"
  by (simp add: leads_def get_op_def)

lemma nested_agree:
  assumes "\<And>act. placed_state X (ac_state act) \<Longrightarrow> small g (ac_gas act) \<Longrightarrow> call act = call' act"
  shows "agree (\<lambda>m. placed_state X (ac_state m) \<and> small g limit)
    (bind_op (nested X opts limit call fin) h) (bind_op (nested X opts limit call' fin) h)"
  by (rule agree_assume [where c = "small g limit"], simp, rule agree_first)
    (use agree_nested [of X limit call call' opts fin] assms in \<open>auto simp: agree_def\<close>)

lemma create_nested_agree:
  assumes "same_below X g exec exec'"
  shows "agree (below X g) (create_nested X V exec F a input v) (create_nested X V exec' F a input v)"
  unfolding create_nested_def
proof (rule agree_bind [OF leads_get], rule agree_assume)
  fix gas
  assume "small g gas"
  then have "leads (\<lambda>m. below X g m \<and> gas = ac_gas m) (take_gas gas)
      (\<lambda>l m. placed_state X (ac_state m) \<and> small g l)"
    by (intro leads_take) simp_all
  then show "agree (\<lambda>m. below X g m \<and> gas = ac_gas m)
      (bind_op (take_gas gas) (\<lambda>limit. bind_op (nested X [] limit (create_call X V exec F a input v)
        (\<lambda>output st. es_InitCode X st a output)) (\<lambda>(output, callErr, left). seq_op (give_gas left) (ret (output, callErr)))))
      (bind_op (take_gas gas) (\<lambda>limit. bind_op (nested X [] limit (create_call X V exec' F a input v)
        (\<lambda>output st. es_InitCode X st a output)) (\<lambda>(output, callErr, left). seq_op (give_gas left) (ret (output, callErr)))))"
    by (rule agree_bind) (rule nested_agree [OF create_call_agree [OF assms]])
qed simp

lemma CREATE_agree:
  assumes "same_below X g exec exec'"
  shows "agree (at_most X g) (exec_CREATE X V exec F c) (exec_CREATE X V exec' F c)"
proof -
  have lawful: "leads (below X g) (new_address X V F c) (\<lambda>_. below X g)"
    by (rule leads_lawful(3)) (unfold new_address_def, intro keeps placed.kept.keeps_upd placed.kept.R_sequence)
  show ?thesis
    unfolding exec_CREATE_def create_with_def
    by (intro agree_seq [OF leads_lawful(2)] agree_bind [OF leads_PopU64] agree_bind2 [OF leads_lawful(3) leads_lawful(3)]
        agree_bind [OF leads_lawful(3)] agree_seq [OF leads_lawful(3)] agree_bind [OF lawful] agree_unless_error
        agree_first create_nested_agree assms keeps)
qed

lemma call_body_agree:
  assumes "same_below X g exec exec'"
  shows "agree (\<lambda>m. placed_state X (ac_state m) \<and> small g limit)
    (call_body X V exec F k a args limit ro rs) (call_body X V exec' F k a args limit ro rs)"
proof (rule agree_assume)
  assume "small g limit"
  then have J: "(\<lambda>m. placed_state X (ac_state m) \<and> small g limit) = (\<lambda>m. placed_state X (ac_state m))"
    by simp
  have target: "leads (\<lambda>m. placed_state X (ac_state m)) (ensure_target X F k a) (\<lambda>_ m. placed_state X (ac_state m))"
    by (rule leads_lawful(1) [OF placed.kept.keeps_target])
  note nested = nested_agree [where X = X and g = g and limit = limit, unfolded J]
  show "agree (\<lambda>m. placed_state X (ac_state m) \<and> small g limit)
      (call_body X V exec F k a args limit ro rs) (call_body X V exec' F k a args limit ro rs)"
    unfolding call_body_def J
    by (intro agree_if agree_refl agree_seq [OF leads_lawful(1)] agree_bind [OF target] agree_bind [OF leads_lawful(1)]
        nested run_contract_agree [OF assms] keeps)
qed simp

lemma call_address_agree:
  assumes "same_below X g exec exec'"
  shows "agree (below X g) (call_address X V exec F k gasLimit a) (call_address X V exec' F k gasLimit a)"
proof -
  have lent: "agree (\<lambda>m. below X g m \<and> gas = ac_gas m)
      (bind_op (take_gas (call_gas gas gasLimit)) (\<lambda>limit. call_body X V exec F k a args limit ro rs))
      (bind_op (take_gas (call_gas gas gasLimit)) (\<lambda>limit. call_body X V exec' F k a args limit ro rs))"
    for gas args ro rs
  proof (rule agree_assume)
    assume "small g gas"
    then have "small g (call_gas gas gasLimit)"
      using call_gas_le by (rule small_le)
    then have "leads (\<lambda>m. below X g m \<and> gas = ac_gas m) (take_gas (call_gas gas gasLimit))
        (\<lambda>l m. placed_state X (ac_state m) \<and> small g l)"
      by (intro leads_take) simp_all
    then show "agree (\<lambda>m. below X g m \<and> gas = ac_gas m)
      (bind_op (take_gas (call_gas gas gasLimit)) (\<lambda>limit. call_body X V exec F k a args limit ro rs))
      (bind_op (take_gas (call_gas gas gasLimit)) (\<lambda>limit. call_body X V exec' F k a args limit ro rs))"
      by (rule agree_bind) (rule call_body_agree [OF assms])
  qed simp
  show ?thesis
    unfolding call_address_def
    by (intro agree_seq [OF leads_lawful(3)] agree_bind2 [OF leads_lawful(3) leads_lawful(3)]
        agree_bind [OF leads_lawful(3)] agree_bind [OF leads_get] lent keeps
        placed.kept.keeps_upd placed.kept.R_value)
qed

lemma CALL_agree:
  assumes "same_below X g exec exec'"
  shows "agree (at_most X g) (exec_CALL X V exec F k) (exec_CALL X V exec' F k)"
  unfolding exec_CALL_def
  by (intro agree_seq [OF leads_lawful(2)] agree_unless_error agree_bind2 [OF leads_PopU64 leads_lawful(3)]
      call_address_agree assms keeps)

lemma step_agree:
  assumes "same_below X g exec exec'" and "at_most X g m"
  shows "step X V exec F m = step X V exec' F m"
proof -
  have "exec_op X V exec F op m = exec_op X V exec' F op m" for op
    using CALL_agree [OF assms(1)] CREATE_agree [OF assms(1)] assms(2) by (cases op) (simp_all add: agree_def)
  then show ?thesis
    by (simp add: step_eq split: res.split)
qed

subsection \<open>Runs with next to no gas\<close>

text \<open>A machine at the start of a run with at most one unit of gas: before its first instruction other than
  \<^verbatim>\<open>JUMPDEST\<close>.\<close>

definition starved :: "('pk, 'z) evm_externals_scheme \<Rightarrow> machine \<Rightarrow> bool" where
  "starved X m \<longleftrightarrow> placed_state X (ac_state m) \<and> ac_gas m \<le> 1 \<and> mc_stack m = []"

lemma enter_no_code: "fr_code G = [] \<Longrightarrow> enter_code V exec G act = enter_code V exec' G act"
  by (simp add: enter_code_def Let_def)

lemma run_no_code: "run_contract X V exec k (call_frame F k a [] args v) act =
    run_contract X V exec' k (call_frame F k a [] args v) act"
proof -
  have "fr_code (call_frame F k a [] args v) = []"
    by (cases k) (simp_all add: call_frame_def Let_def)
  from enter_no_code [OF this, of V exec _ exec'] show ?thesis
    by (simp add: run_contract_def delegateCall_def vm_call_def split: prod.split)
qed

lemma call_zero_agree:
  assumes "\<not> derived_address X ZeroAddress"
  shows "agree (\<lambda>m. placed_state X (ac_state m)) (call_address X V exec F k l ZeroAddress)
    (call_address X V exec' F k l ZeroAddress)"
proof -
  let ?J = "\<lambda>m. placed_state X (ac_state m)"
  have code: "leads ?J (state_op (\<lambda>st. es_GetCode X st ZeroAddress)) (\<lambda>code m. ?J m \<and> code_bytes code = [])"
  proof -
    have "leads ?J (state_op (\<lambda>st. es_GetCode X st ZeroAddress)) (\<lambda>_. ?J)"
      by (rule leads_lawful(1) [OF placed.kept.keeps_reads(2)])
    with code_placed [OF _ _ assms] show ?thesis
      by (fastforce simp: leads_def state_op_def split: prod.splits)
  qed
  have target: "leads ?J (ensure_target X F k a) (\<lambda>_. ?J)" for a
    by (rule leads_lawful(1) [OF placed.kept.keeps_target])
  have nested: "agree (\<lambda>m. ?J m \<and> code_bytes code = [])
      (bind_op (nested X opts limit (run_contract X V exec k (call_frame F k a (code_bytes code) args v)) fin) h)
      (bind_op (nested X opts limit (run_contract X V exec' k (call_frame F k a (code_bytes code) args v)) fin) h)"
    for code opts limit a args v fin h
    by (rule agree_assume [where c = "code_bytes code = []"], simp, rule agree_first)
      (use run_no_code [where X = X and V = V and exec = exec and exec' = exec'] in \<open>simp add: agree_def nested_def\<close>)
  have body: "agree ?J (call_body X V exec F k ZeroAddress args limit ro rs) (call_body X V exec' F k ZeroAddress args limit ro rs)"
    for args limit ro rs
    unfolding call_body_def
    by (intro agree_if agree_refl agree_seq [OF leads_lawful(1)] agree_bind [OF target] agree_bind [OF code]
        agree_bind [OF leads_lawful(1) [OF placed.kept.keeps_get]] nested keeps)
  have take: "leads ?J (take_gas n) (\<lambda>_. ?J)" for n
    by (simp add: leads_def take_gas_def)
  show ?thesis
    unfolding call_address_def
    by (intro agree_seq [OF leads_lawful(1)] agree_bind2 [OF leads_lawful(1) leads_lawful(1)] agree_bind [OF take]
        agree_bind [OF leads_lawful(1)] body keeps placed.kept.keeps_upd placed.kept.R_value)
qed

lemma Pop_starved:
  assumes "mc_stack m = []" and "Pop m = Some (Ok d, m')"
  shows "d = 0" and "mc_stack m' = []" and "st_error (ac_state m') \<noteq> None"
  using assms PushError_has_text [of "code_error ErrorCodeDataStackUnderflow"]
  by (auto simp: Pop_def stack_Pop_def Let_def push_error_def stack_useGas_def Zero256_def has_text_def code_error_def
      split: if_splits)

lemma leads_both: "leads J f K \<Longrightarrow> leads J f K' \<Longrightarrow> leads J f (\<lambda>x m. K x m \<and> K' x m)"
  by (simp add: leads_def)

lemma leads_starved:
  "leads (\<lambda>m. mc_stack m = []) PopU64 (\<lambda>_ m. mc_stack m = [])"
  "leads (\<lambda>m. mc_stack m = []) PopAddress (\<lambda>a _. a = ZeroAddress)"
proof -
  have pop: "leads (\<lambda>m. mc_stack m = []) Pop (\<lambda>d m. d = 0 \<and> mc_stack m = [])"
    unfolding leads_def using Pop_starved(1,2) by blast
  show "leads (\<lambda>m. mc_stack m = []) PopU64 (\<lambda>_ m. mc_stack m = [])"
    unfolding PopU64_def by (rule leads_bind [OF pop]) (auto simp: leads_def ret_def Is64BitOverflow_def)
  show "leads (\<lambda>m. mc_stack m = []) PopAddress (\<lambda>a _. a = ZeroAddress)"
    unfolding PopAddress_def
    by (rule leads_bind [OF pop]) (auto simp: leads_def ret_def AddressFromWord256_def ZeroAddress_def)
qed

lemma starved_CALL:
  assumes "\<not> derived_address X ZeroAddress"
  shows "agree (starved X) (exec_CALL X V exec F k) (exec_CALL X V exec' F k)"
proof -
  let ?J = "\<lambda>m. placed_state X (ac_state m)"
  have returnData: "leads (starved X) (set_returnData None) (\<lambda>_. starved X)"
    by (simp add: leads_def set_returnData_def upd_op_def starved_def)
  have permission: "leads (starved X) (state_upd (\<lambda>st. EnsurePermission X st (fr_callee F) perm_Call)) (\<lambda>_. starved X)"
    by (simp add: leads_def state_upd_def starved_def keeps_placed [OF placed.kept.S_EnsurePermission])
  have placed: "leads ?J PopU64 (\<lambda>_. ?J)" "leads ?J PopAddress (\<lambda>_. ?J)"
    by (intro leads_lawful(1) keeps)+
  have limit: "leads (starved X) PopU64 (\<lambda>_ m. ?J m \<and> mc_stack m = [])"
    by (rule leads_both) (rule leads_weaken [OF placed(1)] leads_weaken [OF leads_starved(1)]; simp add: starved_def)+
  have target: "leads (\<lambda>m. ?J m \<and> mc_stack m = []) PopAddress (\<lambda>a m. ?J m \<and> a = ZeroAddress)"
    by (rule leads_both) (rule leads_weaken [OF placed(2)] leads_weaken [OF leads_starved(2)]; simp)+
  show ?thesis
    unfolding exec_CALL_def
  proof (intro agree_seq [OF returnData] agree_seq [OF permission] agree_unless_error agree_bind2 [OF limit target])
    fix l a
    show "agree (\<lambda>m. ?J m \<and> a = ZeroAddress) (call_address X V exec F k l a) (call_address X V exec' F k l a)"
      by (rule agree_assume [where c = "a = ZeroAddress"])
        (use call_zero_agree [OF assms, of V exec F k l exec'] in \<open>auto simp: agree_def\<close>)
  qed
qed

lemma starved_CREATE: "agree (starved X) (exec_CREATE X V exec F c) (exec_CREATE X V exec' F c)"
proof -
  let ?E = "\<lambda>m. st_error (ac_state m) \<noteq> None"
  have returnData: "leads (starved X) (set_returnData None) (\<lambda>_. starved X)"
    by (simp add: leads_def set_returnData_def upd_op_def starved_def)
  note lawful = leads_stable [OF _ stable_error, where X = X and V = V and F = F]
  have "leads (starved X) Pop (\<lambda>_. ?E)"
    unfolding leads_def starved_def using Pop_starved(3) by blast
  then have limit: "leads (starved X) PopU64 (\<lambda>_. ?E)"
    unfolding PopU64_def by (rule leads_bind) (intro lawful keeps)
  have address: "leads ?E (new_address X V F c) (\<lambda>_. ?E)"
    by (rule lawful) (unfold new_address_def, intro keeps placed.kept.keeps_upd placed.kept.R_sequence)
  have stopped: "agree ?E (unless_error f) (unless_error f')" for f f'
    by (simp add: agree_def unless_error_def)
  show ?thesis
    unfolding exec_CREATE_def create_with_def
    by (intro agree_seq [OF returnData] agree_bind [OF limit] agree_bind2 [OF lawful lawful]
        agree_bind [OF address] agree_bind [OF lawful] agree_seq [OF lawful] stopped keeps)
qed

lemma starved_step:
  assumes "\<not> derived_address X ZeroAddress" and "starved X m"
  shows "step X V exec F m = step X V exec' F m"
proof -
  have "exec_op X V exec F op m = exec_op X V exec' F op m" for op
    using starved_CALL [OF assms(1)] starved_CREATE [of X V exec F _ exec'] assms(2) by (cases op) (simp_all add: agree_def)
  then show ?thesis
    by (simp add: step_eq split: res.split)
qed

lemma dummy_uses: "exec_with True (uses X) V F (\<lambda>G act. Some (Ok None, act))"
  by (auto simp: exec_with_def intro: uses_refl)

lemma starved_returns:
  assumes "\<not> derived_address X ZeroAddress" and "placed_state X (ac_state act)" and "ac_gas act \<le> 1"
  shows "\<exists>r act'. execute X V F act = Some (r, act')"
  unfolding execute_def
proof (rule run_returns_from [where J = "starved X"])
  show "\<exists>q m'. step X V (execute X V) F m = Some (q, m')" if "starved X m" for m
    using step_returns [OF dummy_uses, of X V F m] starved_step [OF assms(1) that] by metis
  show "starved X m'" if "starved X m" "step X V (execute X V) F m = Some (Ok out, m')"
    "st_error (ac_state m') = None" "\<forall>data. out \<noteq> Return data" for m out m'
    by (rule step_progress [OF execute_uses that(2,3)]) (use that in \<open>auto simp: starved_def\<close>)
qed (use assms(2,3) in \<open>simp_all add: starved_def new_machine_def\<close>)

subsection \<open>All runs return\<close>

lemma small_less: "1 < g \<Longrightarrow> small g w \<Longrightarrow> unat w < unat g"
  by (auto simp: small_def word_less_nat_alt word_le_nat_alt)

lemma execute_returns_placed:
  assumes zero: "\<not> derived_address X ZeroAddress"
  shows "placed_state X (ac_state act) \<Longrightarrow> \<exists>r act'. execute X V F act = Some (r, act')"
proof (induction "unat (ac_gas act)" arbitrary: F act rule: less_induct)
  case less
  let ?g = "ac_gas act"
  show ?case
  proof (cases "?g \<le> 1")
    case True
    from starved_returns [OF zero less.prems True] show ?thesis .
  next
    case False
    then have "1 < ?g"
      by simp
    let ?ok = "\<lambda>a. placed_state X (ac_state a) \<and> small ?g (ac_gas a)"
    let ?exec = "\<lambda>G a. if ?ok a then execute X V G a else Some (Ok None, a)"
    have "exec_with True (uses X) V F ?exec"
      unfolding exec_with_def
    proof (intro allI impI)
      fix G and a :: activation
      assume "subframe V F G"
      then have "case execute X V G a of None \<Rightarrow> \<not> False | Some (r, a') \<Rightarrow> uses X G a a'"
        using execute_uses [of X V F] unfolding exec_with_def by blast
      moreover have "\<exists>r a'. execute X V G a = Some (r, a')" if "?ok a"
        using that small_less [OF \<open>1 < ?g\<close>] by (intro less.hyps) simp_all
      ultimately show "case ?exec G a of None \<Rightarrow> \<not> True | Some (r, a') \<Rightarrow> uses X G a a'"
        by (cases "?ok a") (auto intro: uses_refl)
    qed
    note returns = step_returns [OF this]
    have same: "same_below X ?g (execute X V) ?exec"
      by (simp add: same_below_def)
    show ?thesis
      unfolding execute_def
    proof (rule run_returns_from [where J = "at_most X ?g"])
      show "\<exists>q m'. step X V (execute X V) F m = Some (q, m')" if "at_most X ?g m" for m
        using returns [of m] step_agree [OF same that] by simp
      show "at_most X ?g m'" if "at_most X ?g m" "step X V (execute X V) F m = Some (Ok out, m')" for m out m'
        using leads_lawful(2) [OF placed.kept.keeps_step [OF placed.execute_P]] that unfolding leads_def by blast
    qed (use less.prems in \<open>simp_all add: new_machine_def\<close>)
  qed
qed

theorem VM_Call_returns_placed:
  assumes zero: "\<not> derived_address X ZeroAddress" and "placed_state X (ac_state act)"
  shows "\<exists>r act'. VM_Call X V F act = Some (r, act') \<and> uses X F act act'"
proof -
  obtain e st where st: "transfer X (ac_state act) (fr_caller F) (fr_callee F) (fr_value F) = (e, st)"
    by (cases "transfer X (ac_state act) (fr_caller F) (fr_callee F) (fr_value F)")
  let ?st = "es_PushError (es_PushError st e) (ensureStackDepth V (fr_depth F))"
  have "placed_state X ?st"
    using keeps_placed [OF placed.kept.S_transfer assms(2)] keeps_placed [OF keeps_accounts_pushed] st by (metis snd_conv)
  then have "\<exists>r act'. execute X V (F\<lparr>fr_depth := fr_depth F + 1\<rparr>) (act\<lparr>ac_state := ?st\<rparr>) = Some (r, act')"
    by (intro execute_returns_placed [OF zero]) simp
  then have "\<exists>r act'. VM_Call X V F act = Some (r, act')"
    by (auto simp: VM_Call_def vm_call_def st enter_code_def Let_def return_call_def split: res.split)
  moreover have "call_with False (uses X) F (vm_call X V (execute X V) F)"
    by (rule world.call_vm_call [OF execute_uses]) simp_all
  ultimately show ?thesis
    by (auto simp: call_with_def VM_Call_def dest!: spec [of _ act])
qed

end
