(* ===== verification/Account_Permissions.thy ===== *)
theory Account_Permissions
  imports Account_Invariants
begin

unbundle bit_operations_syntax

section \<open>Nobody gains a permission\<close>

text \<open>
  The chaincode gives the contracts it deploys three permissions, to call, to send and to create contracts.
  An account is \<open>ordinary\<close> when it has no other and no role. Ordinary accounts are an invariant
  (\<open>account_invariant\<close>): the secure native contract, whose functions need other permissions, refuses every
  caller, so whatever a transaction runs, every account it writes to the ledger is ordinary.
\<close>

definition ordinary :: "account \<Rightarrow> bool" where
  "ordinary acc \<longleftrightarrow> Perms (Base (acc_Permissions acc)) AND NOT ContractPermFlags = 0 \<and> Roles (acc_Permissions acc) = []"

abbreviation ordinary_state :: "('pk, 'z) externals_scheme \<Rightarrow> evm_state \<Rightarrow> bool" where
  "ordinary_state X \<equiv> state_accounts X (\<lambda>_. ordinary)"

subsection \<open>Changes of an account\<close>

lemma ordinary_new_account [simp]: "ordinary (new_account a)"
  by (simp add: ordinary_def new_account_def)

lemma ordinary_update [simp]:
  "ordinary (acc\<lparr>acc_Balance := n\<rparr>) = ordinary acc" "ordinary (acc\<lparr>acc_Code := c\<rparr>) = ordinary acc"
  "ordinary (stored_account acc) = ordinary acc"
  by (simp_all add: ordinary_def)

lemma ordinary_contract:
  assumes "ordinary acc"
  shows "ordinary (map_base (\<lambda>bp. snd (perm_Set bp ContractPermFlags v)) acc)"
proof -
  have "(p OR ContractPermFlags) AND NOT ContractPermFlags = 0" "(p AND NOT ContractPermFlags) AND NOT ContractPermFlags = 0"
    if "p AND NOT ContractPermFlags = 0" for p
    using that by (auto simp: bit_eq_iff bit_simps)
  with assms show ?thesis
    by (cases "ContractPermFlags = 0") (simp_all add: ordinary_def map_base_def map_permissions_def perm_Set_def)
qed

subsection \<open>The secure native contract refuses\<close>

lemma GetPermissions_ordinary:
  assumes "es_GetPermissions X st a = (p, st')"
  shows "keeps_accounts X (\<lambda>_. ordinary) st st'" and "ordinary_state X st \<Longrightarrow> Perms (Base p) AND NOT ContractPermFlags = 0"
proof -
  obtain r where r: "es_account X st a = (r, st')" and p: "p = (case r of None \<Rightarrow>
      \<lparr>Base = \<lparr>Perms = 0, SetBit = 0\<rparr>, Roles = []\<rparr> | Some acc \<Rightarrow> acc_Permissions acc)"
    using assms by (auto simp: es_GetPermissions_def apfst_def map_prod_def split: prod.splits)
  show "keeps_accounts X (\<lambda>_. ordinary) st st'"
    using account_accounts(1) [OF r] .
  show "ordinary_state X st \<Longrightarrow> Perms (Base p) AND NOT ContractPermFlags = 0"
    using account_accounts(2) [OF r, where P = "\<lambda>_. ordinary"] p by (auto simp: ordinary_def split: option.split)
qed

text \<open>A permission that no account has by itself and that no global account can give.\<close>

lemma Compose_ordinary:
  assumes "Perms bp AND NOT ContractPermFlags = 0" "Perms g AND NOT ContractPermFlags = 0"
    and "flag AND ContractPermFlags = 0" and "flag \<noteq> 0"
  shows "perm_Get (perm_Compose bp g) flag \<noteq> Inr True"
proof -
  have "Perms (perm_Compose bp g) AND flag = 0"
    using assms(1-3) by (auto simp: perm_Compose_def bit_eq_iff bit_simps)
  with assms(4) show ?thesis
    by (simp add: perm_Get_def)
qed

lemma HasPermission_ordinary:
  assumes "HasPermission X st a flag = (has, st')"
  shows "keeps_accounts X (\<lambda>_. ordinary) st st'"
    and "ordinary_state X st \<Longrightarrow> flag AND ContractPermFlags = 0 \<Longrightarrow> flag \<noteq> 0 \<Longrightarrow> \<not> has"
proof -
  obtain g st1 where g: "es_GetPermissions X st GlobalPermissionsAddress = (g, st1)"
    by (cases "es_GetPermissions X st GlobalPermissionsAddress")
  obtain p st2 where p: "es_GetPermissions X st1 a = (p, st2)"
    by (cases "es_GetPermissions X st1 a")
  note first = GetPermissions_ordinary [OF g] and second = GetPermissions_ordinary [OF p]
  have st': "st' = st2" and has: "has = (case perm_Get (perm_Compose (Base p) (Base g)) flag of Inl _ \<Rightarrow> False | Inr v \<Rightarrow> v)"
    using assms by (auto simp: HasPermission_def g p split: sum.splits)
  show "keeps_accounts X (\<lambda>_. ordinary) st st'"
    unfolding st' using first(1) second(1) by (rule keeps_accounts_trans)
  show "ordinary_state X st \<Longrightarrow> flag AND ContractPermFlags = 0 \<Longrightarrow> flag \<noteq> 0 \<Longrightarrow> \<not> has"
    using Compose_ordinary [of "Base p" "Base g" flag] first second
    by (auto simp: has keeps_accounts_def split: sum.splits)
qed

lemma SNative_flags:
  assumes "f \<in> set SNative_functions"
  shows "sn_PermFlag f AND ContractPermFlags = 0" and "sn_PermFlag f \<noteq> 0"
  using assms
  by (auto simp: SNative_functions_def ContractPermFlags_def perm_Call_def perm_Send_def perm_CreateContract_def
      perm_HasBase_def perm_SetBase_def perm_UnsetBase_def perm_SetGlobal_def perm_HasRole_def perm_AddRole_def
      perm_RemoveRole_def)

lemma Dispatch_refuses:
  assumes "ordinary_state X st" and "Dispatch X st caller args gas = (r, st', gas')"
  shows "keeps_accounts X (\<lambda>_. ordinary) st st'" and "same_view X (chain st) (chain st')" and "gas' = gas" and "\<exists>e. r = Err e"
    and "FunctionByID X (take 4 args) = Inr f \<Longrightarrow> 4 \<le> length args \<Longrightarrow>
      r = Err (LacksSNativePermission caller (sn_Name f))"
proof -
  have to: "keeps_accounts X (\<lambda>_. ordinary) st st' \<and> same_view X (chain st) (chain st') \<and> r = Err (LacksSNativePermission caller (sn_Name f))"
    if "FunctionByID X ident = Inr f" "dispatch_to X f st caller rest = (r, st')" for f ident rest r st'
  proof -
    obtain has st1 where has: "HasPermission X st caller (sn_PermFlag f) = (has, st1)"
      by (cases "HasPermission X st caller (sn_PermFlag f)")
    have "\<not> has"
      using HasPermission_ordinary(2) [OF has assms(1)] SNative_flags [OF FunctionByID_known [OF that(1)]] by blast
    with has that(2) HasPermission_ordinary(1) [OF has] HasPermission_read [OF has] show ?thesis
      by (simp add: dispatch_to_def)
  qed
  show "keeps_accounts X (\<lambda>_. ordinary) st st'" and "same_view X (chain st) (chain st')" and "gas' = gas" and "\<exists>e. r = Err e"
    and "FunctionByID X (take 4 args) = Inr f \<Longrightarrow> 4 \<le> length args \<Longrightarrow>
      r = Err (LacksSNativePermission caller (sn_Name f))"
    using assms(2) by (auto simp: Dispatch_def split: if_splits sum.splits prod.splits dest!: to)
qed

subsection \<open>The invariant\<close>

interpretation ordinary: account_invariant X "\<lambda>_. ordinary" for X
proof unfold_locales
  show "state_accounts X (\<lambda>_. ordinary) st'" if "registeredNativeContracts X a = Some c"
    "c st caller input gas = (r, st', gas')" "state_accounts X (\<lambda>_. ordinary) st"
    for X :: "('c, 'd) evm_externals_scheme" and a c st caller input gas r st' gas'
  proof (cases "c = Dispatch X")
    case True
    with that Dispatch_refuses(1) [of X st caller input gas r st' gas'] show ?thesis
      by (auto simp: keeps_accounts_def)
  next
    case False
    with that have "st' = st"
      by (auto simp: registeredNativeContracts_def sha256Func_def ripemd160Func_def identityFunc_def charge_native_def
          split: if_splits)
    with that show ?thesis
      by simp
  qed
qed (simp_all add: ordinary_contract stored_account_def)

lemma evmcc_ledger_ordinary:
  assumes "evmcc_ledger X L" and "codec_ok X" and "ledger_account X L a = Inr (Some acc)"
  shows "ordinary acc"
  using ordinary.evmcc_ledger_accounts [OF assms(1,2)] assms(3) by (simp add: ledger_accounts_def)

end
