(* ===== verification/Abi_Encoding.thy ===== *)
theory Abi_Encoding
  imports Abi
begin

section \<open>The decoder inverts the standard encoding\<close>

text \<open>
  The encoding of Ethereum's ABI as the standard defines it: the static values and the positions of the
  dynamic ones in words of 32 bytes, then the dynamic ones, each with its length before it and filled up to
  a word. Decoding with the types of the values gives the values back; the results the native functions
  return are packed in the same encoding.
\<close>

fun type_of :: "abi_value \<Rightarrow> evm_type" where
  "type_of (VBool b) = EVMBool"
| "type_of (VUint n) = EVMUint 64"
| "type_of (VInt i) = EVMInt 64"
| "type_of (VAddress a) = EVMAddress"
| "type_of (VString s) = EVMString"

definition abi_word :: "int \<Rightarrow> bytes" where
  "abi_word i = be_bytes 32 (nat (i mod 2 ^ 256))"

definition zero_filled :: "bytes \<Rightarrow> bytes" where
  "zero_filled bs = bs @ replicate (31 - (length bs + 31) mod 32) 0"

fun encode_tail :: "abi_value \<Rightarrow> bytes" where
  "encode_tail (VString s) = abi_word (int (length s)) @ zero_filled (bytes_of s)"
| "encode_tail _ = []"

fun encode_head :: "nat \<Rightarrow> abi_value \<Rightarrow> bytes" where
  "encode_head place (VBool b) = abi_word (of_bool b)"
| "encode_head place (VUint n) = abi_word (uint n)"
| "encode_head place (VInt i) = abi_word i"
| "encode_head place (VAddress a) = abi_word (uint a)"
| "encode_head place (VString s) = abi_word (int place)"

fun encode_heads :: "nat \<Rightarrow> abi_value list \<Rightarrow> bytes" where
  "encode_heads place [] = []"
| "encode_heads place (v # vs) = encode_head place v @ encode_heads (place + length (encode_tail v)) vs"

definition abi_encode :: "abi_value list \<Rightarrow> bytes" where
  "abi_encode vs = encode_heads (32 * length vs) vs @ concat (map encode_tail vs)"

text \<open>The integers are those of 64 bits.\<close>

definition in_range :: "abi_value \<Rightarrow> bool" where
  "in_range v \<longleftrightarrow> (case v of VInt i \<Rightarrow> - (2 ^ 63) \<le> i \<and> i < 2 ^ 63 | _ \<Rightarrow> True)"

subsection \<open>Words\<close>

lemma length_abi_word [simp]: "length (abi_word i) = 32"
  by (simp add: abi_word_def)

lemma length_encode_head [simp]: "length (encode_head place v) = 32"
  by (cases v) simp_all

lemma length_encode_heads [simp]: "length (encode_heads place vs) = 32 * length vs"
  by (induction vs arbitrary: place) simp_all

lemma be_bytes_eqI: "length bs = n \<Longrightarrow> be_nat bs = v mod 256 ^ n \<Longrightarrow> be_bytes n v = bs"
  by (rule be_nat_inject) (simp_all add: be_nat_be_bytes)

lemma be_nat_ones: "be_nat (replicate n 255) = 256 ^ n - 1"
proof (induction n)
  case (Suc n)
  have "be_nat (replicate (Suc n) 255) = be_nat (replicate n 255 @ [255])"
    by (simp flip: replicate_append_same)
  also have "\<dots> = (256 ^ n - 1) * 256 + 255"
    using Suc by simp
  also have "\<dots> = 256 ^ Suc n - 1"
    by (simp add: algebra_simps)
  finally show ?case .
qed simp

text \<open>A number of 64 bits is its sign, 24 times, and its 8 bytes.\<close>

lemma abi_word_int64:
  assumes "- (2 ^ 63) \<le> i" "i < 2 ^ 63"
  shows "abi_word i = replicate 24 (if i < 0 then 255 else 0) @ be_bytes 8 (unat (word_of_int i :: 64 word))"
proof -
  have low: "unat (word_of_int i :: 64 word) = nat (i mod 2 ^ 64)"
    by (simp add: unsigned_of_int take_bit_eq_mod)
  have "be_nat (replicate 24 (if i < 0 then 255 else 0) @ be_bytes 8 (nat (i mod 2 ^ 64))) = nat (i mod 2 ^ 256)"
  proof (cases "i < 0")
    case True
    have "(i + 2 ^ 64) mod 2 ^ 64 = i + 2 ^ 64" "(i + 2 ^ 256) mod 2 ^ 256 = i + 2 ^ 256"
      using True assms by (intro mod_pos_pos_trivial; simp)+
    then have "i mod 2 ^ 64 = i + 2 ^ 64" "i mod 2 ^ 256 = i + 2 ^ 256"
      by simp_all
    with True assms show ?thesis
      by (simp add: be_nat_append be_nat_ones be_nat_be_bytes)
  next
    case False
    then have "i mod 2 ^ 64 = i" "i mod 2 ^ 256 = i"
      using assms by simp_all
    with False assms show ?thesis
      by (simp add: be_nat_append be_nat_be_bytes)
  qed
  moreover have "nat (i mod 2 ^ 256) mod 256 ^ 32 = nat (i mod 2 ^ 256)"
    by (simp add: nat_less_iff)
  ultimately show ?thesis
    unfolding abi_word_def low by (intro be_bytes_eqI) simp_all
qed

lemma abi_word_uint64: "i < 2 ^ 64 \<Longrightarrow> 0 \<le> i \<Longrightarrow> abi_word i = replicate 24 0 @ be_bytes 8 (nat i)"
  unfolding abi_word_def
  by (rule be_bytes_eqI) (simp_all add: be_nat_append be_nat_be_bytes nat_mod_distrib)

subsection \<open>Decoding a word in its place\<close>

lemma data_at_word:
  assumes "length w = 32" and "length pre + 32 + length post < 2 ^ 63"
  shows "data_at (pre @ w @ post) (int (length pre)) = Ok (w @ post)"
proof -
  have "int64 (int (length (pre @ w @ post)) - int (length pre)) = 32 + int (length post)"
    using assms by (subst int64_small) simp_all
  then show ?thesis
    by (simp add: data_at_def go_slice_def)
qed

lemma significant_word: "\<not> 8 < significant b (replicate 24 b @ bs)"
  by (simp add: significant_def takeWhile_append)

lemma low64_word: "length bs = 24 \<Longrightarrow> low64 (bs @ be_bytes 8 (unat n) @ post) = n"
  using unat_less_size [of n] by (simp add: low64_def be_nat_be_bytes)

lemma be_bytes_first: "be_bytes (Suc n) v ! 0 = word_of_nat (v div 256 ^ n)"
proof (induction n arbitrary: v)
  case (Suc n)
  have "be_bytes (Suc (Suc n)) v ! 0 = be_bytes (Suc n) (v div 256) ! 0"
    by (simp add: nth_append)
  with Suc [of "v div 256"] show ?case
    by (simp add: div_mult2_eq)
qed simp

text \<open>The first of the eight bytes carries the sign.\<close>

lemma sign_byte:
  assumes "- (2 ^ 63) \<le> i" "i < 2 ^ 63"
  shows "bit (be_bytes 8 (unat (word_of_int i :: 64 word)) ! 0) 7 \<longleftrightarrow> i < 0"
proof -
  have u: "unat (word_of_int i :: 64 word) = nat (if i < 0 then i + 2 ^ 64 else i)"
  proof -
    have "i mod 2 ^ 64 = (if i < 0 then i + 2 ^ 64 else i)"
    proof (cases "i < 0")
      case True
      then have "(i + 2 ^ 64) mod 2 ^ 64 = i + 2 ^ 64"
        using assms by (intro mod_pos_pos_trivial) simp_all
      with True show ?thesis by simp
    qed (use assms in simp)
    then show ?thesis
      by (simp add: unsigned_of_int take_bit_eq_mod)
  qed
  let ?k = "unat (word_of_int i :: 64 word) div 256 ^ 7"
  have k: "?k < 256"
    using unat_less_size [of "word_of_int i :: 64 word"] by (simp add: less_mult_imp_div_less)
  have "bit (word_of_nat ?k :: byte) 7 \<longleftrightarrow> odd (?k div 128)"
    by (simp add: bit_of_nat_iff bit_iff_odd [where 'a = nat])
  also have "\<dots> \<longleftrightarrow> 128 \<le> ?k"
  proof -
    have "?k div 128 = 0 \<or> ?k div 128 = 1"
      using k by linarith
    then show ?thesis
      by auto
  qed
  also have "\<dots> \<longleftrightarrow> 2 ^ 63 \<le> unat (word_of_int i :: 64 word)"
    by (simp add: less_eq_div_iff_mult_less_eq)
  also have "\<dots> \<longleftrightarrow> i < 0"
    using assms by (auto simp: u)
  finally show ?thesis
    using be_bytes_first [of 7] by simp
qed

lemma EVMInt_unpack_word:
  assumes "- (2 ^ 63) \<le> i" "i < 2 ^ 63" and "length pre + 32 + length post < 2 ^ 63"
  shows "EVMInt_unpack (pre @ abi_word i @ post) (int (length pre)) = Ok i"
proof -
  let ?s = "if i < 0 then 255 else 0 :: byte" and ?b = "be_bytes 8 (unat (word_of_int i :: 64 word))"
  have "data_at (pre @ abi_word i @ post) (int (length pre)) = Ok (abi_word i @ post)"
    using assms(3) by (intro data_at_word) simp_all
  moreover have "abi_word i @ post = replicate 24 ?s @ ?b @ post"
    using abi_word_int64 [OF assms(1,2)] by simp
  moreover have "(replicate 24 ?s @ ?b @ post) ! 0 = ?s" "(replicate 24 ?s @ ?b @ post) ! 24 = ?b ! 0"
    by (simp_all add: nth_append)
  moreover have "bit ?s 7 \<longleftrightarrow> i < 0"
    by simp
  moreover have "sint (word_of_int i :: 64 word) = i"
    using int64_small [OF assms(1,2)] by (simp add: int64_def)
  ultimately show ?thesis
    using sign_byte [OF assms(1,2)] significant_word [of ?s "?b @ post"] low64_word [of "replicate 24 ?s" "word_of_int i" post]
    by (simp add: EVMInt_unpack_def Let_def)
qed

lemma EVMUint_unpack_word:
  assumes "length pre + 32 + length post < 2 ^ 63"
  shows "EVMUint_unpack (pre @ abi_word (uint n) @ post) (int (length pre)) = Ok n"
proof -
  have "data_at (pre @ abi_word (uint n) @ post) (int (length pre)) = Ok (abi_word (uint n) @ post)"
    using assms by (intro data_at_word) simp_all
  moreover have "abi_word (uint n) = replicate 24 0 @ be_bytes 8 (unat n)"
    using abi_word_uint64 [of "uint n"] uint_bounded [of n] by simp
  ultimately show ?thesis
    using significant_word [of 0 "be_bytes 8 (unat n) @ post"] low64_word [of "replicate 24 0" n post]
    by (simp add: EVMUint_unpack_def)
qed

lemma abi_word_last: "abi_word i ! 31 = word_of_int i"
proof -
  have last: "be_bytes (Suc n) v ! n = word_of_nat v" for n v
    by (simp add: nth_append)
  from last [of 31] have "abi_word i ! 31 = word_of_nat (nat (i mod 2 ^ 256))"
    by (simp add: abi_word_def)
  also have "\<dots> = word_of_int (i mod 2 ^ 256)"
    by simp
  also have "\<dots> = word_of_int i"
    by (simp add: word_of_int_eq_iff take_bit_eq_mod mod_mod_cancel)
  finally show ?thesis .
qed

lemma EVMBool_unpack_word:
  assumes "length pre + 32 + length post < 2 ^ 63"
  shows "EVMBool_unpack (pre @ abi_word (of_bool b) @ post) (int (length pre)) = Ok b"
proof -
  have "data_at (pre @ abi_word (of_bool b) @ post) (int (length pre)) = Ok (abi_word (of_bool b) @ post)"
    using assms by (intro data_at_word) simp_all
  then show ?thesis
    using abi_word_last [of "of_bool b"] by (simp add: EVMBool_unpack_def nth_append)
qed

lemma abi_word_address: "abi_word (uint (a :: address)) = replicate 12 0 @ Address_Bytes a"
  unfolding abi_word_def
proof (rule be_bytes_eqI)
  have "uint a < 2 ^ 256" "unat a < 2 ^ 256"
    using uint_bounded [of a] unat_less_size [of a] by simp_all
  then show "be_nat (replicate 12 0 @ Address_Bytes a) = nat (uint a mod 2 ^ 256) mod 256 ^ 32"
    by (simp add: be_nat_append)
qed simp

lemma go_slice_middle:
  "go_slice (pre @ bs @ post) (int (length pre)) (int (length pre + length bs)) = Ok bs"
  by (simp add: go_slice_def)

lemma EVMAddress_unpack_word:
  assumes "length pre + 32 + length post < 2 ^ 63"
  shows "EVMAddress_unpack (pre @ abi_word (uint a) @ post) (int (length pre)) = Ok a"
proof -
  have "go_slice ((pre @ replicate 12 0) @ Address_Bytes a @ post) (int (length (pre @ replicate 12 0)))
      (int (length (pre @ replicate 12 0) + length (Address_Bytes a))) = Ok (Address_Bytes a)"
    by (rule go_slice_middle)
  moreover have "int64 (int (length pre) + 12) = int (length pre) + 12" "int64 (int (length pre) + 32) = int (length pre) + 32"
    using assms by (auto intro!: int64_small)
  ultimately show ?thesis
    by (simp add: EVMAddress_unpack_def abi_word_address add.commute)
qed

lemma EVMString_unpack_tail:
  assumes "length pre + length (encode_tail (VString s)) + length post < 2 ^ 63"
  shows "EVMString_unpack (pre @ encode_tail (VString s) @ post) (int (length pre)) = Ok s"
proof -
  let ?n = "int (length s)" and ?fill = "replicate (31 - (length s + 31) mod 32) 0"
  have bound: "length pre + 32 + length s + length ?fill + length post < 2 ^ 63"
    using assms by (simp add: zero_filled_def)
  have "EVMInt_unpack (pre @ abi_word ?n @ zero_filled (bytes_of s) @ post) (int (length pre)) = Ok ?n"
    using bound by (intro EVMInt_unpack_word) (simp_all add: zero_filled_def)
  moreover have "go_slice ((pre @ abi_word ?n) @ bytes_of s @ ?fill @ post) (int (length (pre @ abi_word ?n)))
      (int (length (pre @ abi_word ?n) + length (bytes_of s))) = Ok (bytes_of s)"
    by (rule go_slice_middle)
  moreover have "int64 (int (length pre) + 32) = int (length pre) + 32"
    "int64 (int (length pre) + 32 + ?n) = int (length pre) + 32 + ?n"
    using bound by (auto intro!: int64_small)
  ultimately show ?thesis
    by (simp add: EVMString_unpack_def zero_filled_def Let_def)
qed

subsection \<open>The round trip\<close>

lemma unpack_from_encoded:
  assumes "list_all in_range vs" and "place = length pre + 32 * length vs + length mid"
    and "length pre + 32 * length vs + length mid + length (concat (map encode_tail vs)) + length post < 2 ^ 63"
  shows "unpack_from (map type_of vs) (pre @ encode_heads place vs @ mid @ concat (map encode_tail vs) @ post)
    (int (length pre)) = Ok vs"
  using assms
proof (induction vs arbitrary: pre mid place)
  case Nil
  then show ?case by simp
next
  case (Cons v vs)
  let ?tails = "concat (map encode_tail vs)"
  let ?rest = "encode_heads (place + length (encode_tail v)) vs @ (mid @ encode_tail v) @ ?tails @ post"
  have step: "int64 (int (length pre) + 32) = int (length (pre @ encode_head place v))"
    using Cons.prems(3) by (subst int64_small) simp_all
  have rest: "unpack_from (map type_of vs) ((pre @ encode_head place v) @ ?rest)
      (int (length (pre @ encode_head place v))) = Ok vs"
    using Cons.prems by (intro Cons.IH) (simp_all add: algebra_simps)
  have small: "length pre + 32 + length ?rest < 2 ^ 63"
    using Cons.prems(3) by (simp add: algebra_simps)
  have decoded: "(if Dynamic (type_of v)
      then res_bind (EVMInt_unpack (pre @ encode_head place v @ ?rest) (int (length pre)))
        (unpack_value (type_of v) (pre @ encode_head place v @ ?rest))
      else unpack_value (type_of v) (pre @ encode_head place v @ ?rest) (int (length pre))) = Ok v"
  proof (cases v)
    case (VString s)
    have "EVMInt_unpack (pre @ encode_head place v @ ?rest) (int (length pre)) = Ok (int place)"
      unfolding VString encode_head.simps
      using small Cons.prems(2,3) by (intro EVMInt_unpack_word) (simp_all add: VString)
    moreover have "EVMString_unpack (pre @ encode_head place v @ ?rest) (int place) = Ok s"
    proof -
      let ?before = "pre @ encode_head place v @ encode_heads (place + length (encode_tail v)) vs @ mid"
      have "EVMString_unpack (?before @ encode_tail (VString s) @ ?tails @ post) (int (length ?before)) = Ok s"
        using Cons.prems(3) by (intro EVMString_unpack_tail) (simp add: VString algebra_simps)
      with Cons.prems(2) show ?thesis
        by (simp add: VString algebra_simps)
    qed
    ultimately show ?thesis
      by (simp add: VString Dynamic_def map_res_def)
  qed (use small Cons.prems(1) in \<open>auto simp: Dynamic_def map_res_def EVMBool_unpack_word EVMUint_unpack_word
      EVMInt_unpack_word EVMAddress_unpack_word in_range_def\<close>)
  from decoded rest step show ?case
    by (cases "Dynamic (type_of v)") simp_all
qed

theorem unpack_encoded:
  assumes "list_all in_range vs" and "length (abi_encode vs) < 2 ^ 63"
  shows "UnpackIntoStruct (map type_of vs) (abi_encode vs) = Ok vs"
  using unpack_from_encoded [OF assms(1), of "32 * length vs" "[]" "[]" "[]"] assms(2)
  by (simp add: UnpackIntoStruct_def abi_encode_def)

text \<open>Results are packed in the same encoding.\<close>

fun result_value :: "abi_result \<Rightarrow> abi_value" where
  "result_value (R_bool b) = VBool b"
| "result_value (R_uint64 n) = VUint n"

lemma pack_result: "PackIntoStruct [type_of (result_value r)] [r] = Inr (abi_encode [result_value r])"
proof (cases r)
  case (R_bool b)
  have "abi_word (of_bool b) = replicate 31 0 @ [of_bool b]"
    unfolding abi_word_def by (rule be_bytes_eqI) (auto simp: be_nat_pad be_nat_def [of "[x]" for x])
  with R_bool show ?thesis
    by (simp add: PackIntoStruct_def abi_encode_def)
next
  case (R_uint64 n)
  have "uint n < 2 ^ 256"
    using uint_bounded [of n] by simp
  with R_uint64 show ?thesis
    by (simp add: PackIntoStruct_def abi_encode_def abi_word_def)
qed

end
