(* ===== verification/Native_Results.thy ===== *)
theory Native_Results
  imports Account_Permissions Abi_Encoding
begin

section \<open>What the secure native contract does\<close>

text \<open>
  A call of one of its functions with arguments in the standard encoding runs that function on the arguments,
  when the caller has the permission; arguments that are too short for an address end the process instead of
  failing the call.
\<close>

subsection \<open>Finding the function\<close>

definition natives_registered :: "('pk, 'z) evm_externals_scheme \<Rightarrow> bool" where
  "natives_registered X \<longleftrightarrow>
     distinct (map (FunctionID X) (SNative_functions :: ('pk, 'z) evm_externals_scheme SNativeFunctionDescription list)) \<and>
     (\<forall>bs. length (keccak256 X bs) = 32)"

lemma find_distinct: "distinct (map g xs) \<Longrightarrow> x \<in> set xs \<Longrightarrow> find (\<lambda>y. g y = g x) xs = Some x"
  by (induction xs) auto

lemma FunctionByID_found:
  assumes "natives_registered X" and "f \<in> set SNative_functions"
  shows "FunctionByID X (FunctionID X f) = Inr f" and "length (FunctionID X f) = 4"
  using assms find_distinct [of "FunctionID X" SNative_functions f]
  by (simp_all add: FunctionByID_def natives_registered_def FunctionID_def GetFunctionID_def)

lemma Dispatch_known:
  assumes "natives_registered X" and "f \<in> set SNative_functions"
  shows "Dispatch X st caller (FunctionID X f @ args) gas =
    (case dispatch_to X f st caller args of (r, st') \<Rightarrow> (r, st', gas))"
  using FunctionByID_found [OF assms] by (simp add: Dispatch_def)

text \<open>A permitted call with encoded arguments.\<close>

lemma dispatch_encoded:
  assumes "HasPermission X st caller (sn_PermFlag f) = (True, st1)"
    and "map type_of vs = sn_Inputs f" and "list_all in_range vs" and "length (abi_encode vs) < 2 ^ 63"
  shows "dispatch_to X f st caller (abi_encode vs) =
    (case sn_F f X st1 vs of
        (Err e, st2) \<Rightarrow> (Err e, st2)
      | (Panic p, st2) \<Rightarrow> (Panic p, st2)
      | (Ok rets, st2) \<Rightarrow>
          (case st_error st2 of
             Some e \<Rightarrow> (Err (Fmt ''state error in %v: %v'' [SNativeFunction_String f, AErr e]), st2)
           | None \<Rightarrow> (map_res Some (res_of_sum (PackIntoStruct (sn_Outputs f) rets)), st2)))"
  using unpack_encoded [OF assms(3,4)] assms(1,2) by (simp add: dispatch_to_def)

subsection \<open>Setting a permission\<close>

definition setBase_selector :: "('pk, 'z) evm_externals_scheme \<Rightarrow> bytes" where
  "setBase_selector X = GetFunctionID (keccak256 X) ''setBase(address,uint64,bool)''"

definition setBase_function :: "('pk, 'z) externals_scheme SNativeFunctionDescription" where
  "setBase_function = \<lparr>sn_Name = ''setBase'', sn_Arguments = [K_Address, K_Uint64, K_Bool], sn_Returns = [K_Uint64],
     sn_PermFlag = perm_SetBase, sn_F = native_setBase\<rparr>"

lemma decimal_64 [simp]: "decimal 64 = ''64''"
  by code_simp

lemma setBase_known: "setBase_function \<in> set SNative_functions"
  by (simp add: SNative_functions_def setBase_function_def)

lemma setBase_FunctionID: "FunctionID X setBase_function = setBase_selector X"
  by (simp add: FunctionID_def setBase_selector_def setBase_function_def sn_Inputs_def Signature_def)

lemma setBase_effect:
  assumes "coherent X (chain st)" and reg: "natives_registered X" and "p \<noteq> 0"
    and run: "Dispatch X st caller (setBase_selector X @ abi_encode [VAddress a, VUint p, VBool v]) gas = (Ok out, st', gas')"
  shows "fst (HasPermission X st caller perm_SetBase)" and "IsValid p"
    and "out = Some (abi_encode [VUint p])" and "gas' = gas"
    and "\<exists>acc. acc_view X (chain st) a = Inr (Some acc) \<and>
      acc_view X (chain st') = put_account (acc_view X (chain st)) a (Some (map_base (\<lambda>bp. snd (perm_Set bp p v)) acc))"
    and "sto_view X (chain st') = sto_view X (chain st)"
proof -
  let ?vs = "[VAddress a, VUint p, VBool v]"
  have len: "length (abi_encode ?vs) < 2 ^ 63"
    by (simp add: abi_encode_def)
  have to: "(case dispatch_to X setBase_function st caller (abi_encode ?vs) of (r, st') \<Rightarrow> (r, st', gas)) = (Ok out, st', gas')"
    using run Dispatch_known [OF reg setBase_known] by (simp add: setBase_FunctionID)
  obtain has st1 where has: "HasPermission X st caller perm_SetBase = (has, st1)"
    by (cases "HasPermission X st caller perm_SetBase")
  with to show permitted: "fst (HasPermission X st caller perm_SetBase)"
    by (auto simp: dispatch_to_def setBase_function_def split: prod.splits bool.splits)
  obtain e st2 where e: "es_Exists X st1 a = (e, st2)"
    by (cases "es_Exists X st1 a")
  let ?st3 = "es_SetPermission X st2 a p v"
  have "dispatch_to X setBase_function st caller (abi_encode ?vs) = (Ok out, st')" and gas: "gas' = gas"
    using to by (auto split: prod.splits)
  then have "e \<and> IsValid p \<and> st' = ?st3 \<and> st_error ?st3 = None \<and>
      map_res Some (res_of_sum (PackIntoStruct [EVMUint 64] [R_uint64 p])) = Ok out"
    using dispatch_encoded [of X st caller setBase_function st1 ?vs] has permitted len e
    by (auto simp: setBase_function_def sn_Inputs_def sn_Outputs_def in_range_def native_setBase_def
        split: bool.splits if_splits option.splits)
  then have ok: "IsValid p" "st' = ?st3" "st_error ?st3 = None" and out: "out = Some (abi_encode [VUint p])"
    using pack_result [of "R_uint64 p"] by (auto simp: map_res_def)
  have same: "same_view X (chain st) (chain st2)"
    using HasPermission_read [OF has] es_Exists_read(1) [OF e] by (rule same_view_trans)
  have steps: "evm_steps X st st2"
    using steps_HasPermission [of X st caller perm_SetBase] steps_Exists [of X st1 a] has e by simp
  obtain acc where "acc_view X (chain st2) a = Inr (Some acc)"
    and "acc_view X (chain ?st3) = put_account (acc_view X (chain st2)) a (Some (map_base (\<lambda>bp. snd (perm_Set bp p v)) acc))"
    and sto: "sto_view X (chain ?st3) = sto_view X (chain st2)"
    by (rule es_SetPermission_Ok [OF evm_steps_invariant(2) [OF steps assms(1)] ok(3)])
  with same ok show "\<exists>acc. acc_view X (chain st) a = Inr (Some acc) \<and>
      acc_view X (chain st') = put_account (acc_view X (chain st)) a (Some (map_base (\<lambda>bp. snd (perm_Set bp p v)) acc))"
    and "sto_view X (chain st') = sto_view X (chain st)"
    by (simp_all add: same_view_def)
  show "IsValid p" and "out = Some (abi_encode [VUint p])" and "gas' = gas"
    using ok out gas by blast+
qed

subsection \<open>Arguments that are too short\<close>

text \<open>An address is cut out of the arguments before anything looks at their length.\<close>

lemma short_address_panics:
  assumes "4 \<le> length args" and "length args < 36" and "FunctionByID X (take 4 args) = Inr f"
    and "sn_Arguments f = K_Address # ks" and "fst (HasPermission X st caller (sn_PermFlag f))"
  shows "fst (Dispatch X st caller args gas) = Panic ''slice bounds out of range''"
proof -
  have "EVMAddress_unpack (drop 4 args) 0 = Panic ''slice bounds out of range''"
    using assms(1,2) by (simp add: EVMAddress_unpack_def go_slice_def int64_small)
  then have "UnpackIntoStruct (sn_Inputs f) (drop 4 args) = Panic ''slice bounds out of range''"
    by (simp add: UnpackIntoStruct_def sn_Inputs_def assms(4) Dynamic_def map_res_def)
  then have "fst (dispatch_to X f st caller (drop 4 args)) = Panic ''slice bounds out of range''"
    using assms(5) by (cases "HasPermission X st caller (sn_PermFlag f)") (simp add: dispatch_to_def)
  with assms(1,3) show ?thesis
    by (cases "dispatch_to X f st caller (drop 4 args)") (simp add: Dispatch_def)
qed

end
