(* ===== verification/Evm_Deployment.thy ===== *)
theory Evm_Deployment
  imports Evm_Control Chaincode_Results
begin

section \<open>Running a deployment\<close>

text \<open>
  The interpreter executed symbolically: the code that compilers put in front of a contract to deploy it,
  for any contract of 1 to 255 bytes, on any state. It returns exactly the contract's code and touches
  nothing.
\<close>

definition wrapper_ending :: "byte \<Rightarrow> bytes \<Rightarrow> bytes" where
  "wrapper_ending end_op rt =
     [0x60, word_of_nat (length rt), 0x80, 0x60, 0x0b, 0x60, 0x00, 0x39, 0x60, 0x00, end_op] @ rt"

text \<open>It ends with \<^verbatim>\<open>RETURN\<close>.\<close>

definition deploy_wrapper :: "bytes \<Rightarrow> bytes" where
  "deploy_wrapper rt = wrapper_ending 0xf3 rt"

subsection \<open>One instruction of the loop\<close>

lemma useGasNegative_0 [simp]: "useGasNegative GasBaseOp m = m"
  by (simp add: useGasNegative_def GasBaseOp_def)

lemma step_exec:
  "codeGetOp (fr_code F) (mc_pc m) = Ok op \<Longrightarrow> step X V exec F m = exec_op X V exec F op m"
  by (simp add: step_def bind_op_def seq_op_def get_op_def lift_res_def upd_op_def)

lemma turn_next:
  assumes "st_error (ac_state m) = None" and "codeGetOp (fr_code F) (mc_pc m) = Ok op"
    and "exec_op X V (execute X V) F op m = Some (Ok Next, m1)" and "m' = m1\<lparr>mc_pc := mc_pc m1 + 1\<rparr>"
  shows "turn X V F m m'"
  unfolding assms(4) by (rule turn.advance) (simp_all add: assms(1-3) step_exec)

lemma run_next:
  assumes "st_error (ac_state m) = None" and "codeGetOp (fr_code F) (mc_pc m) = Ok op"
    and "\<And>exec. exec_op X V exec F op m = Some (Ok Next, m')"
  shows "run X V F m = run X V F (m'\<lparr>mc_pc := mc_pc m' + 1\<rparr>)"
  using turn_run [OF turn_next [OF assms refl]] .

lemma run_return:
  assumes "st_error (ac_state m) = None" and "codeGetOp (fr_code F) (mc_pc m) = Ok op"
    and "\<And>exec. exec_op X V exec F op m = Some (Ok (Return out), m')"
  shows "run X V F m = Some (Ok out, activation.truncate m')"
  by (subst run.simps) (simp add: assms step_exec)

text \<open>Pushing and popping with gas, and room on an unlimited stack.\<close>

lemma stack_useGas_more: "1 < ac_gas m \<Longrightarrow> stack_useGas GasStackOp m = m\<lparr>ac_gas := ac_gas m - 1\<rparr>"
  by (simp add: stack_useGas_def GasStackOp_def)

lemma Push_more:
  assumes "1 < ac_gas m" and "DataStackMaxDepth (vm_params V) = 0" and "length (mc_stack m) < MaxInt32"
  shows "Push V d m = Some (Ok (), m\<lparr>ac_gas := ac_gas m - 1, mc_stack := d # mc_stack m,
    mc_slots := max (mc_slots m) (length (mc_stack m) + 1)\<rparr>)"
  using assms by (simp add: Push_def upd_op_def stack_Push_def Let_def stack_useGas_more stack_ensureCapacity_def max_def)

lemma Pop_more:
  "1 < ac_gas m \<Longrightarrow> mc_stack m = d # ds \<Longrightarrow> Pop m = Some (Ok d, m\<lparr>ac_gas := ac_gas m - 1, mc_stack := ds\<rparr>)"
  by (simp add: Pop_def stack_Pop_def Let_def stack_useGas_more)

text \<open>A \<^verbatim>\<open>PUSH1\<close>.\<close>

lemma LeftPadWord256_1: "LeftPadWord256 [b] = Ok (ucast (b :: byte))"
  by (simp add: LeftPadWord256_def)

lemma subslice_in:
  assumes "0 \<le> off" and "0 \<le> len" and "off + len \<le> int (length data)" and "length data < 2 ^ 63"
  shows "subslice data off len = Ok (Some (take (nat len) (drop (nat off) data)))"
proof -
  have "int (length data) < int (2 ^ 63)"
    using assms(4) by (simp only: of_nat_less_iff)
  then have "int64 (off + len) = off + len"
    using assms(1,2,3) by (intro int64_small) simp_all
  with assms show ?thesis
    by (simp add: subslice_def Let_def)
qed

lemma turn_PUSH1:
  assumes "st_error (ac_state m) = None" and "1 < ac_gas m" and "DataStackMaxDepth (vm_params V) = 0"
    and "length (mc_stack m) < MaxInt32" and pc: "mc_pc m = int p" and in_code: "p + 1 < length (fr_code F)"
    and "length (fr_code F) < 2 ^ 63" and op: "fr_code F ! p = 0x60"
    and m': "m' = m\<lparr>ac_gas := ac_gas m - 1, mc_stack := ucast (fr_code F ! (p + 1)) # mc_stack m,
      mc_slots := max (mc_slots m) (length (mc_stack m) + 1), mc_pc := int p + 2\<rparr>"
  shows "turn X V F m m'"
proof -
  let ?m = "m\<lparr>ac_gas := ac_gas m - 1, mc_stack := ucast (fr_code F ! (p + 1)) # mc_stack m,
    mc_slots := max (mc_slots m) (length (mc_stack m) + 1), mc_pc := int p + 1\<rparr>"
  have "take 1 (drop (p + 1) (fr_code F)) = [fr_code F ! (p + 1)]"
    using in_code by (simp add: take_Suc_conv_app_nth)
  then have slice: "subslice (fr_code F) (int p + 1) 1 = Ok (Some [fr_code F ! (p + 1)])"
    using subslice_in [of "int p + 1" 1 "fr_code F"] assms(7) in_code by (simp add: nat_add_distrib)
  have "exec_op X V exec F (OP_PUSH 1) m = Some (Ok Next, ?m)" for exec
    using Push_more [OF assms(2,3,4)]
    by (simp add: exec_PUSH_def bind_op_def seq_op_def get_op_def Subslice_def pc slice ret_def lift_res_def
        LeftPadWord256_1 and_next_def upd_op_def)
  moreover have "codeGetOp (fr_code F) (mc_pc m) = Ok (OP_PUSH 1)"
    using in_code by (simp add: codeGetOp_def pc op decode_op_def)
  ultimately show ?thesis
    using turn_next [OF assms(1), of F "OP_PUSH 1" X V ?m m'] by (simp add: m' add.commute)
qed

lemmas run_PUSH1 = turn_run [OF turn_PUSH1 [OF _ _ _ _ _ _ _ _ refl]]

subsection \<open>The wrapper\<close>

text \<open>Reading back what was written at the start of a memory that is large enough.\<close>

lemma memory_small:
  assumes "length v \<le> mem_len mem" and "mem_len mem \<le> MaxInt32"
  shows "memory_Write 0 v mem = (Ok (), mem_put mem 0 v)"
    and "memory_Read 0 (int (length v)) (mem_put mem 0 v) = (Ok v, mem_put mem 0 v)"
proof -
  have "length v < 2 ^ 64" and len: "length v \<le> MaxInt32"
    using assms by (simp_all add: MaxInt32_def)
  then show "memory_Write 0 v mem = (Ok (), mem_put mem 0 v)"
    using assms by (simp add: memory_Write_def IsUint64_def mem_write_def mem_ensureCapacity_def)
  have "int (length v) < 2 ^ 64"
    using len by (simp add: MaxInt32_def)
  then show "memory_Read 0 (int (length v)) (mem_put mem 0 v) = (Ok v, mem_put mem 0 v)"
    using assms \<open>length v < 2 ^ 64\<close> len mem_slice_put_same [of mem 0 v]
    by (simp add: memory_Read_def IsUint64_def mem_read_def mem_ensureCapacity_def)
qed

lemma exec_DUP1:
  assumes "2 < ac_gas m" and "DataStackMaxDepth (vm_params V) = 0" and "mc_stack m = d # ds"
    and "length (d # ds) < MaxInt32" and "length (d # ds) \<le> mc_slots m"
  shows "exec_op X V exec F (OP_DUP 1) m = Some (Ok Next, m\<lparr>ac_gas := ac_gas m - 2, mc_stack := d # d # ds,
    mc_slots := max (mc_slots m) (length ds + 2)\<rparr>)"
proof -
  have gas: "1 < ac_gas m" "1 < ac_gas m - 1"
    using assms(1) by (auto simp: word_less_nat_alt unat_sub word_le_nat_alt)
  with assms show ?thesis
    by (simp add: and_next_def seq_op_def bind_op_def upd_op_def stack_Dup_def Let_def stack_useGas_more
        stack_Push_def stack_ensureCapacity_def ret_def max_def)
qed

lemma exec_CODECOPY:
  assumes "3 < ac_gas m" and "mc_stack m = 0 # off # len # ds" and "uint off + uint len \<le> int (length (fr_code F))"
    and "length (fr_code F) < 2 ^ 63" and "unat len \<le> mem_len (mc_memory m)" and "mem_len (mc_memory m) \<le> MaxInt32"
  shows "exec_op X V exec F (OP_ENV ENV_CODECOPY) m = Some (Ok Next, m\<lparr>ac_gas := ac_gas m - 3, mc_stack := ds,
    mc_memory := mem_put (mc_memory m) 0 (take (unat len) (drop (unat off) (fr_code F)))\<rparr>)"
proof -
  have gas: "1 < ac_gas m" "1 < ac_gas m - 1" "1 < ac_gas m - 2"
    using assms(1) by (auto simp: word_less_nat_alt unat_sub word_le_nat_alt)
  have small: "uint w < 2 ^ 63" if "uint w \<le> int (length (fr_code F))" for w :: word256
    using that assms(4) by (simp add: order_le_less_trans)
  have pos: "0 \<le> uint off" "0 \<le> uint len"
    by simp_all
  have b: "uint off < 2 ^ 63" "uint len < 2 ^ 63"
    by (intro small; use assms(3) pos in linarith)+
  have pop: "Is64BitOverflow w = False" "Int64FromWord256 w = uint w" if "uint w < 2 ^ 63" for w :: word256
    using that by (simp_all add: Is64BitOverflow_iff Int64FromWord256_small)
  have "int (unat off + unat len) \<le> int (length (fr_code F))"
    using assms(3) by (simp only: of_nat_add uint_nat)
  then have inside: "unat off + unat len \<le> length (fr_code F)"
    by (simp only: of_nat_le_iff)
  have "length (take (unat len) (drop (unat off) (fr_code F))) = unat len"
    using inside by simp
  then have wr: "memory_Write 0 (take (unat len) (drop (unat off) (fr_code F))) (mc_memory m) =
      (Ok (), mem_put (mc_memory m) 0 (take (unat len) (drop (unat off) (fr_code F))))"
    using memory_small(1) assms(5,6) by (metis (no_types))
  let ?pop = "\<lambda>k s. m\<lparr>ac_gas := ac_gas m - k, mc_stack := s\<rparr>"
  have p: "Pop m = Some (Ok 0, ?pop 1 (off # len # ds))"
    "Pop (?pop 1 (off # len # ds)) = Some (Ok off, ?pop 2 (len # ds))"
    "Pop (?pop 2 (len # ds)) = Some (Ok len, ?pop 3 ds)"
    using Pop_more [OF gas(1) assms(2)] Pop_more [of "?pop 1 (off # len # ds)"]
      Pop_more [of "?pop 2 (len # ds)"] gas by simp_all
  have "subslice (fr_code F) (uint off) (uint len) =
      Ok (Some (take (unat len) (drop (unat off) (fr_code F))))"
    using subslice_in [of "uint off" "uint len" "fr_code F"] assms(3,4) by simp
  with wr show ?thesis
    by (simp add: and_next_def copy_to_memory_def bind3_def bind2_def bind_op_def seq_op_def PopBigInt_def Pop64_def
        ret_def p pop [OF b(1)] pop [OF b(2)] Subslice_def Memory_Write_def)
qed

lemma exec_RETURN_small:
  assumes "2 < ac_gas m" and "mc_stack m = 0 # len # ds" and "mc_memory m = mem_put mem 0 v"
    and "uint len = int (length v)" and "length v \<le> mem_len mem" and "mem_len mem \<le> MaxInt32"
  shows "exec_op X V exec F OP_RETURN m =
    Some (Ok (Return (Some v)), m\<lparr>ac_gas := ac_gas m - 2, mc_stack := ds\<rparr>)"
proof -
  have gas: "1 < ac_gas m" "1 < ac_gas m - 1"
    using assms(1) by (auto simp: word_less_nat_alt unat_sub word_le_nat_alt)
  then show ?thesis
    by (simp add: exec_RETURN_def bind2_def bind_op_def PopBigInt_def ret_def Pop_more assms(2,4) Memory_Read_def
        assms(3) memory_small [OF assms(5,6)])
qed

text \<open>Six instructions later the code is in memory, its length on the stack and the last instruction next.\<close>

definition copied_machine :: "vm \<Rightarrow> frame \<Rightarrow> activation \<Rightarrow> bytes \<Rightarrow> machine" where
  "copied_machine V F act rt = \<lparr>ac_state = ac_state act, ac_sink = ac_sink act, ac_gas = 9991,
    ac_sequence = ac_sequence act, mc_pc = 10, mc_stack = [0, word_of_nat (length rt)],
    mc_slots = max (unat (DataStackInitialCapacity (vm_params V))) 4, mc_memory = mem_put DefaultDynamicMemory 0 rt,
    mc_value = fr_value F, mc_returnData = None\<rparr>"

lemma copied_reached:
  assumes "st_error (ac_state act) = None" and "ac_gas act = 10000" and "DataStackMaxDepth (vm_params V) = 0"
    and code: "fr_code F = wrapper_ending end_op rt" and len: "0 < length rt" "length rt < 256"
  shows "reaches X V F (new_machine V F act) (copied_machine V F act rt)"
proof -
  let ?n = "word_of_nat (length rt) :: word256"
  have n: "ucast (word_of_nat (length rt) :: byte) = ?n"
    using len by (simp add: word_unat_eq_iff unsigned_ucast_eq unat_of_nat take_bit_nat_eq_self)
  have u: "unat ?n = length rt" "uint ?n = int (length rt)"
    using len by (simp_all add: unat_of_nat take_bit_nat_eq_self uint_nat)
  have size: "length (fr_code F) < 2 ^ 63" "length (fr_code F) = length rt + 11"
    using len by (simp_all add: code wrapper_ending_def)
  let ?mk = "\<lambda>pc stack slots gas mem. \<lparr>ac_state = ac_state act, ac_sink = ac_sink act, ac_gas = gas,
    ac_sequence = ac_sequence act, mc_pc = pc, mc_stack = stack, mc_slots = slots, mc_memory = mem,
    mc_value = fr_value F, mc_returnData = None\<rparr>"
  let ?slots = "unat (DataStackInitialCapacity (vm_params V))"
  let ?s1 = "max ?slots (Suc 0)"
  let ?s2 = "max ?s1 (Suc (Suc 0))"
  let ?s3 = "max ?s2 (Suc (Suc (Suc 0)))"
  let ?s4 = "max ?s3 (Suc (Suc (Suc (Suc 0))))"
  let ?mem = "mem_put DefaultDynamicMemory 0 rt"
  note push = turn_PUSH1 [where F = F and V = V and X = X, OF _ _ assms(3) _ _ _ size(1)]
  have "turn X V F (?mk 0 [] ?slots 10000 DefaultDynamicMemory) (?mk 2 [?n] ?s1 9999 DefaultDynamicMemory)"
    by (rule push [of _ 0]) (simp_all add: assms(1) code wrapper_ending_def MaxInt32_def n)
  moreover have "turn X V F (?mk 2 [?n] ?s1 9999 DefaultDynamicMemory) (?mk 3 [?n, ?n] ?s2 9997 DefaultDynamicMemory)"
    by (rule turn_next [OF _ _ exec_DUP1 [where d = ?n and ds = "[]"]])
      (simp_all add: assms(1,3) code wrapper_ending_def MaxInt32_def codeGetOp_def decode_op_def)
  moreover have "turn X V F (?mk 3 [?n, ?n] ?s2 9997 DefaultDynamicMemory)
      (?mk 5 [11, ?n, ?n] ?s3 9996 DefaultDynamicMemory)"
    by (rule push [of _ 3]) (simp_all add: assms(1) code wrapper_ending_def MaxInt32_def)
  moreover have "turn X V F (?mk 5 [11, ?n, ?n] ?s3 9996 DefaultDynamicMemory)
      (?mk 7 [0, 11, ?n, ?n] ?s4 9995 DefaultDynamicMemory)"
    by (rule push [of _ 5]) (simp_all add: assms(1) code wrapper_ending_def MaxInt32_def)
  moreover have "turn X V F (?mk 7 [0, 11, ?n, ?n] ?s4 9995 DefaultDynamicMemory) (?mk 8 [?n] ?s4 9992 ?mem)"
    by (rule turn_next [OF _ _ exec_CODECOPY [where off = 11 and len = ?n and ds = "[?n]"]])
      (use len in \<open>simp_all add: assms(1,3) code wrapper_ending_def MaxInt32_def codeGetOp_def decode_op_def
        opcode_table_def u DefaultDynamicMemory_def defaultInitialMemoryCapacity_def\<close>)
  moreover have "turn X V F (?mk 8 [?n] ?s4 9992 ?mem) (?mk 10 [0, ?n] ?s4 9991 ?mem)"
    by (rule push [of _ 8]) (simp_all add: assms(1) code wrapper_ending_def MaxInt32_def)
  moreover have "?s4 = max ?slots 4"
    by (simp add: max_def)
  ultimately show ?thesis
    by (simp add: new_machine_def copied_machine_def assms(2))
qed

lemmas run_copied = reaches_run [OF copied_reached]

text \<open>Where the last instruction is \<^verbatim>\<open>RETURN\<close> the code is returned.\<close>

lemma memory_holds:
  "length rt < 256 \<Longrightarrow> length rt \<le> mem_len DefaultDynamicMemory" "mem_len DefaultDynamicMemory \<le> MaxInt32"
  by (simp_all add: DefaultDynamicMemory_def defaultInitialMemoryCapacity_def MaxInt32_def)

lemma uint_length: "length rt < 256 \<Longrightarrow> uint (word_of_nat (length rt) :: word256) = int (length rt)"
  by (simp add: unat_of_nat take_bit_nat_eq_self uint_nat)

lemma run_wrapper:
  assumes "st_error (ac_state act) = None" and "ac_gas act = 10000" and "DataStackMaxDepth (vm_params V) = 0"
    and code: "fr_code F = deploy_wrapper rt" and len: "0 < length rt" "length rt < 256"
  shows "\<exists>act'. run X V F (new_machine V F act) = Some (Ok (Some rt), act') \<and>
    ac_state act' = ac_state act \<and> ac_sink act' = ac_sink act"
proof -
  have "run X V F (copied_machine V F act rt) = Some (Ok (Some rt),
      activation.truncate ((copied_machine V F act rt)\<lparr>ac_gas := 9989, mc_stack := []\<rparr>))"
    by (subst run_return [OF _ _ exec_RETURN_small
          [where len = "word_of_nat (length rt)" and ds = "[]" and v = rt and mem = DefaultDynamicMemory]])
      (simp_all add: assms(1) copied_machine_def code deploy_wrapper_def wrapper_ending_def codeGetOp_def
        decode_op_def opcode_table_def memory_holds len(2) uint_length [OF len(2)])
  then show ?thesis
    using run_copied [OF assms(1-3) code [unfolded deploy_wrapper_def] len, of X]
    by (simp add: copied_machine_def activation.defs)
qed

lemma VM_Call_wrapper:
  assumes "st_error st = None" and "0 < length rt" and "length rt < 256"
  shows "NewVM_Call X newParams origin nonce st sink caller callee (Some (deploy_wrapper rt)) input 0 10000 =
    (Ok (Some rt), st, sink)"
proof -
  let ?F = "\<lparr>fr_caller = caller, fr_callee = callee, fr_code = deploy_wrapper rt, fr_input = input,
    fr_value = 0, fr_depth = 1, fr_logfree = False\<rparr>"
  let ?act = "\<lparr>ac_state = st, ac_sink = sink, ac_gas = 10000, ac_sequence = 0\<rparr>"
  obtain act' where "run X (evmcc_vm newParams origin nonce) ?F (new_machine (evmcc_vm newParams origin nonce) ?F ?act) =
      Some (Ok (Some rt), act')" and "ac_state act' = st" "ac_sink act' = sink"
    using run_wrapper [of ?act "evmcc_vm newParams origin nonce" ?F rt X] assms
    by (auto simp: evmcc_vm_def newParams_def)
  then show ?thesis
    using assms
    by (simp add: NewVM_Call_def VM_Call_def vm_call_def transfer_def enter_code_def Let_def ensureStackDepth_def
        evmcc_vm_def newParams_def execute_def return_call_def code_bytes_def)
      (simp add: deploy_wrapper_def wrapper_ending_def)
qed

text \<open>A state that already holds an error runs nothing.\<close>

lemma VM_Call_stopped:
  assumes "st_error st = Some e"
  shows "NewVM_Call X params origin nonce st sink caller callee code input 0 gas = (Err e, st, sink)"
  using assms
  by (simp add: NewVM_Call_def VM_Call_def vm_call_def transfer_def enter_code_def Let_def return_call_def
      error_PushError)

text \<open>Through the chaincode: a deployment of wrapped code that succeeds serves exactly that code.\<close>

lemma wrapper_is_served:
  assumes "codec_ok X" and "fresh_stub s" and "ledger_ok X (ledger s)"
    and inv: "invocation s (hex_EncodeToString (Address_Bytes ZeroAddress)) (hex_EncodeToString (deploy_wrapper rt))"
    and caller: "getCallerAddress X s = (caller, None)" and rt: "0 < length rt" "length rt < 256"
    and run: "evmcc_Invoke X (NewVM_Call X) s = (Ok (shim_Success r), s')"
  shows "evmcc_getCode X (next_transaction s') r = shim_Success (bytes_of (hex_EncodeToString rt))"
proof -
  let ?nonce = "Nonce (sha256_Sum X) caller (bytes_of (stub_txid s))"
  let ?a = "NewContractAddress (sha256_Sum X) caller ?nonce"
  obtain rt' st sink where call: "NewVM_Call X newParams caller ?nonce (deploy_state X s ?a) \<lparr>EventCache = []\<rparr>
      caller ?a (Some (deploy_wrapper rt)) (deploy_wrapper rt) 0 10000 = (Ok (Some rt'), st, sink)"
    and served: "evmcc_getCode X (next_transaction s') r = shim_Success (bytes_of (hex_EncodeToString rt'))"
    using Invoke_deploys [OF assms(1) NewVM_Call_ok assms(2,3) inv hex_decode_encode caller run refl refl]
    by blast
  show ?thesis
  proof (cases "st_error (deploy_state X s ?a)")
    case None
    from VM_Call_wrapper [OF this rt, of X] call served show ?thesis
      by simp
  next
    case (Some e)
    from VM_Call_stopped [OF this, of X] call show ?thesis
      by simp
  qed
qed

end
