(* ===== verification/Revert_Reasons.thy ===== *)
theory Revert_Reasons
  imports Evm_Deployment Abi_Encoding
begin

section \<open>The reasons of reverts\<close>

text \<open>
  A contract that reverts returns a reason: the identifier of \<^verbatim>\<open>Error(string)\<close> and a string in Ethereum's
  ABI. A deployment whose constructor reverts with a reason is answered with that reason. The decoder though
  trusts the length that stands in front of the string: one that is larger than the data makes it slice
  beyond them, and the panic ends the chaincode's process.
\<close>

definition revert_payload :: "('pk, 'z) evm_externals_scheme \<Rightarrow> bytes \<Rightarrow> bytes" where
  "revert_payload X bs = GetFunctionID (keccak256 X) ''Error(string)'' @ bs"

definition reverted_with :: "string \<Rightarrow> go_error" where
  "reverted_with reason = Coded ErrorCodeExecutionReverted (''with reason '%s'' @ [CHR 0x27]) [AStr reason]"

subsection \<open>The decoder\<close>

lemma UnpackRevert_payload:
  assumes "\<And>bs. length (keccak256 X bs) = 32" and "length bs < 2 ^ 63 - 4"
  shows "UnpackRevert (keccak256 X) (revert_payload X bs) =
    map_res (\<lambda>args. case args of [VString msg] \<Rightarrow> Some msg | _ \<Rightarrow> Some []) (unpack_from [EVMString] bs 0)"
  using assms
  by (simp add: UnpackRevert_def UnpackWithID_def RevertAbi_def revert_payload_def GetFunctionID_def Signature_def
      go_slice_def)

lemma reason_decoded:
  assumes "\<And>bs. length (keccak256 X bs) = 32" and "length (abi_encode [VString reason]) < 2 ^ 62"
  shows "newRevertException X (revert_payload X (abi_encode [VString reason])) = Ok (reverted_with reason)"
proof -
  have "unpack_from [EVMString] (abi_encode [VString reason]) 0 = Ok [VString reason]"
    using unpack_encoded [of "[VString reason]"] assms(2) by (simp add: UnpackIntoStruct_def in_range_def)
  then have "UnpackRevert (keccak256 X) (revert_payload X (abi_encode [VString reason])) = Ok (Some reason)"
    using UnpackRevert_payload [OF assms(1)] assms(2) by (simp add: map_res_def)
  moreover have "0 < length (revert_payload X (abi_encode [VString reason]))"
    by (simp add: revert_payload_def abi_encode_def)
  ultimately show ?thesis
    by (simp add: newRevertException_def reverted_with_def)
qed

lemma long_string_panics:
  assumes "n < 0 \<or> int (length bs) < n" and "- (2 ^ 63) \<le> n" "n < 2 ^ 63" and "length bs < 2 ^ 62"
  shows "unpack_from [EVMString] (abi_word 32 @ abi_word n @ bs) 0 = Panic ''slice bounds out of range''"
proof -
  let ?data = "abi_word 32 @ abi_word n @ bs"
  have "EVMInt_unpack ([] @ abi_word 32 @ (abi_word n @ bs)) (int (length ([] :: bytes))) = Ok 32"
    using assms(4) by (intro EVMInt_unpack_word) simp_all
  moreover have "EVMInt_unpack (abi_word 32 @ abi_word n @ bs) (int (length (abi_word 32))) = Ok n"
    using assms by (intro EVMInt_unpack_word) simp_all
  moreover have "go_slice ?data (int64 64) (int64 (int64 64 + n)) = Panic ''slice bounds out of range''"
  proof (cases "64 + n < 2 ^ 63")
    case True
    then have "int64 (64 + n) = 64 + n"
      using assms(2) by (intro int64_small) simp_all
    then show ?thesis
      using assms(1) by (auto simp: go_slice_def int64_small)
  next
    case False
    then have "int64 (64 + n - 2 ^ 64) = 64 + n - 2 ^ 64"
      using assms(3) by (intro int64_small) simp_all
    moreover have "(word_of_int (64 + n) :: 64 word) = word_of_int (64 + n - 2 ^ LENGTH(64))"
      by (simp only: word_of_int_eq_iff take_bit_eq_mod minus_mod_self2)
    then have "int64 (64 + n) = int64 (64 + n - 2 ^ 64)"
      unfolding int64_def by (simp only: len_num1 len_bit0 flip: numeral.simps) simp
    ultimately show ?thesis
      using assms(3) by (simp add: go_slice_def int64_small)
  qed
  ultimately show ?thesis
    by (simp add: Dynamic_def EVMString_unpack_def Let_def map_res_def int64_small)
qed

lemma long_reason_panics:
  assumes "\<And>bs. length (keccak256 X bs) = 32" and "n < 0 \<or> int (length bs) < n" and "- (2 ^ 63) \<le> n" "n < 2 ^ 63"
    and "length bs < 2 ^ 62"
  shows "newRevertException X (revert_payload X (abi_word 32 @ abi_word n @ bs)) = Panic ''slice bounds out of range''"
proof -
  have "UnpackRevert (keccak256 X) (revert_payload X (abi_word 32 @ abi_word n @ bs)) = Panic ''slice bounds out of range''"
    using UnpackRevert_payload [OF assms(1)] long_string_panics [OF assms(2-5)] assms(5) by (simp add: map_res_def)
  moreover have "0 < length (revert_payload X (abi_word 32 @ abi_word n @ bs))"
    by (simp add: revert_payload_def)
  ultimately show ?thesis
    by (simp add: newRevertException_def)
qed

subsection \<open>Code that comes to REVERT\<close>

text \<open>
  A run that comes, after any number of turns and without an error, to a \<^verbatim>\<open>REVERT\<close> whose two arguments
  are on the stack, with gas for them, and name a part of the memory.
\<close>

definition comes_to_revert ::
    "('pk, 'z) evm_externals_scheme \<Rightarrow> vm \<Rightarrow> frame \<Rightarrow> activation \<Rightarrow> bytes \<Rightarrow> bool" where
  "comes_to_revert X V F act out \<longleftrightarrow>
     (\<exists>m off len ds mem. reaches X V F (new_machine V F act) m \<and> st_error (ac_state m) = None \<and>
       codeGetOp (fr_code F) (mc_pc m) = Ok OP_REVERT \<and> 2 < ac_gas m \<and> mc_stack m = off # len # ds \<and>
       memory_Read (uint off) (uint len) (mc_memory m) = (Ok out, mem))"

lemma memory_Read_length:
  assumes "memory_Read off len mem = (Ok out, mem')"
  shows "length out \<le> MaxInt32"
proof -
  let ?capacity = "(nat off + nat len) mod 2 ^ 64"
  have small: "nat off < 2 ^ 64" "nat len < 2 ^ 64"
    and out: "length out = nat len" and cap: "?capacity \<le> MaxInt32" "nat off \<le> ?capacity"
    using assms by (auto simp: memory_Read_def IsUint64_def mem_read_def Let_def mem_ensureCapacity_def mem_slice_def
        not_less split: if_splits option.splits prod.splits)
  have "b \<le> (a + b) mod 2 ^ 64" if "a < 2 ^ 64" "b < 2 ^ 64" "a \<le> (a + b) mod 2 ^ 64" for a b :: nat
    using that by (cases "a + b < 2 ^ 64") (auto simp: mod_if)
  from this [OF small cap(2)] have "nat len \<le> ?capacity" .
  with out cap(1) show ?thesis
    by simp
qed

lemma comes_to_revert_length: "comes_to_revert X V F act out \<Longrightarrow> length out < 2 ^ 31"
  by (auto simp: comes_to_revert_def MaxInt32_def dest!: memory_Read_length)

lemma exec_REVERT_result:
  assumes "2 < ac_gas m" and "mc_stack m = off # len # ds"
    and "memory_Read (uint off) (uint len) (mc_memory m) = (Ok out, mem)"
  shows "exec_REVERT X m =
    (case newRevertException X out of
       Ok e \<Rightarrow> Some (Ok (Return (Some out)), (m\<lparr>ac_gas := ac_gas m - 2, mc_stack := ds, mc_memory := mem\<rparr>)
         \<lparr>ac_state := es_PushError (ac_state m) (Some e)\<rparr>)
     | Err e \<Rightarrow> Some (Err e, m\<lparr>ac_gas := ac_gas m - 2, mc_stack := ds, mc_memory := mem\<rparr>)
     | Panic p \<Rightarrow> Some (Panic p, m\<lparr>ac_gas := ac_gas m - 2, mc_stack := ds, mc_memory := mem\<rparr>))"
proof -
  have gas: "1 < ac_gas m" "1 < ac_gas m - 1"
    using assms(1) by (auto simp: word_less_nat_alt unat_sub word_le_nat_alt)
  then show ?thesis
    by (simp add: exec_REVERT_def bind2_def bind_op_def seq_op_def PopBigInt_def ret_def lift_res_def Pop_more assms(2)
        Memory_Read_def assms(3) code_bytes_def PushError_op_def state_upd_def split: res.split)
qed

lemma run_panic:
  assumes "st_error (ac_state m) = None" and "codeGetOp (fr_code F) (mc_pc m) = Ok op"
    and "\<And>exec. exec_op X V exec F op m = Some (Panic p, m')"
  shows "run X V F m = Some (Panic p, activation.truncate m')"
  by (subst run.simps) (simp add: assms step_exec)

lemma run_reverting:
  assumes "comes_to_revert X V F act out"
  shows "newRevertException X out = Ok e \<Longrightarrow> has_text e \<Longrightarrow>
      \<exists>act'. run X V F (new_machine V F act) = Some (Ok (Some out), act') \<and>
        evm_steps X (ac_state act) (ac_state act') \<and> st_error (ac_state act') = Some e"
    and "newRevertException X out = Panic p \<Longrightarrow>
      \<exists>act'. run X V F (new_machine V F act) = Some (Panic p, act') \<and> evm_steps X (ac_state act) (ac_state act')"
proof -
  obtain m off len ds mem where reach: "reaches X V F (new_machine V F act) m"
    and at: "st_error (ac_state m) = None" "codeGetOp (fr_code F) (mc_pc m) = Ok OP_REVERT"
    and rev: "2 < ac_gas m" "mc_stack m = off # len # ds" "memory_Read (uint off) (uint len) (mc_memory m) = (Ok out, mem)"
    using assms unfolding comes_to_revert_def by blast
  have steps: "evm_steps X (ac_state act) (ac_state m)"
    using reaches_runs_to [OF reach] by (simp add: runs_to_def uses_def new_machine_def)
  note result = exec_REVERT_result [OF rev, of X]
  show "\<exists>act'. run X V F (new_machine V F act) = Some (Ok (Some out), act') \<and>
        evm_steps X (ac_state act) (ac_state act') \<and> st_error (ac_state act') = Some e"
    if "newRevertException X out = Ok e" "has_text e"
  proof -
    have "run X V F m = Some (Ok (Some out), activation.truncate
        ((m\<lparr>ac_gas := ac_gas m - 2, mc_stack := ds, mc_memory := mem\<rparr>)\<lparr>ac_state := es_PushError (ac_state m) (Some e)\<rparr>))"
      by (rule run_return [OF at]) (simp add: result that(1))
    moreover have "st_error (es_PushError (ac_state m) (Some e)) = Some e"
      using at(1) that(2) by (simp add: es_PushError_def)
    moreover have "evm_steps X (ac_state act) (es_PushError (ac_state m) (Some e))"
      using steps by (rule rtranclp.rtrancl_into_rtrancl) (rule push)
    ultimately show ?thesis
      using reaches_run [OF reach] by (simp add: activation.defs)
  qed
  show "\<exists>act'. run X V F (new_machine V F act) = Some (Panic p, act') \<and> evm_steps X (ac_state act) (ac_state act')"
    if "newRevertException X out = Panic p"
  proof -
    have "run X V F m = Some (Panic p, activation.truncate (m\<lparr>ac_gas := ac_gas m - 2, mc_stack := ds, mc_memory := mem\<rparr>))"
      by (rule run_panic [OF at]) (simp add: result that)
    with steps reaches_run [OF reach] show ?thesis
      by (simp add: activation.defs)
  qed
qed

text \<open>The frame and the activation in which the chaincode runs the constructor of a deployment.\<close>

definition constructor_frame :: "address \<Rightarrow> address \<Rightarrow> bytes \<Rightarrow> frame" where
  "constructor_frame caller a input = \<lparr>fr_caller = caller, fr_callee = a, fr_code = input, fr_input = input,
     fr_value = 0, fr_depth = 1, fr_logfree = False\<rparr>"

definition constructor_activation :: "evm_state \<Rightarrow> activation" where
  "constructor_activation st = \<lparr>ac_state = st, ac_sink = \<lparr>EventCache = []\<rparr>, ac_gas = 10000, ac_sequence = 0\<rparr>"

lemma VM_Call_reverting:
  assumes none: "st_error st = None"
    and comes: "comes_to_revert X (evmcc_vm newParams origin nonce) (constructor_frame caller a input)
      (constructor_activation st) out"
  shows "newRevertException X out = Ok e \<Longrightarrow> has_text e \<Longrightarrow> \<exists>st' sink. evm_steps X st st' \<and>
      NewVM_Call X newParams origin nonce st \<lparr>EventCache = []\<rparr> caller a (Some input) input 0 10000 = (Err e, st', sink)"
    and "newRevertException X out = Panic p \<Longrightarrow> \<exists>st' sink. evm_steps X st st' \<and>
      NewVM_Call X newParams origin nonce st \<lparr>EventCache = []\<rparr> caller a (Some input) input 0 10000 = (Panic p, st', sink)"
proof -
  have code: "input \<noteq> []"
    using comes by (auto simp: comes_to_revert_def constructor_frame_def codeGetOp_def split: if_splits)
  have depth: "CallStackMaxDepth (vm_params (evmcc_vm newParams origin nonce)) = 0"
    by (simp add: evmcc_vm_def newParams_def)
  note simps = NewVM_Call_def VM_Call_def vm_call_def transfer_def enter_code_def Let_def ensureStackDepth_def
    execute_def return_call_def code_bytes_def
  note runs = run_reverting [OF comes, unfolded constructor_frame_def constructor_activation_def]
  show "\<exists>st' sink. evm_steps X st st' \<and>
      NewVM_Call X newParams origin nonce st \<lparr>EventCache = []\<rparr> caller a (Some input) input 0 10000 = (Err e, st', sink)"
    if "newRevertException X out = Ok e" "has_text e"
    using runs(1) [OF that] none depth code by (auto simp: simps)
  show "\<exists>st' sink. evm_steps X st st' \<and>
      NewVM_Call X newParams origin nonce st \<lparr>EventCache = []\<rparr> caller a (Some input) input 0 10000 = (Panic p, st', sink)"
    if "newRevertException X out = Panic p"
    using runs(2) [OF that] none depth code by (auto simp: simps)
qed

text \<open>The usual wrapper around a payload, with \<^verbatim>\<open>REVERT\<close> at its end, comes to it.\<close>

lemma decode_REVERT: "decode_op 0xfd = OP_REVERT"
  by (simp add: decode_op_def opcode_table_def)

lemma wrapper_comes_to_revert:
  assumes "st_error st = None" and "0 < length out" and "length out < 256"
  shows "comes_to_revert X (evmcc_vm newParams origin nonce) (constructor_frame caller a (wrapper_ending 0xfd out))
    (constructor_activation st) out"
proof -
  let ?V = "evmcc_vm newParams origin nonce" and ?F = "constructor_frame caller a (wrapper_ending 0xfd out)"
  let ?m = "copied_machine ?V ?F (constructor_activation st) out"
  have "reaches X ?V ?F (new_machine ?V ?F (constructor_activation st)) ?m"
    by (rule copied_reached [OF _ _ _ _ assms(2,3)])
      (simp_all add: assms(1) constructor_activation_def constructor_frame_def evmcc_vm_def newParams_def)
  moreover have "codeGetOp (fr_code ?F) (mc_pc ?m) = Ok OP_REVERT"
    by (simp add: copied_machine_def constructor_frame_def wrapper_ending_def codeGetOp_def decode_REVERT)
  moreover have "memory_Read (uint 0) (uint (word_of_nat (length out) :: word256)) (mc_memory ?m) = (Ok out, mc_memory ?m)"
    using memory_small(2) [OF memory_holds(1) [OF assms(3)] memory_holds(2)]
    by (simp add: copied_machine_def uint_length [OF assms(3)])
  ultimately show ?thesis
    unfolding comes_to_revert_def using assms(1)
    by (intro exI [of _ ?m] exI) (auto simp: copied_machine_def constructor_activation_def)
qed

subsection \<open>Through the chaincode\<close>

text \<open>At a free address the constructor runs without an error before it.\<close>

lemma deploy_state_free:
  assumes "fresh_stub s" and "ledger_account X (ledger s) a = Inr None"
  shows "st_error (deploy_state X s a) = None"
proof -
  have "sm_GetAccount X (NewStateManager s) a = Inr None"
    using assms by (auto simp: sm_GetAccount_def NewStateManager_def GetState_def fresh_stub_def ledger_account_def
        split: option.splits if_splits sum.splits)
  then show ?thesis
    by (simp add: deploy_state_def es_CreateAccount_def es_Exists_def es_SetPermission_def es_mustAccount_def
        es_account_def es_updateAccount_def set_chain_def chain_def initial_state_def NewState_def NewCache_def
        Let_def set_info_def cache_get.simps new_account_def map_base_def map_permissions_def)
qed

text \<open>What the deployment branch answers when the machine fails or panics.\<close>

lemma Invoke_deploy_fails:
  assumes inv: "invocation s (hex_EncodeToString (Address_Bytes ZeroAddress)) (hex_EncodeToString input)"
    and caller: "getCallerAddress X s = (caller, None)"
    and a: "a = NewContractAddress (sha256_Sum X) caller (Nonce (sha256_Sum X) caller (bytes_of (stub_txid s)))"
    and fresh: "fresh_stub s" and free: "ledger_account X (ledger s) a = Inr None"
    and call: "NewVM newParams caller (Nonce (sha256_Sum X) caller (bytes_of (stub_txid s)))
      (deploy_state X s a) \<lparr>EventCache = []\<rparr> caller a (Some input) input 0 10000 = (q, st, sink)"
  shows "q = Err e \<Longrightarrow> evmcc_Invoke X NewVM s = (Ok (shim_Error (Fmt ''failed to deploy code: %s'' [AErr e])), st_stub st)"
    and "q = Panic p \<Longrightarrow> evmcc_Invoke X NewVM s = (Panic p, st_stub st)"
proof -
  have none: "st_error (deploy_state X s a) = None"
    using deploy_state_free [OF fresh free] .
  then have "st_error (es_CreateAccount X (initial_state s) a) = None"
    unfolding deploy_state_def by (rule evm_steps_no_error [OF steps_writes(4)])
  moreover have "hex_EncodeToString (Address_Bytes ZeroAddress) \<noteq> ''getCode''"
    by code_simp
  ultimately show "q = Err e \<Longrightarrow> evmcc_Invoke X NewVM s =
      (Ok (shim_Error (Fmt ''failed to deploy code: %s'' [AErr e])), st_stub st)"
    and "q = Panic p \<Longrightarrow> evmcc_Invoke X NewVM s = (Panic p, st_stub st)"
    using none call a Invoke_two_args [OF inv _ hex_decode_encode _ caller hex_decode_encode, of NewVM]
    by (simp_all add: evmcc_deploy_def Let_def deploy_state_def [symmetric])
qed

theorem revert_answers:
  assumes inv: "invocation s (hex_EncodeToString (Address_Bytes ZeroAddress)) (hex_EncodeToString input)"
    and "getCallerAddress X s = (caller, None)"
    and a: "a = NewContractAddress (sha256_Sum X) caller (Nonce (sha256_Sum X) caller (bytes_of (stub_txid s)))"
    and "fresh_stub s" and "ledger_account X (ledger s) a = Inr None"
    and comes: "comes_to_revert X (evmcc_vm newParams caller (Nonce (sha256_Sum X) caller (bytes_of (stub_txid s))))
      (constructor_frame caller a input) (constructor_activation (deploy_state X s a)) out"
  shows "newRevertException X out = Ok e \<Longrightarrow> has_text e \<Longrightarrow>
      evmcc_Invoke X (NewVM_Call X) s = (Ok (shim_Error (Fmt ''failed to deploy code: %s'' [AErr e])), s)"
    and "newRevertException X out = Panic p \<Longrightarrow> evmcc_Invoke X (NewVM_Call X) s = (Panic p, s)"
proof -
  note none = deploy_state_free [OF assms(4,5)]
  note call = VM_Call_reverting [OF none comes]
  have stub: "st_stub st = s" if "evm_steps X (deploy_state X s a) st" for st
    using run_initial(3) [OF rtranclp_trans [OF steps_deploy_state that]] .
  show "evmcc_Invoke X (NewVM_Call X) s = (Ok (shim_Error (Fmt ''failed to deploy code: %s'' [AErr e])), s)"
    if "newRevertException X out = Ok e" "has_text e"
    using call(1) [OF that] Invoke_deploy_fails(1) [where NewVM = "NewVM_Call X", OF assms(1-5), of _ _ _ e] stub by blast
  show "evmcc_Invoke X (NewVM_Call X) s = (Panic p, s)" if "newRevertException X out = Panic p"
    using call(2) [OF that] Invoke_deploy_fails(2) [where NewVM = "NewVM_Call X", OF assms(1-5), of _ _ _ p] stub by blast
qed

end
