(* ===== verification/Demo_Evm.thy ===== *)
theory Demo_Evm
  imports Demo_Run Evm_Alu Evm_Control Gas_Termination Native_Results Revert_Reasons
begin

section \<open>Concrete machines\<close>

text \<open>
  The concrete externals with the hashes of the machine, a frame and machines on the ledger with one
  contract: the inputs of the witnesses about the interpreter. The concrete hash of a text keeps its first
  sixteen characters, so that the functions of the secure native contract have different identifiers.
\<close>

definition demo_keccak :: "bytes \<Rightarrow> bytes" where
  "demo_keccak bs = take 16 (bs @ replicate 16 0) @ replicate 16 5"

definition demo_evm :: "unit evm_externals" where
  "demo_evm = externals.extend demo_externals
     (evm_externals.fields demo_keccak (\<lambda>_. replicate 20 6))"

lemma demo_evm_simps [simp]:
  "account_Encode demo_evm = demo_encode" "account_Decode demo_evm = demo_decode"
  "json_Marshal_events demo_evm = demo_marshal" "sha256_Sum demo_evm = (\<lambda>_. replicate 32 9)"
  "keccak256 demo_evm = demo_keccak" "identity_ext.truncate demo_evm = identity_ext.truncate demo_externals"
  "unicode_ToLower demo_evm = (\<lambda>s. s)"
  by (simp_all add: demo_evm_def externals.defs evm_externals.defs demo_externals_def identity_ext.defs)

lemma demo_evm_codec_ok: "codec_ok demo_evm"
  using demo_codec by (auto simp: codec_ok_def)

definition demo_params :: evm_params where
  "demo_params = newParams\<lparr>CallStackMaxDepth := 8\<rparr>"

definition demo_machine_vm :: vm where
  "demo_machine_vm = evmcc_vm demo_params demo_caller []"

definition demo_frame :: "bytes \<Rightarrow> frame" where
  "demo_frame code = \<lparr>fr_caller = demo_caller, fr_callee = demo_contract, fr_code = code, fr_input = [],
     fr_value = 0, fr_depth = 0, fr_logfree = False\<rparr>"

definition demo_activation :: activation where
  "demo_activation = \<lparr>ac_state = initial_state demo_call, ac_sink = \<lparr>EventCache = []\<rparr>, ac_gas = 100, ac_sequence = 0\<rparr>"

definition demo_machine :: "word256 list \<Rightarrow> machine" where
  "demo_machine stack = (new_machine demo_machine_vm (demo_frame []) demo_activation)
     \<lparr>mc_stack := stack, mc_slots := 16\<rparr>"

lemma demo_machine_simps [simp]:
  "mc_stack (demo_machine s) = s" "ac_gas (demo_machine s) = 100" "mc_slots (demo_machine s) = 16"
  "ac_state (demo_machine s) = initial_state demo_call" "mc_pc (demo_machine s) = 0"
  by (simp_all add: demo_machine_def demo_activation_def)

lemma demo_machine_ready: "n < 100 \<Longrightarrow> length s \<le> 16 \<Longrightarrow> ready n (demo_machine s)"
  by (simp add: ready_def MaxInt32_def)

lemma demo_no_error [simp]: "st_error (initial_state s) = None"
  by (simp add: initial_state_def NewState_def)

lemma demo_contract_bytes: "Address_Bytes demo_contract = replicate 20 9"
  using Address_Bytes_copy [of "replicate 20 9"] by (simp add: demo_contract_def copy_to_address_def)

lemma demo_contract_not_native:
  "demo_contract \<noteq> copy_to_address [2]" "demo_contract \<noteq> copy_to_address [3]" "demo_contract \<noteq> copy_to_address [4]"
  "demo_contract \<noteq> SNative_Address demo_evm"
proof -
  let ?name = "replicate 4 0 @ replicate 16 5 :: bytes"
  have "SNative_Address demo_evm = copy_to_address ?name"
    by (simp add: SNative_Address_def demo_keccak_def bytes_of_def)
  moreover have "hd (Address_Bytes (copy_to_address ?name)) = 0"
    by (subst Address_Bytes_copy) simp_all
  moreover have "hd (Address_Bytes demo_contract) = 9" "(9 :: byte) \<noteq> 0"
    by (simp_all add: demo_contract_bytes)
  ultimately show "demo_contract \<noteq> SNative_Address demo_evm"
    by metis
  have "Address_Bytes demo_contract \<noteq> Address_Bytes (copy_to_address [b])" if "b \<noteq> 9" for b
  proof -
    have "hd (Address_Bytes (copy_to_address [b])) = b"
      using Address_Bytes_copy [of "b # replicate 19 0"] by (simp add: copy_to_address_def)
    moreover have "hd (Address_Bytes demo_contract) = 9"
      by (simp add: demo_contract_bytes)
    ultimately show ?thesis
      using that by metis
  qed
  from this [of 2] this [of 3] this [of 4]
  show "demo_contract \<noteq> copy_to_address [2]" "demo_contract \<noteq> copy_to_address [3]" "demo_contract \<noteq> copy_to_address [4]"
    by auto
qed

text \<open>A jump, and a deployment of wrapped code through the chaincode.\<close>

lemma demo_jump:
  "step demo_evm demo_machine_vm exec (demo_frame [0x56, 0x00, 0x5b]) (demo_machine [2]) =
     Some (Ok Continue, (demo_machine [])\<lparr>ac_gas := 99, mc_pc := 2\<rparr>)"
proof -
  have "codeGetOp (fr_code (demo_frame [0x56, 0x00, 0x5b])) (mc_pc (demo_machine [2])) = Ok (OP_EXEC X_JUMP)"
    by (simp add: codeGetOp_def demo_frame_def decode_op_def opcode_table_def)
  then show ?thesis
    by (simp add: step_exec Pop64_def bind_op_def seq_op_def Pop_more ret_def Is64BitOverflow_iff
        Int64FromWord256_small jump_def codeGetOp_def demo_frame_def decode_op_JUMPDEST upd_op_def)
      (simp add: demo_machine_def demo_activation_def new_machine_def)
qed

definition demo_wrapped :: stub where
  "demo_wrapped = demo_stub (hex_EncodeToString (Address_Bytes ZeroAddress))
     (hex_EncodeToString (deploy_wrapper [0x5b, 0x00])) Map.empty"

lemma demo_wrapped_caller: "getCallerAddress demo_evm demo_wrapped = (demo_caller, None)"
  using demo_getCallerAddress [of "hex_EncodeToString (Address_Bytes ZeroAddress)"
      "hex_EncodeToString (deploy_wrapper [0x5b, 0x00])" Map.empty]
  by (simp add: demo_wrapped_def getCallerAddress_def)

lemma demo_wrapped_run:
  "\<exists>s'. evmcc_Invoke demo_evm (NewVM_Call demo_evm) demo_wrapped =
     (Ok (shim_Success (bytes_of (hex_EncodeToString (Address_Bytes demo_contract)))), s')"
  using demo_wrapped_caller
  by (simp add: demo_wrapped_def evmcc_Invoke_def AddressFromBytes_def demo_run_defs VM_Call_wrapper)

text \<open>Constructors that revert.\<close>

definition demo_reverting :: "bytes \<Rightarrow> stub" where
  "demo_reverting out = demo_stub (hex_EncodeToString (Address_Bytes ZeroAddress))
     (hex_EncodeToString (wrapper_ending 0xfd out)) Map.empty"

lemma demo_reverting_ok:
  "fresh_stub (demo_reverting out)" "ledger_account demo_evm (ledger (demo_reverting out)) a = Inr None"
  "invocation (demo_reverting out) (hex_EncodeToString (Address_Bytes ZeroAddress))
     (hex_EncodeToString (wrapper_ending 0xfd out))"
  "getCallerAddress demo_evm (demo_reverting out) = (demo_caller, None)"
  using demo_getCallerAddress [of "hex_EncodeToString (Address_Bytes ZeroAddress)"
      "hex_EncodeToString (wrapper_ending 0xfd out)" Map.empty]
  by (simp_all add: demo_reverting_def fresh_stub_def ledger_account_def invocation_def getCallerAddress_def)

lemma demo_keccak_length: "length (keccak256 demo_evm bs) = 32"
  by (simp add: demo_keccak_def)

lemma length_revert_payload: "length (revert_payload demo_evm bs) = length bs + 4"
  by (simp add: revert_payload_def GetFunctionID_def demo_keccak_def)

text \<open>A log, then an instruction that aborts: the log is still there.\<close>

definition demo_failing :: bytes where
  "demo_failing = [0x60, 0x00, 0x80, 0xa0, 0xfe]"

lemma demo_failing_run:
  assumes none: "st_error (ac_state act) = None" and "ac_gas act = 50" and F: "fr_code F = demo_failing" "\<not> fr_logfree F"
    and "fr_callee F = demo_contract"
  shows "\<exists>act'. run demo_evm demo_machine_vm F (new_machine demo_machine_vm F act) = Some (Ok None, act') \<and>
    ac_state act' = es_PushError (ac_state act) (Some (code_error ErrorCodeExecutionAborted)) \<and>
    ac_gas act' = 45 \<and> EventCache (ac_sink act') = EventCache (ac_sink act) @
      [event_of_log \<lparr>log_Address = demo_contract, log_Data = [], log_Topics = []\<rparr>]"
proof -
  let ?V = demo_machine_vm and ?m = "new_machine demo_machine_vm F act"
  let ?log = "event_of_log \<lparr>log_Address = demo_contract, log_Data = [], log_Topics = []\<rparr>"
  have V: "DataStackMaxDepth (vm_params ?V) = 0" "mc_slots ?m = 0"
    by (simp_all add: demo_machine_vm_def evmcc_vm_def demo_params_def newParams_def new_machine_def)
  define m1 where "m1 = ?m\<lparr>ac_gas := 49, mc_stack := [0], mc_slots := 1, mc_pc := 2\<rparr>"
  define m2 where "m2 = m1\<lparr>ac_gas := 47, mc_stack := [0, 0], mc_slots := 2\<rparr>"
  define m3 where "m3 = m2\<lparr>ac_gas := 45, mc_stack := [], ac_sink := \<lparr>EventCache = EventCache (ac_sink act) @ [?log]\<rparr>, mc_pc := 3\<rparr>"
  have code: "fr_code F ! 0 = 0x60" "fr_code F ! 1 = 0" "length (fr_code F) = 5"
    by (simp_all add: F(1) demo_failing_def)
  have "run demo_evm ?V F ?m = run demo_evm ?V F m1"
    using run_PUSH1 [of ?m ?V 0 F demo_evm] none assms(2) V code by (simp add: m1_def MaxInt32_def)
  also have "\<dots> = run demo_evm ?V F (m2\<lparr>mc_pc := 3\<rparr>)"
  proof -
    have "exec_op demo_evm ?V exec F (OP_DUP 1) m1 = Some (Ok Next, m2)" for exec
      using exec_DUP1 [of m1 ?V 0 "[]" demo_evm exec F] V by (simp add: m1_def m2_def MaxInt32_def)
    moreover have "codeGetOp (fr_code F) (mc_pc m1) = Ok (OP_DUP 1)"
      by (simp add: m1_def codeGetOp_def F(1) demo_failing_def decode_op_def)
    ultimately show ?thesis
      using run_next [of m1 F "OP_DUP 1" demo_evm ?V m2] none by (simp add: m1_def m2_def)
  qed
  also have "\<dots> = run demo_evm ?V F (m3\<lparr>mc_pc := 4\<rparr>)"
  proof -
    have "exec_op demo_evm ?V exec F (OP_LOG 0) (m2\<lparr>mc_pc := 3\<rparr>) = Some (Ok Next, m3)" for exec
      using F(2) assms(5)
      by (simp add: m1_def m2_def m3_def exec_LOG_def bind2_def bind_op_def PopBigInt_def Pop_more ret_def Memory_Read_def
          memory_Read_def IsUint64_def mem_read_def mem_ensureCapacity_def mem_slice_def and_next_def seq_op_def
          Log_op_def em_Log_eq PushError_op_def state_upd_def code_bytes_def MaxInt32_def)
    moreover have "codeGetOp (fr_code F) (mc_pc (m2\<lparr>mc_pc := 3\<rparr>)) = Ok (OP_LOG 0)"
      by (simp add: codeGetOp_def F(1) demo_failing_def decode_op_def)
    ultimately show ?thesis
      using run_next [of "m2\<lparr>mc_pc := 3\<rparr>" F "OP_LOG 0" demo_evm ?V m3] none by (simp add: m1_def m2_def m3_def)
  qed
  also have "\<dots> = Some (Ok None, activation.truncate (m3\<lparr>mc_pc := 4,
      ac_state := es_PushError (ac_state act) (Some (code_error ErrorCodeExecutionAborted))\<rparr>))"
    by (rule run_return [where op = OP_INVALID])
      (use none in \<open>simp_all add: m1_def m2_def m3_def codeGetOp_def F(1) demo_failing_def decode_op_def opcode_table_def
        seq_op_def bind_op_def PushError_op_def state_upd_def ret_def\<close>)
  finally show ?thesis
    by (simp add: m1_def m2_def m3_def)
qed

lemma demo_failing_call:
  "\<exists>m'. nested demo_evm [] 50 (run_contract demo_evm demo_machine_vm (execute demo_evm demo_machine_vm) KIND_DELEGATECALL
      (call_frame (demo_frame []) KIND_DELEGATECALL demo_contract demo_failing [] 0)) (\<lambda>_ st. st) (demo_machine []) =
    Some (Ok (None, Some (code_error ErrorCodeExecutionAborted), 45), m') \<and>
    EventCache (ac_sink m') = [event_of_log \<lparr>log_Address = demo_contract, log_Data = [], log_Topics = []\<rparr>]"
proof -
  let ?G = "call_frame (demo_frame []) KIND_DELEGATECALL demo_contract demo_failing [] 0"
  let ?child = "child_activation [] 50 (demo_machine [])"
  obtain act' where "execute demo_evm demo_machine_vm (?G\<lparr>fr_depth := fr_depth ?G + 1\<rparr>) ?child = Some (Ok None, act')"
    and "ac_state act' = es_PushError (ac_state ?child) (Some (code_error ErrorCodeExecutionAborted))" "ac_gas act' = 45"
    and "EventCache (ac_sink act') = [event_of_log \<lparr>log_Address = demo_contract, log_Data = [], log_Topics = []\<rparr>]"
    using demo_failing_run [of ?child "?G\<lparr>fr_depth := fr_depth ?G + 1\<rparr>"]
    by (auto simp: execute_def child_activation_def call_frame_def demo_frame_def demo_machine_def demo_activation_def)
  moreover have "ensureStackDepth demo_machine_vm (fr_depth ?G) = None" "fr_code ?G = demo_failing" "demo_failing \<noteq> []"
    by (simp_all add: ensureStackDepth_def call_frame_def demo_frame_def demo_machine_vm_def evmcc_vm_def demo_params_def
        demo_failing_def)
  moreover have "st_error (ac_state ?child) = None"
    by (simp add: child_activation_def)
  moreover from this have "st_error (es_PushError (ac_state ?child) (Some (code_error c))) = Some (code_error c)" for c
    by (simp add: es_PushError_def has_text_def code_error_def)
  ultimately show ?thesis
    by (simp add: nested_def run_contract_def delegateCall_def enter_code_def Let_def return_call_def commit_child_def
        after_child_def)
qed

text \<open>A state in which the contract on the ledger was given the permission to set permissions, and a call
  of the secure native contract by it.\<close>

lemma demo_evm_ledger: "ledger_account demo_evm L a = ledger_account demo_externals L a"
  by (simp add: ledger_account_def account_key_eq split: option.split)

lemma demo_evm_account:
  "sm_GetAccount demo_evm \<lparr>sm_stub = demo_call, sm_cache = \<lambda>_. None\<rparr> a =
     Inr (if a = demo_contract then Some demo_account else None)"
  by (subst sm_GetAccount_ledger) (simp_all add: demo_call_def demo_ledger_account demo_evm_ledger)

definition demo_moderated :: evm_state where
  "demo_moderated = es_SetPermission demo_evm (initial_state demo_call) demo_contract perm_SetBase True"

definition demo_moderator :: account where
  "demo_moderator = map_base (\<lambda>bp. snd (perm_Set bp perm_SetBase True)) demo_account"

definition demo_layer :: "(address \<times> account_info) list \<Rightarrow> evm_state" where
  "demo_layer infos = \<lparr>st_backend = Manager \<lparr>sm_stub = demo_call, sm_cache = \<lambda>_. None\<rparr>,
     st_cache = \<lparr>c_accounts = infos, c_readonly = False\<rparr>, st_error = None, st_options = []\<rparr>"

lemma demo_layer_account:
  "es_account demo_evm (demo_layer infos) a =
     (case map_of infos a of
        Some i \<Rightarrow> (if ai_removed i then None else ai_account i, demo_layer infos)
      | None \<Rightarrow> (let acc = if a = demo_contract then Some demo_account else None
                 in (acc, demo_layer (AList.update a (clean_info acc) infos))))"
  by (simp add: es_account_def demo_layer_def chain_def set_chain_def cache_get.simps demo_evm_account set_info_def
      clean_info_def Let_def split: option.split)

lemma demo_layer_update:
  assumes "map_of infos (acc_Address acc) = Some i" and "\<not> ai_removed i"
  shows "es_updateAccount demo_evm (demo_layer infos) acc =
    demo_layer (AList.update (acc_Address acc) (i\<lparr>ai_account := Some acc, ai_updated := True\<rparr>) infos)"
  using assms by (simp add: es_updateAccount_def demo_layer_def chain_def set_chain_def cache_get.simps set_info_def)

lemma demo_initial_layer: "initial_state demo_call = demo_layer []"
  by (simp add: initial_state_def demo_layer_def NewState_def NewStateManager_def NewCache_def)

lemma demo_moderated_layer:
  "demo_moderated = demo_layer [(demo_contract, (clean_info (Some demo_moderator))\<lparr>ai_updated := True\<rparr>)]"
  by (simp add: demo_moderated_def demo_initial_layer es_SetPermission_def es_mustAccount_def demo_layer_account
      demo_layer_update demo_moderator_def map_base_def map_permissions_def clean_info_def Let_def)

lemma demo_natives_registered: "natives_registered demo_evm"
  by (simp add: natives_registered_def SNative_functions_def FunctionID_def GetFunctionID_def sn_Inputs_def
      Signature_def bytes_of_def demo_keccak_def min_def)

lemma demo_contract_nonzero: "demo_contract \<noteq> 0"
  using demo_contract_not_zero by (simp add: ZeroAddress_def)

lemma demo_moderator_may:
  "HasPermission demo_evm demo_moderated demo_contract perm_SetBase = (True,
     demo_layer [(demo_contract, (clean_info (Some demo_moderator))\<lparr>ai_updated := True\<rparr>), (0, clean_info None)])"
  by (simp add: HasPermission_def es_GetPermissions_def GlobalPermissionsAddress_def demo_moderated_layer demo_layer_account
      demo_contract_nonzero demo_contract_nonzero [symmetric] Let_def)
    (simp add: demo_moderator_def demo_account_def contract_account_def map_base_def map_permissions_def perm_Set_def
      new_account_def perm_Get_def perm_Compose_def IsSet_def perm_SetBase_def ContractPermFlags_def perm_Call_def
      perm_Send_def perm_CreateContract_def)

lemma demo_setBase_run:
  "\<exists>st'. Dispatch demo_evm demo_moderated demo_contract
     (setBase_selector demo_evm @ abi_encode [VAddress demo_contract, VUint perm_HasRole, VBool True]) 100 =
     (Ok (Some (abi_encode [VUint perm_HasRole])), st', 100)"
proof -
  let ?vs = "[VAddress demo_contract, VUint perm_HasRole, VBool True]"
  let ?st1 = "demo_layer [(demo_contract, (clean_info (Some demo_moderator))\<lparr>ai_updated := True\<rparr>), (0, clean_info None)]"
  have "es_Exists demo_evm ?st1 demo_contract = (True, ?st1)"
    by (simp add: es_Exists_def demo_layer_def chain_def set_chain_def cache_get.simps)
  moreover have "st_error (demo_layer infos) = None" for infos
    by (simp add: demo_layer_def)
  then have "st_error (es_SetPermission demo_evm ?st1 demo_contract perm_HasRole True) = None"
    by (simp add: es_SetPermission_def es_mustAccount_def demo_layer_account demo_layer_update demo_moderator_def
        map_base_def map_permissions_def)
  moreover have "IsValid perm_HasRole"
    by (simp add: IsValid_def AllPermFlags_def TopPermFlag_def perm_HasRole_def)
  ultimately have "dispatch_to demo_evm setBase_function demo_moderated demo_contract (abi_encode ?vs) =
      (Ok (Some (abi_encode [VUint perm_HasRole])), es_SetPermission demo_evm ?st1 demo_contract perm_HasRole True)"
    using dispatch_encoded [of demo_evm demo_moderated demo_contract setBase_function ?st1 ?vs] demo_moderator_may
      pack_result [of "R_uint64 perm_HasRole"]
    by (simp add: setBase_function_def sn_Inputs_def sn_Outputs_def in_range_def native_setBase_def abi_encode_def
        map_res_def)
  then show ?thesis
    using Dispatch_known [OF demo_natives_registered setBase_known, of demo_moderated demo_contract "abi_encode ?vs" 100]
    by (simp add: setBase_FunctionID)
qed

lemma demo_moderated_coherent: "coherent demo_evm (chain demo_moderated)"
proof -
  have "ledger_ok demo_evm (ledger demo_call)"
    using demo_ledger_ok by (simp add: ledger_ok_def demo_evm_ledger)
  from initial_coherent [OF demo_call_fresh this] show ?thesis
    unfolding demo_moderated_def by (rule evm_steps_invariant(2) [OF steps_writes(4)])
qed

text \<open>The ledger after the deployment of the wrapped code.\<close>

lemma demo_wrapped_ledger:
  "\<exists>s' acc. evmcc_ledger demo_evm (commit s') \<and> ledger_account demo_evm (commit s') demo_contract = Inr (Some acc)"
proof -
  let ?r = "bytes_of (hex_EncodeToString (Address_Bytes demo_contract))"
  obtain s' where run: "evmcc_Invoke demo_evm (NewVM_Call demo_evm) demo_wrapped = (Ok (shim_Success ?r), s')"
    using demo_wrapped_run by blast
  have simps: "ledger demo_wrapped = Map.empty" "write_set demo_wrapped = Map.empty"
    by (simp_all add: demo_wrapped_def)
  have "evmcc_ledger demo_evm (commit s')"
    by (rule evmcc_ledger.transaction [OF _ simps(2) run]) (simp add: simps evmcc_ledger.genesis)
  moreover have "evmcc_getCode demo_evm (next_transaction s') ?r = shim_Success (bytes_of (hex_EncodeToString [0x5b, 0x00]))"
    by (rule wrapper_is_served [OF demo_evm_codec_ok _ _ _ demo_wrapped_caller _ _ run])
      (simp_all add: demo_wrapped_def fresh_stub_def ledger_ok_def ledger_account_def invocation_def)
  moreover have "\<exists>acc. ledger_account X (ledger t) a = Inr (Some acc)"
    if "evmcc_getCode X t (bytes_of (hex_EncodeToString (Address_Bytes a))) = shim_Success bs" "bs \<noteq> []"
    for X :: "unit evm_externals" and t a bs
    using that
    by (auto simp: evmcc_getCode_def ledger_account_def account_key_eq account_key_def [symmetric] GetState_def
        split: option.splits sum.splits if_splits)
  ultimately show ?thesis
    by (fastforce simp: next_transaction_def bytes_of_def)
qed

end
