(* ===== verification/Transaction_States.thy ===== *)
theory Transaction_States
  imports Account_Permissions Evm_Control Chaincode_Results
begin

section \<open>The states of a transaction\<close>

text \<open>
  The states the machine can come to in a transaction: those it starts in, for a deployment and for a call,
  those its turns lead to, in whatever frame, and those in which a nested call, a new contract or a native
  contract starts: a cache over the state of the caller, after the checks, the creation and the transfer that
  precede it.
\<close>

inductive transaction_state :: "('pk, 'z) evm_externals_scheme \<Rightarrow> stub \<Rightarrow> evm_state \<Rightarrow> bool" for X s where
  deployment: "transaction_state X s (deploy_state X s a)"
| call: "transaction_state X s (snd (es_GetCode X (initial_state s) a))"
| turn: "transaction_state X s (ac_state m) \<Longrightarrow> turn X V F m m' \<Longrightarrow> transaction_state X s (ac_state m')"
| inner: "transaction_state X s st \<Longrightarrow> transaction_state X s (es_NewCache st opts)"
| error: "transaction_state X s st \<Longrightarrow> transaction_state X s (es_PushError st e)"
| permission: "transaction_state X s st \<Longrightarrow> transaction_state X s (EnsurePermission X st a p)"
| exists: "transaction_state X s st \<Longrightarrow> transaction_state X s (snd (es_Exists X st a))"
| code: "transaction_state X s st \<Longrightarrow> transaction_state X s (snd (es_GetCode X st a))"
| target: "transaction_state X s st \<Longrightarrow> transaction_state X s (createAccount X st b a)"
| contract: "transaction_state X s st \<Longrightarrow> transaction_state X s (create X st a)"
| value_sent: "transaction_state X s st \<Longrightarrow> transaction_state X s (snd (transfer X st b a n))"

text \<open>An invariant of accounts holds of all accounts that any of them shows.\<close>

context account_invariant
begin

lemma turn_accounts:
  assumes "turn X V F m m'" and "state_accounts X P (ac_state m)"
  shows "state_accounts X P (ac_state m')"
proof -
  have "runs_P V F m m1" if "step X V (execute X V) F m = Some (r, m1)" for r m1
    using kept.keeps_step [OF execute_P, of V F] that by (auto simp: keeps_with_def split: option.splits)
  with assms show ?thesis
    by (auto simp: runs_P_def keeps_accounts_def elim!: turnE)
qed

theorem transaction_state_accounts:
  assumes "transaction_state X s st" and "evmcc_ledger X (ledger s)" and "codec_ok X" and "write_set s = Map.empty"
  shows "state_accounts X P st"
proof -
  have kept: "keeps_P st st' \<Longrightarrow> state_accounts X P st \<Longrightarrow> state_accounts X P st'" for st st'
    by (simp add: keeps_accounts_def)
  note start = initial_accounts [OF assms(2-4)]
  show ?thesis
    using assms(1)
  proof induction
    case (deployment a)
    show ?case
      unfolding deploy_state_def by (intro kept [OF keeps_P_writes(6)] kept [OF keeps_P_writes(1)] start)
  next
    case (turn m V F m')
    from turn_accounts [OF turn(2,3)] show ?case .
  qed (auto intro: kept [OF kept.S_reads(3)] kept [OF kept.S_EnsurePermission] kept [OF kept.S_Exists] start
      kept [OF kept.S_createAccount] kept [OF kept.S_create] kept [OF kept.S_transfer] kept [OF keeps_accounts_pushed])
qed

end

end
