(* ===== verification/Evm_Properties.thy ===== *)
theory Evm_Properties
  imports Demo_Evm Transaction_States
begin

section \<open>Properties of the interpreter\<close>

text \<open>
  The results about the virtual machine, each with a witness that runs it on a concrete machine or
  transaction where it has hypotheses.
\<close>

text \<open>C3. The machine the chaincode runs on meets the contract that the chaincode's results assume of it:
  whatever it is given, it changes the state through its interface only and appends its logs to the
  events.\<close>

theorem machine_meets_its_contract: "vm_ok X (NewVM_Call X params origin nonce)"
  by (rule NewVM_Call_ok)

text \<open>C4. A call always returns, with no more gas than it was given: where the depth of calls is limited;
  whatever the limit, where the code calls and creates nothing; and by its gas alone, where no address that is
  derived is the zero address and every account with code stands at the address derived for it.\<close>

theorem calls_return:
  assumes "leaf_code (fr_code F) \<or>
      0 < CallStackMaxDepth (vm_params V) \<and> fr_depth F \<le> CallStackMaxDepth (vm_params V) \<or>
      \<not> derived_address X ZeroAddress \<and> state_accounts X (placed X) (ac_state act)"
  shows "\<exists>r act'. VM_Call X V F act = Some (r, act') \<and> ac_gas act' \<le> ac_gas act"
proof -
  have "\<exists>r act'. VM_Call X V F act = Some (r, act') \<and> uses X F act act'"
    using assms leaf_returns [of F X V act] VM_Call_returns [of V F X act] VM_Call_returns_placed [of X act V F]
    by blast
  then show ?thesis
    unfolding uses_def by blast
qed

theorem calls_return_witness:
  "\<exists>r act'. VM_Call demo_evm demo_machine_vm (demo_frame [0x60, 0x00, 0x56]) demo_activation = Some (r, act')"
proof -
  have "0 < CallStackMaxDepth (vm_params demo_machine_vm) \<and>
      fr_depth (demo_frame [0x60, 0x00, 0x56]) \<le> CallStackMaxDepth (vm_params demo_machine_vm)"
    by (simp add: demo_machine_vm_def evmcc_vm_def demo_params_def demo_frame_def)
  from calls_return [OF disjI2 [OF disjI1 [OF this]], of demo_evm demo_activation] show ?thesis
    by blast
qed

text \<open>C22. At every turn of the loop of any run the memory is at most 16 MiB long, the stack is within its
  limit, and the program counter is not negative.\<close>

theorem runs_stay_bounded:
  assumes "reaches X V F (new_machine V F act) m"
  shows "mem_len (mc_memory m) \<le> defaultMaximumMemoryCapacity \<and> length (mc_stack m) \<le> stack_limit V \<and> 0 \<le> mc_pc m"
  using reaches_bounded [OF assms] by (simp add: bounded_def memory_ok_def)

theorem runs_stay_bounded_witness:
  "\<exists>m. reaches demo_evm demo_machine_vm (demo_frame [0x5b])
     (new_machine demo_machine_vm (demo_frame [0x5b]) demo_activation) m \<and> mc_pc m = 1 \<and>
     length (mc_stack m) \<le> stack_limit demo_machine_vm"
proof -
  let ?m = "new_machine demo_machine_vm (demo_frame [0x5b]) demo_activation"
  have "codeGetOp (fr_code (demo_frame [0x5b])) (mc_pc ?m) = Ok (OP_EXEC X_JUMPDEST)"
    by (simp add: codeGetOp_def demo_frame_def decode_op_JUMPDEST)
  then have "step demo_evm demo_machine_vm (execute demo_evm demo_machine_vm) (demo_frame [0x5b]) ?m = Some (Ok Next, ?m)"
    by (simp add: step_exec ret_def)
  then have "turn demo_evm demo_machine_vm (demo_frame [0x5b]) ?m (?m\<lparr>mc_pc := mc_pc ?m + 1\<rparr>)"
    by (intro turn.advance) (simp_all add: demo_activation_def)
  then have reached: "reaches demo_evm demo_machine_vm (demo_frame [0x5b]) ?m (?m\<lparr>mc_pc := mc_pc ?m + 1\<rparr>)"
    by (rule r_into_rtranclp)
  from runs_stay_bounded [OF this] reached show ?thesis
    by (intro exI [of _ "?m\<lparr>mc_pc := mc_pc ?m + 1\<rparr>"]) simp
qed

text \<open>C23. An arithmetic instruction with its arguments on the stack and gas for them replaces them by
  what Ethereum defines on 256-bit words; for signed division and remainder where the dividend is not
  negative or the division is exact, and for \<^verbatim>\<open>BYTE\<close> and \<^verbatim>\<open>SIGNEXTEND\<close> where the
  index fits its conversion.\<close>

theorem arithmetic_is_the_reference:
  assumes "ready (alu_arity a + 1) m" and "alu_arity a \<le> length (mc_stack m)"
    and "alu_agrees a (mc_stack m ! 0) (mc_stack m ! 1)"
  shows "exec_alu V a m = Some (Ok (), alu_done a (mc_stack m ! 0)
    (alu_reference a (mc_stack m ! 0) (mc_stack m ! 1) (mc_stack m ! 2)) m)"
  using assms by (rule exec_alu_reference)

theorem arithmetic_is_the_reference_witness:
  "exec_alu demo_machine_vm ALU_SUB (demo_machine [3, 5]) =
     Some (Ok (), (demo_machine [- 2])\<lparr>ac_gas := 97\<rparr>)"
proof -
  have "exec_alu demo_machine_vm ALU_SUB (demo_machine [3, 5]) =
      Some (Ok (), alu_done ALU_SUB 3 (3 - 5) (demo_machine [3, 5]))"
    using arithmetic_is_the_reference [of ALU_SUB "demo_machine [3, 5]" demo_machine_vm]
    by (simp add: demo_machine_ready alu_agrees_def)
  then show ?thesis
    by (simp add: alu_done_def alu_cost_def demo_machine_def demo_activation_def new_machine_def numeral_2_eq_2)
qed

text \<open>C5. Signed division and remainder of a negative number that do not come out even are not those of
  Ethereum: the quotient is one further from zero, against the sign of the divisor, and the remainder is
  larger by the size of the divisor.\<close>

theorem signed_division_rounds_away:
  assumes "ready 3 m" and "mc_stack m = x # y # ds"
    and "sint x < 0" and "y \<noteq> 0" and "\<not> sint y dvd sint x"
  shows "exec_alu V ALU_SDIV m =
      Some (Ok (), alu_done ALU_SDIV x (alu_reference ALU_SDIV x y 0 - word_of_int (sgn (sint y))) m) \<and>
    exec_alu V ALU_SMOD m =
      Some (Ok (), alu_done ALU_SMOD x (alu_reference ALU_SMOD x y 0 + word_of_int \<bar>sint y\<bar>) m)"
  using exec_signed_division_below [OF assms] by blast

theorem signed_division_rounds_away_witness:
  "alu_reference ALU_SDIV (- 7) 2 0 = - 3 \<and>
   exec_alu demo_machine_vm ALU_SDIV (demo_machine [- 7, 2]) = Some (Ok (), (demo_machine [- 4])\<lparr>ac_gas := 97\<rparr>)"
proof -
  have "exec_alu demo_machine_vm ALU_SDIV (demo_machine [- 7, 2]) =
      Some (Ok (), alu_done ALU_SDIV (- 7) (alu_reference ALU_SDIV (- 7) 2 0 - word_of_int (sgn (sint (2 :: word256))))
        (demo_machine [- 7, 2]))"
    using signed_division_rounds_away [of "demo_machine [- 7, 2]" "- 7" 2 "[]" demo_machine_vm]
    by (simp add: demo_machine_ready)
  moreover have "alu_reference ALU_SDIV (- 7) 2 0 = - 3"
    by (simp add: signed_divide_int_def)
  ultimately show ?thesis
    by (simp add: alu_done_def alu_cost_def demo_machine_def demo_activation_def new_machine_def numeral_2_eq_2)
qed

text \<open>C24. Where the loop goes on without advancing and without an error, as after a jump, the program
  counter is at a \<^verbatim>\<open>JUMPDEST\<close> byte inside the code.\<close>

theorem jumps_land_on_jumpdest:
  assumes "step X V exec F m = Some (Ok Continue, m')" and "st_error (ac_state m') = None"
  shows "0 \<le> mc_pc m' \<and> mc_pc m' < int (length (fr_code F)) \<and> fr_code F ! nat (mc_pc m') = 0x5b"
  using assms by (rule continue_at_jumpdest)

theorem jumps_land_on_jumpdest_witness:
  "\<exists>m'. step demo_evm demo_machine_vm (execute demo_evm demo_machine_vm) (demo_frame [0x56, 0x00, 0x5b])
     (demo_machine [2]) = Some (Ok Continue, m') \<and> [0x56, 0x00, 0x5b] ! nat (mc_pc m') = (0x5b :: byte)"
proof -
  have "st_error (ac_state ((demo_machine [])\<lparr>ac_gas := 99, mc_pc := 2\<rparr>)) = None"
    by simp
  from jumps_land_on_jumpdest [OF demo_jump this] demo_jump show ?thesis
    by (auto simp: demo_frame_def)
qed

text \<open>C20. A static call to an address that is not a native contract, whatever it runs and however it ends,
  leaves every account, every word and every event of the transaction as it was.\<close>

theorem static_calls_change_nothing:
  assumes "mc_stack m = gasLimit # a # ds"
    and "\<not> IsRegisteredNativeContract X (AddressFromWord256 a)"
    and "exec_CALL X V (execute X V) F KIND_STATICCALL m = Some (r, m')"
  shows "same_view X (chain (ac_state m)) (chain (ac_state m')) \<and> EventCache (ac_sink m') = EventCache (ac_sink m)"
  using assms by (rule static_call_quiet)

theorem static_calls_change_nothing_witness:
  "\<exists>r m'. exec_CALL demo_evm demo_machine_vm (execute demo_evm demo_machine_vm) (demo_frame [0xfa]) KIND_STATICCALL
      (demo_machine [50, Address_Word256 demo_contract, 0, 0, 0, 0]) = Some (r, m') \<and>
    acc_view demo_evm (chain (ac_state m')) = acc_view demo_evm (chain (initial_state demo_call))"
proof -
  let ?m = "demo_machine [50, Address_Word256 demo_contract, 0, 0, 0, 0]"
  have "0 < CallStackMaxDepth (vm_params demo_machine_vm)"
    "fr_depth (demo_frame [0xfa]) \<le> CallStackMaxDepth (vm_params demo_machine_vm)"
    by (simp_all add: demo_machine_vm_def evmcc_vm_def demo_params_def demo_frame_def)
  then have "exec_with True (uses demo_evm) demo_machine_vm (demo_frame [0xfa]) (execute demo_evm demo_machine_vm)"
    by (intro execute_returns)
  from total.keeps_CALL [OF this, of KIND_STATICCALL]
  obtain r m' where run: "exec_CALL demo_evm demo_machine_vm (execute demo_evm demo_machine_vm) (demo_frame [0xfa])
      KIND_STATICCALL ?m = Some (r, m')"
    by (auto simp: keeps_with_def split: option.splits dest: spec [of _ ?m])
  have "\<not> IsRegisteredNativeContract demo_evm (AddressFromWord256 (Address_Word256 demo_contract))"
    by (simp add: IsRegisteredNativeContract_def registeredNativeContracts_def demo_contract_not_native)
  from static_calls_change_nothing [OF _ this run] run show ?thesis
    by (auto simp: same_view_def)
qed

text \<open>C21. A call of a contract that returns an error, through any of the four instructions, leaves every
  account and every word of its caller as it was and gives back no more gas than it was lent; its logs
  though stay among the events of the transaction.\<close>

theorem failed_calls_leave_only_logs:
  assumes "nested X opts gas (run_contract X V (execute X V) k (call_frame F k a code args v)) fin m =
      Some (Ok (out, Some e, left), m')"
  shows "same_view X (chain (ac_state m)) (chain (ac_state m')) \<and> left \<le> gas \<and>
    (\<exists>logs. EventCache (ac_sink m') = EventCache (ac_sink m) @ map event_of_log logs)"
  using failed_contract [OF assms] by blast

theorem failed_calls_leave_only_logs_witness:
  "\<exists>m'. nested demo_evm [] 50 (run_contract demo_evm demo_machine_vm (execute demo_evm demo_machine_vm) KIND_DELEGATECALL
      (call_frame (demo_frame []) KIND_DELEGATECALL demo_contract demo_failing [] 0)) (\<lambda>_ st. st) (demo_machine []) =
    Some (Ok (None, Some (code_error ErrorCodeExecutionAborted), 45), m') \<and>
    acc_view demo_evm (chain (ac_state m')) = acc_view demo_evm (chain (initial_state demo_call)) \<and>
    length (EventCache (ac_sink m')) = 1"
proof -
  obtain m' where run: "nested demo_evm [] 50 (run_contract demo_evm demo_machine_vm (execute demo_evm demo_machine_vm)
      KIND_DELEGATECALL (call_frame (demo_frame []) KIND_DELEGATECALL demo_contract demo_failing [] 0)) (\<lambda>_ st. st)
      (demo_machine []) = Some (Ok (None, Some (code_error ErrorCodeExecutionAborted), 45), m')"
    and log: "EventCache (ac_sink m') = [event_of_log \<lparr>log_Address = demo_contract, log_Data = [], log_Topics = []\<rparr>]"
    using demo_failing_call by blast
  from failed_calls_leave_only_logs [OF run] run log show ?thesis
    by (auto simp: same_view_def)
qed

text \<open>Deploying a contract of 1 to 255 bytes behind the usual wrapper, through the chaincode and its
  machine: when the invocation succeeds, \<^verbatim>\<open>getCode\<close> of the answer is exactly the contract's
  code.\<close>

theorem wrapped_code_is_served:
  assumes "codec_ok X" and "fresh_stub s" and "ledger_ok X (ledger s)"
    and "invocation s (hex_EncodeToString (Address_Bytes ZeroAddress)) (hex_EncodeToString (deploy_wrapper rt))"
    and "getCallerAddress X s = (caller, None)" and "0 < length rt" and "length rt < 256"
    and "evmcc_Invoke X (NewVM_Call X) s = (Ok (shim_Success r), s')"
  shows "evmcc_getCode X (next_transaction s') r = shim_Success (bytes_of (hex_EncodeToString rt))"
  using assms by (rule wrapper_is_served)

theorem wrapped_code_is_served_witness:
  "\<exists>r s'. evmcc_Invoke demo_evm (NewVM_Call demo_evm) demo_wrapped = (Ok (shim_Success r), s') \<and>
     evmcc_getCode demo_evm (next_transaction s') r = shim_Success (bytes_of (hex_EncodeToString [0x5b, 0x00]))"
proof -
  obtain s' where run: "evmcc_Invoke demo_evm (NewVM_Call demo_evm) demo_wrapped =
      (Ok (shim_Success (bytes_of (hex_EncodeToString (Address_Bytes demo_contract)))), s')"
    using demo_wrapped_run by blast
  have "fresh_stub demo_wrapped" "ledger_ok demo_evm (ledger demo_wrapped)"
    by (simp_all add: demo_wrapped_def fresh_stub_def ledger_ok_def ledger_account_def)
  moreover have "invocation demo_wrapped (hex_EncodeToString (Address_Bytes ZeroAddress))
      (hex_EncodeToString (deploy_wrapper [0x5b, 0x00]))"
    by (simp add: invocation_def demo_wrapped_def)
  ultimately have "evmcc_getCode demo_evm (next_transaction s')
      (bytes_of (hex_EncodeToString (Address_Bytes demo_contract))) = shim_Success (bytes_of (hex_EncodeToString [0x5b, 0x00]))"
    using wrapped_code_is_served [OF demo_evm_codec_ok _ _ _ demo_wrapped_caller _ _ run] by simp
  with run show ?thesis
    by blast
qed



text \<open>C14. On every ledger that successful transactions of the chaincode lead to, no account has a permission
  beyond those to call, to send and to create contracts, and no account has a role: whatever contracts run,
  nobody gains a permission.\<close>

theorem permissions_never_widen:
  assumes "evmcc_ledger X L" and "codec_ok X" and "ledger_account X L a = Inr (Some acc)"
  shows "Perms (Base (acc_Permissions acc)) AND NOT (perm_Call OR perm_Send OR perm_CreateContract) = 0 \<and>
    Roles (acc_Permissions acc) = []"
  using evmcc_ledger_ordinary [OF assms] by (simp add: ordinary_def ContractPermFlags_def)

theorem permissions_never_widen_witness:
  "\<exists>L acc. evmcc_ledger demo_evm L \<and> ledger_account demo_evm L demo_contract = Inr (Some acc) \<and>
     Roles (acc_Permissions acc) = []"
proof -
  obtain s' acc where "evmcc_ledger demo_evm (commit s')" and "ledger_account demo_evm (commit s') demo_contract = Inr (Some acc)"
    using demo_wrapped_ledger by blast
  from permissions_never_widen [OF this(1) demo_evm_codec_ok this(2)] this show ?thesis
    by blast
qed

text \<open>C15. On every such ledger each account stands under its own address, and one with code at an address
  that is derived from its creator: by a deployment or \<^verbatim>\<open>CREATE\<close> from the sender's address and
  the transaction, by \<^verbatim>\<open>CREATE2\<close> from the creator, a salt and code.\<close>

theorem code_stands_where_derived:
  assumes "evmcc_ledger X L" and "codec_ok X" and "ledger_account X L a = Inr (Some acc)"
  shows "acc_Address acc = a \<and> (code_bytes (acc_Code acc) = [] \<or>
    (\<exists>creator nonce. a = NewContractAddress (sha256_Sum X) creator nonce) \<or>
    (\<exists>creator salt code. a = NewContractAddress2 (keccak256 X) creator salt code))"
  using evmcc_ledger_placed [OF assms] by (auto simp: placed_def derived_address_def)

theorem code_stands_where_derived_witness:
  "\<exists>L acc. evmcc_ledger demo_evm L \<and> ledger_account demo_evm L demo_contract = Inr (Some acc) \<and>
     acc_Address acc = demo_contract"
proof -
  obtain s' acc where "evmcc_ledger demo_evm (commit s')" and "ledger_account demo_evm (commit s') demo_contract = Inr (Some acc)"
    using demo_wrapped_ledger by blast
  from code_stands_where_derived [OF this(1) demo_evm_codec_ok this(2)] this show ?thesis
    by blast
qed

text \<open>C16. In every state the machine comes to in a transaction on such a ledger, in whatever frame, nested or
  not, a call of the secure native contract, by anyone and with any arguments, fails, costs nothing and changes
  no account and no word. When the arguments name one of its functions the error is that the caller lacks the
  function's permission.\<close>

theorem secure_natives_refuse:
  assumes "evmcc_ledger X (ledger s)" and "codec_ok X" and "write_set s = Map.empty"
    and "transaction_state X s st" and "Dispatch X st caller args gas = (r, st', gas')"
  shows "(\<exists>e. r = Err e) \<and> gas' = gas \<and> same_view X (chain st) (chain st') \<and>
    (\<forall>f. 4 \<le> length args \<and> FunctionByID X (take 4 args) = Inr f \<longrightarrow> r = Err (LacksSNativePermission caller (sn_Name f)))"
  using Dispatch_refuses [OF ordinary.transaction_state_accounts [OF assms(4,1-3)] assms(5)] by blast

theorem secure_natives_refuse_witness:
  "\<exists>st' gas'. Dispatch demo_evm (es_NewCache (deploy_state demo_evm demo_wrapped demo_contract) []) demo_contract
     (setBase_selector demo_evm) 100 = (Err (LacksSNativePermission demo_contract ''setBase''), st', gas')"
proof -
  let ?st = "es_NewCache (deploy_state demo_evm demo_wrapped demo_contract) []"
  obtain r st' gas' where run: "Dispatch demo_evm ?st demo_contract (setBase_selector demo_evm) 100 = (r, st', gas')"
    by (cases "Dispatch demo_evm ?st demo_contract (setBase_selector demo_evm) 100")
  have "FunctionByID demo_evm (take 4 (setBase_selector demo_evm)) = Inr setBase_function \<and> 4 \<le> length (setBase_selector demo_evm)"
    using FunctionByID_found [OF demo_natives_registered setBase_known] by (simp add: setBase_FunctionID)
  moreover have "evmcc_ledger demo_evm (ledger demo_wrapped)" and "write_set demo_wrapped = Map.empty"
    using evmcc_ledger.genesis by (simp_all add: demo_wrapped_def)
  moreover have "transaction_state demo_evm demo_wrapped ?st"
    by (intro transaction_state.inner transaction_state.deployment)
  ultimately show ?thesis
    using secure_natives_refuse [OF _ demo_evm_codec_ok _ _ run] run by (auto simp: setBase_function_def)
qed

text \<open>C19. Where the caller may set permissions, a call of \<^verbatim>\<open>setBase\<close> with its arguments in the
  standard encoding that succeeds returns the flags in that encoding, costs nothing and does exactly this to
  the accounts and words: it sets those flags of that account's own permissions to the value, so that
  \<^verbatim>\<open>Get\<close> answers the value for them. The account's other flags, its roles, balance, code and
  address, every other account and every word stay as they were.\<close>

theorem setBase_takes_effect:
  assumes "coherent X (chain st)" and "natives_registered X" and "p \<noteq> 0"
    and "Dispatch X st caller (setBase_selector X @ abi_encode [VAddress a, VUint p, VBool v]) gas = (Ok out, st', gas')"
  shows "fst (HasPermission X st caller perm_SetBase) \<and> out = Some (abi_encode [VUint p]) \<and> gas' = gas \<and>
    sto_view X (chain st') = sto_view X (chain st) \<and>
    (\<exists>acc bp. acc_view X (chain st) a = Inr (Some acc) \<and>
      acc_view X (chain st') = put_account (acc_view X (chain st)) a
        (Some (acc\<lparr>acc_Permissions := (acc_Permissions acc)\<lparr>Base := bp\<rparr>\<rparr>)) \<and>
      Perms bp = (if v then Perms (Base (acc_Permissions acc)) OR p else Perms (Base (acc_Permissions acc)) AND NOT p) \<and>
      SetBit bp = SetBit (Base (acc_Permissions acc)) OR p \<and> perm_Get bp p = Inr v)"
proof -
  obtain acc where acc: "acc_view X (chain st) a = Inr (Some acc)"
    and put: "acc_view X (chain st') =
      put_account (acc_view X (chain st)) a (Some (map_base (\<lambda>bp. snd (perm_Set bp p v)) acc))"
    using setBase_effect(5) [OF assms] by blast
  let ?bp = "snd (perm_Set (Base (acc_Permissions acc)) p v)"
  have "map_base (\<lambda>bp. snd (perm_Set bp p v)) acc = acc\<lparr>acc_Permissions := (acc_Permissions acc)\<lparr>Base := ?bp\<rparr>\<rparr>"
    by (simp add: map_base_def map_permissions_def)
  moreover have "Perms ?bp = (if v then Perms (Base (acc_Permissions acc)) OR p else Perms (Base (acc_Permissions acc)) AND NOT p)"
    "SetBit ?bp = SetBit (Base (acc_Permissions acc)) OR p" "perm_Get ?bp p = Inr v"
    using assms(3) perm_Get_Set [OF assms(3)] by (simp_all add: perm_Set_def)
  ultimately show ?thesis
    using setBase_effect(1,3,4,6) [OF assms] acc put by metis
qed

theorem setBase_takes_effect_witness:
  "\<exists>st' acc'. Dispatch demo_evm demo_moderated demo_contract
     (setBase_selector demo_evm @ abi_encode [VAddress demo_contract, VUint perm_HasRole, VBool True]) 100 =
       (Ok (Some (abi_encode [VUint perm_HasRole])), st', 100) \<and>
     acc_view demo_evm (chain st') demo_contract = Inr (Some acc') \<and>
     perm_Get (Base (acc_Permissions acc')) perm_HasRole = Inr True"
proof -
  obtain st' where run: "Dispatch demo_evm demo_moderated demo_contract
     (setBase_selector demo_evm @ abi_encode [VAddress demo_contract, VUint perm_HasRole, VBool True]) 100 =
       (Ok (Some (abi_encode [VUint perm_HasRole])), st', 100)"
    using demo_setBase_run by blast
  have "perm_HasRole \<noteq> 0"
    by (simp add: perm_HasRole_def)
  from setBase_takes_effect [OF demo_moderated_coherent demo_natives_registered this run] run show ?thesis
    by (auto simp: put_account_apply)
qed

text \<open>C17. A deployment to a free address whose constructor, whatever its code is and whatever it did before,
  comes without an error to a \<^verbatim>\<open>REVERT\<close> over a reason in the standard encoding is answered with
  an error that quotes the reason, and nothing is written.\<close>

theorem reverts_report_their_reason:
  assumes "\<And>bs. length (keccak256 X bs) = 32"
    and "invocation s (hex_EncodeToString (Address_Bytes ZeroAddress)) (hex_EncodeToString input)"
    and "getCallerAddress X s = (caller, None)" and nonce: "nonce = Nonce (sha256_Sum X) caller (bytes_of (stub_txid s))"
    and a: "a = NewContractAddress (sha256_Sum X) caller nonce"
    and "fresh_stub s" and "ledger_account X (ledger s) a = Inr None"
    and comes: "comes_to_revert X (evmcc_vm newParams caller nonce) (constructor_frame caller a input)
      (constructor_activation (deploy_state X s a)) (revert_payload X (abi_encode [VString reason]))"
  shows "evmcc_Invoke X (NewVM_Call X) s = (Ok (shim_Error (Fmt ''failed to deploy code: %s''
    [AErr (Coded ErrorCodeExecutionReverted (''with reason '%s'' @ [CHR 0x27]) [AStr reason])])), s)"
proof -
  have "length (abi_encode [VString reason]) < 2 ^ 62"
    using comes_to_revert_length [OF comes] by (simp add: revert_payload_def)
  with reason_decoded [OF assms(1)] revert_answers(1) [OF assms(2,3) a [unfolded nonce] assms(6,7) comes [unfolded nonce]]
  show ?thesis
    by (simp add: reverted_with_def has_text_def)
qed

theorem reverts_report_their_reason_witness:
  "evmcc_Invoke demo_evm (NewVM_Call demo_evm) (demo_reverting (revert_payload demo_evm (abi_encode [VString ''no'']))) =
     (Ok (shim_Error (Fmt ''failed to deploy code: %s''
       [AErr (Coded ErrorCodeExecutionReverted (''with reason '%s'' @ [CHR 0x27]) [AStr ''no''])])),
      demo_reverting (revert_payload demo_evm (abi_encode [VString ''no''])))"
proof -
  have "length (revert_payload demo_evm (abi_encode [VString ''no''])) < 256"
    and "0 < length (revert_payload demo_evm (abi_encode [VString ''no'']))"
    by (simp_all add: length_revert_payload abi_encode_def zero_filled_def)
  from reverts_report_their_reason [OF demo_keccak_length demo_reverting_ok(3,4) refl refl demo_reverting_ok(1,2)
      wrapper_comes_to_revert [OF deploy_state_free [OF demo_reverting_ok(1,2)] this(2,1)]]
  show ?thesis .
qed

text \<open>C18. A constructor can end the process: a deployment to a free address whose constructor, whatever its
  code is, comes without an error to a \<^verbatim>\<open>REVERT\<close> over a string whose length is a 64-bit integer that
  is negative or exceeds the bytes behind it makes the invocation panic.\<close>

theorem long_reason_ends_the_process:
  assumes "\<And>bs. length (keccak256 X bs) = 32"
    and "invocation s (hex_EncodeToString (Address_Bytes ZeroAddress)) (hex_EncodeToString input)"
    and "getCallerAddress X s = (caller, None)" and nonce: "nonce = Nonce (sha256_Sum X) caller (bytes_of (stub_txid s))"
    and a: "a = NewContractAddress (sha256_Sum X) caller nonce"
    and "fresh_stub s" and "ledger_account X (ledger s) a = Inr None"
    and comes: "comes_to_revert X (evmcc_vm newParams caller nonce) (constructor_frame caller a input)
      (constructor_activation (deploy_state X s a)) (revert_payload X (abi_word 32 @ abi_word n @ bs))"
    and "n < 0 \<or> int (length bs) < n" and "- (2 ^ 63) \<le> n" and "n < 2 ^ 63"
  shows "fst (evmcc_Invoke X (NewVM_Call X) s) = Panic ''slice bounds out of range''"
proof -
  have "length bs < 2 ^ 62"
    using comes_to_revert_length [OF comes] by (simp add: revert_payload_def)
  with long_reason_panics [OF assms(1,9-11)]
    revert_answers(2) [OF assms(2,3) a [unfolded nonce] assms(6,7) comes [unfolded nonce]]
  show ?thesis
    by simp
qed

theorem long_reason_ends_the_process_witness:
  "fst (evmcc_Invoke demo_evm (NewVM_Call demo_evm)
     (demo_reverting (revert_payload demo_evm (abi_word 32 @ abi_word 1 @ [])))) = Panic ''slice bounds out of range''"
proof -
  have "length (revert_payload demo_evm (abi_word 32 @ abi_word 1 @ [])) < 256"
    and "0 < length (revert_payload demo_evm (abi_word 32 @ abi_word 1 @ []))"
    by (simp_all add: length_revert_payload)
  from long_reason_ends_the_process [OF demo_keccak_length demo_reverting_ok(3,4) refl refl demo_reverting_ok(1,2)
      wrapper_comes_to_revert [OF deploy_state_free [OF demo_reverting_ok(1,2)] this(2,1)]]
  show ?thesis
    by simp
qed

end
