(* ===== verification/Contract_Execution.thy ===== *)
theory Contract_Execution
  imports Evm_Deployment Evm_Alu
begin

unbundle bit_operations_syntax

section \<open>Running compiled contracts\<close>

text \<open>
  The interpreter as a rewrite system: for each instruction compiled contracts use, one equation from the run
  of a machine to the run of the machine after the instruction, with gas for it and room on the stack. A
  contract is disassembled once (\<open>disassemble\<close>); then the simplifier runs it, on arguments and states that
  are variables. The machine is the chaincode's, whose stack has no maximum.
\<close>

subsection \<open>Listings\<close>

text \<open>The instruction at a position with its immediate argument, which must be inside the code.\<close>

definition push_size :: "opcode \<Rightarrow> nat" where
  "push_size op = (case op of OP_PUSH n \<Rightarrow> n | _ \<Rightarrow> 0)"

definition fetch :: "bytes \<Rightarrow> int \<Rightarrow> (opcode \<times> word256) option" where
  "fetch code p =
     (if p < 0 \<or> int (length code) \<le> p then None
      else (let op = decode_op (code ! nat p)
            in if length code < nat p + 1 + push_size op then None
               else Some (op, word_of_nat (be_nat (take (push_size op) (drop (nat p + 1) code))))))"

function disassemble :: "int \<Rightarrow> bytes \<Rightarrow> (int \<times> opcode \<times> word256) list" where
  "disassemble p [] = []"
| "disassemble p (b # bs) =
     (let op = decode_op b; n = push_size op
      in if length bs < n then []
         else (p, op, word_of_nat (be_nat (take n bs))) # disassemble (p + 1 + int n) (drop n bs))"
  by pat_completeness auto
termination by (relation "measure (\<lambda>(p, bs). length bs)") auto

lemma fetch_disassembled:
  "list_all (\<lambda>(q, i). fetch (pre @ bs @ rest) q = Some i) (disassemble (int (length pre)) bs)"
proof (induction "int (length pre)" bs arbitrary: pre rule: disassemble.induct)
  case (2 b bs)
  let ?n = "push_size (decode_op b)"
  have "list_all (\<lambda>(q, i). fetch (pre @ (b # bs) @ rest) q = Some i)
      (disassemble (int (length pre) + 1 + int ?n) (drop ?n bs))" if "\<not> length bs < ?n"
    using 2 [OF refl refl that, of "pre @ b # take ?n bs"] that
    by (simp add: min_absorb2 ac_simps flip: append_assoc [of "take ?n bs"])
  then show ?case
    by (simp add: fetch_def Let_def)
qed simp

subsection \<open>Configurations\<close>

text \<open>A machine by what the instructions change; \<open>c\<close> holds its counter, its value and its return data.\<close>

definition config ::
    "64 word \<times> 64 word \<times> bytes option \<Rightarrow> evm_state \<Rightarrow> event_manager \<Rightarrow> memory \<Rightarrow> nat \<Rightarrow> 64 word \<Rightarrow> int \<Rightarrow>
     word256 list \<Rightarrow> machine" where
  "config c st k mem n g p s =
     \<lparr>ac_state = st, ac_sink = k, ac_gas = g, ac_sequence = fst c, mc_pc = p, mc_stack = s, mc_slots = n,
      mc_memory = mem, mc_value = fst (snd c), mc_returnData = snd (snd c)\<rparr>"

lemma config_simps [simp]:
  "ac_state (config c st k mem n g p s) = st" "ac_sink (config c st k mem n g p s) = k"
  "ac_gas (config c st k mem n g p s) = g" "mc_pc (config c st k mem n g p s) = p"
  "mc_stack (config c st k mem n g p s) = s" "mc_slots (config c st k mem n g p s) = n"
  "mc_memory (config c st k mem n g p s) = mem" "mc_value (config c st k mem n g p s) = fst (snd c)"
  "mc_returnData (config c st k mem n g p s) = snd (snd c)"
  "(config c st k mem n g p s)\<lparr>ac_state := st'\<rparr> = config c st' k mem n g p s"
  "(config c st k mem n g p s)\<lparr>ac_sink := k'\<rparr> = config c st k' mem n g p s"
  "(config c st k mem n g p s)\<lparr>ac_gas := g'\<rparr> = config c st k mem n g' p s"
  "(config c st k mem n g p s)\<lparr>mc_pc := p'\<rparr> = config c st k mem n g p' s"
  "(config c st k mem n g p s)\<lparr>mc_stack := s'\<rparr> = config c st k mem n g p s'"
  "(config c st k mem n g p s)\<lparr>mc_slots := n'\<rparr> = config c st k mem n' g p s"
  "(config c st k mem n g p s)\<lparr>mc_memory := mem'\<rparr> = config c st k mem' n g p s"
  by (simp_all add: config_def)

lemma new_machine_config:
  "new_machine V F act = config (ac_sequence act, fr_value F, None) (ac_state act) (ac_sink act) DefaultDynamicMemory
     (unat (DataStackInitialCapacity (vm_params V))) (ac_gas act) 0 []"
  by (simp add: new_machine_def config_def)

text \<open>The run of a machine whose next instruction is known.\<close>

definition run_instr ::
    "('pk, 'z) evm_externals_scheme \<Rightarrow> vm \<Rightarrow> frame \<Rightarrow> opcode \<times> word256 \<Rightarrow> machine \<Rightarrow> (bytes option res \<times> activation) option" where
  "run_instr X V F i m = run X V F m"

lemma run_fetch:
  "fetch (fr_code F) p = Some i \<Longrightarrow> run X V F (config c st k mem n g p s) = run_instr X V F i (config c st k mem n g p s)"
  by (simp add: run_instr_def)

lemma codeGetOp_fetch: "fetch code p = Some (op, w) \<Longrightarrow> codeGetOp code p = Ok op"
  by (auto simp: fetch_def codeGetOp_def Let_def split: if_splits)

text \<open>Room on the stack and no error yet.\<close>

definition going :: "evm_state \<Rightarrow> vm \<Rightarrow> nat \<Rightarrow> word256 list \<Rightarrow> bool" where
  "going st V n s \<longleftrightarrow> st_error st = None \<and> DataStackMaxDepth (vm_params V) = 0 \<and> length s \<le> n \<and> n < MaxInt32"

lemma run_instr_next:
  assumes "st_error st = None" and "fetch (fr_code F) p = Some (op, w)"
    and "\<And>exec. exec_op X V exec F op (config c st k mem n g p s) = Some (Ok Next, config c' st' k' mem' n' g' p' s')"
  shows "run_instr X V F (op, w) (config c st k mem n g p s) = run X V F (config c' st' k' mem' n' g' (p' + 1) s')"
  unfolding run_instr_def using run_next [OF _ _ assms(3)] assms(1) codeGetOp_fetch [OF assms(2)] by simp

lemma run_continue:
  assumes "st_error (ac_state m) = None" and "codeGetOp (fr_code F) (mc_pc m) = Ok op"
    and "\<And>exec. exec_op X V exec F op m = Some (Ok Continue, m')"
  shows "run X V F m = run X V F m'"
  by (subst run.simps) (simp add: assms step_exec)

lemma run_instr_jump:
  assumes "st_error st = None" and "fetch (fr_code F) p = Some (op, w)"
    and "\<And>exec. exec_op X V exec F op (config c st k mem n g p s) = Some (Ok Continue, m')"
  shows "run_instr X V F (op, w) (config c st k mem n g p s) = run X V F m'"
  unfolding run_instr_def using run_continue [OF _ _ assms(3)] assms(1) codeGetOp_fetch [OF assms(2)] by simp

lemma run_instr_return:
  assumes "st_error st = None" and "fetch (fr_code F) p = Some (op, w)"
    and "\<And>exec. exec_op X V exec F op (config c st k mem n g p s) = Some (Ok (Return out), m')"
  shows "run_instr X V F (op, w) (config c st k mem n g p s) = Some (Ok out, activation.truncate m')"
  unfolding run_instr_def using run_return [OF _ _ assms(3)] assms(1) codeGetOp_fetch [OF assms(2)] by simp

subsection \<open>The stack\<close>

lemma gas_left:
  "3 < g \<Longrightarrow> 1 < (g :: 64 word) \<and> 1 < g - 1 \<and> 1 < g - 1 - 1"
  "2 < g \<Longrightarrow> 1 < (g :: 64 word) \<and> 1 < g - 1"
  by (auto simp: word_less_nat_alt unat_sub word_le_nat_alt)

lemma config_Pop:
  "1 < g \<Longrightarrow> Pop (config c st k mem n g p (d # s)) = Some (Ok d, config c st k mem n (g - 1) p s)"
  by (simp add: Pop_more)

lemma config_Push:
  assumes "1 < g" and "going st V n s"
  shows "Push V d (config c st k mem n g p s) = Some (Ok (), config c st k mem (max n (length s + 1)) (g - 1) p (d # s))"
  using assms by (subst Push_more) (simp_all add: going_def)

lemma config_push_one:
  assumes "1 < g" and "going st V n s" and "fetch (fr_code F) p = Some (op, w)"
    and "\<And>exec. exec_op X V exec F op (config c st k mem n g p s) = and_next (Push V d) (config c st k mem n g p s)"
  shows "run_instr X V F (op, w) (config c st k mem n g p s) =
    run X V F (config c st k mem (max n (length s + 1)) (g - 1) (p + 1) (d # s))"
  by (rule run_instr_next)
    (use assms config_Push [OF assms(1,2)] in \<open>simp_all add: going_def and_next_def seq_op_def bind_op_def ret_def\<close>)

subsection \<open>Instructions on the stack\<close>

lemma goingD:
  assumes "going st V n s"
  shows "st_error st = None" and "DataStackMaxDepth (vm_params V) = 0" and "length s \<le> n" and "n < MaxInt32"
  using assms by (simp_all add: going_def)

lemma LeftPad_short: "length bz \<le> 32 \<Longrightarrow> LeftPadWord256 bz = Ok (word_of_nat (be_nat bz))"
  by (simp add: LeftPadWord256_def be_nat_pad)

lemma run_PUSH:
  assumes "fetch (fr_code F) p = Some (OP_PUSH a, w)" and "going st V n s" and "1 < g"
    and "a \<le> 32" and "length (fr_code F) < 2 ^ 62"
  shows "run_instr X V F (OP_PUSH a, w) (config c st k mem n g p s) =
    run X V F (config c st k mem (max n (length s + 1)) (g - 1) (p + 1 + int a) (w # s))"
proof -
  have p: "0 \<le> p" and inside: "nat p + 1 + a \<le> length (fr_code F)"
    and w: "w = word_of_nat (be_nat (take a (drop (nat p + 1) (fr_code F))))"
    using assms(1) by (auto simp: fetch_def Let_def push_size_def split: if_splits)
  have "subslice (fr_code F) (p + 1) (int a) = Ok (Some (take a (drop (nat p + 1) (fr_code F))))"
    using subslice_in [of "p + 1" "int a" "fr_code F"] p inside assms(5) by (simp add: nat_add_distrib)
  then have "exec_op X V exec F (OP_PUSH a) (config c st k mem n g p s) =
      Some (Ok Next, config c st k mem (max n (length s + 1)) (g - 1) (p + int a) (w # s))" for exec
    using config_Push [OF assms(3,2)] assms(4) inside w
    by (simp add: exec_PUSH_def bind_op_def get_op_def Subslice_def ret_def lift_res_def LeftPad_short seq_op_def
        and_next_def upd_op_def)
  from run_instr_next [OF goingD(1) [OF assms(2)] assms(1) this] show ?thesis
    by (simp add: add_ac)
qed

lemma run_POP:
  assumes "fetch (fr_code F) p = Some (OP_EXEC X_POP, w)" and "going st V n (d # s)" and "1 < g"
  shows "run_instr X V F (OP_EXEC X_POP, w) (config c st k mem n g p (d # s)) =
    run X V F (config c st k mem n (g - 1) (p + 1) s)"
  by (rule run_instr_next [OF goingD(1) [OF assms(2)] assms(1)])
    (simp add: bind_op_def config_Pop [OF assms(3)] ret_def)

lemma run_JUMPDEST:
  assumes "fetch (fr_code F) p = Some (OP_EXEC X_JUMPDEST, w)" and "st_error st = None"
  shows "run_instr X V F (OP_EXEC X_JUMPDEST, w) (config c st k mem n g p s) =
    run X V F (config c st k mem n g (p + 1) s)"
  by (rule run_instr_next [OF assms(2,1)]) (simp add: ret_def)

lemma run_DUP:
  assumes "fetch (fr_code F) p = Some (OP_DUP a, w)" and "going st V n s" and "2 < g" and "a \<le> length s"
  shows "run_instr X V F (OP_DUP a, w) (config c st k mem n g p s) =
    run X V F (config c st k mem (max n (length s + 1)) (g - 2) (p + 1) (s ! (a - 1) # s))"
proof (rule run_instr_next [OF goingD(1) [OF assms(2)] assms(1)])
  show "exec_op X V exec F (OP_DUP a) (config c st k mem n g p s) =
      Some (Ok Next, config c st k mem (max n (length s + 1)) (g - 2) p (s ! (a - 1) # s))" for exec
    using assms(4) goingD [OF assms(2)] gas_left(2) [OF assms(3)]
    by (simp add: and_next_def seq_op_def bind_op_def upd_op_def ret_def stack_Dup_def Let_def stack_useGas_more
        stack_Push_def stack_ensureCapacity_def max_def)
qed

lemma run_SWAP:
  assumes "fetch (fr_code F) p = Some (OP_SWAP a, w)" and "going st V n s" and "1 < g" and "a \<le> length s"
  shows "run_instr X V F (OP_SWAP a, w) (config c st k mem n g p s) =
    run X V F (config c st k mem n (g - 1) (p + 1) (s[a - 1 := s ! 0, 0 := s ! (a - 1)]))"
  by (rule run_instr_next [OF goingD(1) [OF assms(2)] assms(1)])
    (use assms(3,4) in \<open>simp add: and_next_def seq_op_def bind_op_def upd_op_def ret_def stack_Swap_def Let_def
      stack_useGas_more\<close>)

lemma run_ALU:
  assumes "fetch (fr_code F) p = Some (OP_ALU a, w)" and "going st V n s"
    and "word_of_nat (alu_arity a + 1) < g" and "alu_arity a \<le> length s" and "alu_agrees a (s ! 0) (s ! 1)"
  shows "run_instr X V F (OP_ALU a, w) (config c st k mem n g p s) =
    run X V F (config c st k mem n (g - word_of_nat (alu_cost a (s ! 0))) (p + 1)
      (alu_reference a (s ! 0) (s ! 1) (s ! 2) # drop (alu_arity a) s))"
proof (rule run_instr_next [OF goingD(1) [OF assms(2)] assms(1)])
  have "alu_arity a + 1 < 2 ^ 64"
    by (cases a) simp_all
  then have "ready (alu_arity a + 1) (config c st k mem n g p s)"
    using assms(3) goingD [OF assms(2)]
    by (simp add: ready_def word_less_nat_alt unat_of_nat take_bit_nat_eq_self del: of_nat_Suc of_nat_add)
  from exec_alu_reference [OF this, where V = V] assms(4,5)
  show "exec_op X V exec F (OP_ALU a) (config c st k mem n g p s) = Some (Ok Next,
      config c st k mem n (g - word_of_nat (alu_cost a (s ! 0))) p (alu_reference a (s ! 0) (s ! 1) (s ! 2) # drop (alu_arity a) s))"
    for exec
    by (simp add: and_next_def seq_op_def bind_op_def ret_def alu_done_def)
qed

lemma jump_fetch:
  "fetch code to = Some (OP_EXEC X_JUMPDEST, 0) \<Longrightarrow> jump code to (config c st k mem n g p s) = Some (Ok (), config c st k mem n g to s)"
  by (simp add: jump_def codeGetOp_fetch upd_op_def)

text \<open>Words that are positions in code or memory.\<close>

lemma Pop_small:
  assumes "uint d < 2 ^ 63" and "1 < g"
  shows "Pop64 (config c st k mem n g p (d # s)) = Some (Ok (uint d), config c st k mem n (g - 1) p s)"
  using assms by (simp add: Pop64_def bind_op_def config_Pop ret_def Is64BitOverflow_iff Int64FromWord256_small)

lemma run_JUMP:
  assumes "fetch (fr_code F) p = Some (OP_EXEC X_JUMP, w)" and "going st V n (d # s)" and "1 < g" and "uint d < 2 ^ 63"
    and "fetch (fr_code F) (uint d) = Some (OP_EXEC X_JUMPDEST, 0)"
  shows "run_instr X V F (OP_EXEC X_JUMP, w) (config c st k mem n g p (d # s)) =
    run X V F (config c st k mem n (g - 1) (uint d) s)"
  by (rule run_instr_jump [OF goingD(1) [OF assms(2)] assms(1)])
    (simp add: bind_op_def seq_op_def Pop_small [OF assms(4,3)] jump_fetch [OF assms(5)] ret_def)

lemma run_JUMPI:
  assumes "fetch (fr_code F) p = Some (OP_EXEC X_JUMPI, w)" and "going st V n (d # b # s)" and "2 < g"
    and "uint d < 2 ^ 63" and "b \<noteq> 0 \<Longrightarrow> fetch (fr_code F) (uint d) = Some (OP_EXEC X_JUMPDEST, 0)"
  shows "run_instr X V F (OP_EXEC X_JUMPI, w) (config c st k mem n g p (d # b # s)) =
    run X V F (config c st k mem n (g - 2) (if b \<noteq> 0 then uint d else p + 1) s)"
proof (cases "b = 0")
  case True
  then show ?thesis
    using gas_left(2) [OF assms(3)]
    by (simp add: run_instr_next [OF goingD(1) [OF assms(2)] assms(1)] bind_op_def bind2_def Pop_small [OF assms(4)]
        config_Pop ret_def)
next
  case False
  then show ?thesis
    using gas_left(2) [OF assms(3)]
    by (simp add: run_instr_jump [OF goingD(1) [OF assms(2)] assms(1)] bind_op_def bind2_def seq_op_def
        Pop_small [OF assms(4)] config_Pop jump_fetch [OF assms(5)] ret_def)
qed

subsection \<open>Memory\<close>

definition mem_word :: "memory \<Rightarrow> nat \<Rightarrow> word256" where
  "mem_word mem off = word_of_nat (be_nat (mem_slice mem off 32))"

lemma length_mem_slice [simp]: "length (mem_slice mem off len) = len"
  by (simp add: mem_slice_def)

lemma mem_slice_0 [simp]: "mem_slice mem off 0 = []"
  by (simp add: mem_slice_def)

lemma be_word_Bytes: "word_of_nat (be_nat (Word256_Bytes w)) = w"
  by simp

lemma mem_word_put:
  "mem_word (mem_put m off (Word256_Bytes w)) off = w"
  "off' + 32 \<le> off \<or> off + 32 \<le> off' \<Longrightarrow> mem_word (mem_put m off (Word256_Bytes w)) off' = mem_word m off'"
  using mem_slice_put_same [of m off "Word256_Bytes w"]
  by (simp_all add: mem_word_def mem_slice_put_other)

lemma mem_slice_word: "mem_slice (mem_put m off (Word256_Bytes w)) off 32 = Word256_Bytes w"
  using mem_slice_put_same [of m off "Word256_Bytes w"] by simp

text \<open>Within the memory it starts with.\<close>

lemma memory_within:
  assumes "off + len \<le> mem_len mem" and "mem_len mem \<le> MaxInt32"
  shows "memory_Read (int off) (int len) mem = (Ok (mem_slice mem off len), mem)"
    and "length v = len \<Longrightarrow> memory_Write (int off) v mem = (Ok (), mem_put mem off v)"
proof -
  have small: "off < 2 ^ 64" "len < 2 ^ 64" "off + len < 2 ^ 64" "off + len \<le> MaxInt32"
    using assms by (simp_all add: MaxInt32_def)
  have "int off < int (2 ^ 64)" "int len < int (2 ^ 64)"
    by (simp_all only: of_nat_less_iff small)
  then have "IsUint64 (int off)" "IsUint64 (int len)"
    by (simp_all add: IsUint64_def)
  with small assms show "memory_Read (int off) (int len) mem = (Ok (mem_slice mem off len), mem)"
    and "length v = len \<Longrightarrow> memory_Write (int off) v mem = (Ok (), mem_put mem off v)"
    by (simp_all add: memory_Read_def memory_Write_def mem_read_def mem_write_def mem_ensureCapacity_def)
qed

lemma mem_len_Default: "mem_len DefaultDynamicMemory = 0x100000"
  by (simp add: DefaultDynamicMemory_def defaultInitialMemoryCapacity_def)

lemma run_MSTORE:
  assumes "fetch (fr_code F) p = Some (OP_EXEC X_MSTORE, w)" and "going st V n (off # d # s)" and "2 < g"
    and "unat off + 32 \<le> mem_len mem" and "mem_len mem \<le> MaxInt32"
  shows "run_instr X V F (OP_EXEC X_MSTORE, w) (config c st k mem n g p (off # d # s)) =
    run X V F (config c st k (mem_put mem (unat off) (Word256_Bytes d)) n (g - 2) (p + 1) s)"
proof (rule run_instr_next [OF goingD(1) [OF assms(2)] assms(1)])
  show "exec_op X V exec F (OP_EXEC X_MSTORE) (config c st k mem n g p (off # d # s)) =
      Some (Ok Next, config c st k (mem_put mem (unat off) (Word256_Bytes d)) n (g - 2) p s)" for exec
    using gas_left(2) [OF assms(3)] memory_within(2) [OF assms(4,5), of "Word256_Bytes d"]
    by (simp add: bind2_def bind_op_def PopBigInt_def config_Pop ret_def and_next_def seq_op_def Memory_Write_def)
qed

lemma run_MLOAD:
  assumes "fetch (fr_code F) p = Some (OP_EXEC X_MLOAD, w)" and "going st V n (off # s)" and "2 < g"
    and "unat off + 32 \<le> mem_len mem" and "mem_len mem \<le> MaxInt32"
  shows "run_instr X V F (OP_EXEC X_MLOAD, w) (config c st k mem n g p (off # s)) =
    run X V F (config c st k mem n (g - 2) (p + 1) (mem_word mem (unat off) # s))"
proof (rule run_instr_next [OF goingD(1) [OF assms(2)] assms(1)])
  have room: "going st V n s" "max n (Suc (length s)) = n"
    using assms(2) by (simp_all add: going_def)
  show "exec_op X V exec F (OP_EXEC X_MLOAD) (config c st k mem n g p (off # s)) =
      Some (Ok Next, config c st k mem n (g - 2) p (mem_word mem (unat off) # s))" for exec
    using gas_left(2) [OF assms(3)] memory_within(1) [OF assms(4,5)] room(2)
    by (simp add: bind_op_def PopBigInt_def config_Pop config_Push [OF _ room(1)] ret_def and_next_def seq_op_def
        Memory_Read_def lift_res_def code_bytes_def LeftPad_short mem_word_def)
qed

lemma run_RETURN:
  assumes "fetch (fr_code F) p = Some (OP_RETURN, w)" and "going st V n (off # len # s)" and "2 < g"
    and "unat off + unat len \<le> mem_len mem" and "mem_len mem \<le> MaxInt32"
  shows "run_instr X V F (OP_RETURN, w) (config c st k mem n g p (off # len # s)) =
    Some (Ok (Some (mem_slice mem (unat off) (unat len))), \<lparr>ac_state = st, ac_sink = k, ac_gas = g - 2, ac_sequence = fst c\<rparr>)"
proof -
  have "exec_op X V exec F OP_RETURN (config c st k mem n g p (off # len # s)) =
      Some (Ok (Return (Some (mem_slice mem (unat off) (unat len)))), config c st k mem n (g - 2) p s)" for exec
    using gas_left(2) [OF assms(3)] memory_within(1) [OF assms(4,5)]
    by (simp add: exec_RETURN_def bind2_def bind_op_def PopBigInt_def config_Pop ret_def Memory_Read_def)
  from run_instr_return [OF goingD(1) [OF assms(2)] assms(1) this] show ?thesis
    by (simp add: config_def activation.defs)
qed

lemma run_STOP:
  assumes "fetch (fr_code F) p = Some (OP_STOP, w)" and "st_error st = None"
  shows "run_instr X V F (OP_STOP, w) (config c st k mem n g p s) =
    Some (Ok None, \<lparr>ac_state = st, ac_sink = k, ac_gas = g, ac_sequence = fst c\<rparr>)"
proof -
  have "exec_op X V exec F OP_STOP (config c st k mem n g p s) = Some (Ok (Return None), config c st k mem n g p s)"
    for exec
    by (simp add: ret_def)
  from run_instr_return [OF assms(2,1) this] show ?thesis
    by (simp add: config_def activation.defs)
qed

subsection \<open>The call\<close>

text \<open>The word at an offset of the call data, which is padded with zeros on the right.\<close>

definition input_word :: "bytes \<Rightarrow> nat \<Rightarrow> word256" where
  "input_word input off = word_of_nat (be_nat (take 32 (drop off input @ replicate 32 0)))"

lemma subslice_input:
  assumes "off \<le> length input" and "length input < 2 ^ 62"
  shows "subslice input (int off) 32 = Ok (Some (take 32 (drop off input @ replicate 32 0)))"
proof -
  have "int off \<le> int (length input)" and "int (length input) < int (2 ^ 62)"
    using assms by (simp_all only: of_nat_le_iff of_nat_less_iff)
  then have "int64 (int off + 32) = int off + 32"
    by (intro int64_small) simp_all
  with assms show ?thesis
    by (auto simp: subslice_def Let_def min_def)
qed

lemma run_CALLDATALOAD:
  assumes "fetch (fr_code F) p = Some (OP_ENV ENV_CALLDATALOAD, w)" and "going st V n (off # s)" and "2 < g"
    and "unat off \<le> length (fr_input F)" and "length (fr_input F) < 2 ^ 62"
  shows "run_instr X V F (OP_ENV ENV_CALLDATALOAD, w) (config c st k mem n g p (off # s)) =
    run X V F (config c st k mem n (g - 2) (p + 1) (input_word (fr_input F) (unat off) # s))"
proof (rule run_instr_next [OF goingD(1) [OF assms(2)] assms(1)])
  have room: "going st V n s" "max n (Suc (length s)) = n"
    using assms(2) by (simp_all add: going_def)
  have "int (unat off) < int (2 ^ 62)"
    using assms(4,5) by (simp only: of_nat_less_iff)
  then have off: "uint off < 2 ^ 63"
    by simp
  show "exec_op X V exec F (OP_ENV ENV_CALLDATALOAD) (config c st k mem n g p (off # s)) =
      Some (Ok Next, config c st k mem n (g - 2) p (input_word (fr_input F) (unat off) # s))" for exec
    using gas_left(2) [OF assms(3)] room(2) subslice_input [OF assms(4,5)]
    by (simp add: bind_op_def Pop_small [OF off] config_Push [OF _ room(1)] ret_def and_next_def seq_op_def
        Subslice_def lift_res_def LeftPad_short input_word_def)
qed

lemma run_CALLDATASIZE:
  assumes "fetch (fr_code F) p = Some (OP_ENV ENV_CALLDATASIZE, w)" and "going st V n s" and "1 < g"
    and "length (fr_input F) < 2 ^ 62"
  shows "run_instr X V F (OP_ENV ENV_CALLDATASIZE, w) (config c st k mem n g p s) =
    run X V F (config c st k mem (max n (length s + 1)) (g - 1) (p + 1) (word_of_nat (length (fr_input F)) # s))"
proof (rule config_push_one [OF assms(3,2,1)])
  have "length (fr_input F) mod 2 ^ 64 = length (fr_input F)"
    using assms(4) by (intro mod_less) simp
  then have n: "unat (word_of_nat (length (fr_input F)) :: 64 word) = length (fr_input F)"
    by (simp add: unat_of_nat)
  have "Int64ToWord256 (int (length (fr_input F))) = word_of_nat (unat (word_of_nat (length (fr_input F)) :: 64 word))"
    by (simp only: Int64ToWord256_def of_int_of_nat_eq of_nat_unat)
  then have "Int64ToWord256 (int (length (fr_input F))) = word_of_nat (length (fr_input F))"
    by (simp only: n)
  then show "exec_op X V exec F (OP_ENV ENV_CALLDATASIZE) (config c st k mem n g p s) =
      and_next (Push V (word_of_nat (length (fr_input F)))) (config c st k mem n g p s)" for exec
    by (simp add: Push64_def)
qed

lemma run_CALLVALUE:
  assumes "fetch (fr_code F) p = Some (OP_ENV ENV_CALLVALUE, w)" and "going st V n s" and "1 < g"
  shows "run_instr X V F (OP_ENV ENV_CALLVALUE, w) (config c st k mem n g p s) =
    run X V F (config c st k mem (max n (length s + 1)) (g - 1) (p + 1) (ucast (fst (snd c)) # s))"
  by (rule config_push_one [OF assms(3,2,1)]) (simp add: bind_op_def get_op_def PushU64_def Uint64ToWord256_def)

lemma run_CODECOPY:
  assumes "fetch (fr_code F) p = Some (OP_ENV ENV_CODECOPY, w)" and "going st V n (to # off # len # s)" and "3 < g"
    and "unat off + unat len \<le> length (fr_code F)" and "length (fr_code F) < 2 ^ 62"
    and "unat to + unat len \<le> mem_len mem" and "mem_len mem \<le> MaxInt32"
  shows "run_instr X V F (OP_ENV ENV_CODECOPY, w) (config c st k mem n g p (to # off # len # s)) =
    run X V F (config c st k (mem_put mem (unat to) (take (unat len) (drop (unat off) (fr_code F)))) n (g - 3) (p + 1) s)"
proof (rule run_instr_next [OF goingD(1) [OF assms(2)] assms(1)])
  have "int (unat off + unat len) \<le> int (length (fr_code F))" "int (unat off) \<le> int (length (fr_code F))" "int (unat len) \<le> int (length (fr_code F))"
    "int (length (fr_code F)) < int (2 ^ 62)"
    using assms(4,5) by (simp_all only: of_nat_le_iff of_nat_less_iff)
  then have off: "uint off < 2 ^ 63" and len: "uint len < 2 ^ 63"
    and inside: "uint off + uint len \<le> int (length (fr_code F))"
    by simp_all
  have "subslice (fr_code F) (uint off) (uint len) = Ok (Some (take (unat len) (drop (unat off) (fr_code F))))"
    using subslice_in [OF _ _ inside] assms(5) by simp
  moreover have "memory_Write (uint to) (take (unat len) (drop (unat off) (fr_code F))) mem =
      (Ok (), mem_put mem (unat to) (take (unat len) (drop (unat off) (fr_code F))))"
    using memory_within(2) [OF assms(6,7), of "take (unat len) (drop (unat off) (fr_code F))"] assms(4) by simp
  ultimately show "exec_op X V exec F (OP_ENV ENV_CODECOPY) (config c st k mem n g p (to # off # len # s)) =
      Some (Ok Next, config c st k (mem_put mem (unat to) (take (unat len) (drop (unat off) (fr_code F)))) n (g - 3) p s)"
    for exec
    using gas_left(1) [OF assms(3)]
    by (simp add: copy_to_memory_def bind3_def bind2_def bind_op_def PopBigInt_def config_Pop Pop_small [OF off]
        Pop_small [OF len] ret_def and_next_def seq_op_def Subslice_def Memory_Write_def)
qed

subsection \<open>Storage and logs\<close>

lemma run_SLOAD:
  assumes "fetch (fr_code F) p = Some (OP_EXEC X_SLOAD, w)" and "going st V n (loc # s)" and "2 < g"
    and read: "es_GetStorage X st (fr_callee F) loc = (Ok v, st')"
  shows "run_instr X V F (OP_EXEC X_SLOAD, w) (config c st k mem n g p (loc # s)) =
    run X V F (config c st' k mem n (g - 2) (p + 1) (v # s))"
proof (rule run_instr_next [OF goingD(1) [OF assms(2)] assms(1)])
  have slots: "max n (Suc (length s)) = n"
    using assms(2) by (simp add: going_def)
  have "Push V v (config c st' k mem n (g - 1) p s) = Some (Ok (), config c st' k mem n (g - 2) p (v # s))"
    using goingD [OF assms(2)] gas_left(2) [OF assms(3)] slots by (subst Push_more) simp_all
  then show "exec_op X V exec F (OP_EXEC X_SLOAD) (config c st k mem n g p (loc # s)) =
      Some (Ok Next, config c st' k mem n (g - 2) p (v # s))" for exec
    using gas_left(2) [OF assms(3)] read
    by (simp add: bind_op_def config_Pop ret_def and_next_def seq_op_def state_res_op_def)
qed

lemma run_SSTORE:
  assumes "fetch (fr_code F) p = Some (OP_EXEC X_SSTORE, w)" and "going st V n (loc # d # s)" and "3 < g"
    and written: "es_SetStorage X st (fr_callee F) loc d = (Ok (), st')"
  shows "run_instr X V F (OP_EXEC X_SSTORE, w) (config c st k mem n g p (loc # d # s)) =
    run X V F (config c st' k mem n (g - 3) (p + 1) s)"
proof (rule run_instr_next [OF goingD(1) [OF assms(2)] assms(1)])
  have "(1 :: 64 word) \<le> g - 2"
    using gas_left(1) [OF assms(3)] by (auto simp: word_less_nat_alt word_le_nat_alt)
  then show "exec_op X V exec F (OP_EXEC X_SSTORE) (config c st k mem n g p (loc # d # s)) =
      Some (Ok Next, config c st' k mem n (g - 3) p s)" for exec
    using gas_left(1) [OF assms(3)] written
    by (simp add: bind2_def bind_op_def config_Pop ret_def and_next_def seq_op_def state_res_op_def upd_op_def
        useGasNegative_def GasStorageUpdate_def)
qed

lemma config_Pop_n:
  "a < unat g \<Longrightarrow> a \<le> length s \<Longrightarrow>
   Pop_n a (config c st k mem n g p s) = Some (Ok (take a s), config c st k mem n (g - word_of_nat a) p (drop a s))"
proof (induction a arbitrary: g s)
  case (Suc a)
  then obtain d ds where s: "s = d # ds"
    by (cases s) auto
  have "1 < g" and "unat (g - 1) = unat g - 1"
    using Suc.prems(1) by (auto simp: word_less_nat_alt unat_sub word_le_nat_alt)
  with Suc.IH [of "g - 1" ds] Suc.prems s show ?case
    by (simp add: bind_op_def config_Pop ret_def algebra_simps)
qed (simp add: ret_def)

lemma run_LOG:
  assumes "fetch (fr_code F) p = Some (OP_LOG a, w)" and "going st V n (off # len # s)" and "2 < g"
    and "a < unat (g - 2)" and "a \<le> length s" and "\<not> fr_logfree F"
    and "unat off + unat len \<le> mem_len mem" and "mem_len mem \<le> MaxInt32"
  shows "run_instr X V F (OP_LOG a, w) (config c st k mem n g p (off # len # s)) =
    run X V F (config c st (k\<lparr>EventCache := EventCache k @ [event_of_log \<lparr>log_Address = fr_callee F,
      log_Data = mem_slice mem (unat off) (unat len), log_Topics = take a s\<rparr>]\<rparr>) mem n (g - 2 - word_of_nat a) (p + 1) (drop a s))"
proof (rule run_instr_next [OF goingD(1) [OF assms(2)] assms(1)])
  show "exec_op X V exec F (OP_LOG a) (config c st k mem n g p (off # len # s)) =
      Some (Ok Next, config c st (k\<lparr>EventCache := EventCache k @ [event_of_log \<lparr>log_Address = fr_callee F,
        log_Data = mem_slice mem (unat off) (unat len), log_Topics = take a s\<rparr>]\<rparr>) mem n (g - 2 - word_of_nat a) p (drop a s))"
    for exec
    using gas_left(2) [OF assms(3)] memory_within(1) [OF assms(7,8)] assms(6)
      config_Pop_n [OF assms(4,5), of c st k mem n p] goingD(1) [OF assms(2)]
    by (simp add: exec_LOG_def bind2_def bind_op_def PopBigInt_def config_Pop ret_def and_next_def seq_op_def
        Memory_Read_def Log_op_def em_Log_eq PushError_op_def state_upd_def es_PushError_def code_bytes_def)
qed

text \<open>A word can be written to an account that exists, in a state that is not read-only.\<close>

lemma es_SetStorage_writes:
  assumes "\<not> c_readonly (st_cache st)" and "acc_view X (chain st) a = Inr (Some acc)" and "coherent X (chain st)"
    and set: "es_SetStorage X st a key v = (r, st')"
  shows "r = Ok ()" and "st_error st' = st_error st"
proof -
  obtain i c' b' where get: "cache_get X (st_cache st) (st_backend st) a = (i, c', b')"
    by (cases "cache_get X (st_cache st) (st_backend st) a")
  have "\<exists>j. i = Inr j \<and> ai_account j \<noteq> None \<and> \<not> ai_removed j"
    using get
  proof (cases rule: cache_get_cases)
    case (hit j)
    with assms(2) show ?thesis
      by (auto simp: chain_def split: if_splits)
  next
    case (fail e)
    with assms(2) show ?thesis
      using GetAccount_view [OF fail(2)] by (auto simp: chain_def)
  next
    case (load acc')
    with assms(2) show ?thesis
      using GetAccount_view [OF load(2)] by (auto simp: chain_def)
  qed
  with set get assms(1) show "r = Ok ()" and "st_error st' = st_error st"
    by (auto simp: es_SetStorage_def chain_def)
qed

subsection \<open>A contract as the chaincode calls it\<close>

lemmas run_rules = run_fetch run_PUSH run_POP run_JUMPDEST run_DUP run_SWAP run_ALU run_JUMP run_JUMPI run_MSTORE
  run_MLOAD run_RETURN run_STOP run_CALLDATALOAD run_CALLDATASIZE run_CALLVALUE run_CODECOPY

lemmas run_conditions = going_def MaxInt32_def alu_agrees_def alu_cost_def mem_len_Default mem_word_put

text \<open>Gas that is known to be enough, whatever it is: code here runs on less than 1000.\<close>

lemma enough_gas:
  fixes g c d :: "64 word"
  assumes "1000 \<le> g"
  shows "c < 1000 \<Longrightarrow> c < g" and "d < 1000 \<Longrightarrow> c < 1000 - d \<Longrightarrow> c < g - d"
    and "d < 1000 \<Longrightarrow> a < 1000 - unat d \<Longrightarrow> a < unat (g - d)"
proof -
  have n: "unat (1000 :: 64 word) = 1000"
    by simp
  show "c < 1000 \<Longrightarrow> c < g"
    using assms by (rule less_le_trans [rotated])
  show "d < 1000 \<Longrightarrow> c < 1000 - d \<Longrightarrow> c < g - d" "d < 1000 \<Longrightarrow> a < 1000 - unat d \<Longrightarrow> a < unat (g - d)"
    using n assms by (auto simp: word_less_nat_alt word_le_nat_alt unat_sub)
qed

text \<open>A call without value on the machine of the chaincode, and what it may spend.\<close>

definition contract_call :: "vm \<Rightarrow> frame \<Rightarrow> address \<Rightarrow> bytes \<Rightarrow> bytes \<Rightarrow> bool" where
  "contract_call V F a code input \<longleftrightarrow> vm_params V = newParams \<and> fr_callee F = a \<and> fr_code F = code \<and>
     fr_input F = input \<and> fr_value F = 0"

lemma contract_callD:
  assumes "contract_call V F a code input"
  shows "fr_callee F = a" and "fr_code F = code" and "fr_input F = input" and "DataStackMaxDepth (vm_params V) = 0"
    and "execute X V F act = run X V F
      (config (ac_sequence act, 0, None) (ac_state act) (ac_sink act) DefaultDynamicMemory 0 (ac_gas act) 0 [])"
  using assms by (simp_all add: contract_call_def execute_def new_machine_config newParams_def)

definition spends :: "activation \<Rightarrow> activation \<Rightarrow> bool" where
  "spends act act' \<longleftrightarrow> ac_sequence act' = ac_sequence act \<and> (\<exists>d < 1000. ac_gas act' = ac_gas act - d)"

text \<open>The run returns a result and leaves this state and these events.\<close>

definition run_returns :: "('pk, 'z) evm_externals_scheme \<Rightarrow> vm \<Rightarrow> frame \<Rightarrow> activation \<Rightarrow> bytes option \<Rightarrow> evm_state \<Rightarrow> event_manager \<Rightarrow> bool" where
  "run_returns X V F act out st' k' \<longleftrightarrow> (\<exists>act'. execute X V F act = Some (Ok out, act') \<and> spends act act' \<and>
     ac_state act' = st' \<and> ac_sink act' = k')"

text \<open>The frame of a call that comes from the chaincode.\<close>

definition call_of :: "address \<Rightarrow> address \<Rightarrow> bytes \<Rightarrow> bytes \<Rightarrow> frame" where
  "call_of caller callee code input = \<lparr>fr_caller = caller, fr_callee = callee, fr_code = code, fr_input = input,
     fr_value = 0, fr_depth = 1, fr_logfree = False\<rparr>"

lemma call_of_calls:
  "contract_call (evmcc_vm newParams origin nonce) (call_of caller callee code input) callee code input"
  "\<not> fr_logfree (call_of caller callee code input)"
  by (simp_all add: call_of_def contract_call_def evmcc_vm_def)

lemma NewVM_Call_executed:
  assumes "st_error st = None" and "code \<noteq> []"
    and "execute X (evmcc_vm newParams origin nonce) (call_of caller callee code input)
      \<lparr>ac_state = st, ac_sink = sink, ac_gas = 10000, ac_sequence = 0\<rparr> = Some (Ok out, act)"
    and "st_error (ac_state act) = None"
  shows "NewVM_Call X newParams origin nonce st sink caller callee (Some code) input 0 10000 = (Ok out, ac_state act, ac_sink act)"
  using assms
  by (simp add: NewVM_Call_def VM_Call_def vm_call_def transfer_def enter_code_def Let_def ensureStackDepth_def
      evmcc_vm_def newParams_def return_call_def code_bytes_def call_of_def)

lemma NewVM_Call_run:
  assumes "st_error st = None" and "code \<noteq> []"
    and "run_returns X (evmcc_vm newParams origin nonce) (call_of caller callee code input)
      \<lparr>ac_state = st, ac_sink = sink, ac_gas = 10000, ac_sequence = 0\<rparr> out st' sink'"
    and "st_error st' = None"
  shows "NewVM_Call X newParams origin nonce st sink caller callee (Some code) input 0 10000 = (Ok out, st', sink')"
  using NewVM_Call_executed [OF assms(1,2)] assms(3,4) by (auto simp: run_returns_def)

text \<open>The call data of a function with at most one argument: its selector and the word.\<close>

lemma selector_word:
  assumes "length sel = 4"
  shows "input_word (sel @ data) 0 div 2 ^ 224 = word_of_nat (be_nat sel)"
proof -
  define ws where "ws = take 28 (data @ replicate 32 0)"
  have len: "length ws = 28"
    by (simp add: ws_def)
  have "take 32 ((sel @ data) @ replicate 32 0) = sel @ ws"
    using assms by (simp add: ws_def)
  then have word: "input_word (sel @ data) 0 = word_of_nat (be_nat (sel @ ws))"
    by (simp add: input_word_def)
  have "be_nat (sel @ ws) < 2 ^ 256" "be_nat sel < 2 ^ 256"
    using be_nat_less [of "sel @ ws"] be_nat_less [of sel] assms len by simp_all
  then have small: "be_nat (sel @ ws) mod 2 ^ 256 = be_nat (sel @ ws)" "be_nat sel mod 2 ^ 256 = be_nat sel"
    by simp_all
  have "be_nat (sel @ ws) div 2 ^ 224 = be_nat sel"
    using be_nat_less [of ws] len by (simp add: be_nat_append)
  then have "unat (input_word (sel @ data) 0 div 2 ^ 224) = be_nat sel"
    using small(1) by (simp add: word unat_div_distrib unat_of_nat)
  then show ?thesis
    using small(2) by (simp add: word_unat_eq_iff unat_of_nat)
qed

lemma argument_word:
  assumes "length sel = 4"
  shows "input_word (sel @ Word256_Bytes x @ rest) 4 = x"
  using assms by (simp add: input_word_def)

end
