(* ===== verification/Integration_Contracts.thy ===== *)
theory Integration_Contracts
  imports Contract_Execution
begin

section \<open>The contracts of the integration tests\<close>

text \<open>
  \<^verbatim>\<open>integration/helpers/contracts.go\<close>: four compiled Solidity contracts, as the hex texts the tests send
  through the service and as bytes, with the instructions of the two simple ones. The bytes behind the last
  instruction of a contract are metadata that never run.
\<close>

record contract =
  CompiledBytecode :: string
  RuntimeBytecode :: string
  FunctionHashes :: "string \<rightharpoonup> string"

definition SimpleStorageContract :: contract where
  "SimpleStorageContract =
     \<lparr>CompiledBytecode =
        ''608060405234801561001057600080fd5b5060e68061001f6000396000f3fe6080604052600436106043576000357c01'' @
        ''000000000000000000000000000000000000000000000000000000009004806360fe47b11460485780636d4ce63c1460'' @
        ''7f575b600080fd5b348015605357600080fd5b50607d60048036036020811015606857600080fd5b8101908080359060'' @
        ''20019092919050505060a7565b005b348015608a57600080fd5b50609160b1565b604051808281526020019150506040'' @
        ''5180910390f35b8060008190555050565b6000805490509056fea165627a7a72305820290b24d16ffaf96310c5e236ce'' @
        ''f6f8bd81744b72beaeae1ca817d9372b69c2ba0029'',
      RuntimeBytecode =
        ''6080604052600436106043576000357c0100000000000000000000000000000000000000000000000000000000900480'' @
        ''6360fe47b11460485780636d4ce63c14607f575b600080fd5b348015605357600080fd5b50607d600480360360208110'' @
        ''15606857600080fd5b810190808035906020019092919050505060a7565b005b348015608a57600080fd5b50609160b1'' @
        ''565b6040518082815260200191505060405180910390f35b8060008190555050565b6000805490509056fea165627a7a'' @
        ''72305820290b24d16ffaf96310c5e236cef6f8bd81744b72beaeae1ca817d9372b69c2ba0029'',
      FunctionHashes = [''get'' \<mapsto> ''6d4ce63c'', ''set'' \<mapsto> ''60fe47b1'']\<rparr>"

definition InvokeContract :: contract where
  "InvokeContract =
     \<lparr>CompiledBytecode =
        ''608060405234801561001057600080fd5b506040516020806102f98339810180604052602081101561003057600080fd'' @
        ''5b8101908080519060200190929190505050806000806101000a81548173ffffffffffffffffffffffffffffffffffff'' @
        ''ffff021916908373ffffffffffffffffffffffffffffffffffffffff16021790555050610268806100916000396000f3'' @
        ''fe608060405260043610610046576000357c010000000000000000000000000000000000000000000000000000000090'' @
        ''0480633d4197f01461004b578063e1cb0e521461009a575b600080fd5b34801561005757600080fd5b50610084600480'' @
        ''3603602081101561006e57600080fd5b81019080803590602001909291905050506100c5565b60405180828152602001'' @
        ''91505060405180910390f35b3480156100a657600080fd5b506100af610177565b604051808281526020019150506040'' @
        ''5180910390f35b60008060009054906101000a900473ffffffffffffffffffffffffffffffffffffffff1673ffffffff'' @
        ''ffffffffffffffffffffffffffffffff166360fe47b1836040518263ffffffff167c0100000000000000000000000000'' @
        ''00000000000000000000000000000002815260040180828152602001915050600060405180830381600087803b158015'' @
        ''61015757600080fd5b505af115801561016b573d6000803e3d6000fd5b50505050819050919050565b60008060009054'' @
        ''906101000a900473ffffffffffffffffffffffffffffffffffffffff1673ffffffffffffffffffffffffffffffffffff'' @
        ''ffff16636d4ce63c6040518163ffffffff167c0100000000000000000000000000000000000000000000000000000000'' @
        ''02815260040160206040518083038186803b1580156101fc57600080fd5b505afa158015610210573d6000803e3d6000'' @
        ''fd5b505050506040513d602081101561022657600080fd5b810190808051906020019092919050505090509056fea165'' @
        ''627a7a7230582098c74c9ae961568f419cd648965957c2f72a8e3c8ff2c25875b480b6da93a2c80029'',
      RuntimeBytecode =
        ''608060405260043610610046576000357c01000000000000000000000000000000000000000000000000000000009004'' @
        ''80633d4197f01461004b578063e1cb0e521461009a575b600080fd5b34801561005757600080fd5b5061008460048036'' @
        ''03602081101561006e57600080fd5b81019080803590602001909291905050506100c5565b6040518082815260200191'' @
        ''505060405180910390f35b3480156100a657600080fd5b506100af610177565b60405180828152602001915050604051'' @
        ''80910390f35b60008060009054906101000a900473ffffffffffffffffffffffffffffffffffffffff1673ffffffffff'' @
        ''ffffffffffffffffffffffffffffff166360fe47b1836040518263ffffffff167c010000000000000000000000000000'' @
        ''000000000000000000000000000002815260040180828152602001915050600060405180830381600087803b15801561'' @
        ''015757600080fd5b505af115801561016b573d6000803e3d6000fd5b50505050819050919050565b6000806000905490'' @
        ''6101000a900473ffffffffffffffffffffffffffffffffffffffff1673ffffffffffffffffffffffffffffffffffffff'' @
        ''ff16636d4ce63c6040518163ffffffff167c010000000000000000000000000000000000000000000000000000000002'' @
        ''815260040160206040518083038186803b1580156101fc57600080fd5b505afa158015610210573d6000803e3d6000fd'' @
        ''5b505050506040513d602081101561022657600080fd5b810190808051906020019092919050505090509056fea16562'' @
        ''7a7a7230582098c74c9ae961568f419cd648965957c2f72a8e3c8ff2c25875b480b6da93a2c80029'',
      FunctionHashes = [''getVal'' \<mapsto> ''e1cb0e52'', ''setVal'' \<mapsto> ''3d4197f0'']\<rparr>"

definition SimpleStorageWithLog :: contract where
  "SimpleStorageWithLog =
     \<lparr>CompiledBytecode =
        ''6060604052341561000f57600080fd5b6101038061001e6000396000f3006060604052600436106049576000357c0100'' @
        ''000000000000000000000000000000000000000000000000000000900463ffffffff16806360fe47b114604e5780636d'' @
        ''4ce63c14606e575b600080fd5b3415605857600080fd5b606c60048080359060200190919050506094565b005b341560'' @
        ''7857600080fd5b607e60ce565b6040518082815260200191505060405180910390f35b806000547fd81ec364c58bcc9b'' @
        ''49b6c953fc8e1f1c158ee89255bae73029133234a2936aad60405160405180910390a38060008190555050565b600080'' @
        ''549050905600a165627a7a72305820c25e87c4204a7116bc2c63e7a37614025a0e0fac325fe4469a50743572d05ff900'' @
        ''29'',
      RuntimeBytecode =
        ''6060604052600436106049576000357c0100000000000000000000000000000000000000000000000000000000900463'' @
        ''ffffffff16806360fe47b114604e5780636d4ce63c14606e575b600080fd5b3415605857600080fd5b606c6004808035'' @
        ''9060200190919050506094565b005b3415607857600080fd5b607e60ce565b6040518082815260200191505060405180'' @
        ''910390f35b806000547fd81ec364c58bcc9b49b6c953fc8e1f1c158ee89255bae73029133234a2936aad604051604051'' @
        ''80910390a38060008190555050565b600080549050905600a165627a7a72305820c25e87c4204a7116bc2c63e7a37614'' @
        ''025a0e0fac325fe4469a50743572d05ff90029'',
      FunctionHashes = [''get'' \<mapsto> ''6d4ce63c'', ''set'' \<mapsto> ''60fe47b1'']\<rparr>"

definition SimpleStorageCreator :: contract where
  "SimpleStorageCreator =
     \<lparr>CompiledBytecode =
        ''608060405234801561001057600080fd5b50610204806100206000396000f3fe60806040526004361061003b57600035'' @
        ''7c01000000000000000000000000000000000000000000000000000000009004806340d66b3b14610040575b600080fd'' @
        ''5b34801561004c57600080fd5b50610055610097565b604051808273ffffffffffffffffffffffffffffffffffffffff'' @
        ''1673ffffffffffffffffffffffffffffffffffffffff16815260200191505060405180910390f35b60006100a16100c3'' @
        ''565b604051809103906000f0801580156100bd573d6000803e3d6000fd5b50905090565b604051610105806100d48339'' @
        ''019056fe608060405234801561001057600080fd5b5060e68061001f6000396000f3fe60806040526004361060435760'' @
        ''00357c01000000000000000000000000000000000000000000000000000000009004806360fe47b11460485780636d4c'' @
        ''e63c14607f575b600080fd5b348015605357600080fd5b50607d60048036036020811015606857600080fd5b81019080'' @
        ''8035906020019092919050505060a7565b005b348015608a57600080fd5b50609160b1565b6040518082815260200191'' @
        ''505060405180910390f35b8060008190555050565b6000805490509056fea165627a7a723058204fba53eb31e370bbdb'' @
        ''e1f1064d4e2a6aa794f3533a7563265edde21d4e8563b40029a165627a7a723058208317acddf85b105bfe01677c962f'' @
        ''5e4493cfc1b65fcd91dfc3474d3bd4be2eeb0029'',
      RuntimeBytecode =
        ''60806040526004361061003b576000357c01000000000000000000000000000000000000000000000000000000009004'' @
        ''806340d66b3b14610040575b600080fd5b34801561004c57600080fd5b50610055610097565b604051808273ffffffff'' @
        ''ffffffffffffffffffffffffffffffff1673ffffffffffffffffffffffffffffffffffffffff16815260200191505060'' @
        ''405180910390f35b60006100a16100c3565b604051809103906000f0801580156100bd573d6000803e3d6000fd5b5090'' @
        ''5090565b604051610105806100d48339019056fe608060405234801561001057600080fd5b5060e68061001f60003960'' @
        ''00f3fe6080604052600436106043576000357c0100000000000000000000000000000000000000000000000000000000'' @
        ''9004806360fe47b11460485780636d4ce63c14607f575b600080fd5b348015605357600080fd5b50607d600480360360'' @
        ''20811015606857600080fd5b810190808035906020019092919050505060a7565b005b348015608a57600080fd5b5060'' @
        ''9160b1565b6040518082815260200191505060405180910390f35b8060008190555050565b6000805490509056fea165'' @
        ''627a7a723058204fba53eb31e370bbdbe1f1064d4e2a6aa794f3533a7563265edde21d4e8563b40029a165627a7a7230'' @
        ''58208317acddf85b105bfe01677c962f5e4493cfc1b65fcd91dfc3474d3bd4be2eeb0029'',
      FunctionHashes = [''createSimpleStorage'' \<mapsto> ''40d66b3b'']\<rparr>"

subsection \<open>As bytes\<close>

definition storage_init :: bytes where
  "storage_init =
    [0x60, 0x80, 0x60, 0x40, 0x52, 0x34, 0x80, 0x15, 0x61, 0x00, 0x10, 0x57, 0x60, 0x00, 0x80, 0xfd, 0x5b, 0x50,
     0x60, 0xe6, 0x80, 0x61, 0x00, 0x1f, 0x60, 0x00, 0x39, 0x60, 0x00, 0xf3, 0xfe]"

definition storage_instructions :: bytes where
  "storage_instructions =
    [0x60, 0x80, 0x60, 0x40, 0x52, 0x60, 0x04, 0x36, 0x10, 0x60, 0x43, 0x57, 0x60, 0x00, 0x35, 0x7c, 0x01, 0x00,
     0x00, 0x00, 0x00, 0x00, 0x00, 0x00, 0x00, 0x00, 0x00, 0x00, 0x00, 0x00, 0x00, 0x00, 0x00, 0x00, 0x00, 0x00,
     0x00, 0x00, 0x00, 0x00, 0x00, 0x00, 0x00, 0x00, 0x00, 0x90, 0x04, 0x80, 0x63, 0x60, 0xfe, 0x47, 0xb1, 0x14,
     0x60, 0x48, 0x57, 0x80, 0x63, 0x6d, 0x4c, 0xe6, 0x3c, 0x14, 0x60, 0x7f, 0x57, 0x5b, 0x60, 0x00, 0x80, 0xfd,
     0x5b, 0x34, 0x80, 0x15, 0x60, 0x53, 0x57, 0x60, 0x00, 0x80, 0xfd, 0x5b, 0x50, 0x60, 0x7d, 0x60, 0x04, 0x80,
     0x36, 0x03, 0x60, 0x20, 0x81, 0x10, 0x15, 0x60, 0x68, 0x57, 0x60, 0x00, 0x80, 0xfd, 0x5b, 0x81, 0x01, 0x90,
     0x80, 0x80, 0x35, 0x90, 0x60, 0x20, 0x01, 0x90, 0x92, 0x91, 0x90, 0x50, 0x50, 0x50, 0x60, 0xa7, 0x56, 0x5b,
     0x00, 0x5b, 0x34, 0x80, 0x15, 0x60, 0x8a, 0x57, 0x60, 0x00, 0x80, 0xfd, 0x5b, 0x50, 0x60, 0x91, 0x60, 0xb1,
     0x56, 0x5b, 0x60, 0x40, 0x51, 0x80, 0x82, 0x81, 0x52, 0x60, 0x20, 0x01, 0x91, 0x50, 0x50, 0x60, 0x40, 0x51,
     0x80, 0x91, 0x03, 0x90, 0xf3, 0x5b, 0x80, 0x60, 0x00, 0x81, 0x90, 0x55, 0x50, 0x50, 0x56, 0x5b, 0x60, 0x00,
     0x80, 0x54, 0x90, 0x50, 0x90, 0x56, 0xfe]"

definition storage_metadata :: bytes where
  "storage_metadata =
    [0xa1, 0x65, 0x62, 0x7a, 0x7a, 0x72, 0x30, 0x58, 0x20, 0x29, 0x0b, 0x24, 0xd1, 0x6f, 0xfa, 0xf9, 0x63, 0x10,
     0xc5, 0xe2, 0x36, 0xce, 0xf6, 0xf8, 0xbd, 0x81, 0x74, 0x4b, 0x72, 0xbe, 0xae, 0xae, 0x1c, 0xa8, 0x17, 0xd9,
     0x37, 0x2b, 0x69, 0xc2, 0xba, 0x00, 0x29]"

definition log_init :: bytes where
  "log_init =
    [0x60, 0x60, 0x60, 0x40, 0x52, 0x34, 0x15, 0x61, 0x00, 0x0f, 0x57, 0x60, 0x00, 0x80, 0xfd, 0x5b, 0x61, 0x01,
     0x03, 0x80, 0x61, 0x00, 0x1e, 0x60, 0x00, 0x39, 0x60, 0x00, 0xf3, 0x00]"

definition log_instructions :: bytes where
  "log_instructions =
    [0x60, 0x60, 0x60, 0x40, 0x52, 0x60, 0x04, 0x36, 0x10, 0x60, 0x49, 0x57, 0x60, 0x00, 0x35, 0x7c, 0x01, 0x00,
     0x00, 0x00, 0x00, 0x00, 0x00, 0x00, 0x00, 0x00, 0x00, 0x00, 0x00, 0x00, 0x00, 0x00, 0x00, 0x00, 0x00, 0x00,
     0x00, 0x00, 0x00, 0x00, 0x00, 0x00, 0x00, 0x00, 0x00, 0x90, 0x04, 0x63, 0xff, 0xff, 0xff, 0xff, 0x16, 0x80,
     0x63, 0x60, 0xfe, 0x47, 0xb1, 0x14, 0x60, 0x4e, 0x57, 0x80, 0x63, 0x6d, 0x4c, 0xe6, 0x3c, 0x14, 0x60, 0x6e,
     0x57, 0x5b, 0x60, 0x00, 0x80, 0xfd, 0x5b, 0x34, 0x15, 0x60, 0x58, 0x57, 0x60, 0x00, 0x80, 0xfd, 0x5b, 0x60,
     0x6c, 0x60, 0x04, 0x80, 0x80, 0x35, 0x90, 0x60, 0x20, 0x01, 0x90, 0x91, 0x90, 0x50, 0x50, 0x60, 0x94, 0x56,
     0x5b, 0x00, 0x5b, 0x34, 0x15, 0x60, 0x78, 0x57, 0x60, 0x00, 0x80, 0xfd, 0x5b, 0x60, 0x7e, 0x60, 0xce, 0x56,
     0x5b, 0x60, 0x40, 0x51, 0x80, 0x82, 0x81, 0x52, 0x60, 0x20, 0x01, 0x91, 0x50, 0x50, 0x60, 0x40, 0x51, 0x80,
     0x91, 0x03, 0x90, 0xf3, 0x5b, 0x80, 0x60, 0x00, 0x54, 0x7f, 0xd8, 0x1e, 0xc3, 0x64, 0xc5, 0x8b, 0xcc, 0x9b,
     0x49, 0xb6, 0xc9, 0x53, 0xfc, 0x8e, 0x1f, 0x1c, 0x15, 0x8e, 0xe8, 0x92, 0x55, 0xba, 0xe7, 0x30, 0x29, 0x13,
     0x32, 0x34, 0xa2, 0x93, 0x6a, 0xad, 0x60, 0x40, 0x51, 0x60, 0x40, 0x51, 0x80, 0x91, 0x03, 0x90, 0xa3, 0x80,
     0x60, 0x00, 0x81, 0x90, 0x55, 0x50, 0x50, 0x56, 0x5b, 0x60, 0x00, 0x80, 0x54, 0x90, 0x50, 0x90, 0x56, 0x00]"

definition log_metadata :: bytes where
  "log_metadata =
    [0xa1, 0x65, 0x62, 0x7a, 0x7a, 0x72, 0x30, 0x58, 0x20, 0xc2, 0x5e, 0x87, 0xc4, 0x20, 0x4a, 0x71, 0x16, 0xbc,
     0x2c, 0x63, 0xe7, 0xa3, 0x76, 0x14, 0x02, 0x5a, 0x0e, 0x0f, 0xac, 0x32, 0x5f, 0xe4, 0x46, 0x9a, 0x50, 0x74,
     0x35, 0x72, 0xd0, 0x5f, 0xf9, 0x00, 0x29]"

definition storage_code :: bytes where
  "storage_code = storage_instructions @ storage_metadata"

definition log_code :: bytes where
  "log_code = log_instructions @ log_metadata"

lemmas hex_parts = storage_init_def storage_instructions_def storage_metadata_def log_init_def log_instructions_def
  log_metadata_def

lemma storage_texts:
  "RuntimeBytecode SimpleStorageContract = hex_EncodeToString storage_code"
  "CompiledBytecode SimpleStorageContract = hex_EncodeToString (storage_init @ storage_code)"
  by (simp_all add: SimpleStorageContract_def storage_code_def hex_parts hex_EncodeToString_def hex_digits_def hextable_def)

lemma log_texts:
  "RuntimeBytecode SimpleStorageWithLog = hex_EncodeToString log_code"
  "CompiledBytecode SimpleStorageWithLog = hex_EncodeToString (log_init @ log_code)"
  by (simp_all add: SimpleStorageWithLog_def log_code_def hex_parts hex_EncodeToString_def hex_digits_def hextable_def)

subsection \<open>As instructions\<close>

lemma decoded:
  "decode_op 0x00 = OP_STOP" "decode_op 0x01 = OP_ALU ALU_ADD" "decode_op 0x03 = OP_ALU ALU_SUB"
  "decode_op 0x04 = OP_ALU ALU_DIV" "decode_op 0x10 = OP_ALU ALU_LT" "decode_op 0x14 = OP_ALU ALU_EQ"
  "decode_op 0x15 = OP_ALU ALU_ISZERO" "decode_op 0x16 = OP_ALU ALU_AND"
  "decode_op 0x34 = OP_ENV ENV_CALLVALUE" "decode_op 0x35 = OP_ENV ENV_CALLDATALOAD"
  "decode_op 0x36 = OP_ENV ENV_CALLDATASIZE" "decode_op 0x39 = OP_ENV ENV_CODECOPY"
  "decode_op 0x50 = OP_EXEC X_POP" "decode_op 0x51 = OP_EXEC X_MLOAD" "decode_op 0x52 = OP_EXEC X_MSTORE"
  "decode_op 0x54 = OP_EXEC X_SLOAD" "decode_op 0x55 = OP_EXEC X_SSTORE" "decode_op 0x56 = OP_EXEC X_JUMP"
  "decode_op 0x57 = OP_EXEC X_JUMPI" "decode_op 0x5b = OP_EXEC X_JUMPDEST" "decode_op 0x60 = OP_PUSH 1"
  "decode_op 0x61 = OP_PUSH 2" "decode_op 0x63 = OP_PUSH 4" "decode_op 0x7c = OP_PUSH 29"
  "decode_op 0x7f = OP_PUSH 32" "decode_op 0x80 = OP_DUP 1" "decode_op 0x81 = OP_DUP 2"
  "decode_op 0x82 = OP_DUP 3" "decode_op 0x90 = OP_SWAP 2" "decode_op 0x91 = OP_SWAP 3"
  "decode_op 0x92 = OP_SWAP 4" "decode_op 0xa3 = OP_LOG 3" "decode_op 0xf3 = OP_RETURN"
  "decode_op 0xfd = OP_REVERT" "decode_op 0xfe = OP_INVALID"
  by (simp_all add: decode_op_def opcode_table_def)

definition storage_init_listing :: "(int \<times> opcode \<times> word256) list" where
  "storage_init_listing =
    [(0x00, OP_PUSH 1, 0x80), (0x02, OP_PUSH 1, 0x40), (0x04, OP_EXEC X_MSTORE, 0),
     (0x05, OP_ENV ENV_CALLVALUE, 0), (0x06, OP_DUP 1, 0), (0x07, OP_ALU ALU_ISZERO, 0),
     (0x08, OP_PUSH 2, 0x10), (0x0b, OP_EXEC X_JUMPI, 0), (0x0c, OP_PUSH 1, 0x0), (0x0e, OP_DUP 1, 0),
     (0x0f, OP_REVERT, 0), (0x10, OP_EXEC X_JUMPDEST, 0), (0x11, OP_EXEC X_POP, 0),
     (0x12, OP_PUSH 1, 0xe6), (0x14, OP_DUP 1, 0), (0x15, OP_PUSH 2, 0x1f), (0x18, OP_PUSH 1, 0x0),
     (0x1a, OP_ENV ENV_CODECOPY, 0), (0x1b, OP_PUSH 1, 0x0), (0x1d, OP_RETURN, 0), (0x1e, OP_INVALID, 0)]"

definition storage_listing :: "(int \<times> opcode \<times> word256) list" where
  "storage_listing =
    [(0x00, OP_PUSH 1, 0x80), (0x02, OP_PUSH 1, 0x40), (0x04, OP_EXEC X_MSTORE, 0),
     (0x05, OP_PUSH 1, 0x4), (0x07, OP_ENV ENV_CALLDATASIZE, 0), (0x08, OP_ALU ALU_LT, 0),
     (0x09, OP_PUSH 1, 0x43), (0x0b, OP_EXEC X_JUMPI, 0), (0x0c, OP_PUSH 1, 0x0),
     (0x0e, OP_ENV ENV_CALLDATALOAD, 0),
     (0x0f, OP_PUSH 29, 0x100000000000000000000000000000000000000000000000000000000),
     (0x2d, OP_SWAP 2, 0), (0x2e, OP_ALU ALU_DIV, 0), (0x2f, OP_DUP 1, 0),
     (0x30, OP_PUSH 4, 0x60fe47b1), (0x35, OP_ALU ALU_EQ, 0), (0x36, OP_PUSH 1, 0x48),
     (0x38, OP_EXEC X_JUMPI, 0), (0x39, OP_DUP 1, 0), (0x3a, OP_PUSH 4, 0x6d4ce63c),
     (0x3f, OP_ALU ALU_EQ, 0), (0x40, OP_PUSH 1, 0x7f), (0x42, OP_EXEC X_JUMPI, 0),
     (0x43, OP_EXEC X_JUMPDEST, 0), (0x44, OP_PUSH 1, 0x0), (0x46, OP_DUP 1, 0), (0x47, OP_REVERT, 0),
     (0x48, OP_EXEC X_JUMPDEST, 0), (0x49, OP_ENV ENV_CALLVALUE, 0), (0x4a, OP_DUP 1, 0),
     (0x4b, OP_ALU ALU_ISZERO, 0), (0x4c, OP_PUSH 1, 0x53), (0x4e, OP_EXEC X_JUMPI, 0),
     (0x4f, OP_PUSH 1, 0x0), (0x51, OP_DUP 1, 0), (0x52, OP_REVERT, 0), (0x53, OP_EXEC X_JUMPDEST, 0),
     (0x54, OP_EXEC X_POP, 0), (0x55, OP_PUSH 1, 0x7d), (0x57, OP_PUSH 1, 0x4), (0x59, OP_DUP 1, 0),
     (0x5a, OP_ENV ENV_CALLDATASIZE, 0), (0x5b, OP_ALU ALU_SUB, 0), (0x5c, OP_PUSH 1, 0x20),
     (0x5e, OP_DUP 2, 0), (0x5f, OP_ALU ALU_LT, 0), (0x60, OP_ALU ALU_ISZERO, 0),
     (0x61, OP_PUSH 1, 0x68), (0x63, OP_EXEC X_JUMPI, 0), (0x64, OP_PUSH 1, 0x0), (0x66, OP_DUP 1, 0),
     (0x67, OP_REVERT, 0), (0x68, OP_EXEC X_JUMPDEST, 0), (0x69, OP_DUP 2, 0),
     (0x6a, OP_ALU ALU_ADD, 0), (0x6b, OP_SWAP 2, 0), (0x6c, OP_DUP 1, 0), (0x6d, OP_DUP 1, 0),
     (0x6e, OP_ENV ENV_CALLDATALOAD, 0), (0x6f, OP_SWAP 2, 0), (0x70, OP_PUSH 1, 0x20),
     (0x72, OP_ALU ALU_ADD, 0), (0x73, OP_SWAP 2, 0), (0x74, OP_SWAP 4, 0), (0x75, OP_SWAP 3, 0),
     (0x76, OP_SWAP 2, 0), (0x77, OP_EXEC X_POP, 0), (0x78, OP_EXEC X_POP, 0), (0x79, OP_EXEC X_POP, 0),
     (0x7a, OP_PUSH 1, 0xa7), (0x7c, OP_EXEC X_JUMP, 0), (0x7d, OP_EXEC X_JUMPDEST, 0),
     (0x7e, OP_STOP, 0), (0x7f, OP_EXEC X_JUMPDEST, 0), (0x80, OP_ENV ENV_CALLVALUE, 0),
     (0x81, OP_DUP 1, 0), (0x82, OP_ALU ALU_ISZERO, 0), (0x83, OP_PUSH 1, 0x8a),
     (0x85, OP_EXEC X_JUMPI, 0), (0x86, OP_PUSH 1, 0x0), (0x88, OP_DUP 1, 0), (0x89, OP_REVERT, 0),
     (0x8a, OP_EXEC X_JUMPDEST, 0), (0x8b, OP_EXEC X_POP, 0), (0x8c, OP_PUSH 1, 0x91),
     (0x8e, OP_PUSH 1, 0xb1), (0x90, OP_EXEC X_JUMP, 0), (0x91, OP_EXEC X_JUMPDEST, 0),
     (0x92, OP_PUSH 1, 0x40), (0x94, OP_EXEC X_MLOAD, 0), (0x95, OP_DUP 1, 0), (0x96, OP_DUP 3, 0),
     (0x97, OP_DUP 2, 0), (0x98, OP_EXEC X_MSTORE, 0), (0x99, OP_PUSH 1, 0x20),
     (0x9b, OP_ALU ALU_ADD, 0), (0x9c, OP_SWAP 3, 0), (0x9d, OP_EXEC X_POP, 0),
     (0x9e, OP_EXEC X_POP, 0), (0x9f, OP_PUSH 1, 0x40), (0xa1, OP_EXEC X_MLOAD, 0), (0xa2, OP_DUP 1, 0),
     (0xa3, OP_SWAP 3, 0), (0xa4, OP_ALU ALU_SUB, 0), (0xa5, OP_SWAP 2, 0), (0xa6, OP_RETURN, 0),
     (0xa7, OP_EXEC X_JUMPDEST, 0), (0xa8, OP_DUP 1, 0), (0xa9, OP_PUSH 1, 0x0), (0xab, OP_DUP 2, 0),
     (0xac, OP_SWAP 2, 0), (0xad, OP_EXEC X_SSTORE, 0), (0xae, OP_EXEC X_POP, 0),
     (0xaf, OP_EXEC X_POP, 0), (0xb0, OP_EXEC X_JUMP, 0), (0xb1, OP_EXEC X_JUMPDEST, 0),
     (0xb2, OP_PUSH 1, 0x0), (0xb4, OP_DUP 1, 0), (0xb5, OP_EXEC X_SLOAD, 0), (0xb6, OP_SWAP 2, 0),
     (0xb7, OP_EXEC X_POP, 0), (0xb8, OP_SWAP 2, 0), (0xb9, OP_EXEC X_JUMP, 0), (0xba, OP_INVALID, 0)]"

definition log_init_listing :: "(int \<times> opcode \<times> word256) list" where
  "log_init_listing =
    [(0x00, OP_PUSH 1, 0x60), (0x02, OP_PUSH 1, 0x40), (0x04, OP_EXEC X_MSTORE, 0),
     (0x05, OP_ENV ENV_CALLVALUE, 0), (0x06, OP_ALU ALU_ISZERO, 0), (0x07, OP_PUSH 2, 0xf),
     (0x0a, OP_EXEC X_JUMPI, 0), (0x0b, OP_PUSH 1, 0x0), (0x0d, OP_DUP 1, 0), (0x0e, OP_REVERT, 0),
     (0x0f, OP_EXEC X_JUMPDEST, 0), (0x10, OP_PUSH 2, 0x103), (0x13, OP_DUP 1, 0),
     (0x14, OP_PUSH 2, 0x1e), (0x17, OP_PUSH 1, 0x0), (0x19, OP_ENV ENV_CODECOPY, 0),
     (0x1a, OP_PUSH 1, 0x0), (0x1c, OP_RETURN, 0), (0x1d, OP_STOP, 0)]"

definition log_listing :: "(int \<times> opcode \<times> word256) list" where
  "log_listing =
    [(0x00, OP_PUSH 1, 0x60), (0x02, OP_PUSH 1, 0x40), (0x04, OP_EXEC X_MSTORE, 0),
     (0x05, OP_PUSH 1, 0x4), (0x07, OP_ENV ENV_CALLDATASIZE, 0), (0x08, OP_ALU ALU_LT, 0),
     (0x09, OP_PUSH 1, 0x49), (0x0b, OP_EXEC X_JUMPI, 0), (0x0c, OP_PUSH 1, 0x0),
     (0x0e, OP_ENV ENV_CALLDATALOAD, 0),
     (0x0f, OP_PUSH 29, 0x100000000000000000000000000000000000000000000000000000000),
     (0x2d, OP_SWAP 2, 0), (0x2e, OP_ALU ALU_DIV, 0), (0x2f, OP_PUSH 4, 0xffffffff),
     (0x34, OP_ALU ALU_AND, 0), (0x35, OP_DUP 1, 0), (0x36, OP_PUSH 4, 0x60fe47b1),
     (0x3b, OP_ALU ALU_EQ, 0), (0x3c, OP_PUSH 1, 0x4e), (0x3e, OP_EXEC X_JUMPI, 0), (0x3f, OP_DUP 1, 0),
     (0x40, OP_PUSH 4, 0x6d4ce63c), (0x45, OP_ALU ALU_EQ, 0), (0x46, OP_PUSH 1, 0x6e),
     (0x48, OP_EXEC X_JUMPI, 0), (0x49, OP_EXEC X_JUMPDEST, 0), (0x4a, OP_PUSH 1, 0x0),
     (0x4c, OP_DUP 1, 0), (0x4d, OP_REVERT, 0), (0x4e, OP_EXEC X_JUMPDEST, 0),
     (0x4f, OP_ENV ENV_CALLVALUE, 0), (0x50, OP_ALU ALU_ISZERO, 0), (0x51, OP_PUSH 1, 0x58),
     (0x53, OP_EXEC X_JUMPI, 0), (0x54, OP_PUSH 1, 0x0), (0x56, OP_DUP 1, 0), (0x57, OP_REVERT, 0),
     (0x58, OP_EXEC X_JUMPDEST, 0), (0x59, OP_PUSH 1, 0x6c), (0x5b, OP_PUSH 1, 0x4),
     (0x5d, OP_DUP 1, 0), (0x5e, OP_DUP 1, 0), (0x5f, OP_ENV ENV_CALLDATALOAD, 0), (0x60, OP_SWAP 2, 0),
     (0x61, OP_PUSH 1, 0x20), (0x63, OP_ALU ALU_ADD, 0), (0x64, OP_SWAP 2, 0), (0x65, OP_SWAP 3, 0),
     (0x66, OP_SWAP 2, 0), (0x67, OP_EXEC X_POP, 0), (0x68, OP_EXEC X_POP, 0), (0x69, OP_PUSH 1, 0x94),
     (0x6b, OP_EXEC X_JUMP, 0), (0x6c, OP_EXEC X_JUMPDEST, 0), (0x6d, OP_STOP, 0),
     (0x6e, OP_EXEC X_JUMPDEST, 0), (0x6f, OP_ENV ENV_CALLVALUE, 0), (0x70, OP_ALU ALU_ISZERO, 0),
     (0x71, OP_PUSH 1, 0x78), (0x73, OP_EXEC X_JUMPI, 0), (0x74, OP_PUSH 1, 0x0), (0x76, OP_DUP 1, 0),
     (0x77, OP_REVERT, 0), (0x78, OP_EXEC X_JUMPDEST, 0), (0x79, OP_PUSH 1, 0x7e),
     (0x7b, OP_PUSH 1, 0xce), (0x7d, OP_EXEC X_JUMP, 0), (0x7e, OP_EXEC X_JUMPDEST, 0),
     (0x7f, OP_PUSH 1, 0x40), (0x81, OP_EXEC X_MLOAD, 0), (0x82, OP_DUP 1, 0), (0x83, OP_DUP 3, 0),
     (0x84, OP_DUP 2, 0), (0x85, OP_EXEC X_MSTORE, 0), (0x86, OP_PUSH 1, 0x20),
     (0x88, OP_ALU ALU_ADD, 0), (0x89, OP_SWAP 3, 0), (0x8a, OP_EXEC X_POP, 0),
     (0x8b, OP_EXEC X_POP, 0), (0x8c, OP_PUSH 1, 0x40), (0x8e, OP_EXEC X_MLOAD, 0), (0x8f, OP_DUP 1, 0),
     (0x90, OP_SWAP 3, 0), (0x91, OP_ALU ALU_SUB, 0), (0x92, OP_SWAP 2, 0), (0x93, OP_RETURN, 0),
     (0x94, OP_EXEC X_JUMPDEST, 0), (0x95, OP_DUP 1, 0), (0x96, OP_PUSH 1, 0x0),
     (0x98, OP_EXEC X_SLOAD, 0),
     (0x99, OP_PUSH 32, 0xd81ec364c58bcc9b49b6c953fc8e1f1c158ee89255bae73029133234a2936aad),
     (0xba, OP_PUSH 1, 0x40), (0xbc, OP_EXEC X_MLOAD, 0), (0xbd, OP_PUSH 1, 0x40),
     (0xbf, OP_EXEC X_MLOAD, 0), (0xc0, OP_DUP 1, 0), (0xc1, OP_SWAP 3, 0), (0xc2, OP_ALU ALU_SUB, 0),
     (0xc3, OP_SWAP 2, 0), (0xc4, OP_LOG 3, 0), (0xc5, OP_DUP 1, 0), (0xc6, OP_PUSH 1, 0x0),
     (0xc8, OP_DUP 2, 0), (0xc9, OP_SWAP 2, 0), (0xca, OP_EXEC X_SSTORE, 0), (0xcb, OP_EXEC X_POP, 0),
     (0xcc, OP_EXEC X_POP, 0), (0xcd, OP_EXEC X_JUMP, 0), (0xce, OP_EXEC X_JUMPDEST, 0),
     (0xcf, OP_PUSH 1, 0x0), (0xd1, OP_DUP 1, 0), (0xd2, OP_EXEC X_SLOAD, 0), (0xd3, OP_SWAP 2, 0),
     (0xd4, OP_EXEC X_POP, 0), (0xd5, OP_SWAP 2, 0), (0xd6, OP_EXEC X_JUMP, 0), (0xd7, OP_STOP, 0)]"

lemma disassembled:
  "disassemble 0 storage_init = storage_init_listing" "disassemble 0 storage_instructions = storage_listing"
  "disassemble 0 log_init = log_init_listing" "disassemble 0 log_instructions = log_listing"
  by (simp_all add: hex_parts decoded Let_def push_size_def be_nat_def storage_init_listing_def storage_listing_def
      log_init_listing_def log_listing_def)

end
