(* ===== verification/Contract_States.thy ===== *)
theory Contract_States
  imports Evm_Isolation
begin

section \<open>States a contract can work on\<close>

text \<open>
  A state without an error in which an account is there: reading succeeds and shows what is there, and so
  does writing where the state is not read-only. The cache of such a state holds no removed account, so
  that it can be synced into its caller's.
\<close>

subsection \<open>Nothing is removed\<close>

fun settled :: "backend \<Rightarrow> bool" where
  "settled (Manager m) = True"
| "settled (Layer c b) = ((\<forall>a i. map_of (c_accounts c) a = Some i \<longrightarrow> \<not> ai_removed i) \<and> settled b)"

lemma settled_NewCache [simp]: "settled (Layer (NewCache ro) b) = settled b"
  by (simp add: NewCache_def)

lemma settled_set_info: "settled (Layer c b) \<Longrightarrow> \<not> ai_removed i \<Longrightarrow> settled (Layer (set_info c a i) b)"
  by (auto simp: set_info_def update_conv split: if_splits)

lemma settled_not_removed: "settled (Layer c b) \<Longrightarrow> \<not> removed_in c a"
  by (auto simp: removed_in_def)

lemma GetAccount_settled: "backend_GetAccount X b a = (r, b') \<Longrightarrow> settled b \<Longrightarrow> settled b'"
proof (induction b arbitrary: r b')
  case (Layer c b)
  obtain q c1 b1 where get: "cache_get X c b a = (q, c1, b1)"
    by (cases "cache_get X c b a")
  then have "settled (Layer c1 b1)"
  proof (cases rule: cache_get_cases)
    case (hit i)
    with Layer.prems(2) show ?thesis by simp
  next
    case (fail e)
    with Layer show ?thesis by simp
  next
    case (load acc)
    with Layer have "settled (Layer c b1)" by simp
    then have "settled (Layer (set_info c a (clean_info acc)) b1)"
      by (rule settled_set_info) simp
    with load show ?thesis
      by (simp only:)
  qed
  with Layer.prems(1) get show ?case
    by (auto split: sum.splits)
qed simp

lemma cache_get_settled:
  assumes "cache_get X c b a = (r, c', b')" and "settled (Layer c b)"
  shows "settled (Layer c' b')" and "r = Inr i \<Longrightarrow> \<not> ai_removed i"
proof -
  show "settled (Layer c' b')"
    using assms(1)
  proof (cases rule: cache_get_cases)
    case (hit i)
    with assms(2) show ?thesis by simp
  next
    case (fail e)
    with assms(2) GetAccount_settled [OF fail(2)] show ?thesis by simp
  next
    case (load acc)
    with assms(2) GetAccount_settled [OF load(2)] have "settled (Layer c b')" by simp
    then have "settled (Layer (set_info c a (clean_info acc)) b')"
      by (rule settled_set_info) simp
    with load show ?thesis
      by (simp only:)
  qed
  show "\<not> ai_removed i" if "r = Inr i"
    using assms(1) by (cases rule: cache_get_cases) (use that assms(2) in auto)
qed

lemma GetStorage_settled: "backend_GetStorage X b a k = (r, b') \<Longrightarrow> settled b \<Longrightarrow> settled b'"
proof (induction X b a k arbitrary: r b' rule: backend_GetStorage.induct)
  case (2 X c b a k)
  obtain q c1 b1 where get: "cache_get X c b a = (q, c1, b1)"
    by (cases "cache_get X c b a")
  note settled = cache_get_settled [OF get "2.prems"(2)]
  show ?case
  proof (cases q)
    case (Inl e)
    with "2.prems"(1) get settled(1) show ?thesis by (auto simp del: cache_get.simps)
  next
    case (Inr i)
    note IH = "2.IH" [OF get [symmetric] Inr refl]
    obtain u b2 where below: "backend_GetStorage X b1 a k = (u, b2)"
      by (cases "backend_GetStorage X b1 a k")
    have "settled (Layer c1 b2) \<and> settled (Layer (set_info c1 a (i\<lparr>ai_storage := w\<rparr>)) b2)"
      if "map_of (ai_storage i) k = None" for w
    proof -
      have "settled (Layer c1 b2)"
        using IH [OF that below] settled(1) by simp
      moreover from this have "settled (Layer (set_info c1 a (i\<lparr>ai_storage := w\<rparr>)) b2)"
        by (rule settled_set_info) (simp add: settled(2) [OF Inr])
      ultimately show ?thesis ..
    qed
    note new = this
    have "backend_GetStorage X (Layer c b) a k = (case map_of (ai_storage i) k of
        Some val \<Rightarrow> (Ok val, Layer c1 b1)
      | None \<Rightarrow> (case u of Ok val \<Rightarrow> (Ok val, Layer (set_info c1 a (i\<lparr>ai_storage := AList.update k val (ai_storage i)\<rparr>)) b2)
          | r \<Rightarrow> (r, Layer c1 b2)))"
      by (simp add: get Inr below del: cache_get.simps split: option.split res.split)
    with "2.prems"(1) settled(1) new show ?thesis
      by (auto simp del: settled.simps backend_GetStorage.simps split: option.splits res.splits)
  qed
qed simp

text \<open>Writing to a layer that is not read-only, at an account that is there.\<close>

lemma Layer_writes_succeed:
  assumes "\<not> c_readonly c" and "settled (Layer c b)" and "acc_view X (Layer c b) a = Inr (Some acc)"
  shows "\<exists>c' b'. backend_SetStorage X (Layer c b) a k v = (Ok (), Layer c' b') \<and> settled (Layer c' b') \<and> \<not> c_readonly c'"
    and "acc_Address new = a \<Longrightarrow>
      \<exists>c' b'. backend_UpdateAccount X (Layer c b) (Some new) = (Ok (), Layer c' b') \<and> settled (Layer c' b') \<and> \<not> c_readonly c'"
proof -
  obtain q c1 b1 where get: "cache_get X c b a = (q, c1, b1)"
    by (cases "cache_get X c b a")
  note settled = cache_get_settled [OF get assms(2)]
  have "(\<exists>i. q = Inr i \<and> ai_account i \<noteq> None) \<and> c_readonly c1 = c_readonly c"
    using get
  proof (cases rule: cache_get_cases)
    case (hit i)
    with assms(3) show ?thesis by (auto split: if_splits)
  next
    case (fail e)
    with assms(3) GetAccount_view [OF fail(2)] show ?thesis by auto
  next
    case (load acc')
    with assms(3) GetAccount_view [OF load(2)] show ?thesis by (auto simp: set_info_def)
  qed
  then obtain i where i: "q = Inr i" "ai_account i \<noteq> None" and ro: "\<not> c_readonly c1"
    using assms(1) by blast
  have new: "settled (Layer (set_info c1 a j) b1)" "\<not> c_readonly (set_info c1 a j)" if "ai_removed j = ai_removed i" for j
    by (rule settled_set_info [OF settled(1)]) (use settled(2) [OF i(1)] that ro in \<open>simp_all add: set_info_def\<close>)
  show "\<exists>c' b'. backend_SetStorage X (Layer c b) a k v = (Ok (), Layer c' b') \<and> settled (Layer c' b') \<and> \<not> c_readonly c'"
    using get i settled(2) assms(1) new by (auto simp del: cache_get.simps settled.simps)
  show "\<exists>c' b'. backend_UpdateAccount X (Layer c b) (Some new) = (Ok (), Layer c' b') \<and> settled (Layer c' b') \<and> \<not> c_readonly c'"
    if "acc_Address new = a"
    using get i settled(2) assms(1) new that by (auto simp del: cache_get.simps settled.simps)
qed

subsection \<open>Into the caller's cache\<close>

text \<open>A store that can be written to, with accounts that are there.\<close>

definition writable_at :: "('pk, 'z) externals_scheme \<Rightarrow> address set \<Rightarrow> backend \<Rightarrow> bool" where
  "writable_at X A b \<longleftrightarrow> (\<exists>c b'. b = Layer c b' \<and> \<not> c_readonly c) \<and> settled b \<and> coherent X b \<and>
     (\<forall>a \<in> A. \<exists>acc. acc_view X b a = Inr (Some acc))"

lemma writable_at_writes:
  assumes "writable_at X A s" and "a \<in> A"
  shows "\<exists>t. backend_SetStorage X s a k v = (Ok (), t) \<and> writable_at X A t"
    and "acc_Address new = a \<Longrightarrow> \<exists>t. backend_UpdateAccount X s (Some new) = (Ok (), t) \<and> writable_at X A t"
proof -
  obtain c b acc where s: "s = Layer c b" "\<not> c_readonly c" "settled (Layer c b)" "coherent X (Layer c b)"
    and acc: "acc_view X (Layer c b) a = Inr (Some acc)"
    using assms unfolding writable_at_def by blast
  have known: "\<forall>a \<in> A. \<exists>acc. acc_view X (Layer c b) a = Inr (Some acc)"
    using assms(1) unfolding writable_at_def s by blast
  note ok = Layer_writes_succeed [OF s(2,3) acc]
  obtain c1 b1 where set: "backend_SetStorage X (Layer c b) a k v = (Ok (), Layer c1 b1)" "settled (Layer c1 b1)" "\<not> c_readonly c1"
    using ok(1) by blast
  have "writable_at X A (Layer c1 b1)"
    using known Layer_SetStorage_Ok(2,3) [OF s(4) set(1)] set(2,3) unfolding writable_at_def by auto
  with set(1) show "\<exists>t. backend_SetStorage X s a k v = (Ok (), t) \<and> writable_at X A t"
    unfolding s by blast
  assume new: "acc_Address new = a"
  obtain c2 b2 where upd: "backend_UpdateAccount X (Layer c b) (Some new) = (Ok (), Layer c2 b2)" "settled (Layer c2 b2)" "\<not> c_readonly c2"
    using ok(2) [OF new] by blast
  have "acc_view X (Layer c2 b2) = put_account (acc_view X (Layer c b)) a (Some new)" "coherent X (Layer c2 b2)"
    using Layer_UpdateAccount_Ok(2,3) [OF s(4) upd(1)] unfolding new by blast+
  with known have "writable_at X A (Layer c2 b2)"
    using upd(2,3) unfolding writable_at_def by (auto simp: put_account_def simp del: acc_view.simps coherent.simps settled.simps)
  with upd(1) show "\<exists>t. backend_UpdateAccount X s (Some new) = (Ok (), t) \<and> writable_at X A t"
    unfolding s by blast
qed

lemma Sync_into_layer_succeeds:
  assumes co: "coherent X (Layer c (Layer c2 b))" and "settled (Layer c (Layer c2 b))" and "\<not> c_readonly c2"
    and same: "acc_view X (Layer c (Layer c2 b)) = acc_view X (Layer c2 b)"
  shows "\<exists>c' b'. backend_Sync X c (Layer c2 b) = (Ok (), Layer c' b') \<and> settled (Layer c' b') \<and> \<not> c_readonly c'"
proof (cases "c_readonly c")
  case True
  with assms show ?thesis
    by (simp add: backend_Sync_def Cache_Sync_def)
next
  case False
  define A where "A = {a. \<exists>i. map_of (c_accounts c) a = Some i \<and> ai_updated i}"
  let ?P = "writable_at X A"
  have live: "\<not> ai_removed i" and there: "ai_updated i \<Longrightarrow> \<exists>acc. ai_account i = Some acc \<and> acc_Address acc = a"
    if "map_of (c_accounts c) a = Some i" for a i
    using that assms(2) cache_ok_writable [of X c "Layer c2 b"] co by (auto simp: writable_def)
  have shown: "\<exists>acc. acc_view X (Layer c (Layer c2 b)) a = Inr (Some acc)" if "a \<in> A" for a
    using that live [of a] there [of a] by (auto simp: A_def)
  have start: "?P (Layer c2 b)"
    using shown assms unfolding writable_at_def same by simp
  have words: "\<exists>t. run_all (\<lambda>st key. case map_of sto key of None \<Rightarrow> (Ok (), st)
      | Some val \<Rightarrow> backend_SetStorage X st a key val) ks s = (Ok (), t) \<and> ?P t" if "?P s" "a \<in> A" for s a sto ks
    using writable_at_writes(1) [OF _ that(2)] by (intro run_all_Ok [where P = ?P] that(1)) (auto split: option.split)
  have account: "\<exists>t. Sync_account (backend_UpdateAccount X) (backend_RemoveAccount X) (backend_SetStorage X) a i s = (Ok (), t) \<and> ?P t"
    if s: "?P s" and i: "map_of (c_accounts c) a = Some i" for s a i
  proof (cases "ai_updated i")
    case True
    then obtain acc where acc: "ai_account i = Some acc" "acc_Address acc = a"
      using there [OF i] by blast
    have a: "a \<in> A"
      using i True by (auto simp: A_def)
    obtain t where t: "backend_UpdateAccount X s (Some acc) = (Ok (), t)" "?P t"
      using writable_at_writes(2) [OF s a acc(2)] by blast
    with words [OF t(2) a] live [OF i] True acc(1) show ?thesis
      by (simp add: Sync_account_def)
  next
    case False
    with s live [OF i] show ?thesis
      by (simp add: Sync_account_def)
  qed
  have "\<exists>t. run_all (\<lambda>st a. case map_of (c_accounts c) a of None \<Rightarrow> (Ok (), st)
      | Some i \<Rightarrow> Sync_account (backend_UpdateAccount X) (backend_RemoveAccount X) (backend_SetStorage X) a i st)
      (sort (map fst (c_accounts c))) (Layer c2 b) = (Ok (), t) \<and> ?P t"
    using account by (intro run_all_Ok [where P = ?P] start) (simp split: option.split)
  with False show ?thesis
    by (auto simp: backend_Sync_def Cache_Sync_def writable_at_def)
qed

subsection \<open>Reading\<close>

definition healthy :: "('pk, 'z) externals_scheme \<Rightarrow> evm_state \<Rightarrow> bool" where
  "healthy X st \<longleftrightarrow> st_error st = None \<and> coherent X (chain st) \<and> settled (chain st)"

text \<open>A state that came from another by reading.\<close>

definition reads_to :: "('pk, 'z) externals_scheme \<Rightarrow> evm_state \<Rightarrow> evm_state \<Rightarrow> bool" where
  "reads_to X st st' \<longleftrightarrow> evm_steps X st st' \<and> healthy X st' \<and> same_view X (chain st) (chain st')"

lemma reads_to_refl: "healthy X st \<Longrightarrow> reads_to X st st"
  by (simp add: reads_to_def)

lemma reads_to_trans: "reads_to X st st1 \<Longrightarrow> reads_to X st1 st2 \<Longrightarrow> reads_to X st st2"
  by (auto simp: reads_to_def intro: rtranclp_trans same_view_trans)

lemma reads_toD:
  assumes "reads_to X st st'"
  shows "healthy X st'" and "st_error st' = None" and "acc_view X (chain st') = acc_view X (chain st)"
    and "sto_view X (chain st') = sto_view X (chain st)" and "evm_steps X st st'"
  using assms by (simp_all add: reads_to_def healthy_def same_view_def)

lemma steps_layer:
  assumes "evm_steps X st st'"
  shows "c_readonly (st_cache st') = c_readonly (st_cache st)" and "st_options st' = st_options st"
  using evm_steps_invariant(1,4) [OF assms] by (simp_all add: same_layer_def chain_def)

lemma healthy_step:
  assumes "healthy X st" and "evm_steps X st st'" and "st_error st' = None" and "settled (chain st')"
  shows "healthy X st'"
  using assms evm_steps_invariant(2) [OF assms(2)] by (simp add: healthy_def)

lemma settled_set_chain: "settled b \<Longrightarrow> settled (chain st) \<Longrightarrow> settled (chain (set_chain st b))"
  by (cases b) (simp_all add: set_chain_def chain_def)

lemma healthy_account:
  assumes "healthy X st" and "acc_view X (chain st) a = Inr acc"
  shows "\<exists>st'. es_account X st a = (acc, st') \<and> es_Exists X st a = (acc \<noteq> None, st') \<and> reads_to X st st'"
proof -
  obtain r b where get: "backend_GetAccount X (chain st) a = (r, b)"
    by (cases "backend_GetAccount X (chain st) a")
  then have r: "r = Inr acc" and "same_view X (chain st) b"
    using GetAccount_view [OF get] assms(2) by auto
  then have ops: "es_account X st a = (acc, set_chain st b)" "es_Exists X st a = (acc \<noteq> None, set_chain st b)"
    using get by (simp_all add: es_account_def es_Exists_def)
  have "settled (chain st)" "st_error st = None"
    using assms(1) by (simp_all add: healthy_def)
  then have "settled (chain (set_chain st b))" "st_error (set_chain st b) = None"
    using GetAccount_settled [OF get] settled_set_chain by (simp_all add: set_chain_def split: backend.split)
  moreover have "evm_steps X st (set_chain st b)"
    using steps_account [of X st a] ops(1) by simp
  ultimately have "reads_to X st (set_chain st b)"
    using healthy_step [OF assms(1)] es_account_read(1) [OF ops(1)] by (simp add: reads_to_def)
  with ops show ?thesis
    by blast
qed

lemma healthy_code:
  assumes "healthy X st" and "acc_view X (chain st) a = Inr acc"
  shows "\<exists>st'. es_GetCode X st a = (Option.bind acc acc_Code, st') \<and> reads_to X st st'"
  using healthy_account [OF assms] by (cases acc) (auto simp: es_GetCode_def)

lemma healthy_storage:
  assumes "healthy X st" and "sto_view X (chain st) a k = Ok v"
  shows "\<exists>st'. es_GetStorage X st a k = (Ok v, st') \<and> reads_to X st st'"
proof -
  obtain r b where get: "backend_GetStorage X (chain st) a k = (r, b)"
    by (cases "backend_GetStorage X (chain st) a k")
  then have op: "es_GetStorage X st a k = (Ok v, set_chain st b)"
    using GetStorage_view [OF get] assms(2) by (simp add: es_GetStorage_def)
  have "settled (chain st)" "st_error st = None"
    using assms(1) by (simp_all add: healthy_def)
  then have "settled (chain (set_chain st b))" "st_error (set_chain st b) = None"
    using GetStorage_settled [OF get] settled_set_chain by (simp_all add: set_chain_def split: backend.split)
  moreover have "evm_steps X st (set_chain st b)"
    using steps_reads(1) [of X st a k] op by simp
  ultimately have "reads_to X st (set_chain st b)"
    using healthy_step [OF assms(1)] es_GetStorage_read(1) [OF op] by (simp add: reads_to_def)
  with op show ?thesis
    by blast
qed

text \<open>The permission to call, which an account of a deployed contract has whatever the global permissions.\<close>

definition may_call :: "account \<Rightarrow> bool" where
  "may_call acc \<longleftrightarrow> Perms (Base (acc_Permissions acc)) AND perm_Call = perm_Call \<and>
     SetBit (Base (acc_Permissions acc)) AND perm_Call = perm_Call"

lemma may_call_composed:
  assumes "may_call acc"
  shows "perm_Get (perm_Compose (Base (acc_Permissions acc)) g) perm_Call = Inr True"
proof -
  have inside: "bit p n" if "p AND perm_Call = perm_Call" "bit perm_Call n" for p :: perm_flag and n
    using that(2) bit_and_iff [of p perm_Call n] by (simp add: that(1))
  have bits: "bit (Perms (Base (acc_Permissions acc))) n" "bit (SetBit (Base (acc_Permissions acc))) n" if "bit perm_Call n" for n
    using assms inside that by (auto simp: may_call_def)
  have "Perms (perm_Compose (Base (acc_Permissions acc)) g) AND perm_Call = perm_Call"
    "SetBit (perm_Compose (Base (acc_Permissions acc)) g) AND perm_Call = perm_Call"
    by (rule bit_eqI; use bits in \<open>auto simp: perm_Compose_def bit_simps\<close>)+
  moreover have "perm_Call \<noteq> 0"
    by (simp add: perm_Call_def)
  ultimately show ?thesis
    by (simp add: perm_Get_def IsSet_def)
qed

lemma healthy_permission:
  assumes "healthy X st" and "acc_view X (chain st) GlobalPermissionsAddress = Inr g"
    and "acc_view X (chain st) a = Inr (Some acc)" and "may_call acc"
  shows "reads_to X st (EnsurePermission X st a perm_Call)"
proof -
  obtain p st1 where st1: "es_GetPermissions X st GlobalPermissionsAddress = (p, st1)" "reads_to X st st1"
    using healthy_account [OF assms(1,2)] by (auto simp: es_GetPermissions_def)
  then have "acc_view X (chain st1) a = Inr (Some acc)"
    using assms(3) reads_toD(3) by metis
  from healthy_account [OF reads_toD(1) [OF st1(2)] this]
  obtain st2 where st2: "es_GetPermissions X st1 a = (acc_Permissions acc, st2)" "reads_to X st1 st2"
    by (auto simp: es_GetPermissions_def)
  have "EnsurePermission X st a perm_Call = st2"
    using may_call_composed [OF assms(4)] by (simp add: EnsurePermission_def HasPermission_def st1(1) st2(1))
  with reads_to_trans [OF st1(2) st2(2)] show ?thesis
    by simp
qed

subsection \<open>Writing\<close>

lemma healthy_write:
  assumes "healthy X st" and "\<not> c_readonly (st_cache st)" and "acc_view X (chain st) a = Inr (Some acc)"
  shows "\<exists>st'. es_SetStorage X st a k v = (Ok (), st') \<and> healthy X st' \<and> evm_steps X st st' \<and>
    acc_view X (chain st') = acc_view X (chain st) \<and> sto_view X (chain st') = put_word (sto_view X (chain st)) a k v"
proof -
  have co: "coherent X (Layer (st_cache st) (st_backend st))" and se: "settled (Layer (st_cache st) (st_backend st))"
    and none: "st_error st = None"
    using assms(1) by (simp_all add: healthy_def chain_def del: settled.simps coherent.simps)
  obtain c' b' where set: "backend_SetStorage X (Layer (st_cache st) (st_backend st)) a k v = (Ok (), Layer c' b')"
    and settled: "settled (Layer c' b')"
    using Layer_writes_succeed(1) [OF assms(2) se assms(3) [unfolded chain_def]] by blast
  let ?st' = "set_chain st (Layer c' b')"
  have op: "es_SetStorage X st a k v = (Ok (), ?st')"
    using set by (simp add: es_SetStorage_def chain_def)
  have chain': "chain ?st' = Layer c' b'" "st_error ?st' = None"
    using none by (simp_all add: set_chain_def chain_def)
  have steps: "evm_steps X st ?st'"
    using steps_SetStorage [of X st a k v] op by simp
  have "healthy X ?st'"
    using healthy_step [OF assms(1) steps chain'(2)] settled by (simp only: chain'(1))
  with op steps Layer_SetStorage_Ok(3,4) [OF co set] chain'(1) show ?thesis
    by (auto simp: chain_def simp del: acc_view.simps sto_view.simps)
qed

lemma healthy_InitCode:
  assumes "healthy X st" and "\<not> c_readonly (st_cache st)" and "acc_view X (chain st) a = Inr (Some acc)"
    and "acc_Address acc = a" and "acc_Code acc = None"
  shows "healthy X (es_InitCode X st a code)"
    and "acc_view X (chain (es_InitCode X st a code)) = put_account (acc_view X (chain st)) a (Some (acc\<lparr>acc_Code := code\<rparr>))"
    and "sto_view X (chain (es_InitCode X st a code)) = sto_view X (chain st)"
proof -
  let ?new = "acc\<lparr>acc_Code := code\<rparr>" and ?st' = "es_InitCode X st a code"
  obtain st1 where st1: "es_account X st a = (Some acc, st1)" "reads_to X st st1"
    using healthy_account [OF assms(1,3)] by blast
  have init: "?st' = es_updateAccount X st1 ?new"
    using st1(1) assms(5) by (simp add: es_InitCode_def es_mustAccount_def)
  note read = reads_toD [OF st1(2)]
  have layer: "\<not> c_readonly (st_cache st1)" "settled (Layer (st_cache st1) (st_backend st1))"
    "coherent X (Layer (st_cache st1) (st_backend st1))"
    "acc_view X (Layer (st_cache st1) (st_backend st1)) a = Inr (Some acc)"
    using read(1,3) assms(2,3) steps_layer(1) [OF read(5)]
    by (simp_all only: healthy_def chain_def simp_thms)
  obtain c' b' where upd: "backend_UpdateAccount X (Layer (st_cache st1) (st_backend st1)) (Some ?new) = (Ok (), Layer c' b')"
    and settled: "settled (Layer c' b')"
    using Layer_writes_succeed(2) [OF layer(1,2,4), of ?new] assms(4) by auto
  have st': "?st' = set_chain st1 (Layer c' b')"
    using upd by (simp add: init es_updateAccount_def chain_def)
  then have none: "st_error ?st' = None" and chain': "chain ?st' = Layer c' b'"
    using read(2) by (simp_all add: set_chain_def chain_def)
  have "evm_steps X st ?st'"
    by (rule steps_writes(1))
  from healthy_step [OF assms(1) this none] show "healthy X ?st'"
    using settled by (simp only: chain')
  show "acc_view X (chain ?st') = put_account (acc_view X (chain st)) a (Some ?new)"
    "sto_view X (chain ?st') = sto_view X (chain st)"
    using Layer_UpdateAccount_Ok(3,4) [OF layer(3) upd] assms(4) read(3,4) unfolding chain' by (simp_all add: chain_def del: acc_view.simps sto_view.simps)
qed

subsection \<open>Nested states\<close>

lemma nested_start:
  assumes "healthy X st"
  shows "healthy X (es_NewCache st opts)"
    and "acc_view X (chain (es_NewCache st opts)) = acc_view X (chain st)"
    and "sto_view X (chain (es_NewCache st opts)) = sto_view X (chain st)"
    and "c_readonly (st_cache (es_NewCache st opts)) = (ReadOnly \<in> set (st_options st @ opts))"
proof -
  have chain: "chain (es_NewCache st opts) = Layer (NewCache (ReadOnly \<in> set (st_options st @ opts))) (chain st)"
    by (simp add: es_NewCache_def NewState_def chain_def)
  show "healthy X (es_NewCache st opts)"
    using assms unfolding healthy_def chain coherent_NewCache settled_NewCache by simp
  show "acc_view X (chain (es_NewCache st opts)) = acc_view X (chain st)"
    by (simp add: chain NewCache_def fun_eq_iff)
  have "sto_view X (Layer (NewCache ro) (chain st)) = sto_view X (chain st)" for ro
    by (auto simp: NewCache_def fun_eq_iff chain_def split: sum.split option.split)
  then show "sto_view X (chain (es_NewCache st opts)) = sto_view X (chain st)"
    by (simp only: chain)
  show "c_readonly (st_cache (es_NewCache st opts)) = (ReadOnly \<in> set (st_options st @ opts))"
    by (simp add: es_NewCache_def NewState_def NewCache_def)
qed

text \<open>A nested state that shows the accounts of its caller is synced into the caller's without an error.\<close>

lemma nested_sync:
  assumes "healthy X st" and rw: "\<not> c_readonly (st_cache st)" and steps: "evm_steps X (es_NewCache st opts) child"
    and "healthy X child" and same: "acc_view X (chain child) = acc_view X (chain st)"
  shows "\<exists>st'. sync_child X st child = (Ok (), st') \<and> healthy X st' \<and> evm_steps X st st' \<and>
    acc_view X (chain st') = acc_view X (chain st) \<and>
    (if c_readonly (st_cache child) then sto_view X (chain st') = sto_view X (chain st)
     else \<forall>a acc. acc_view X (chain st) a = Inr acc \<longrightarrow> sto_view X (chain st') a = sto_view X (chain child) a)"
proof -
  obtain c2 b2 where below: "st_backend child = Layer c2 b2"
    using chain_steps_Layer [OF evm_steps_backend [OF steps]] chain_Layer [of st] by auto
  then have chain: "chain child = Layer (st_cache child) (Layer c2 b2)"
    by (simp add: chain_def)
  have adopted: "chain (adopt st child) = Layer c2 b2" "same_view X (chain st) (Layer c2 b2)"
    using chain_adopt [OF steps] below by simp_all
  have rw2: "\<not> c_readonly c2"
    using steps_layer(1) [OF steps_adopt [OF steps]] rw adopted(1) by (simp add: chain_def)
  have co: "coherent X (Layer (st_cache child) (Layer c2 b2))" and se: "settled (Layer (st_cache child) (Layer c2 b2))"
    and none: "st_error child = None"
    using assms(4) by (simp_all only: healthy_def chain)
  have shown: "acc_view X (Layer (st_cache child) (Layer c2 b2)) = acc_view X (Layer c2 b2)"
    using same adopted(2) unfolding chain same_view_def by simp
  obtain c' b' where sync: "backend_Sync X (st_cache child) (Layer c2 b2) = (Ok (), Layer c' b')"
    and settled: "settled (Layer c' b')"
    using Sync_into_layer_succeeds [OF co se rw2 shown] by blast
  let ?st' = "set_chain st (Layer c' b')"
  have op: "sync_child X st child = (Ok (), ?st')"
    using sync none below by (simp add: sync_child_def es_Sync_def adopt_def)
  have chain': "chain ?st' = Layer c' b'" "st_error ?st' = None"
    using assms(1) by (simp_all add: set_chain_def chain_def healthy_def)
  have steps': "evm_steps X st ?st'"
    using steps_sync_child [OF steps op] .
  have ok: "healthy X ?st'"
    using healthy_step [OF assms(1) steps' chain'(2)] settled by (simp only: chain'(1))
  have views: "acc_view X (Layer c' b') = acc_view X (chain st) \<and>
    (if c_readonly (st_cache child) then sto_view X (Layer c' b') = sto_view X (chain st)
     else \<forall>a acc. acc_view X (chain st) a = Inr acc \<longrightarrow> sto_view X (Layer c' b') a = sto_view X (chain child) a)"
  proof (cases "c_readonly (st_cache child)")
    case True
    then have "Layer c' b' = Layer c2 b2"
      using sync by (simp add: backend_Sync_def Cache_Sync_def)
    with True adopted(2) show ?thesis
      by (simp only: same_view_def if_True)
  next
    case False
    note synced = Sync_into_cache(4,5) [OF co False sync]
    have "\<not> removed_in (st_cache child) a" for a
      using se by (rule settled_not_removed)
    with False synced same show ?thesis
      by (simp add: chain del: acc_view.simps sto_view.simps)
  qed
  show ?thesis
    by (rule exI [of _ ?st'], unfold chain'(1)) (intro conjI op ok steps' conjunct1 [OF views] conjunct2 [OF views])
qed

end
