(* ===== verification/Cell_Contracts.thy ===== *)
theory Cell_Contracts
  imports Contract_Execution Contract_States Code_Provenance
begin

section \<open>Contracts that hold a word\<close>

text \<open>
  The interface of a contract that holds one word at storage position 0, to be read by \<^verbatim>\<open>get()\<close> and
  written by \<^verbatim>\<open>set(uint256)\<close>, which may log the change: what its code does when the interpreter runs it
  (the locale \<open>cell_contract\<close>), and from that what transactions of the chaincode do that deploy it and call it.
\<close>

subsection \<open>States that serve a contract\<close>

definition serves :: "('pk, 'z) evm_externals_scheme \<Rightarrow> evm_state \<Rightarrow> address \<Rightarrow> bool" where
  "serves X st a \<longleftrightarrow> healthy X st \<and> \<not> c_readonly (st_cache st) \<and> (\<exists>acc. acc_view X (chain st) a = Inr (Some acc))"

text \<open>A state that came from another by writing one word.\<close>

definition writes_to :: "('pk, 'z) evm_externals_scheme \<Rightarrow> evm_state \<Rightarrow> evm_state \<Rightarrow> address \<Rightarrow> word256 \<Rightarrow> word256 \<Rightarrow> bool" where
  "writes_to X st st' a k v \<longleftrightarrow> evm_steps X st st' \<and> healthy X st' \<and> acc_view X (chain st') = acc_view X (chain st) \<and>
     sto_view X (chain st') = put_word (sto_view X (chain st)) a k v"

lemma serves_read:
  assumes "serves X st a" and "reads_to X st st'"
  shows "serves X st' a"
  using assms steps_layer(1) [OF reads_toD(5) [OF assms(2)]] reads_toD(1,3) [OF assms(2)] by (simp add: serves_def)

lemma serves_write:
  assumes "serves X st a"
  obtains st' where "es_SetStorage X st a k v = (Ok (), st')" and "writes_to X st st' a k v"
  using assms healthy_write by (fastforce simp: serves_def writes_to_def)

lemma writes_after_read:
  assumes "reads_to X st st1" and "writes_to X st1 st' a k v"
  shows "writes_to X st st' a k v"
  using assms(2) reads_toD [OF assms(1)] by (auto simp: writes_to_def intro: rtranclp_trans)

subsection \<open>The state a call runs on\<close>

lemma removed_not_shown: "acc_view X (chain st) a = Inr (Some acc) \<Longrightarrow> \<not> removed_in (st_cache st) a"
  by (auto simp: removed_in_def chain_def)

lemma initial_healthy:
  assumes "fresh_stub s" and "ledger_ok X (ledger s)"
  shows "healthy X (initial_state s)"
  using initial_coherent [OF assms] by (simp add: healthy_def NewCache_def)

lemma called_state:
  assumes "fresh_stub s" and "ledger_ok X (ledger s)" and acc: "ledger_account X (ledger s) a = Inr (Some acc)"
    and "code_bytes (acc_Code acc) = code" and "code \<noteq> []" and get: "es_GetCode X (initial_state s) a = (c, st)"
  shows "c = Some code" and "serves X st a" and "acc_view X (chain st) = ledger_account X (ledger s)"
    and "sto_view X (chain st) = sto_view X (chain (initial_state s))"
    and "sto_view X (chain st) a = ledger_storage X (ledger s) a" and "reads_to X (initial_state s) st"
proof -
  note views = initial_views [OF assms(1), of X]
  have "acc_view X (chain (initial_state s)) a = Inr (Some acc)"
    by (simp only: views acc)
  from healthy_code [OF initial_healthy [OF assms(1,2)] this] get
  have c: "c = acc_Code acc" and read: "reads_to X (initial_state s) st"
    by auto
  show "reads_to X (initial_state s) st"
    by (rule read)
  from c assms(4,5) show "c = Some code"
    by (auto simp: code_bytes_def split: option.splits)
  show shown: "acc_view X (chain st) = ledger_account X (ledger s)"
    by (simp only: reads_toD(3) [OF read] views)
  show "serves X st a"
    using reads_toD(1) [OF read] run_initial(2) [OF reads_toD(5) [OF read]] acc by (simp add: serves_def shown)
  show stored: "sto_view X (chain st) = sto_view X (chain (initial_state s))"
    by (rule reads_toD(4) [OF read])
  show "sto_view X (chain st) a = ledger_storage X (ledger s) a"
    by (simp only: stored views(2) acc) simp
qed

subsection \<open>The interface\<close>

definition get_selector :: bytes where "get_selector = [0x6d, 0x4c, 0xe6, 0x3c]"
definition set_selector :: bytes where "set_selector = [0x60, 0xfe, 0x47, 0xb1]"

definition set_data :: "word256 \<Rightarrow> bytes" where
  "set_data x = set_selector @ Word256_Bytes x"

locale cell_contract =
  fixes X :: "('pk, 'z) evm_externals_scheme" and code init :: bytes
    and logs :: "address \<Rightarrow> word256 \<Rightarrow> word256 \<Rightarrow> log_event list"
  assumes code_nonempty: "code \<noteq> []"
    and init_runs: "contract_call V F a (init @ code) input \<Longrightarrow> st_error (ac_state act) = None \<Longrightarrow> 1000 \<le> ac_gas act \<Longrightarrow>
      run_returns X V F act (Some code) (ac_state act) (ac_sink act)"
    and get_runs: "contract_call V F a code get_selector \<Longrightarrow> healthy X (ac_state act) \<Longrightarrow>
      sto_view X (chain (ac_state act)) a 0 = Ok v \<Longrightarrow> 1000 \<le> ac_gas act \<Longrightarrow>
      \<exists>st'. run_returns X V F act (Some (Word256_Bytes v)) st' (ac_sink act) \<and> reads_to X (ac_state act) st'"
    and set_runs: "contract_call V F a code (set_data x) \<Longrightarrow> \<not> fr_logfree F \<Longrightarrow> serves X (ac_state act) a \<Longrightarrow>
      sto_view X (chain (ac_state act)) a 0 = Ok v \<Longrightarrow> 1000 \<le> ac_gas act \<Longrightarrow>
      \<exists>st'. run_returns X V F act None st' ((ac_sink act)\<lparr>EventCache := EventCache (ac_sink act) @ map event_of_log (logs a v x)\<rparr>) \<and>
        writes_to X (ac_state act) st' a 0 x"
begin

lemma init_call:
  assumes "st_error st = None"
  shows "NewVM_Call X newParams origin nonce st sink caller a (Some (init @ code)) (init @ code) 0 10000 =
    (Ok (Some code), st, sink)"
proof -
  let ?act = "\<lparr>ac_state = st, ac_sink = sink, ac_gas = 10000, ac_sequence = 0\<rparr>"
  from init_runs [OF call_of_calls(1), of ?act origin nonce caller a "init @ code"] assms
  have "run_returns X (evmcc_vm newParams origin nonce) (call_of caller a (init @ code) (init @ code)) ?act (Some code) st sink"
    by simp
  with NewVM_Call_run [OF assms _ this assms] code_nonempty show ?thesis
    by simp
qed

lemma get_call:
  assumes "healthy X st" and "sto_view X (chain st) a 0 = Ok v"
  obtains st' where "NewVM_Call X newParams origin nonce st sink caller a (Some code) get_selector 0 10000 =
      (Ok (Some (Word256_Bytes v)), st', sink)" and "reads_to X st st'"
proof -
  let ?act = "\<lparr>ac_state = st, ac_sink = sink, ac_gas = 10000, ac_sequence = 0\<rparr>"
  from get_runs [OF call_of_calls(1), of ?act a v origin nonce caller] assms obtain st'
    where run: "run_returns X (evmcc_vm newParams origin nonce) (call_of caller a code get_selector) ?act (Some (Word256_Bytes v)) st' sink"
      and read: "reads_to X st st'"
    by auto
  from NewVM_Call_run [OF _ code_nonempty run] that read reads_toD(2) [OF read] assms(1) show ?thesis
    by (auto simp: healthy_def)
qed

lemma set_call:
  assumes "serves X st a" and "sto_view X (chain st) a 0 = Ok v"
  obtains st' where "NewVM_Call X newParams origin nonce st sink caller a (Some code) (set_data x) 0 10000 =
      (Ok None, st', sink\<lparr>EventCache := EventCache sink @ map event_of_log (logs a v x)\<rparr>)" and "writes_to X st st' a 0 x"
proof -
  let ?act = "\<lparr>ac_state = st, ac_sink = sink, ac_gas = 10000, ac_sequence = 0\<rparr>"
  from set_runs [OF call_of_calls, of ?act a v origin nonce caller x] assms obtain st'
    where run: "run_returns X (evmcc_vm newParams origin nonce) (call_of caller a code (set_data x)) ?act None st'
        (sink\<lparr>EventCache := EventCache sink @ map event_of_log (logs a v x)\<rparr>)"
      and set: "writes_to X st st' a 0 x"
    by auto
  have "st_error st = None" "st_error st' = None"
    using assms(1) set by (simp_all add: serves_def writes_to_def healthy_def)
  from NewVM_Call_run [OF this(1) code_nonempty run this(2)] that set show ?thesis
    by simp
qed

end

subsection \<open>Transactions\<close>

lemma hex_append: "hex_EncodeToString (as @ bs) = hex_EncodeToString as @ hex_EncodeToString bs"
  by (simp add: hex_EncodeToString_def)

text \<open>An event is named after the selector.\<close>

lemma take_selector:
  assumes "length sel = 4"
  shows "take 8 (hex_EncodeToString (sel @ data) @ rest) = hex_EncodeToString sel"
  using assms by (simp add: hex_append)

lemma length_selectors: "length get_selector = 4" "length set_selector = 4"
  by (simp_all add: get_selector_def set_selector_def)

text \<open>A call of the contract at an address by an invocation with the data in hex.\<close>

definition calls :: "('pk, 'z) evm_externals_scheme \<Rightarrow> stub \<Rightarrow> address \<Rightarrow> bytes \<Rightarrow> bool" where
  "calls X s a data \<longleftrightarrow> fresh_stub s \<and> a \<noteq> ZeroAddress \<and> (\<exists>caller. getCallerAddress X s = (caller, None)) \<and>
     invocation s (hex_EncodeToString (Address_Bytes a)) (hex_EncodeToString data)"

definition holds_code :: "('pk, 'z) evm_externals_scheme \<Rightarrow> (string \<rightharpoonup> bytes) \<Rightarrow> address \<Rightarrow> bytes \<Rightarrow> bool" where
  "holds_code X L a code \<longleftrightarrow> (\<exists>acc. ledger_account X L a = Inr (Some acc) \<and> code_bytes (acc_Code acc) = code)"

lemma evmcc_ledger_addressed: "evmcc_ledger X L \<Longrightarrow> codec_ok X \<Longrightarrow> ledger_ok X L"
  using evmcc_ledger_placed by (auto simp: ledger_ok_def placed_def)

lemma holds_code_kept:
  assumes "holds_code X L a code" and "kept (ledger_account X L' a) = kept (ledger_account X L a)"
  shows "holds_code X L' a code"
proof -
  obtain acc where acc: "ledger_account X L a = Inr (Some acc)" "code_bytes (acc_Code acc) = code"
    using assms(1) by (auto simp: holds_code_def)
  from assms(2) have "kept (ledger_account X L' a) = kept (Inr (Some acc))"
    by (simp only: acc(1))
  then obtain acc' where "ledger_account X L' a = Inr (Some acc')" "stored_account acc' = stored_account acc"
    by (auto simp only: kept_Inr)
  then show ?thesis
    using acc(2) stored_account_simps(2) [of acc'] stored_account_simps(2) [of acc] by (simp add: holds_code_def)
qed

lemma getCode_account:
  assumes "evmcc_getCode X s (bytes_of (hex_EncodeToString (Address_Bytes a))) = shim_Success (bytes_of (hex_EncodeToString code))"
    and "get_fault s = (\<lambda>_. None)" and "code \<noteq> []"
  shows "holds_code X (ledger s) a code"
proof -
  have hex: "bytes_of (hex_EncodeToString bs) = bytes_of (hex_EncodeToString code) \<longleftrightarrow> bs = code" for bs
    by (metis hex.print_inject string_of_bytes_of)
  have "bytes_of (hex_EncodeToString code) \<noteq> []"
    using assms(3) hex [of "[]"] by (simp add: hex_EncodeToString_def bytes_of_def)
  with assms(1,2) hex show ?thesis
    by (auto simp: holds_code_def evmcc_getCode_ledger ledger_account_def split: option.splits list.splits sum.splits)
qed

text \<open>What a call that succeeds ran and committed: where it changed no account, the ledger keeps the accounts,
  and the words are those of the state it left.\<close>

definition words_committed ::
    "('pk, 'z) evm_externals_scheme \<Rightarrow> stub \<Rightarrow> stub \<Rightarrow> evm_state \<Rightarrow> evm_state \<Rightarrow> bool" where
  "words_committed X s s' st1 st \<longleftrightarrow>
     (acc_view X (chain st) = acc_view X (chain st1) \<longrightarrow>
       (\<forall>b. kept (ledger_account X (commit s') b) = kept (ledger_account X (ledger s) b)) \<and>
       (\<forall>b acc. ledger_account X (ledger s) b = Inr (Some acc) \<longrightarrow>
         ledger_storage X (commit s') b = sto_view X (chain st) b \<and> sto_view X (chain st1) b = ledger_storage X (ledger s) b))"

lemma call_transaction:
  assumes "codec_ok X" and "ledger_ok X (ledger s)" and "holds_code X (ledger s) a code" and "code \<noteq> []"
    and "calls X s a data" and run: "evmcc_Invoke X (NewVM_Call X) s = (Ok (shim_Success r), s')"
  obtains origin nonce st1 out st sink rest where "reads_to X (initial_state s) st1" and "serves X st1 a"
    and "sto_view X (chain st1) a = ledger_storage X (ledger s) a"
    and "NewVM_Call X newParams origin nonce st1 \<lparr>EventCache = []\<rparr> origin a (Some code) data 0 10000 = (Ok out, st, sink)"
    and "r = code_bytes out"
    and "words_committed X s s' st1 st"
    and "chaincode_event s' = (if EventCache sink = [] then None
      else Some (take 8 (hex_EncodeToString data @ rest), projr (json_Marshal_events X (EventCache sink))))"
proof -
  obtain acc where acc: "ledger_account X (ledger s) a = Inr (Some acc)" "code_bytes (acc_Code acc) = code"
    using assms(3) by (auto simp: holds_code_def)
  obtain caller sp sp' where fresh: "fresh_stub s" and "a \<noteq> ZeroAddress" and caller: "getCallerAddress X s = (caller, None)"
    and args: "stub_args s = [\<lparr>contents = bytes_of (hex_EncodeToString (Address_Bytes a)), spare = sp\<rparr>,
      \<lparr>contents = bytes_of (hex_EncodeToString data), spare = sp'\<rparr>]"
    using assms(5) by (auto simp: calls_def invocation_def)
  from Invoke_commits [OF assms(1) NewVM_Call_ok fresh assms(2) this(2) args hex_decode_encode caller run]
  obtain c st1 out st sink where code: "es_GetCode X (initial_state s) a = (c, st1)"
    and call: "NewVM_Call X newParams caller (Nonce (sha256_Sum X) caller (bytes_of (stub_txid s))) st1 \<lparr>EventCache = []\<rparr>
      caller a c data 0 10000 = (Ok out, st, sink)" and r: "r = code_bytes out"
    and accounts: "\<And>a. kept (ledger_account X (commit s') a) = kept (acc_view X (chain st) a)"
    and words: "\<And>a acc. acc_view X (chain st) a = Inr acc \<Longrightarrow> \<not> removed_in (st_cache st) a \<Longrightarrow>
       ledger_storage X (commit s') a = sto_view X (chain st) a"
    and event: "chaincode_event s' = (if EventCache sink = [] then None
      else Some (take 8 (hex_EncodeToString data @ string_of sp'), projr (json_Marshal_events X (EventCache sink))))"
    by blast
  note st1 = called_state [OF fresh assms(2) acc assms(4) code]
  show ?thesis
  proof (rule that [OF st1(6,2,5) call [unfolded st1(1)] r _ event])
    show "words_committed X s s' st1 st"
      unfolding words_committed_def
    proof (intro impI conjI allI)
      fix b
      assume "acc_view X (chain st) = acc_view X (chain st1)"
      then have shown: "acc_view X (chain st) = ledger_account X (ledger s)"
        by (simp only: st1(3))
      then show "kept (ledger_account X (commit s') b) = kept (ledger_account X (ledger s) b)"
        by (simp only: accounts)
      fix other
      assume b: "ledger_account X (ledger s) b = Inr (Some other)"
      then have view: "acc_view X (chain st) b = Inr (Some other)"
        by (simp only: shown)
      from words [OF view removed_not_shown [OF view]]
      show "ledger_storage X (commit s') b = sto_view X (chain st) b" .
      show "sto_view X (chain st1) b = ledger_storage X (ledger s) b"
        using initial_views(2) [OF fresh, of X] b by (simp only: st1(4)) simp
    qed
  qed
qed

text \<open>The codec encodes what it decoded.\<close>

definition reencodes :: "('pk, 'z) externals_scheme \<Rightarrow> bool" where
  "reencodes X \<longleftrightarrow> (\<forall>bs acc. account_Decode X bs = Inr acc \<longrightarrow> (\<exists>bs'. account_Encode X acc = Inr bs'))"

lemma Invoke_succeeds:
  assumes "calls X s a data" and "4 \<le> length data" and "faultless s" and "ledger_ok X (ledger s)"
    and code: "es_GetCode X (initial_state s) a = (code, st1)" and none: "st_error st1 = None"
    and vm: "\<And>origin nonce. \<exists>st. NewVM_Call X newParams origin nonce st1 \<lparr>EventCache = []\<rparr> origin a code data 0 10000 = (Ok out, st, sink) \<and>
      st_error st = None \<and> (\<forall>b acc. acc_view X (chain st) b = Inr (Some acc) \<longrightarrow> (\<exists>bs. account_Encode X acc = Inr bs))"
    and marshals: "EventCache sink = [] \<or> (\<exists>bs. json_Marshal_events X (EventCache sink) = Inr bs)"
  shows "\<exists>s'. evmcc_Invoke X (NewVM_Call X) s = (Ok (shim_Success (code_bytes out)), s')"
proof -
  obtain caller sp sp' where fresh: "fresh_stub s" and a: "a \<noteq> ZeroAddress" and caller: "getCallerAddress X s = (caller, None)"
    and inv: "invocation s (hex_EncodeToString (Address_Bytes a)) (hex_EncodeToString data)"
    and args: "stub_args s = [\<lparr>contents = bytes_of (hex_EncodeToString (Address_Bytes a)), spare = sp\<rparr>,
      \<lparr>contents = bytes_of (hex_EncodeToString data), spare = sp'\<rparr>]"
    using assms(1) by (auto simp: calls_def invocation_def)
  let ?nonce = "Nonce (sha256_Sum X) caller (bytes_of (stub_txid s))"
  obtain st where call: "NewVM_Call X newParams caller ?nonce st1 \<lparr>EventCache = []\<rparr> caller a code data 0 10000 = (Ok out, st, sink)"
    and st: "st_error st = None" and encodes: "\<And>b acc. acc_view X (chain st) b = Inr (Some acc) \<Longrightarrow> \<exists>bs. account_Encode X acc = Inr bs"
    using vm by blast
  have "8 \<le> length (hex_EncodeToString data)"
    using assms(2) by simp
  then obtain name where name: "slice_to \<lparr>contents = bytes_of (hex_EncodeToString data), spare = sp'\<rparr> 8 = Ok name" "name \<noteq> []"
    using assms(2) by (cases data) (auto simp: slice_to_def bytes_of_def hex_EncodeToString_def hex_digits_def)
  then have named: "string_of name \<noteq> []"
    by (simp add: string_of_def)
  have "evm_steps X (initial_state s) st1"
    using steps_reads(4) [of X "initial_state s" a] code by simp
  then have run: "evm_steps X (initial_state s) st"
    using vm_okD(1) [OF NewVM_Call_ok call] by (rule rtranclp_trans)
  have "\<exists>st5 st6. sink_Flush X sink st (string_of name) = (None, st5) \<and> es_Sync X st5 = (Ok (), st6)"
    by (rule flush_sync_succeeds [OF run fresh assms(3,4) st named _ marshals]) (rule encodes)
  then obtain st5 st6 where "sink_Flush X sink st (string_of name) = (None, st5)" "es_Sync X st5 = (Ok (), st6)"
    by blast
  with code none call name(1) have "evmcc_call X (NewVM_Call X newParams caller ?nonce) (initial_state s) \<lparr>EventCache = []\<rparr>
      caller a \<lparr>contents = bytes_of (hex_EncodeToString data), spare = sp'\<rparr> data 10000 = (Ok (shim_Success (code_bytes out)), st6)"
    by (simp add: evmcc_call_def)
  moreover have "evmcc_Invoke X (NewVM_Call X) s = apsnd st_stub (evmcc_call X (NewVM_Call X newParams caller ?nonce)
      (initial_state s) \<lparr>EventCache = []\<rparr> caller a (stub_args s ! 1) data 10000)"
    using Invoke_two_args [OF inv _ _ _ caller hex_decode_encode, of "Address_Bytes a" "NewVM_Call X"] a
    by (simp add: Let_def)
  ultimately show ?thesis
    by (simp add: args)
qed

lemma ledger_reencodes:
  "reencodes X \<Longrightarrow> ledger_account X L a = Inr (Some acc) \<Longrightarrow> \<exists>bs. account_Encode X acc = Inr bs"
  by (auto simp: reencodes_def ledger_account_def split: option.splits list.splits sum.splits if_splits)

text \<open>
  A deployment at a free address: its constructor runs on a state whose cache holds the new account, and
  where the account with its code encodes and the peer takes the write, it succeeds.
\<close>

lemma free_account:
  assumes "fresh_stub s" and "ledger_account X (ledger s) a = Inr None"
  shows "sm_GetAccount X (NewStateManager s) a = Inr None"
  using assms sm_GetAccount_ledger [of "NewStateManager s" X a] by (simp add: fresh_stub_def NewStateManager_def)

definition new_info :: "account \<Rightarrow> account_info" where
  "new_info acc = \<lparr>ai_account = Some acc, ai_storage = [], ai_removed = False, ai_updated = True\<rparr>"

definition new_state :: "stub \<Rightarrow> account \<Rightarrow> evm_state" where
  "new_state s acc = (initial_state s)\<lparr>st_cache := \<lparr>c_accounts = [(acc_Address acc, new_info acc)], c_readonly = False\<rparr>\<rparr>"

lemmas new_state_defs = new_state_def new_info_def initial_state_def NewState_def NewCache_def set_chain_def chain_def
  es_PushError_def es_mustAccount_def es_account_def es_updateAccount_def es_Exists_def set_info_def Let_def cache_get.simps

lemma new_state_writes:
  assumes "sm_GetAccount X (NewStateManager s) a = Inr None"
  shows "es_CreateAccount X (initial_state s) a = new_state s (new_account a)"
    and "acc_Address acc = a \<Longrightarrow> es_SetPermission X (new_state s acc) a flag v =
      new_state s (map_base (\<lambda>bp. snd (perm_Set bp flag v)) acc)"
    and "acc_Address acc = a \<Longrightarrow> acc_Code acc = None \<Longrightarrow>
      es_InitCode X (new_state s acc) a (Some code) = new_state s (acc\<lparr>acc_Code := Some code\<rparr>)"
  using assms
  by (simp_all add: es_CreateAccount_def es_SetPermission_def es_InitCode_def new_state_defs new_account_def
      map_base_def map_permissions_def)

lemma new_state_syncs:
  assumes "faultless s" and "account_Encode X acc = Inr bs"
  shows "\<exists>st5 st6. sink_Flush X \<lparr>EventCache = []\<rparr> (new_state s acc) name = (None, st5) \<and> es_Sync X st5 = (Ok (), st6)"
proof -
  have "hex_EncodeToString (Address_Bytes (acc_Address acc)) \<noteq> []"
    by (simp only: length_0_conv [symmetric] length_hex) simp
  then show ?thesis
    using assms by (simp add: sink_Flush_def em_Flush_def new_state_defs NewStateManager_def st_stub_def es_Sync_def
        backend_Sync_def Cache_Sync_def Sync_account_def sm_UpdateAccount_def PutState_def faultless_def res_of_error_def)
qed

lemma Invoke_deploy_succeeds:
  assumes "fresh_stub s" and "faultless s" and caller: "getCallerAddress X s = (caller, None)"
    and inv: "invocation s (hex_EncodeToString (Address_Bytes ZeroAddress)) (hex_EncodeToString input)"
    and nonce: "nonce = Nonce (sha256_Sum X) caller (bytes_of (stub_txid s))"
    and a: "a = NewContractAddress (sha256_Sum X) caller nonce" and free: "ledger_account X (ledger s) a = Inr None"
    and vm: "\<And>st. st_error st = None \<Longrightarrow> NewVM_Call X newParams caller nonce st \<lparr>EventCache = []\<rparr> caller a (Some input) input 0 10000 =
      (Ok (Some rt), st, \<lparr>EventCache = []\<rparr>)"
    and encodes: "account_Encode X ((contract_account a)\<lparr>acc_Code := Some rt\<rparr>) = Inr bs"
  shows "\<exists>s'. evmcc_Invoke X (NewVM_Call X) s = (Ok (shim_Success (bytes_of (hex_EncodeToString (Address_Bytes a)))), s')"
proof -
  note writes = new_state_writes [OF free_account [OF assms(1) free]]
  have none: "st_error (new_state s acc) = None" for acc
    by (simp add: new_state_def)
  have created: "es_SetPermission X (new_state s (new_account a)) a ContractPermFlags True = new_state s (contract_account a)"
    unfolding contract_account_def by (rule writes(2)) (simp add: new_account_def)
  obtain st5 st6 where "sink_Flush X \<lparr>EventCache = []\<rparr> (new_state s ((contract_account a)\<lparr>acc_Code := Some rt\<rparr>))
      (hex_EncodeToString (take 4 (Address_Bytes a))) = (None, st5)" and "es_Sync X st5 = (Ok (), st6)"
    using new_state_syncs [OF assms(2) encodes] by blast
  then have "evmcc_deploy X (NewVM_Call X newParams caller nonce) (initial_state s) \<lparr>EventCache = []\<rparr> caller nonce input 10000 =
      (Ok (shim_Success (bytes_of (hex_EncodeToString (Address_Bytes a)))), st6)"
    using vm [OF none] writes(1,3) by (simp add: evmcc_deploy_def Let_def none created a [symmetric])
  moreover have "evmcc_Invoke X (NewVM_Call X) s = apsnd st_stub (evmcc_deploy X (NewVM_Call X newParams caller nonce)
      (initial_state s) \<lparr>EventCache = []\<rparr> caller nonce input 10000)"
    using Invoke_two_args [OF inv _ _ _ caller hex_decode_encode, of "Address_Bytes ZeroAddress" "NewVM_Call X"]
    by (simp add: Let_def nonce)
  ultimately show ?thesis
    by simp
qed

text \<open>A ledger keeps its accounts under their addresses when it keeps the accounts.\<close>

lemma ledger_ok_kept:
  assumes "ledger_ok X L" and "\<And>a. kept (ledger_account X L' a) = kept (ledger_account X L a)"
  shows "ledger_ok X L'"
  unfolding ledger_ok_def
proof (intro allI impI)
  fix a acc
  assume "ledger_account X L' a = Inr (Some acc)"
  with assms(2) [of a] have "kept (ledger_account X L a) = kept (Inr (Some acc))"
    by simp
  then obtain acc' where "ledger_account X L a = Inr (Some acc')" "stored_account acc' = stored_account acc"
    by (auto simp only: kept_Inr)
  then show "acc_Address acc = a"
    using assms(1) stored_account_simps(1) [of acc'] stored_account_simps(1) [of acc] by (simp add: ledger_ok_def)
qed

text \<open>A call succeeds whose code returns on every state that shows the ledger, without touching an account.\<close>

lemma call_succeeds:
  assumes "ledger_ok X (ledger s)" and "holds_code X (ledger s) a code" and "code \<noteq> []" and "calls X s a data"
    and "4 \<le> length data" and "faultless s" and "reencodes X"
    and marshals: "EventCache sink = [] \<or> (\<exists>bs. json_Marshal_events X (EventCache sink) = Inr bs)"
    and vm: "\<And>st1 origin nonce. reads_to X (initial_state s) st1 \<Longrightarrow> serves X st1 a \<Longrightarrow> acc_view X (chain st1) = ledger_account X (ledger s) \<Longrightarrow>
      sto_view X (chain st1) = sto_view X (chain (initial_state s)) \<Longrightarrow>
      \<exists>st. NewVM_Call X newParams origin nonce st1 \<lparr>EventCache = []\<rparr> origin a (Some code) data 0 10000 = (Ok out, st, sink) \<and>
        st_error st = None \<and> acc_view X (chain st) = acc_view X (chain st1)"
  shows "\<exists>s'. evmcc_Invoke X (NewVM_Call X) s = (Ok (shim_Success (code_bytes out)), s')"
proof -
  have fresh: "fresh_stub s"
    using assms(4) by (simp add: calls_def)
  obtain acc where acc: "ledger_account X (ledger s) a = Inr (Some acc)" "code_bytes (acc_Code acc) = code"
    using assms(2) by (auto simp: holds_code_def)
  obtain c st1 where get: "es_GetCode X (initial_state s) a = (c, st1)"
    by (cases "es_GetCode X (initial_state s) a")
  note st1 = called_state [OF fresh assms(1) acc assms(3) get]
  show ?thesis
  proof (rule Invoke_succeeds [OF assms(4,5,6,1) get _ _ marshals])
    show "st_error st1 = None"
      using st1(2) by (simp add: serves_def healthy_def)
    fix origin nonce
    obtain st where call: "NewVM_Call X newParams origin nonce st1 \<lparr>EventCache = []\<rparr> origin a (Some code) data 0 10000 = (Ok out, st, sink)"
      and none: "st_error st = None" and shown: "acc_view X (chain st) = ledger_account X (ledger s)"
      using vm [OF st1(6,2,3,4)] st1(3) by metis
    have "\<forall>b acc. acc_view X (chain st) b = Inr (Some acc) \<longrightarrow> (\<exists>bs. account_Encode X acc = Inr bs)"
      unfolding shown using ledger_reencodes [OF assms(7)] by blast
    with call none show "\<exists>st. NewVM_Call X newParams origin nonce st1 \<lparr>EventCache = []\<rparr> origin a c data 0 10000 = (Ok out, st, sink) \<and>
      st_error st = None \<and> (\<forall>b acc. acc_view X (chain st) b = Inr (Some acc) \<longrightarrow> (\<exists>bs. account_Encode X acc = Inr bs))"
      unfolding st1(1) by blast
  qed
qed

lemma initial_word:
  assumes "fresh_stub s" and "ledger_account X (ledger s) a = Inr acc"
  shows "sto_view X (chain (initial_state s)) a = ledger_storage X (ledger s) a"
  by (simp only: initial_views(2) [OF assms(1)] assms(2)) simp

context cell_contract
begin

text \<open>Neither call can fail where the peer takes the writes.\<close>

lemma set_succeeds:
  assumes "ledger_ok X (ledger s)" and "holds_code X (ledger s) a code" and "calls X s a (set_data x)"
    and stored: "ledger_storage X (ledger s) a 0 = Ok v" and "faultless s" and "reencodes X"
    and marshals: "logs a v x = [] \<or> (\<exists>bs. json_Marshal_events X (map event_of_log (logs a v x)) = Inr bs)"
  shows "\<exists>s'. evmcc_Invoke X (NewVM_Call X) s = (Ok (shim_Success []), s')"
proof -
  let ?sink = "\<lparr>EventCache = []\<rparr>\<lparr>EventCache := EventCache \<lparr>EventCache = []\<rparr> @ map event_of_log (logs a v x)\<rparr>"
  obtain acc where "ledger_account X (ledger s) a = Inr (Some acc)"
    using assms(2) by (auto simp: holds_code_def)
  then have word: "sto_view X (chain (initial_state s)) a 0 = Ok v"
    using initial_word [of s X a] assms(3) stored by (simp add: calls_def)
  have "\<exists>s'. evmcc_Invoke X (NewVM_Call X) s = (Ok (shim_Success (code_bytes None)), s')"
  proof (rule call_succeeds [OF assms(1,2) code_nonempty assms(3) _ assms(5,6), where sink = ?sink])
    fix st1 origin nonce
    assume st1: "serves X st1 a" "sto_view X (chain st1) = sto_view X (chain (initial_state s))"
    then have "sto_view X (chain st1) a 0 = Ok v"
      by (simp only: word)
    from set_call [OF st1(1) this, of origin nonce "\<lparr>EventCache = []\<rparr>" origin x]
    show "\<exists>st. NewVM_Call X newParams origin nonce st1 \<lparr>EventCache = []\<rparr> origin a (Some code) (set_data x) 0 10000 = (Ok None, st, ?sink) \<and>
        st_error st = None \<and> acc_view X (chain st) = acc_view X (chain st1)"
      by (metis writes_to_def healthy_def)
  qed (use marshals in \<open>simp_all add: set_data_def length_selectors\<close>)
  then show ?thesis
    by (simp add: code_bytes_def)
qed

lemma get_succeeds:
  assumes "ledger_ok X (ledger s)" and "holds_code X (ledger s) a code" and "calls X s a get_selector"
    and stored: "ledger_storage X (ledger s) a 0 = Ok v" and "faultless s" and "reencodes X"
  shows "\<exists>s'. evmcc_Invoke X (NewVM_Call X) s = (Ok (shim_Success (Word256_Bytes v)), s')"
proof -
  obtain acc where "ledger_account X (ledger s) a = Inr (Some acc)"
    using assms(2) by (auto simp: holds_code_def)
  then have word: "sto_view X (chain (initial_state s)) a 0 = Ok v"
    using initial_word [of s X a] assms(3) stored by (simp add: calls_def)
  have "\<exists>s'. evmcc_Invoke X (NewVM_Call X) s = (Ok (shim_Success (code_bytes (Some (Word256_Bytes v)))), s')"
  proof (rule call_succeeds [OF assms(1,2) code_nonempty assms(3) _ assms(5,6), where sink = "\<lparr>EventCache = []\<rparr>"])
    fix st1 origin nonce
    assume st1: "serves X st1 a" "sto_view X (chain st1) = sto_view X (chain (initial_state s))"
    then have "sto_view X (chain st1) a 0 = Ok v" and "healthy X st1"
      by (simp_all only: word serves_def)
    from get_call [OF this(2,1), of origin nonce "\<lparr>EventCache = []\<rparr>" origin]
    show "\<exists>st. NewVM_Call X newParams origin nonce st1 \<lparr>EventCache = []\<rparr> origin a (Some code) get_selector 0 10000 =
        (Ok (Some (Word256_Bytes v)), st, \<lparr>EventCache = []\<rparr>) \<and>
        st_error st = None \<and> acc_view X (chain st) = acc_view X (chain st1)"
      by (metis reads_toD(2,3))
  qed (simp_all add: length_selectors)
  then show ?thesis
    by (simp add: code_bytes_def)
qed

lemma init_succeeds:
  assumes "fresh_stub s" and "faultless s" and "getCallerAddress X s = (caller, None)"
    and "invocation s (hex_EncodeToString (Address_Bytes ZeroAddress)) (hex_EncodeToString (init @ code))"
    and "a = NewContractAddress (sha256_Sum X) caller (Nonce (sha256_Sum X) caller (bytes_of (stub_txid s)))"
    and "ledger_account X (ledger s) a = Inr None"
    and "account_Encode X ((contract_account a)\<lparr>acc_Code := Some code\<rparr>) = Inr bs"
  shows "\<exists>s'. evmcc_Invoke X (NewVM_Call X) s = (Ok (shim_Success (bytes_of (hex_EncodeToString (Address_Bytes a)))), s')"
  by (rule Invoke_deploy_succeeds [OF assms(1-4) refl assms(5,6) init_call assms(7)])

lemma set_transaction:
  assumes "codec_ok X" and "ledger_ok X (ledger s)" and "holds_code X (ledger s) a code"
    and "calls X s a (set_data x)" and stored: "ledger_storage X (ledger s) a 0 = Ok v"
    and run: "evmcc_Invoke X (NewVM_Call X) s = (Ok (shim_Success r), s')"
  shows "r = []" and "kept (ledger_account X (commit s') b) = kept (ledger_account X (ledger s) b)"
    and "ledger_account X (ledger s) b = Inr (Some acc) \<Longrightarrow>
      ledger_storage X (commit s') b = (if b = a then (ledger_storage X (ledger s) a)(0 := Ok x) else ledger_storage X (ledger s) b)"
    and "chaincode_event s' = (if logs a v x = [] then None
      else Some (hex_EncodeToString set_selector, projr (json_Marshal_events X (map event_of_log (logs a v x)))))"
proof -
  obtain origin nonce st1 out st sink rest where "reads_to X (initial_state s) st1" and st1: "serves X st1 a" "sto_view X (chain st1) a = ledger_storage X (ledger s) a"
    and call: "NewVM_Call X newParams origin nonce st1 \<lparr>EventCache = []\<rparr> origin a (Some code) (set_data x) 0 10000 = (Ok out, st, sink)"
    and r: "r = code_bytes out"
    and committed: "words_committed X s s' st1 st"
    and event: "chaincode_event s' = (if EventCache sink = [] then None
      else Some (take 8 (hex_EncodeToString (set_data x) @ rest), projr (json_Marshal_events X (EventCache sink))))"
    by (rule call_transaction [OF assms(1,2,3) code_nonempty assms(4) run])
  have "sto_view X (chain st1) a 0 = Ok v"
    by (simp only: st1(2) stored)
  then obtain st' where set: "NewVM_Call X newParams origin nonce st1 \<lparr>EventCache = []\<rparr> origin a (Some code) (set_data x) 0 10000 =
      (Ok None, st', \<lparr>EventCache = []\<rparr>\<lparr>EventCache := EventCache \<lparr>EventCache = []\<rparr> @ map event_of_log (logs a v x)\<rparr>)" and written: "writes_to X st1 st' a 0 x"
    by (rule set_call [OF st1(1)])
  have acc': "acc_view X (chain st') = acc_view X (chain st1)" and sto': "sto_view X (chain st') = put_word (sto_view X (chain st1)) a 0 x"
    using written by (simp_all only: writes_to_def)
  have out: "out = None" "st = st'" "EventCache sink = map event_of_log (logs a v x)"
    using call set by auto
  show "r = []"
    by (simp add: r out code_bytes_def)
  show "kept (ledger_account X (commit s') b) = kept (ledger_account X (ledger s) b)" for b
    using committed by (simp only: words_committed_def out acc')
  show "ledger_storage X (commit s') b = (if b = a then (ledger_storage X (ledger s) a)(0 := Ok x) else ledger_storage X (ledger s) b)"
    if "ledger_account X (ledger s) b = Inr (Some acc)"
    using committed that by (auto simp: words_committed_def out acc' sto' st1(2) put_word_def)
  show "chaincode_event s' = (if logs a v x = [] then None
      else Some (hex_EncodeToString set_selector, projr (json_Marshal_events X (map event_of_log (logs a v x)))))"
    using event take_selector [of set_selector "Word256_Bytes x" rest] by (simp add: out set_data_def length_selectors)
qed

lemma get_transaction:
  assumes "codec_ok X" and "ledger_ok X (ledger s)" and "holds_code X (ledger s) a code"
    and "calls X s a get_selector" and stored: "ledger_storage X (ledger s) a 0 = Ok v"
    and run: "evmcc_Invoke X (NewVM_Call X) s = (Ok (shim_Success r), s')"
  shows "r = Word256_Bytes v" and "kept (ledger_account X (commit s') b) = kept (ledger_account X (ledger s) b)"
    and "ledger_account X (ledger s) b = Inr (Some acc) \<Longrightarrow> ledger_storage X (commit s') b = ledger_storage X (ledger s) b"
    and "chaincode_event s' = None"
proof -
  obtain origin nonce st1 out st sink rest where "reads_to X (initial_state s) st1" and st1: "serves X st1 a" "sto_view X (chain st1) a = ledger_storage X (ledger s) a"
    and call: "NewVM_Call X newParams origin nonce st1 \<lparr>EventCache = []\<rparr> origin a (Some code) get_selector 0 10000 = (Ok out, st, sink)"
    and r: "r = code_bytes out"
    and committed: "words_committed X s s' st1 st"
    and event: "chaincode_event s' = (if EventCache sink = [] then None
      else Some (take 8 (hex_EncodeToString get_selector @ rest), projr (json_Marshal_events X (EventCache sink))))"
    by (rule call_transaction [OF assms(1,2,3) code_nonempty assms(4) run])
  have "sto_view X (chain st1) a 0 = Ok v"
    by (simp only: st1(2) stored)
  then obtain st' where get: "NewVM_Call X newParams origin nonce st1 \<lparr>EventCache = []\<rparr> origin a (Some code) get_selector 0 10000 =
      (Ok (Some (Word256_Bytes v)), st', \<lparr>EventCache = []\<rparr>)" and read: "reads_to X st1 st'"
    by (rule get_call [OF st1(1) [unfolded serves_def, THEN conjunct1]])
  have out: "out = Some (Word256_Bytes v)" "st = st'" "EventCache sink = []"
    using call get by auto
  note acc' = reads_toD(3) [OF read] and sto' = reads_toD(4) [OF read]
  show "r = Word256_Bytes v" and "chaincode_event s' = None"
    using event by (simp_all add: r out code_bytes_def)
  show "kept (ledger_account X (commit s') b) = kept (ledger_account X (ledger s) b)" for b
    using committed by (simp only: words_committed_def out acc')
  show "ledger_storage X (commit s') b = ledger_storage X (ledger s) b" if "ledger_account X (ledger s) b = Inr (Some acc)"
    using committed that by (auto simp: words_committed_def out acc' sto')
qed

text \<open>A deployment puts the code at the address it answers.\<close>

lemma init_transaction:
  assumes "codec_ok X" and "ledger_ok X (ledger s)" and "fresh_stub s" and caller: "getCallerAddress X s = (caller, None)"
    and "invocation s (hex_EncodeToString (Address_Bytes ZeroAddress)) (hex_EncodeToString (init @ code))"
    and run: "evmcc_Invoke X (NewVM_Call X) s = (Ok (shim_Success r), s')"
  obtains a where "r = bytes_of (hex_EncodeToString (Address_Bytes a))" and "holds_code X (commit s') a code"
    and "a = NewContractAddress (sha256_Sum X) caller (Nonce (sha256_Sum X) caller (bytes_of (stub_txid s)))"
proof -
  let ?nonce = "Nonce (sha256_Sum X) caller (bytes_of (stub_txid s))"
  let ?a = "NewContractAddress (sha256_Sum X) caller ?nonce"
  obtain rt st sink where call: "NewVM_Call X newParams caller ?nonce (deploy_state X s ?a) \<lparr>EventCache = []\<rparr>
      caller ?a (Some (init @ code)) (init @ code) 0 10000 = (Ok (Some rt), st, sink)"
    and r: "r = bytes_of (hex_EncodeToString (Address_Bytes ?a))"
    and served: "evmcc_getCode X (next_transaction s') r = shim_Success (bytes_of (hex_EncodeToString rt))"
    and "get_fault s' = (\<lambda>_. None)"
    using Invoke_deploys [OF assms(1) NewVM_Call_ok assms(3,2,5) hex_decode_encode caller run refl refl] by blast
  have "rt = code"
  proof (cases "st_error (deploy_state X s ?a)")
    case None
    from init_call [OF this] call show ?thesis
      by simp
  next
    case (Some e)
    from VM_Call_stopped [OF this, of X] call show ?thesis
      by simp
  qed
  with served r have "holds_code X (commit s') ?a code"
    using getCode_account [of X "next_transaction s'" ?a code] \<open>get_fault s' = (\<lambda>_. None)\<close> code_nonempty
    by (simp add: next_transaction_def)
  with that [OF r] show ?thesis
    by simp
qed

lemma deployed:
  assumes "codec_ok X" and L: "evmcc_ledger X (ledger s)" and "fresh_stub s" and "getCallerAddress X s = (caller, None)"
    and "invocation s (hex_EncodeToString (Address_Bytes ZeroAddress)) (hex_EncodeToString (init @ code))"
    and run: "evmcc_Invoke X (NewVM_Call X) s = (Ok (shim_Success (bytes_of (hex_EncodeToString (Address_Bytes a)))), s')"
  shows "holds_code X (commit s') a code" and "evmcc_ledger X (commit s')"
proof -
  show "evmcc_ledger X (commit s')"
    by (rule evmcc_ledger.transaction [OF L _ run]) (use assms(3) in \<open>simp add: fresh_stub_def\<close>)
  obtain b where "bytes_of (hex_EncodeToString (Address_Bytes a)) = bytes_of (hex_EncodeToString (Address_Bytes b))"
    and "holds_code X (commit s') b code"
    by (rule init_transaction [OF assms(1) evmcc_ledger_addressed [OF L assms(1)] assms(3-6)])
  then show "holds_code X (commit s') a code"
    by (metis Address_Bytes_inject hex.print_inject string_of_bytes_of)
qed

text \<open>Where the contract stands a word can be set, and from then on it is what is read.\<close>

lemma contract_remembers:
  assumes ok: "codec_ok X" "reencodes X" and L: "ledger_ok X (ledger s)" and here: "holds_code X (ledger s) a code"
    and set: "calls X s a (set_data x)" "ledger_storage X (ledger s) a 0 = Ok v" "faultless s"
    and marshals: "logs a v x = [] \<or> (\<exists>bs. json_Marshal_events X (map event_of_log (logs a v x)) = Inr bs)"
  shows "\<exists>s'. evmcc_Invoke X (NewVM_Call X) s = (Ok (shim_Success []), s') \<and>
    chaincode_event s' = (if logs a v x = [] then None
      else Some (hex_EncodeToString set_selector, projr (json_Marshal_events X (map event_of_log (logs a v x))))) \<and>
    (\<forall>t. ledger t = commit s' \<longrightarrow> calls X t a get_selector \<longrightarrow> faultless t \<longrightarrow>
      (\<exists>t'. evmcc_Invoke X (NewVM_Call X) t = (Ok (shim_Success (Word256_Bytes x)), t')))"
proof -
  obtain s' where run: "evmcc_Invoke X (NewVM_Call X) s = (Ok (shim_Success []), s')"
    using set_succeeds [OF L here set ok(2) marshals] by blast
  note stored = set_transaction [OF ok(1) L here set(1,2) run]
  obtain acc where acc: "ledger_account X (ledger s) a = Inr (Some acc)"
    using here by (auto simp: holds_code_def)
  have after: "ledger_ok X (commit s')" "holds_code X (commit s') a code" "ledger_storage X (commit s') a 0 = Ok x"
    using ledger_ok_kept [OF L stored(2)] holds_code_kept [OF here stored(2)] stored(3) [OF acc] by simp_all
  have "\<exists>t'. evmcc_Invoke X (NewVM_Call X) t = (Ok (shim_Success (Word256_Bytes x)), t')"
    if "ledger t = commit s'" "calls X t a get_selector" "faultless t" for t
    using get_succeeds [OF _ _ that(2) _ that(3) ok(2)] after by (simp only: that(1))
  with run stored(4) show ?thesis
    by blast
qed

end

text \<open>The code a ledger holds is what \<^verbatim>\<open>getCode\<close> answers.\<close>

lemma holds_code_served:
  assumes "holds_code X (ledger s) a code" and "get_fault s = (\<lambda>_. None)"
  shows "evmcc_getCode X s (bytes_of (hex_EncodeToString (Address_Bytes a))) = shim_Success (bytes_of (hex_EncodeToString code))"
  using assms evmcc_getCode_account [of s X a] by (auto simp: holds_code_def)

end
