(* ===== verification/Simple_Storage.thy ===== *)
theory Simple_Storage
  imports Integration_Contracts Cell_Contracts
begin

section \<open>SimpleStorage, with and without its log\<close>

text \<open>
  The two contracts that hold a word, executed: the constructor returns the runtime code, \<^verbatim>\<open>set\<close> stores
  its argument, \<^verbatim>\<open>get\<close> returns what is stored, and the one with a log reports the old and the new word.
  So both are providers of \<open>cell_contract\<close>.
\<close>

subsection \<open>The code is where the listings say\<close>

lemma fetch_listings:
  "list_all (\<lambda>(q, i). fetch storage_code q = Some i) storage_listing"
  "list_all (\<lambda>(q, i). fetch (storage_init @ storage_code) q = Some i) storage_init_listing"
  "list_all (\<lambda>(q, i). fetch log_code q = Some i) log_listing"
  "list_all (\<lambda>(q, i). fetch (log_init @ log_code) q = Some i) log_init_listing"
  using fetch_disassembled [of "[]" storage_instructions storage_metadata]
    fetch_disassembled [of "[]" storage_init storage_code]
    fetch_disassembled [of "[]" log_instructions log_metadata] fetch_disassembled [of "[]" log_init log_code]
  by (simp_all add: storage_code_def log_code_def disassembled)

lemmas storage_fetches = fetch_listings(1) [unfolded storage_listing_def list.pred_inject prod.case]
lemmas storage_init_fetches = fetch_listings(2) [unfolded storage_init_listing_def list.pred_inject prod.case]
lemmas log_fetches = fetch_listings(3) [unfolded log_listing_def list.pred_inject prod.case]
lemmas log_init_fetches = fetch_listings(4) [unfolded log_init_listing_def list.pred_inject prod.case]

lemma code_lengths:
  "length storage_code = 230" "length (storage_init @ storage_code) = 261" "length storage_init = 31"
  "length log_code = 259" "length (log_init @ log_code) = 289" "length log_init = 30"
  by (simp_all add: storage_code_def log_code_def hex_parts)

lemma call_data:
  "length get_selector = 4" "length (set_data x) = 36"
  "input_word get_selector 0 div 0x100000000000000000000000000000000000000000000000000000000 = 0x6d4ce63c"
  "input_word (set_data x) 0 div 0x100000000000000000000000000000000000000000000000000000000 = 0x60fe47b1"
  "input_word (set_data x) 4 = x"
proof -
  have sel: "word_of_nat (be_nat get_selector) = (0x6d4ce63c :: word256)" "word_of_nat (be_nat set_selector) = (0x60fe47b1 :: word256)"
    by (simp_all add: get_selector_def set_selector_def be_nat_def)
  show "input_word get_selector 0 div 0x100000000000000000000000000000000000000000000000000000000 = 0x6d4ce63c"
    using selector_word [of get_selector "[]"] by (simp add: length_selectors sel)
  show "input_word (set_data x) 0 div 0x100000000000000000000000000000000000000000000000000000000 = 0x60fe47b1"
    using selector_word [of set_selector "Word256_Bytes x"] by (simp add: length_selectors sel set_data_def)
  show "input_word (set_data x) 4 = x"
    using argument_word [of set_selector x "[]"] by (simp add: length_selectors set_data_def)
qed (simp_all add: length_selectors set_data_def)

lemmas run_contract_simps = run_rules run_conditions code_lengths call_data diff_diff_eq contract_callD run_returns_def spends_def

subsection \<open>The runs\<close>

lemma storage_set_run:
  assumes "st_error (ac_state act) = None" and "es_SetStorage X (ac_state act) a 0 x = (Ok (), st')" and "st_error st' = None"
    and gas: "1000 \<le> ac_gas act" and "contract_call V F a storage_code (set_data x)"
  shows "run_returns X V F act None st' (ac_sink act)"
  using assms
  by (simp add: run_contract_simps enough_gas [OF gas] storage_fetches run_SSTORE [where st = "ac_state act" and st' = st'])

lemma storage_get_run:
  assumes "st_error (ac_state act) = None" and "es_GetStorage X (ac_state act) a 0 = (Ok v, st')" and "st_error st' = None"
    and gas: "1000 \<le> ac_gas act" and "contract_call V F a storage_code get_selector"
  shows "run_returns X V F act (Some (Word256_Bytes v)) st' (ac_sink act)"
  using assms
  by (simp add: run_contract_simps enough_gas [OF gas] storage_fetches mem_slice_word
      run_SLOAD [where st = "ac_state act" and st' = st' and v = v])

lemma storage_init_run:
  assumes "st_error (ac_state act) = None"
    and gas: "1000 \<le> ac_gas act" and "contract_call V F a (storage_init @ storage_code) input"
  shows "run_returns X V F act (Some storage_code) (ac_state act) (ac_sink act)"
  using assms mem_slice_put_same [of _ 0 storage_code]
  by (simp add: run_contract_simps enough_gas [OF gas] storage_init_fetches)

text \<open>The event \<^verbatim>\<open>Changed(uint indexed, uint indexed)\<close>: the hash of its signature and both words are
  topics, so it has no data.\<close>

definition Changed_log :: "address \<Rightarrow> word256 \<Rightarrow> word256 \<Rightarrow> log_event" where
  "Changed_log a old new = \<lparr>log_Address = a, log_Data = [],
     log_Topics = [0xd81ec364c58bcc9b49b6c953fc8e1f1c158ee89255bae73029133234a2936aad, old, new]\<rparr>"

lemma log_set_run:
  assumes "st_error (ac_state act) = None" and "es_GetStorage X (ac_state act) a 0 = (Ok v, st1)" and "st_error st1 = None"
    and "es_SetStorage X st1 a 0 x = (Ok (), st')" and "st_error st' = None"
    and gas: "1000 \<le> ac_gas act" and "contract_call V F a log_code (set_data x)" and "\<not> fr_logfree F"
  shows "run_returns X V F act None st' ((ac_sink act)\<lparr>EventCache := EventCache (ac_sink act) @ [event_of_log (Changed_log a v x)]\<rparr>)"
  using assms
  by (simp add: run_contract_simps enough_gas [OF gas] log_fetches run_SLOAD [where st = "ac_state act" and st' = st1 and v = v]
      run_SSTORE [where st = st1 and st' = st'] run_LOG numeral_3_eq_3 Changed_log_def)

lemma log_get_run:
  assumes "st_error (ac_state act) = None" and "es_GetStorage X (ac_state act) a 0 = (Ok v, st')" and "st_error st' = None"
    and gas: "1000 \<le> ac_gas act" and "contract_call V F a log_code get_selector"
  shows "run_returns X V F act (Some (Word256_Bytes v)) st' (ac_sink act)"
  using assms
  by (simp add: run_contract_simps enough_gas [OF gas] log_fetches mem_slice_word
      run_SLOAD [where st = "ac_state act" and st' = st' and v = v])

lemma log_init_run:
  assumes "st_error (ac_state act) = None"
    and gas: "1000 \<le> ac_gas act" and "contract_call V F a (log_init @ log_code) input"
  shows "run_returns X V F act (Some log_code) (ac_state act) (ac_sink act)"
  using assms mem_slice_put_same [of _ 0 log_code]
  by (simp add: run_contract_simps enough_gas [OF gas] log_init_fetches)

subsection \<open>Both provide the interface\<close>

interpretation simple: cell_contract X storage_code storage_init "\<lambda>_ _ _. []" for X
proof
  fix V F a v and act :: activation and x :: word256
  show "storage_code \<noteq> []"
    by (simp add: storage_code_def hex_parts)
  assume gas: "1000 \<le> ac_gas act"
  show "run_returns X V F act (Some storage_code) (ac_state act) (ac_sink act)"
    if "contract_call V F a (storage_init @ storage_code) input" "st_error (ac_state act) = None" for input
    by (rule storage_init_run [OF that(2) gas that(1)])
  assume word: "sto_view X (chain (ac_state act)) a 0 = Ok v"
  show "\<exists>st'. run_returns X V F act (Some (Word256_Bytes v)) st' (ac_sink act) \<and> reads_to X (ac_state act) st'"
    if call: "contract_call V F a storage_code get_selector" and st: "healthy X (ac_state act)"
  proof -
    obtain st' where read: "es_GetStorage X (ac_state act) a 0 = (Ok v, st')" "reads_to X (ac_state act) st'"
      using healthy_storage [OF st word] by blast
    from storage_get_run [OF _ read(1) reads_toD(2) [OF read(2)] gas call] st read(2) show ?thesis
      by (auto simp: healthy_def)
  qed
  show "\<exists>st'. run_returns X V F act None st' ((ac_sink act)\<lparr>EventCache := EventCache (ac_sink act) @ map event_of_log []\<rparr>) \<and>
      writes_to X (ac_state act) st' a 0 x"
    if call: "contract_call V F a storage_code (set_data x)" and st: "serves X (ac_state act) a"
  proof -
    obtain st' where set: "es_SetStorage X (ac_state act) a 0 x = (Ok (), st')" "writes_to X (ac_state act) st' a 0 x"
      using serves_write [OF st] by blast
    have none: "st_error (ac_state act) = None" "st_error st' = None"
      using st set(2) by (simp_all add: serves_def writes_to_def healthy_def)
    from storage_set_run [OF none(1) set(1) none(2) gas call] set(2) show ?thesis
      by auto
  qed
qed

interpretation logging: cell_contract X log_code log_init "\<lambda>a old new. [Changed_log a old new]" for X
proof
  fix V F a v and act :: activation and x :: word256
  show "log_code \<noteq> []"
    by (simp add: log_code_def hex_parts)
  assume gas: "1000 \<le> ac_gas act"
  show "run_returns X V F act (Some log_code) (ac_state act) (ac_sink act)"
    if "contract_call V F a (log_init @ log_code) input" "st_error (ac_state act) = None" for input
    by (rule log_init_run [OF that(2) gas that(1)])
  assume word: "sto_view X (chain (ac_state act)) a 0 = Ok v"
  show "\<exists>st'. run_returns X V F act (Some (Word256_Bytes v)) st' (ac_sink act) \<and> reads_to X (ac_state act) st'"
    if call: "contract_call V F a log_code get_selector" and st: "healthy X (ac_state act)"
  proof -
    obtain st' where read: "es_GetStorage X (ac_state act) a 0 = (Ok v, st')" "reads_to X (ac_state act) st'"
      using healthy_storage [OF st word] by blast
    from log_get_run [OF _ read(1) reads_toD(2) [OF read(2)] gas call] st read(2) show ?thesis
      by (auto simp: healthy_def)
  qed
  show "\<exists>st'. run_returns X V F act None st' ((ac_sink act)\<lparr>EventCache := EventCache (ac_sink act) @ map event_of_log [Changed_log a v x]\<rparr>) \<and>
      writes_to X (ac_state act) st' a 0 x"
    if call: "contract_call V F a log_code (set_data x)" "\<not> fr_logfree F" and st: "serves X (ac_state act) a"
  proof -
    obtain st1 where read: "es_GetStorage X (ac_state act) a 0 = (Ok v, st1)" "reads_to X (ac_state act) st1"
      using healthy_storage [OF _ word] st unfolding serves_def by blast
    obtain st' where set: "es_SetStorage X st1 a 0 x = (Ok (), st')" "writes_to X st1 st' a 0 x"
      using serves_write [OF serves_read [OF st read(2)]] by blast
    have none: "st_error (ac_state act) = None" "st_error st1 = None" "st_error st' = None"
      using st reads_toD(2) [OF read(2)] set(2) by (simp_all add: serves_def writes_to_def healthy_def)
    from log_set_run [OF none(1) read(1) none(2) set(1) none(3) gas call] writes_after_read [OF read(2) set(2)]
    show ?thesis
      by auto
  qed
qed

subsection \<open>Calls as the tests make them\<close>

text \<open>
  An invocation of a function of a contract: the hash of the function from the contract's table and behind
  it the arguments, each a word of 32 bytes in hex.
\<close>

definition invokes :: "('pk, 'z) evm_externals_scheme \<Rightarrow> stub \<Rightarrow> address \<Rightarrow> contract \<Rightarrow> string \<Rightarrow> word256 list \<Rightarrow> bool" where
  "invokes X s a C f xs \<longleftrightarrow> fresh_stub s \<and> a \<noteq> ZeroAddress \<and> (\<exists>caller. getCallerAddress X s = (caller, None)) \<and>
     (\<exists>h. FunctionHashes C f = Some h \<and> invocation s (hex_EncodeToString (Address_Bytes a))
       (h @ concat (map (\<lambda>x. hex_EncodeToString (Word256_Bytes x)) xs)))"

definition deploys :: "('pk, 'z) evm_externals_scheme \<Rightarrow> stub \<Rightarrow> contract \<Rightarrow> bool" where
  "deploys X s C \<longleftrightarrow> fresh_stub s \<and> (\<exists>caller. getCallerAddress X s = (caller, None)) \<and>
     invocation s (hex_EncodeToString (Address_Bytes ZeroAddress)) (CompiledBytecode C)"

lemma selector_texts: "hex_EncodeToString get_selector = ''6d4ce63c''" "hex_EncodeToString set_selector = ''60fe47b1''"
  by (simp_all add: get_selector_def set_selector_def hex_EncodeToString_def hex_digits_def hextable_def)

lemma invokes_calls:
  "invokes X s a SimpleStorageContract ''set'' [x] \<longleftrightarrow> calls X s a (set_data x)"
  "invokes X s a SimpleStorageContract ''get'' [] \<longleftrightarrow> calls X s a get_selector"
  "invokes X s a SimpleStorageWithLog ''set'' [x] \<longleftrightarrow> calls X s a (set_data x)"
  "invokes X s a SimpleStorageWithLog ''get'' [] \<longleftrightarrow> calls X s a get_selector"
  by (auto simp: invokes_def calls_def set_data_def hex_append selector_texts SimpleStorageContract_def SimpleStorageWithLog_def)

end
