(* ===== verification/Contract_Calls.thy ===== *)
theory Contract_Calls
  imports Cell_Contracts
begin

unbundle bit_operations_syntax

section \<open>Contracts that call contracts\<close>

text \<open>
  The instructions a contract needs to call another one, as equations between runs like those of
  \<open>Contract_Execution\<close>: the size of the other's code, the gas, the call itself with its nested run on a
  cache of the state, and the size of what it returned. A call of a contract that holds a word then does to
  the caller's state what the interface of such contracts says.
\<close>

subsection \<open>Around the call\<close>

lemma Push64_length:
  assumes "l < 2 ^ 62"
  shows "Push64 V (int l) = Push V (word_of_nat l)"
proof -
  have n: "unat (word_of_nat l :: 64 word) = l"
    using assms by (simp add: unat_of_nat)
  have "Int64ToWord256 (int l) = word_of_nat (unat (word_of_nat l :: 64 word))"
    by (simp only: Int64ToWord256_def of_int_of_nat_eq of_nat_unat)
  then show ?thesis
    by (simp add: Push64_def n)
qed

lemma run_GAS:
  assumes "fetch (fr_code F) p = Some (OP_EXEC X_GAS, w)" and "going st V n s" and "1 < g"
  shows "run_instr X V F (OP_EXEC X_GAS, w) (config c st k mem n g p s) =
    run X V F (config c st k mem (max n (length s + 1)) (g - 1) (p + 1) (ucast g # s))"
  by (rule config_push_one [OF assms(3,2,1)]) (simp add: bind_op_def get_op_def PushU64_def Uint64ToWord256_def)

lemma run_RETURNDATASIZE:
  assumes "fetch (fr_code F) p = Some (OP_ENV ENV_RETURNDATASIZE, w)" and "going st V n s" and "1 < g"
    and "length (code_bytes (snd (snd c))) < 2 ^ 62"
  shows "run_instr X V F (OP_ENV ENV_RETURNDATASIZE, w) (config c st k mem n g p s) =
    run X V F (config c st k mem (max n (length s + 1)) (g - 1) (p + 1) (word_of_nat (length (code_bytes (snd (snd c)))) # s))"
  by (rule config_push_one [OF assms(3,2,1)]) (simp add: bind_op_def get_op_def Push64_length [OF assms(4)])

lemma run_EXTCODESIZE:
  assumes "fetch (fr_code F) p = Some (OP_ENV ENV_EXTCODESIZE, w)" and "going st V n (d # s)" and "3 < g"
    and there: "es_Exists X st (AddressFromWord256 d) = (True, st1)"
    and code: "es_GetCode X st1 (AddressFromWord256 d) = (code, st2)" and "length (code_bytes code) < 2 ^ 62"
  shows "run_instr X V F (OP_ENV ENV_EXTCODESIZE, w) (config c st k mem n g p (d # s)) =
    run X V F (config c st2 k mem n (g - 3) (p + 1) (word_of_nat (length (code_bytes code)) # s))"
proof (rule run_instr_next [OF goingD(1) [OF assms(2)] assms(1)])
  have slots: "max n (Suc (length s)) = n"
    using assms(2) by (simp add: going_def)
  have gas: "(1 :: 64 word) \<le> g - 1" "1 < g" "1 < g - 2"
    using gas_left(1) [OF assms(3)] by (auto simp: word_less_nat_alt word_le_nat_alt)
  have "Push V (word_of_nat (length (code_bytes code))) (config c st2 k mem n (g - 2) p s) =
      Some (Ok (), config c st2 k mem n (g - 3) p (word_of_nat (length (code_bytes code)) # s))"
    using goingD [OF assms(2)] gas(3) slots by (subst Push_more) simp_all
  then show "exec_op X V exec F (OP_ENV ENV_EXTCODESIZE) (config c st k mem n g p (d # s)) =
      Some (Ok Next, config c st2 k mem n (g - 3) p (word_of_nat (length (code_bytes code)) # s))" for exec
    using gas there code
    by (simp add: exec_EXTCODESIZE_def bind_op_def PopAddress_def config_Pop ret_def and_next_def seq_op_def upd_op_def
        useGasNegative_def GasGetAccount_def state_op_def Push64_length [OF assms(6)])
qed

subsection \<open>The call\<close>

text \<open>The body of a nested call that returns, one level deeper.\<close>

definition deeper :: "frame \<Rightarrow> frame" where
  "deeper G = G\<lparr>fr_depth := fr_depth G + 1\<rparr>"

lemma run_contract_returns:
  assumes "fr_value G = 0" and "CallStackMaxDepth (vm_params V) = 0" and "fr_code G \<noteq> []"
    and "st_error (ac_state act) = None" and "exec (deeper G) act = Some (Ok out, act')" and "st_error (ac_state act') = None"
  shows "run_contract X V exec k G act = Some (Ok (out, None), act')"
  using assms
  by (simp add: run_contract_def vm_call_def delegateCall_def transfer_def enter_code_def Let_def ensureStackDepth_def
      return_call_def deeper_def)


text \<open>The call, once its words are taken from the stack: the nested run answers and is committed.\<close>

definition calls_into ::
    "('pk, 'z) evm_externals_scheme \<Rightarrow> vm \<Rightarrow> frame \<Rightarrow> call_kind \<Rightarrow> bytes \<Rightarrow> evm_state \<Rightarrow> event_manager \<Rightarrow> 64 word \<Rightarrow> 64 word \<Rightarrow>
     address \<Rightarrow> bytes option \<Rightarrow> activation \<Rightarrow> evm_state \<Rightarrow> bool" where
  "calls_into X V F k args st sink limit seq a out act st' \<longleftrightarrow> \<not> IsRegisteredNativeContract X a \<and>
     CallStackMaxDepth (vm_params V) = 0 \<and> st_error st = None \<and>
     (\<exists>st1 st2 code. es_Exists X st a = (True, st1) \<and> es_GetCode X st1 a = (Some code, st2) \<and> code \<noteq> [] \<and>
       st_error st2 = None \<and>
       execute X V (deeper (call_frame F k a code args 0))
         \<lparr>ac_state = es_NewCache st2 (if k = KIND_STATICCALL then [ReadOnly] else []), ac_sink = sink, ac_gas = limit,
          ac_sequence = seq\<rparr> = Some (Ok out, act) \<and>
       st_error (ac_state act) = None \<and> sync_child X st2 (ac_state act) = (Ok (), st') \<and> st_error st' = None)"

lemma call_body_returns:
  assumes "calls_into X V F k args st sink limit (fst c) a out act st'" and "k = KIND_CALL \<or> k = KIND_STATICCALL"
    and "fst (snd c) = 0" and "going st V n s" and "2 < g"
    and "length (code_bytes out) \<le> len" and "off + len \<le> mem_len mem" and "mem_len mem \<le> MaxInt32"
  shows "call_body X V (execute X V) F k a args limit (int off) (int len) (config c st sink mem n g p s) =
    Some (Ok Next, config (ac_sequence act, 0, out) st' (ac_sink act)
      (mem_put mem off (code_bytes out @ replicate (len - length (code_bytes out)) 0)) (max n (length s + 1))
      (g - 2 + ac_gas act) p (1 # s))"
proof -
  let ?out = "code_bytes out @ replicate (len - length (code_bytes out)) 0"
  obtain st1 st2 code where call: "\<not> IsRegisteredNativeContract X a" "CallStackMaxDepth (vm_params V) = 0"
    "es_Exists X st a = (True, st1)" "es_GetCode X st1 a = (Some code, st2)" "code \<noteq> []" "st_error st2 = None"
    and run: "execute X V (deeper (call_frame F k a code args 0))
      \<lparr>ac_state = es_NewCache st2 (if k = KIND_STATICCALL then [ReadOnly] else []), ac_sink = sink, ac_gas = limit,
        ac_sequence = fst c\<rparr> = Some (Ok out, act)" "st_error (ac_state act) = None"
    and sync: "sync_child X st2 (ac_state act) = (Ok (), st')" "st_error st' = None"
    using assms(1) unfolding calls_into_def by blast
  let ?child = "\<lparr>ac_state = es_NewCache st2 (if k = KIND_STATICCALL then [ReadOnly] else []), ac_sink = sink, ac_gas = limit,
    ac_sequence = fst c\<rparr>"
  have child: "st_error (ac_state ?child) = None"
    using call(6) by (simp add: es_NewCache_def NewState_def)
  have frame: "fr_value (call_frame F k a code args 0) = 0" "fr_code (call_frame F k a code args 0) \<noteq> []"
    using assms(2) call(5) by (auto simp: call_frame_def Let_def)
  have "run_contract X V (execute X V) k (call_frame F k a code args 0) ?child = Some (Ok (out, None), act)"
    by (intro run_contract_returns frame call(2) child run)
  then have nested: "nested X (if k = KIND_STATICCALL then [ReadOnly] else []) limit
      (run_contract X V (execute X V) k (call_frame F k a code args 0)) (\<lambda>_ st. st) (config c st2 sink mem n (g - 1) p s) =
      Some (Ok (out, None, ac_gas act), config (ac_sequence act, snd c) st' (ac_sink act) mem n (g - 1) p s)"
    using sync by (simp add: nested_def child_activation_def commit_child_def after_child_def config_def)
  have gas: "(1 :: 64 word) \<le> g" "1 < g - 1"
    using gas_left(2) [OF assms(5)] by auto
  have push: "Push V 1 (config (ac_sequence act, 0, out) st' (ac_sink act) mem n (g - 1) p s) =
      Some (Ok (), config (ac_sequence act, 0, out) st' (ac_sink act) mem (max n (length s + 1)) (g - 2) p (1 # s))"
    using goingD [OF assms(4)] gas(2) by (subst Push_more) simp_all
  have "bytes_RightPad (code_bytes out) (int len) = Ok ?out"
    using assms(6,7,8) by (simp add: bytes_RightPad_def MaxInt32_def)
  moreover have "memory_Write (int off) ?out mem = (Ok (), mem_put mem off ?out)"
    using memory_within(2) [OF assms(7,8), of ?out] assms(6) by simp
  ultimately have put: "write_output (int off) out (int len) (config (ac_sequence act, 0, out) st' (ac_sink act) mem (max n (length s + 1)) (g - 2) p (1 # s)) =
      Some (Ok (), config (ac_sequence act, 0, out) st' (ac_sink act) (mem_put mem off ?out) (max n (length s + 1)) (g - 2) p (1 # s))"
    by (simp add: write_output_def bind_op_def lift_res_def ret_def Memory_Write_def)
  have c: "(config (ac_sequence act, snd c) st' (ac_sink act) mem n (g - 1) p s)\<lparr>mc_returnData := out\<rparr> =
      config (ac_sequence act, 0, out) st' (ac_sink act) mem n (g - 1) p s"
    using assms(3) by (simp add: config_def)
  show ?thesis
    using call(1,3,4) gas(1) assms(3) nested push put c
    by (simp add: call_body_def seq_op_def bind_op_def upd_op_def useGasNegative_def GasGetAccount_def ensure_target_def
        state_op_def get_op_def ret_def code_bytes_def finish_call_def set_returnData_def and_next_def give_gas_def One256_def)
qed

lemma run_instr_nested:
  assumes "st_error st = None" and "fetch (fr_code F) p = Some (op, w)"
    and "exec_op X V (execute X V) F op (config c st k mem n g p s) = Some (Ok Next, config c' st' k' mem' n' g' p' s')"
  shows "run_instr X V F (op, w) (config c st k mem n g p s) = run X V F (config c' st' k' mem' n' g' (p' + 1) s')"
proof -
  have "(\<lambda>G act. run X V G (new_machine V G act)) = execute X V"
    by (simp add: execute_def fun_eq_iff)
  then show ?thesis
    unfolding run_instr_def by (subst run.simps) (simp add: assms step_exec codeGetOp_fetch [OF assms(2)])
qed

text \<open>Gas for the pops, and enough to lend and to keep.\<close>

lemma call_gas_enough:
  fixes g gl :: "64 word"
  assumes "2000 \<le> g" and "g < gl"
  shows "1000 \<le> call_gas g gl" and "2 < g - call_gas g gl"
proof -
  have n: "unat (g div 64) = unat g div 64" "2000 \<le> unat g"
    using assms(1) by (simp_all add: unat_div_distrib word_le_nat_alt)
  moreover have "g div 64 \<le> g"
    using n by (simp add: word_le_nat_alt)
  ultimately have lent: "unat (g - g div 64) = unat g - unat g div 64"
    by (simp add: unat_sub)
  with n have "1000 \<le> unat (g - g div 64)"
    by linarith
  then show "1000 \<le> call_gas g gl"
    using assms(2) by (simp add: call_gas_def word_le_nat_alt)
  have "g - (g - g div 64) = g div 64"
    by simp
  moreover have "2 < unat (g div 64)"
    using n by linarith
  ultimately show "2 < g - call_gas g gl"
    using assms(2) by (simp add: call_gas_def word_less_nat_alt)
qed

lemma PopU64_config:
  assumes "uint d < 2 ^ 64" and "1 < g"
  shows "PopU64 (config c st k mem n g p (d # s)) = Some (Ok (ucast d), config c st k mem n (g - 1) p s)"
  using assms by (simp add: PopU64_def bind_op_def config_Pop ret_def Is64BitOverflow_iff Uint64FromWord256_def)

lemma gas_for_pops:
  fixes g :: "64 word"
  assumes "2007 \<le> g"
  shows "1 < g" "1 < g - 1" "1 < g - 2" "1 < g - 3" "1 < g - 4" "1 < g - 5" "1 < g - 6" "2000 \<le> g - 7" "2000 \<le> g - 6"
  using assms by (simp_all add: word_less_nat_alt word_le_nat_alt unat_sub)

text \<open>A \<^verbatim>\<open>CALL\<close> takes seven words, of which one is the value; a \<^verbatim>\<open>STATICCALL\<close> the other six.\<close>

definition call_words :: "call_kind \<Rightarrow> word256 list \<Rightarrow> 64 word \<Rightarrow> bool" where
  "call_words k vs q \<longleftrightarrow> k = KIND_CALL \<and> vs = [0] \<and> q = 7 \<or> k = KIND_STATICCALL \<and> vs = [] \<and> q = 6"

lemma run_call_kind:
  assumes kind: "call_words k vs q" and "fetch (fr_code F) p = Some (OP_CALLS k, w)"
    and "going st V n (gl # ad # vs @ io # il # ro # rl # s)"
    and "2007 \<le> g" and "uint gl < 2 ^ 64" and "g - q < ucast gl" and "uint rl < 2 ^ 63"
    and perm: "st_error (EnsurePermission X st (fr_callee F) perm_Call) = None"
    and call: "calls_into X V F k (mem_slice mem (unat io) (unat il)) (EnsurePermission X st (fr_callee F) perm_Call) sink
      (call_gas (g - q) (ucast gl)) (fst c) (AddressFromWord256 ad) out act st'" and "fst (snd c) = 0"
    and "unat io + unat il \<le> mem_len mem" and "mem_len mem \<le> MaxInt32"
    and "length (code_bytes out) \<le> unat rl" and "unat ro + unat rl \<le> mem_len mem"
  shows "run_instr X V F (OP_CALLS k, w) (config c st sink mem n g p (gl # ad # vs @ io # il # ro # rl # s)) =
    run X V F (config (ac_sequence act, 0, out) st' (ac_sink act)
      (mem_put mem (unat ro) (code_bytes out @ replicate (unat rl - length (code_bytes out)) 0)) n
      (g - q - call_gas (g - q) (ucast gl) - 2 + ac_gas act) (p + 1) (1 # s))"
proof (rule run_instr_nested [OF goingD(1) [OF assms(3)] assms(2)])
  note gas = gas_for_pops [OF assms(4)]
  have "2000 \<le> g - q"
    using kind gas(8,9) by (auto simp: call_words_def)
  note lend = call_gas_enough [OF this assms(6)]
  let ?st = "EnsurePermission X st (fr_callee F) perm_Call"
  have room: "going ?st V n s" "max n (length s + 1) = n"
    using assms(3) perm by (auto simp: going_def)
  have k: "k = KIND_CALL \<or> k = KIND_STATICCALL"
    using kind by (auto simp: call_words_def)
  have body: "call_body X V (execute X V) F k (AddressFromWord256 ad) (mem_slice mem (unat io) (unat il))
      (call_gas (g - q) (ucast gl)) (int (unat ro)) (int (unat rl))
      (config (fst c, 0, None) ?st sink mem n (g - q - call_gas (g - q) (ucast gl)) p s) =
    Some (Ok Next, config (ac_sequence act, 0, out) st' (ac_sink act)
      (mem_put mem (unat ro) (code_bytes out @ replicate (unat rl - length (code_bytes out)) 0)) n
      (g - q - call_gas (g - q) (ucast gl) - 2 + ac_gas act) p (1 # s))"
    using call_body_returns [of X V F k "mem_slice mem (unat io) (unat il)" ?st sink "call_gas (g - q) (ucast gl)"
      "(fst c, 0, None)" "AddressFromWord256 ad" out act st', OF _ k _ room(1) lend(2) assms(13,14,12)] call room(2)
    by simp
  have c: "(config c st' k mem n g p s)\<lparr>mc_returnData := None\<rparr> = config (fst c, fst (snd c), None) st' k mem n g p s"
    "(config c st' k mem n g p s)\<lparr>mc_value := 0\<rparr> = config (fst c, 0, snd (snd c)) st' k mem n g p s" for st' c s g k
    by (simp_all add: config_def)
  have io: "memory_Read (uint io) (uint il) mem = (Ok (mem_slice mem (unat io) (unat il)), mem)"
    using memory_within(1) [OF assms(11,12)] by simp
  show "exec_op X V (execute X V) F (OP_CALLS k) (config c st sink mem n g p (gl # ad # vs @ io # il # ro # rl # s)) =
    Some (Ok Next, config (ac_sequence act, 0, out) st' (ac_sink act)
      (mem_put mem (unat ro) (code_bytes out @ replicate (unat rl - length (code_bytes out)) 0)) n
      (g - q - call_gas (g - q) (ucast gl) - 2 + ac_gas act) p (1 # s))"
    using gas perm io body kind assms(10) unfolding call_words_def
    by (elim disjE conjE)
      (simp_all add: exec_CALL_def seq_op_def bind2_def bind_op_def ret_def set_returnData_def upd_op_def state_upd_def
        unless_error_def PopU64_config [OF assms(5)] PopU64_config PopAddress_def config_Pop call_address_def PopBigInt_def
        Pop_small [OF assms(7)] c Memory_Read_def get_op_def take_gas_def code_bytes_def [of "Some x" for x])
qed

lemmas run_CALL = run_call_kind [where k = KIND_CALL and vs = "[0]" and q = 7, unfolded append.simps]
lemmas run_STATICCALL = run_call_kind [where k = KIND_STATICCALL and vs = "[]" and q = 6, unfolded append.simps]

subsection \<open>Calling a contract that holds a word\<close>

text \<open>A state from which contracts are called: writable, also by the states nested in it.\<close>

definition calling :: "('pk, 'z) evm_externals_scheme \<Rightarrow> evm_state \<Rightarrow> bool" where
  "calling X st \<longleftrightarrow> healthy X st \<and> \<not> c_readonly (st_cache st) \<and> ReadOnly \<notin> set (st_options st)"

lemma calling_steps: "calling X st \<Longrightarrow> evm_steps X st st' \<Longrightarrow> healthy X st' \<Longrightarrow> calling X st'"
  using steps_layer [of X st st'] by (simp add: calling_def)

lemma calling_read: "calling X st \<Longrightarrow> reads_to X st st' \<Longrightarrow> calling X st'"
  by (simp add: calling_steps reads_toD)

definition callable :: "('pk, 'z) evm_externals_scheme \<Rightarrow> evm_state \<Rightarrow> address \<Rightarrow> bytes \<Rightarrow> bool" where
  "callable X st a code \<longleftrightarrow> \<not> IsRegisteredNativeContract X a \<and> code \<noteq> [] \<and>
     (\<exists>acc. acc_view X (chain st) a = Inr (Some acc) \<and> acc_Code acc = Some code)"

lemma callable_read: "callable X st a code \<Longrightarrow> reads_to X st st' \<Longrightarrow> callable X st' a code"
  by (simp add: callable_def reads_toD)

lemma callable_code:
  assumes "calling X st" and "callable X st a code"
  obtains st1 st2 where "es_Exists X st a = (True, st1)" and "es_GetCode X st1 a = (Some code, st2)" and "reads_to X st st2"
proof -
  obtain acc where acc: "acc_view X (chain st) a = Inr (Some acc)" "acc_Code acc = Some code"
    using assms(2) by (auto simp: callable_def)
  obtain st1 where st1: "es_Exists X st a = (True, st1)" "reads_to X st st1"
    using healthy_account [OF _ acc(1)] assms(1) by (auto simp: calling_def)
  have "acc_view X (chain st1) a = Inr (Some acc)"
    using acc(1) reads_toD(3) [OF st1(2)] by simp
  then obtain st2 where st2: "es_GetCode X st1 a = (Some code, st2)" "reads_to X st1 st2"
    using healthy_code [OF reads_toD(1) [OF st1(2)]] acc(2) by fastforce
  show ?thesis
    by (rule that [OF st1(1) st2(1) reads_to_trans [OF st1(2) st2(2)]])
qed

lemma nested_calls:
  assumes "vm_params V = newParams" and "k = KIND_CALL \<or> k = KIND_STATICCALL"
  shows "contract_call V (deeper (call_frame F k a code args 0)) a code args"
    and "fr_logfree (deeper (call_frame F k a code args 0)) = (k = KIND_STATICCALL \<or> fr_logfree F)"
  using assms by (auto simp: contract_call_def call_frame_def Let_def deeper_def)

text \<open>The state after a call that succeeded: the words of the nested state, in the caller's.\<close>

definition called_to ::
    "('pk, 'z) evm_externals_scheme \<Rightarrow> evm_state \<Rightarrow> evm_state \<Rightarrow> (address \<Rightarrow> word256 \<Rightarrow> word256 res) \<Rightarrow> bool" where
  "called_to X st st' words \<longleftrightarrow> evm_steps X st st' \<and> healthy X st' \<and> acc_view X (chain st') = acc_view X (chain st) \<and>
     (\<forall>b acc. acc_view X (chain st) b = Inr acc \<longrightarrow> sto_view X (chain st') b = words b)"

lemma called_back:
  assumes "calling X st" and "reads_to X st st2" and "evm_steps X (es_NewCache st2 opts) child" and "healthy X child"
    and "acc_view X (chain child) = acc_view X (chain st)"
  shows "\<exists>st'. sync_child X st2 child = (Ok (), st') \<and> st_error st' = None \<and> called_to X st st'
    (if ReadOnly \<in> set opts then sto_view X (chain st) else sto_view X (chain child))"
proof -
  note st2 = calling_read [OF assms(1,2)] reads_toD [OF assms(2)]
  have "c_readonly (st_cache child) = (ReadOnly \<in> set opts)"
    using steps_layer(1) [OF assms(3)] nested_start(4) [OF st2(2), of opts] st2(1) by (simp add: calling_def)
  with nested_sync [OF st2(2) _ assms(3,4)] assms(5) st2 obtain st' where
    "sync_child X st2 child = (Ok (), st')" "healthy X st'" "evm_steps X st2 st'" "acc_view X (chain st') = acc_view X (chain st)"
    "if ReadOnly \<in> set opts then sto_view X (chain st') = sto_view X (chain st)
     else \<forall>a acc. acc_view X (chain st) a = Inr acc \<longrightarrow> sto_view X (chain st') a = sto_view X (chain child) a"
    by (auto simp: calling_def)
  with st2(6) show ?thesis
    by (intro exI [of _ st']) (auto simp: called_to_def healthy_def split: if_splits intro: rtranclp_trans)
qed

context cell_contract
begin

lemma set_called:
  assumes "calling X st" and "callable X st a code" and "sto_view X (chain st) a 0 = Ok v"
    and "vm_params V = newParams" and "\<not> fr_logfree F" and "1000 \<le> limit"
  obtains act st' d where "calls_into X V F KIND_CALL (set_data x) st sink limit seq a None act st'"
    and "ac_sink act = sink\<lparr>EventCache := EventCache sink @ map event_of_log (logs a v x)\<rparr>"
    and "d < 1000" and "ac_gas act = limit - d" and "called_to X st st' (put_word (sto_view X (chain st)) a 0 x)"
proof -
  obtain st1 st2 where code: "es_Exists X st a = (True, st1)" "es_GetCode X st1 a = (Some code, st2)" and read: "reads_to X st st2"
    by (rule callable_code [OF assms(1,2)])
  note st2 = calling_read [OF assms(1) read] reads_toD [OF read]
  note start = nested_start [OF st2(2), of "[]"]
  let ?child = "\<lparr>ac_state = es_NewCache st2 [], ac_sink = sink, ac_gas = limit, ac_sequence = seq\<rparr>"
  note G = nested_calls [OF assms(4), of KIND_CALL F a code "set_data x", simplified]
  have "serves X (ac_state ?child) a"
    using assms(2) start st2(1,4) by (auto simp: serves_def callable_def calling_def)
  moreover have "sto_view X (chain (ac_state ?child)) a 0 = Ok v"
    using assms(3) start(3) st2(5) by simp
  ultimately obtain child where run: "run_returns X V (deeper (call_frame F KIND_CALL a code (set_data x) 0)) ?child None child
      (sink\<lparr>EventCache := EventCache sink @ map event_of_log (logs a v x)\<rparr>)" and child: "writes_to X (es_NewCache st2 []) child a 0 x"
    using set_runs [OF G(1)] G(2) assms(5,6) by fastforce
  then have done_to: "evm_steps X (es_NewCache st2 []) child" "healthy X child" "acc_view X (chain child) = acc_view X (chain st)"
    "sto_view X (chain child) = put_word (sto_view X (chain st)) a 0 x"
    using start(2,3) st2(4,5) by (simp_all add: writes_to_def)
  obtain st' where st': "sync_child X st2 child = (Ok (), st')" "st_error st' = None"
    "called_to X st st' (put_word (sto_view X (chain st)) a 0 x)"
    using called_back [OF assms(1) read done_to(1-3)] done_to(4) by auto
  from run obtain act d where act: "execute X V (deeper (call_frame F KIND_CALL a code (set_data x) 0)) ?child = Some (Ok None, act)"
    "ac_state act = child" "ac_sink act = sink\<lparr>EventCache := EventCache sink @ map event_of_log (logs a v x)\<rparr>"
    "d < 1000" "ac_gas act = limit - d"
    by (auto simp: run_returns_def spends_def)
  have "calls_into X V F KIND_CALL (set_data x) st sink limit seq a None act st'"
    using assms(1,2,4) code code_nonempty st2(3) act(1,2) done_to(2) st'(1,2)
    by (auto simp: calls_into_def callable_def calling_def healthy_def newParams_def)
  from that [OF this act(3,4,5) st'(3)] show ?thesis .
qed

lemma get_called:
  assumes "calling X st" and "callable X st a code" and "sto_view X (chain st) a 0 = Ok v"
    and "vm_params V = newParams" and "1000 \<le> limit"
  obtains act st' d where "calls_into X V F KIND_STATICCALL get_selector st sink limit seq a (Some (Word256_Bytes v)) act st'"
    and "ac_sink act = sink" and "d < 1000" and "ac_gas act = limit - d" and "called_to X st st' (sto_view X (chain st))"
proof -
  obtain st1 st2 where code: "es_Exists X st a = (True, st1)" "es_GetCode X st1 a = (Some code, st2)" and read: "reads_to X st st2"
    by (rule callable_code [OF assms(1,2)])
  note st2 = calling_read [OF assms(1) read] reads_toD [OF read]
  note start = nested_start [OF st2(2), of "[ReadOnly]"]
  let ?child = "\<lparr>ac_state = es_NewCache st2 [ReadOnly], ac_sink = sink, ac_gas = limit, ac_sequence = seq\<rparr>"
  note G = nested_calls(1) [OF assms(4), of KIND_STATICCALL F a code get_selector, simplified]
  have "healthy X (ac_state ?child)" "sto_view X (chain (ac_state ?child)) a 0 = Ok v"
    using assms(3) start(1,3) st2(5) by simp_all
  with get_runs [OF G] assms(5) obtain child where run: "run_returns X V (deeper (call_frame F KIND_STATICCALL a code get_selector 0)) ?child
      (Some (Word256_Bytes v)) child sink" and child: "reads_to X (es_NewCache st2 [ReadOnly]) child"
    by fastforce
  have done_to: "evm_steps X (es_NewCache st2 [ReadOnly]) child" "healthy X child" "acc_view X (chain child) = acc_view X (chain st)"
    using reads_toD [OF child] start(2) st2(4) by simp_all
  obtain st' where st': "sync_child X st2 child = (Ok (), st')" "st_error st' = None" "called_to X st st' (sto_view X (chain st))"
    using called_back [OF assms(1) read done_to] by auto
  from run obtain act d where act: "execute X V (deeper (call_frame F KIND_STATICCALL a code get_selector 0)) ?child =
      Some (Ok (Some (Word256_Bytes v)), act)" "ac_state act = child" "ac_sink act = sink" "d < 1000" "ac_gas act = limit - d"
    by (auto simp: run_returns_def spends_def)
  have "calls_into X V F KIND_STATICCALL get_selector st sink limit seq a (Some (Word256_Bytes v)) act st'"
    using assms(1,2,4) code code_nonempty st2(3) act(1,2) done_to(2) st'(1,2)
    by (auto simp: calls_into_def callable_def calling_def healthy_def newParams_def)
  from that [OF this act(3,4,5) st'(3)] show ?thesis .
qed

end

text \<open>The gas for the call: what is pushed before it, what is lent, and what is there afterwards.\<close>

lemma call_gas_after:
  fixes h l d q :: "64 word"
  assumes "3000 \<le> h" and "h < l" and "0 < q" and "q \<le> 7"
  shows "2007 \<le> h" and "uint (ucast l :: word256) < 2 ^ 64" and "h - q < ucast (ucast l :: word256)"
    and "1000 \<le> call_gas (h - q) l" and "d < 1000 \<Longrightarrow> 1000 \<le> h - q - call_gas (h - q) l - 2 + (call_gas (h - q) l - d)"
proof -
  have u: "3000 \<le> unat h" "0 < unat q" "unat q \<le> 7" "unat h < unat l"
    using assms by (auto simp: word_le_nat_alt word_less_nat_alt unat_gt_0)
  have q: "unat (h - q) = unat h - unat q" "unat (h - q - 2) = unat h - unat q - 2"
    using u by (simp_all add: unat_sub word_le_nat_alt)
  show "2007 \<le> h"
    using u by (simp add: word_le_nat_alt)
  show "uint (ucast l :: word256) < 2 ^ 64"
    using uint_lt2p [of l] by (subst uint_up_ucast) (simp_all add: is_up)
  have less: "h - q < l"
    using u q by (simp add: word_less_nat_alt)
  then show "h - q < ucast (ucast l :: word256)"
    by (simp add: ucast_up_ucast_id is_up)
  show "1000 \<le> call_gas (h - q) l"
    by (rule call_gas_enough(1) [OF _ less]) (use u q in \<open>simp add: word_le_nat_alt\<close>)
  assume "d < 1000"
  then have d: "unat d < 1000"
    by (simp add: word_less_nat_alt)
  have "h - q - call_gas (h - q) l - 2 + (call_gas (h - q) l - d) = h - q - 2 - d"
    by simp
  also have "1000 \<le> \<dots>"
    using u q d by (simp add: word_le_nat_alt unat_sub)
  finally show "1000 \<le> h - q - call_gas (h - q) l - 2 + (call_gas (h - q) l - d)" .
qed

lemma gas_at_call:
  fixes g c :: "64 word"
  assumes "4000 \<le> g" and "0 < c" and "c \<le> 200"
  shows "3000 \<le> g - c" and "g - c < g - (c - 1)"
proof -
  have u: "4000 \<le> unat g" "0 < unat c" "unat c \<le> 200"
    using assms by (auto simp: word_le_nat_alt unat_gt_0)
  then have "unat (g - c) = unat g - unat c" "unat (c - 1) = unat c - 1"
    by (simp_all add: unat_sub word_le_nat_alt)
  with u show "3000 \<le> g - c" and "g - c < g - (c - 1)"
    by (simp_all add: unat_sub word_le_nat_alt word_less_nat_alt)
qed

subsection \<open>Words and memory\<close>

text \<open>An address in a word.\<close>

lemma address_bits:
  "(w :: word256) AND 0xffffffffffffffffffffffffffffffffffffffff = Address_Word256 (AddressFromWord256 w)"
  "Address_Word256 a AND 0xffffffffffffffffffffffffffffffffffffffff = Address_Word256 a"
  "0xffffffffffffffffffffffffffffffffffffffff AND w = w AND 0xffffffffffffffffffffffffffffffffffffffff"
proof -
  have m: "(0xffffffffffffffffffffffffffffffffffffffff :: word256) = mask 160"
    by (simp add: mask_eq_exp_minus_1)
  show "w AND 0xffffffffffffffffffffffffffffffffffffffff = Address_Word256 (AddressFromWord256 w)"
     unfolding m by (rule bit_word_eqI) (auto simp: Address_Word256_def AddressFromWord256_def bit_simps)
  show "Address_Word256 a AND 0xffffffffffffffffffffffffffffffffffffffff = Address_Word256 a"
    unfolding m by (rule bit_word_eqI) (auto simp: Address_Word256_def bit_simps dest: bit_imp_le_length)
  show "0xffffffffffffffffffffffffffffffffffffffff AND w = w AND 0xffffffffffffffffffffffffffffffffffffffff"
    by (rule and.commute)
qed

lemma code_size_word: "code \<noteq> [] \<Longrightarrow> length code < 2 ^ 62 \<Longrightarrow> word_of_nat (length code) \<noteq> (0 :: word256)"
proof
  assume code: "code \<noteq> []" "length code < 2 ^ 62" and "word_of_nat (length code) = (0 :: word256)"
  then have "unat (word_of_nat (length code) :: word256) = 0"
    by simp
  with code show False
    by (simp add: unat_of_nat)
qed

lemma mem_put_Nil: "mem_put m off [] = m"
  by (cases m) (auto simp: mem_put_def fun_eq_iff)

lemma mem_slice_append: "mem_slice m off (a + b) = mem_slice m off a @ mem_slice m (off + a) b"
  unfolding mem_slice_def add.assoc [symmetric] by (subst upt_add_eq_append) simp_all

lemma mem_slice_take: "k \<le> length bs \<Longrightarrow> mem_slice (mem_put m off bs) off k = take k bs"
  by (rule nth_equalityI) (simp_all add: mem_slice_def mem_put_def)

end
