(* ===== verification/Invoke_Contract.thy ===== *)
theory Invoke_Contract
  imports Integration_Contracts Contract_Calls
begin

unbundle bit_operations_syntax

section \<open>InvokeContract\<close>

text \<open>
  The contract of the tests that calls another one, run up to its calls and behind them: \<^verbatim>\<open>setVal\<close> calls
  \<^verbatim>\<open>set\<close> at the address it holds and answers its argument, \<^verbatim>\<open>getVal\<close> calls \<^verbatim>\<open>get\<close> there with a
  \<^verbatim>\<open>STATICCALL\<close> and answers what that returned.
\<close>

subsection \<open>As bytes and instructions\<close>

definition invoke_init :: bytes where
  "invoke_init =
    [0x60, 0x80, 0x60, 0x40, 0x52, 0x34, 0x80, 0x15, 0x61, 0x00, 0x10, 0x57, 0x60, 0x00, 0x80, 0xfd, 0x5b,
     0x50, 0x60, 0x40, 0x51, 0x60, 0x20, 0x80, 0x61, 0x02, 0xf9, 0x83, 0x39, 0x81, 0x01, 0x80, 0x60, 0x40,
     0x52, 0x60, 0x20, 0x81, 0x10, 0x15, 0x61, 0x00, 0x30, 0x57, 0x60, 0x00, 0x80, 0xfd, 0x5b, 0x81, 0x01,
     0x90, 0x80, 0x80, 0x51, 0x90, 0x60, 0x20, 0x01, 0x90, 0x92, 0x91, 0x90, 0x50, 0x50, 0x50, 0x80, 0x60,
     0x00, 0x80, 0x61, 0x01, 0x00, 0x0a, 0x81, 0x54, 0x81, 0x73, 0xff, 0xff, 0xff, 0xff, 0xff, 0xff, 0xff,
     0xff, 0xff, 0xff, 0xff, 0xff, 0xff, 0xff, 0xff, 0xff, 0xff, 0xff, 0xff, 0xff, 0x02, 0x19, 0x16, 0x90,
     0x83, 0x73, 0xff, 0xff, 0xff, 0xff, 0xff, 0xff, 0xff, 0xff, 0xff, 0xff, 0xff, 0xff, 0xff, 0xff, 0xff,
     0xff, 0xff, 0xff, 0xff, 0xff, 0x16, 0x02, 0x17, 0x90, 0x55, 0x50, 0x50, 0x61, 0x02, 0x68, 0x80, 0x61,
     0x00, 0x91, 0x60, 0x00, 0x39, 0x60, 0x00, 0xf3, 0xfe]"

definition invoke_instructions :: bytes where
  "invoke_instructions =
    [0x60, 0x80, 0x60, 0x40, 0x52, 0x60, 0x04, 0x36, 0x10, 0x61, 0x00, 0x46, 0x57, 0x60, 0x00, 0x35, 0x7c,
     0x01, 0x00, 0x00, 0x00, 0x00, 0x00, 0x00, 0x00, 0x00, 0x00, 0x00, 0x00, 0x00, 0x00, 0x00, 0x00, 0x00,
     0x00, 0x00, 0x00, 0x00, 0x00, 0x00, 0x00, 0x00, 0x00, 0x00, 0x00, 0x00, 0x90, 0x04, 0x80, 0x63, 0x3d,
     0x41, 0x97, 0xf0, 0x14, 0x61, 0x00, 0x4b, 0x57, 0x80, 0x63, 0xe1, 0xcb, 0x0e, 0x52, 0x14, 0x61, 0x00,
     0x9a, 0x57, 0x5b, 0x60, 0x00, 0x80, 0xfd, 0x5b, 0x34, 0x80, 0x15, 0x61, 0x00, 0x57, 0x57, 0x60, 0x00,
     0x80, 0xfd, 0x5b, 0x50, 0x61, 0x00, 0x84, 0x60, 0x04, 0x80, 0x36, 0x03, 0x60, 0x20, 0x81, 0x10, 0x15,
     0x61, 0x00, 0x6e, 0x57, 0x60, 0x00, 0x80, 0xfd, 0x5b, 0x81, 0x01, 0x90, 0x80, 0x80, 0x35, 0x90, 0x60,
     0x20, 0x01, 0x90, 0x92, 0x91, 0x90, 0x50, 0x50, 0x50, 0x61, 0x00, 0xc5, 0x56, 0x5b, 0x60, 0x40, 0x51,
     0x80, 0x82, 0x81, 0x52, 0x60, 0x20, 0x01, 0x91, 0x50, 0x50, 0x60, 0x40, 0x51, 0x80, 0x91, 0x03, 0x90,
     0xf3, 0x5b, 0x34, 0x80, 0x15, 0x61, 0x00, 0xa6, 0x57, 0x60, 0x00, 0x80, 0xfd, 0x5b, 0x50, 0x61, 0x00,
     0xaf, 0x61, 0x01, 0x77, 0x56, 0x5b, 0x60, 0x40, 0x51, 0x80, 0x82, 0x81, 0x52, 0x60, 0x20, 0x01, 0x91,
     0x50, 0x50, 0x60, 0x40, 0x51, 0x80, 0x91, 0x03, 0x90, 0xf3, 0x5b, 0x60, 0x00, 0x80, 0x60, 0x00, 0x90,
     0x54, 0x90, 0x61, 0x01, 0x00, 0x0a, 0x90, 0x04, 0x73, 0xff, 0xff, 0xff, 0xff, 0xff, 0xff, 0xff, 0xff,
     0xff, 0xff, 0xff, 0xff, 0xff, 0xff, 0xff, 0xff, 0xff, 0xff, 0xff, 0xff, 0x16, 0x73, 0xff, 0xff, 0xff,
     0xff, 0xff, 0xff, 0xff, 0xff, 0xff, 0xff, 0xff, 0xff, 0xff, 0xff, 0xff, 0xff, 0xff, 0xff, 0xff, 0xff,
     0x16, 0x63, 0x60, 0xfe, 0x47, 0xb1, 0x83, 0x60, 0x40, 0x51, 0x82, 0x63, 0xff, 0xff, 0xff, 0xff, 0x16,
     0x7c, 0x01, 0x00, 0x00, 0x00, 0x00, 0x00, 0x00, 0x00, 0x00, 0x00, 0x00, 0x00, 0x00, 0x00, 0x00, 0x00,
     0x00, 0x00, 0x00, 0x00, 0x00, 0x00, 0x00, 0x00, 0x00, 0x00, 0x00, 0x00, 0x00, 0x02, 0x81, 0x52, 0x60,
     0x04, 0x01, 0x80, 0x82, 0x81, 0x52, 0x60, 0x20, 0x01, 0x91, 0x50, 0x50, 0x60, 0x00, 0x60, 0x40, 0x51,
     0x80, 0x83, 0x03, 0x81, 0x60, 0x00, 0x87, 0x80, 0x3b, 0x15, 0x80, 0x15, 0x61, 0x01, 0x57, 0x57, 0x60,
     0x00, 0x80, 0xfd, 0x5b, 0x50, 0x5a, 0xf1, 0x15, 0x80, 0x15, 0x61, 0x01, 0x6b, 0x57, 0x3d, 0x60, 0x00,
     0x80, 0x3e, 0x3d, 0x60, 0x00, 0xfd, 0x5b, 0x50, 0x50, 0x50, 0x50, 0x81, 0x90, 0x50, 0x91, 0x90, 0x50,
     0x56, 0x5b, 0x60, 0x00, 0x80, 0x60, 0x00, 0x90, 0x54, 0x90, 0x61, 0x01, 0x00, 0x0a, 0x90, 0x04, 0x73,
     0xff, 0xff, 0xff, 0xff, 0xff, 0xff, 0xff, 0xff, 0xff, 0xff, 0xff, 0xff, 0xff, 0xff, 0xff, 0xff, 0xff,
     0xff, 0xff, 0xff, 0x16, 0x73, 0xff, 0xff, 0xff, 0xff, 0xff, 0xff, 0xff, 0xff, 0xff, 0xff, 0xff, 0xff,
     0xff, 0xff, 0xff, 0xff, 0xff, 0xff, 0xff, 0xff, 0x16, 0x63, 0x6d, 0x4c, 0xe6, 0x3c, 0x60, 0x40, 0x51,
     0x81, 0x63, 0xff, 0xff, 0xff, 0xff, 0x16, 0x7c, 0x01, 0x00, 0x00, 0x00, 0x00, 0x00, 0x00, 0x00, 0x00,
     0x00, 0x00, 0x00, 0x00, 0x00, 0x00, 0x00, 0x00, 0x00, 0x00, 0x00, 0x00, 0x00, 0x00, 0x00, 0x00, 0x00,
     0x00, 0x00, 0x00, 0x02, 0x81, 0x52, 0x60, 0x04, 0x01, 0x60, 0x20, 0x60, 0x40, 0x51, 0x80, 0x83, 0x03,
     0x81, 0x86, 0x80, 0x3b, 0x15, 0x80, 0x15, 0x61, 0x01, 0xfc, 0x57, 0x60, 0x00, 0x80, 0xfd, 0x5b, 0x50,
     0x5a, 0xfa, 0x15, 0x80, 0x15, 0x61, 0x02, 0x10, 0x57, 0x3d, 0x60, 0x00, 0x80, 0x3e, 0x3d, 0x60, 0x00,
     0xfd, 0x5b, 0x50, 0x50, 0x50, 0x50, 0x60, 0x40, 0x51, 0x3d, 0x60, 0x20, 0x81, 0x10, 0x15, 0x61, 0x02,
     0x26, 0x57, 0x60, 0x00, 0x80, 0xfd, 0x5b, 0x81, 0x01, 0x90, 0x80, 0x80, 0x51, 0x90, 0x60, 0x20, 0x01,
     0x90, 0x92, 0x91, 0x90, 0x50, 0x50, 0x50, 0x90, 0x50, 0x90, 0x56, 0xfe]"

definition invoke_metadata :: bytes where
  "invoke_metadata =
    [0xa1, 0x65, 0x62, 0x7a, 0x7a, 0x72, 0x30, 0x58, 0x20, 0x98, 0xc7, 0x4c, 0x9a, 0xe9, 0x61, 0x56, 0x8f,
     0x41, 0x9c, 0xd6, 0x48, 0x96, 0x59, 0x57, 0xc2, 0xf7, 0x2a, 0x8e, 0x3c, 0x8f, 0xf2, 0xc2, 0x58, 0x75,
     0xb4, 0x80, 0xb6, 0xda, 0x93, 0xa2, 0xc8, 0x00, 0x29]"

definition invoke_code :: bytes where
  "invoke_code = invoke_instructions @ invoke_metadata"

lemmas invoke_parts = invoke_init_def invoke_instructions_def invoke_metadata_def

lemma invoke_texts:
  "RuntimeBytecode InvokeContract = hex_EncodeToString invoke_code"
  "CompiledBytecode InvokeContract = hex_EncodeToString (invoke_init @ invoke_code)"
  by (simp_all add: InvokeContract_def invoke_code_def invoke_parts hex_EncodeToString_def hex_digits_def hextable_def)

definition invoke_init_listing :: "(int \<times> opcode \<times> word256) list" where
  "invoke_init_listing =
    [(0x00, OP_PUSH 1, 0x80), (0x02, OP_PUSH 1, 0x40), (0x04, OP_EXEC X_MSTORE, 0),
     (0x05, OP_ENV ENV_CALLVALUE, 0), (0x06, OP_DUP 1, 0), (0x07, OP_ALU ALU_ISZERO, 0),
     (0x08, OP_PUSH 2, 0x10), (0x0b, OP_EXEC X_JUMPI, 0), (0x0c, OP_PUSH 1, 0x0), (0x0e, OP_DUP 1, 0),
     (0x0f, OP_REVERT, 0), (0x10, OP_EXEC X_JUMPDEST, 0), (0x11, OP_EXEC X_POP, 0), (0x12, OP_PUSH 1, 0x40),
     (0x14, OP_EXEC X_MLOAD, 0), (0x15, OP_PUSH 1, 0x20), (0x17, OP_DUP 1, 0), (0x18, OP_PUSH 2, 0x2f9),
     (0x1b, OP_DUP 4, 0), (0x1c, OP_ENV ENV_CODECOPY, 0), (0x1d, OP_DUP 2, 0), (0x1e, OP_ALU ALU_ADD, 0),
     (0x1f, OP_DUP 1, 0), (0x20, OP_PUSH 1, 0x40), (0x22, OP_EXEC X_MSTORE, 0), (0x23, OP_PUSH 1, 0x20),
     (0x25, OP_DUP 2, 0), (0x26, OP_ALU ALU_LT, 0), (0x27, OP_ALU ALU_ISZERO, 0), (0x28, OP_PUSH 2, 0x30),
     (0x2b, OP_EXEC X_JUMPI, 0), (0x2c, OP_PUSH 1, 0x0), (0x2e, OP_DUP 1, 0), (0x2f, OP_REVERT, 0),
     (0x30, OP_EXEC X_JUMPDEST, 0), (0x31, OP_DUP 2, 0), (0x32, OP_ALU ALU_ADD, 0), (0x33, OP_SWAP 2, 0),
     (0x34, OP_DUP 1, 0), (0x35, OP_DUP 1, 0), (0x36, OP_EXEC X_MLOAD, 0), (0x37, OP_SWAP 2, 0),
     (0x38, OP_PUSH 1, 0x20), (0x3a, OP_ALU ALU_ADD, 0), (0x3b, OP_SWAP 2, 0), (0x3c, OP_SWAP 4, 0),
     (0x3d, OP_SWAP 3, 0), (0x3e, OP_SWAP 2, 0), (0x3f, OP_EXEC X_POP, 0), (0x40, OP_EXEC X_POP, 0),
     (0x41, OP_EXEC X_POP, 0), (0x42, OP_DUP 1, 0), (0x43, OP_PUSH 1, 0x0), (0x45, OP_DUP 1, 0),
     (0x46, OP_PUSH 2, 0x100), (0x49, OP_ALU ALU_EXP, 0), (0x4a, OP_DUP 2, 0), (0x4b, OP_EXEC X_SLOAD, 0),
     (0x4c, OP_DUP 2, 0), (0x4d, OP_PUSH 20, 0xffffffffffffffffffffffffffffffffffffffff),
     (0x62, OP_ALU ALU_MUL, 0), (0x63, OP_ALU ALU_NOT, 0), (0x64, OP_ALU ALU_AND, 0), (0x65, OP_SWAP 2, 0),
     (0x66, OP_DUP 4, 0), (0x67, OP_PUSH 20, 0xffffffffffffffffffffffffffffffffffffffff),
     (0x7c, OP_ALU ALU_AND, 0), (0x7d, OP_ALU ALU_MUL, 0), (0x7e, OP_ALU ALU_OR, 0), (0x7f, OP_SWAP 2, 0),
     (0x80, OP_EXEC X_SSTORE, 0), (0x81, OP_EXEC X_POP, 0), (0x82, OP_EXEC X_POP, 0), (0x83, OP_PUSH 2, 0x268),
     (0x86, OP_DUP 1, 0), (0x87, OP_PUSH 2, 0x91), (0x8a, OP_PUSH 1, 0x0), (0x8c, OP_ENV ENV_CODECOPY, 0),
     (0x8d, OP_PUSH 1, 0x0), (0x8f, OP_RETURN, 0), (0x90, OP_INVALID, 0)]"

definition invoke_listing :: "(int \<times> opcode \<times> word256) list" where
  "invoke_listing =
    [(0x00, OP_PUSH 1, 0x80), (0x02, OP_PUSH 1, 0x40), (0x04, OP_EXEC X_MSTORE, 0), (0x05, OP_PUSH 1, 0x4),
     (0x07, OP_ENV ENV_CALLDATASIZE, 0), (0x08, OP_ALU ALU_LT, 0), (0x09, OP_PUSH 2, 0x46),
     (0x0c, OP_EXEC X_JUMPI, 0), (0x0d, OP_PUSH 1, 0x0), (0x0f, OP_ENV ENV_CALLDATALOAD, 0),
     (0x10, OP_PUSH 29, 0x100000000000000000000000000000000000000000000000000000000), (0x2e, OP_SWAP 2, 0),
     (0x2f, OP_ALU ALU_DIV, 0), (0x30, OP_DUP 1, 0), (0x31, OP_PUSH 4, 0x3d4197f0), (0x36, OP_ALU ALU_EQ, 0),
     (0x37, OP_PUSH 2, 0x4b), (0x3a, OP_EXEC X_JUMPI, 0), (0x3b, OP_DUP 1, 0), (0x3c, OP_PUSH 4, 0xe1cb0e52),
     (0x41, OP_ALU ALU_EQ, 0), (0x42, OP_PUSH 2, 0x9a), (0x45, OP_EXEC X_JUMPI, 0),
     (0x46, OP_EXEC X_JUMPDEST, 0), (0x47, OP_PUSH 1, 0x0), (0x49, OP_DUP 1, 0), (0x4a, OP_REVERT, 0),
     (0x4b, OP_EXEC X_JUMPDEST, 0), (0x4c, OP_ENV ENV_CALLVALUE, 0), (0x4d, OP_DUP 1, 0),
     (0x4e, OP_ALU ALU_ISZERO, 0), (0x4f, OP_PUSH 2, 0x57), (0x52, OP_EXEC X_JUMPI, 0), (0x53, OP_PUSH 1, 0x0),
     (0x55, OP_DUP 1, 0), (0x56, OP_REVERT, 0), (0x57, OP_EXEC X_JUMPDEST, 0), (0x58, OP_EXEC X_POP, 0),
     (0x59, OP_PUSH 2, 0x84), (0x5c, OP_PUSH 1, 0x4), (0x5e, OP_DUP 1, 0), (0x5f, OP_ENV ENV_CALLDATASIZE, 0),
     (0x60, OP_ALU ALU_SUB, 0), (0x61, OP_PUSH 1, 0x20), (0x63, OP_DUP 2, 0), (0x64, OP_ALU ALU_LT, 0),
     (0x65, OP_ALU ALU_ISZERO, 0), (0x66, OP_PUSH 2, 0x6e), (0x69, OP_EXEC X_JUMPI, 0), (0x6a, OP_PUSH 1, 0x0),
     (0x6c, OP_DUP 1, 0), (0x6d, OP_REVERT, 0), (0x6e, OP_EXEC X_JUMPDEST, 0), (0x6f, OP_DUP 2, 0),
     (0x70, OP_ALU ALU_ADD, 0), (0x71, OP_SWAP 2, 0), (0x72, OP_DUP 1, 0), (0x73, OP_DUP 1, 0),
     (0x74, OP_ENV ENV_CALLDATALOAD, 0), (0x75, OP_SWAP 2, 0), (0x76, OP_PUSH 1, 0x20),
     (0x78, OP_ALU ALU_ADD, 0), (0x79, OP_SWAP 2, 0), (0x7a, OP_SWAP 4, 0), (0x7b, OP_SWAP 3, 0),
     (0x7c, OP_SWAP 2, 0), (0x7d, OP_EXEC X_POP, 0), (0x7e, OP_EXEC X_POP, 0), (0x7f, OP_EXEC X_POP, 0),
     (0x80, OP_PUSH 2, 0xc5), (0x83, OP_EXEC X_JUMP, 0), (0x84, OP_EXEC X_JUMPDEST, 0),
     (0x85, OP_PUSH 1, 0x40), (0x87, OP_EXEC X_MLOAD, 0), (0x88, OP_DUP 1, 0), (0x89, OP_DUP 3, 0),
     (0x8a, OP_DUP 2, 0), (0x8b, OP_EXEC X_MSTORE, 0), (0x8c, OP_PUSH 1, 0x20), (0x8e, OP_ALU ALU_ADD, 0),
     (0x8f, OP_SWAP 3, 0), (0x90, OP_EXEC X_POP, 0), (0x91, OP_EXEC X_POP, 0), (0x92, OP_PUSH 1, 0x40),
     (0x94, OP_EXEC X_MLOAD, 0), (0x95, OP_DUP 1, 0), (0x96, OP_SWAP 3, 0), (0x97, OP_ALU ALU_SUB, 0),
     (0x98, OP_SWAP 2, 0), (0x99, OP_RETURN, 0), (0x9a, OP_EXEC X_JUMPDEST, 0),
     (0x9b, OP_ENV ENV_CALLVALUE, 0), (0x9c, OP_DUP 1, 0), (0x9d, OP_ALU ALU_ISZERO, 0),
     (0x9e, OP_PUSH 2, 0xa6), (0xa1, OP_EXEC X_JUMPI, 0), (0xa2, OP_PUSH 1, 0x0), (0xa4, OP_DUP 1, 0),
     (0xa5, OP_REVERT, 0), (0xa6, OP_EXEC X_JUMPDEST, 0), (0xa7, OP_EXEC X_POP, 0), (0xa8, OP_PUSH 2, 0xaf),
     (0xab, OP_PUSH 2, 0x177), (0xae, OP_EXEC X_JUMP, 0), (0xaf, OP_EXEC X_JUMPDEST, 0),
     (0xb0, OP_PUSH 1, 0x40), (0xb2, OP_EXEC X_MLOAD, 0), (0xb3, OP_DUP 1, 0), (0xb4, OP_DUP 3, 0),
     (0xb5, OP_DUP 2, 0), (0xb6, OP_EXEC X_MSTORE, 0), (0xb7, OP_PUSH 1, 0x20), (0xb9, OP_ALU ALU_ADD, 0),
     (0xba, OP_SWAP 3, 0), (0xbb, OP_EXEC X_POP, 0), (0xbc, OP_EXEC X_POP, 0), (0xbd, OP_PUSH 1, 0x40),
     (0xbf, OP_EXEC X_MLOAD, 0), (0xc0, OP_DUP 1, 0), (0xc1, OP_SWAP 3, 0), (0xc2, OP_ALU ALU_SUB, 0),
     (0xc3, OP_SWAP 2, 0), (0xc4, OP_RETURN, 0), (0xc5, OP_EXEC X_JUMPDEST, 0), (0xc6, OP_PUSH 1, 0x0),
     (0xc8, OP_DUP 1, 0), (0xc9, OP_PUSH 1, 0x0), (0xcb, OP_SWAP 2, 0), (0xcc, OP_EXEC X_SLOAD, 0),
     (0xcd, OP_SWAP 2, 0), (0xce, OP_PUSH 2, 0x100), (0xd1, OP_ALU ALU_EXP, 0), (0xd2, OP_SWAP 2, 0),
     (0xd3, OP_ALU ALU_DIV, 0), (0xd4, OP_PUSH 20, 0xffffffffffffffffffffffffffffffffffffffff),
     (0xe9, OP_ALU ALU_AND, 0), (0xea, OP_PUSH 20, 0xffffffffffffffffffffffffffffffffffffffff),
     (0xff, OP_ALU ALU_AND, 0), (0x100, OP_PUSH 4, 0x60fe47b1), (0x105, OP_DUP 4, 0), (0x106, OP_PUSH 1, 0x40),
     (0x108, OP_EXEC X_MLOAD, 0), (0x109, OP_DUP 3, 0), (0x10a, OP_PUSH 4, 0xffffffff),
     (0x10f, OP_ALU ALU_AND, 0),
     (0x110, OP_PUSH 29, 0x100000000000000000000000000000000000000000000000000000000),
     (0x12e, OP_ALU ALU_MUL, 0), (0x12f, OP_DUP 2, 0), (0x130, OP_EXEC X_MSTORE, 0), (0x131, OP_PUSH 1, 0x4),
     (0x133, OP_ALU ALU_ADD, 0), (0x134, OP_DUP 1, 0), (0x135, OP_DUP 3, 0), (0x136, OP_DUP 2, 0),
     (0x137, OP_EXEC X_MSTORE, 0), (0x138, OP_PUSH 1, 0x20), (0x13a, OP_ALU ALU_ADD, 0), (0x13b, OP_SWAP 3, 0),
     (0x13c, OP_EXEC X_POP, 0), (0x13d, OP_EXEC X_POP, 0), (0x13e, OP_PUSH 1, 0x0), (0x140, OP_PUSH 1, 0x40),
     (0x142, OP_EXEC X_MLOAD, 0), (0x143, OP_DUP 1, 0), (0x144, OP_DUP 4, 0), (0x145, OP_ALU ALU_SUB, 0),
     (0x146, OP_DUP 2, 0), (0x147, OP_PUSH 1, 0x0), (0x149, OP_DUP 8, 0), (0x14a, OP_DUP 1, 0),
     (0x14b, OP_ENV ENV_EXTCODESIZE, 0), (0x14c, OP_ALU ALU_ISZERO, 0), (0x14d, OP_DUP 1, 0),
     (0x14e, OP_ALU ALU_ISZERO, 0), (0x14f, OP_PUSH 2, 0x157), (0x152, OP_EXEC X_JUMPI, 0),
     (0x153, OP_PUSH 1, 0x0), (0x155, OP_DUP 1, 0), (0x156, OP_REVERT, 0), (0x157, OP_EXEC X_JUMPDEST, 0),
     (0x158, OP_EXEC X_POP, 0), (0x159, OP_EXEC X_GAS, 0), (0x15a, OP_CALLS KIND_CALL, 0),
     (0x15b, OP_ALU ALU_ISZERO, 0), (0x15c, OP_DUP 1, 0), (0x15d, OP_ALU ALU_ISZERO, 0),
     (0x15e, OP_PUSH 2, 0x16b), (0x161, OP_EXEC X_JUMPI, 0), (0x162, OP_ENV ENV_RETURNDATASIZE, 0),
     (0x163, OP_PUSH 1, 0x0), (0x165, OP_DUP 1, 0), (0x166, OP_ENV ENV_RETURNDATACOPY, 0),
     (0x167, OP_ENV ENV_RETURNDATASIZE, 0), (0x168, OP_PUSH 1, 0x0), (0x16a, OP_REVERT, 0),
     (0x16b, OP_EXEC X_JUMPDEST, 0), (0x16c, OP_EXEC X_POP, 0), (0x16d, OP_EXEC X_POP, 0),
     (0x16e, OP_EXEC X_POP, 0), (0x16f, OP_EXEC X_POP, 0), (0x170, OP_DUP 2, 0), (0x171, OP_SWAP 2, 0),
     (0x172, OP_EXEC X_POP, 0), (0x173, OP_SWAP 3, 0), (0x174, OP_SWAP 2, 0), (0x175, OP_EXEC X_POP, 0),
     (0x176, OP_EXEC X_JUMP, 0), (0x177, OP_EXEC X_JUMPDEST, 0), (0x178, OP_PUSH 1, 0x0), (0x17a, OP_DUP 1, 0),
     (0x17b, OP_PUSH 1, 0x0), (0x17d, OP_SWAP 2, 0), (0x17e, OP_EXEC X_SLOAD, 0), (0x17f, OP_SWAP 2, 0),
     (0x180, OP_PUSH 2, 0x100), (0x183, OP_ALU ALU_EXP, 0), (0x184, OP_SWAP 2, 0), (0x185, OP_ALU ALU_DIV, 0),
     (0x186, OP_PUSH 20, 0xffffffffffffffffffffffffffffffffffffffff), (0x19b, OP_ALU ALU_AND, 0),
     (0x19c, OP_PUSH 20, 0xffffffffffffffffffffffffffffffffffffffff), (0x1b1, OP_ALU ALU_AND, 0),
     (0x1b2, OP_PUSH 4, 0x6d4ce63c), (0x1b7, OP_PUSH 1, 0x40), (0x1b9, OP_EXEC X_MLOAD, 0),
     (0x1ba, OP_DUP 2, 0), (0x1bb, OP_PUSH 4, 0xffffffff), (0x1c0, OP_ALU ALU_AND, 0),
     (0x1c1, OP_PUSH 29, 0x100000000000000000000000000000000000000000000000000000000),
     (0x1df, OP_ALU ALU_MUL, 0), (0x1e0, OP_DUP 2, 0), (0x1e1, OP_EXEC X_MSTORE, 0), (0x1e2, OP_PUSH 1, 0x4),
     (0x1e4, OP_ALU ALU_ADD, 0), (0x1e5, OP_PUSH 1, 0x20), (0x1e7, OP_PUSH 1, 0x40),
     (0x1e9, OP_EXEC X_MLOAD, 0), (0x1ea, OP_DUP 1, 0), (0x1eb, OP_DUP 4, 0), (0x1ec, OP_ALU ALU_SUB, 0),
     (0x1ed, OP_DUP 2, 0), (0x1ee, OP_DUP 7, 0), (0x1ef, OP_DUP 1, 0), (0x1f0, OP_ENV ENV_EXTCODESIZE, 0),
     (0x1f1, OP_ALU ALU_ISZERO, 0), (0x1f2, OP_DUP 1, 0), (0x1f3, OP_ALU ALU_ISZERO, 0),
     (0x1f4, OP_PUSH 2, 0x1fc), (0x1f7, OP_EXEC X_JUMPI, 0), (0x1f8, OP_PUSH 1, 0x0), (0x1fa, OP_DUP 1, 0),
     (0x1fb, OP_REVERT, 0), (0x1fc, OP_EXEC X_JUMPDEST, 0), (0x1fd, OP_EXEC X_POP, 0),
     (0x1fe, OP_EXEC X_GAS, 0), (0x1ff, OP_CALLS KIND_STATICCALL, 0), (0x200, OP_ALU ALU_ISZERO, 0),
     (0x201, OP_DUP 1, 0), (0x202, OP_ALU ALU_ISZERO, 0), (0x203, OP_PUSH 2, 0x210),
     (0x206, OP_EXEC X_JUMPI, 0), (0x207, OP_ENV ENV_RETURNDATASIZE, 0), (0x208, OP_PUSH 1, 0x0),
     (0x20a, OP_DUP 1, 0), (0x20b, OP_ENV ENV_RETURNDATACOPY, 0), (0x20c, OP_ENV ENV_RETURNDATASIZE, 0),
     (0x20d, OP_PUSH 1, 0x0), (0x20f, OP_REVERT, 0), (0x210, OP_EXEC X_JUMPDEST, 0), (0x211, OP_EXEC X_POP, 0),
     (0x212, OP_EXEC X_POP, 0), (0x213, OP_EXEC X_POP, 0), (0x214, OP_EXEC X_POP, 0), (0x215, OP_PUSH 1, 0x40),
     (0x217, OP_EXEC X_MLOAD, 0), (0x218, OP_ENV ENV_RETURNDATASIZE, 0), (0x219, OP_PUSH 1, 0x20),
     (0x21b, OP_DUP 2, 0), (0x21c, OP_ALU ALU_LT, 0), (0x21d, OP_ALU ALU_ISZERO, 0), (0x21e, OP_PUSH 2, 0x226),
     (0x221, OP_EXEC X_JUMPI, 0), (0x222, OP_PUSH 1, 0x0), (0x224, OP_DUP 1, 0), (0x225, OP_REVERT, 0),
     (0x226, OP_EXEC X_JUMPDEST, 0), (0x227, OP_DUP 2, 0), (0x228, OP_ALU ALU_ADD, 0), (0x229, OP_SWAP 2, 0),
     (0x22a, OP_DUP 1, 0), (0x22b, OP_DUP 1, 0), (0x22c, OP_EXEC X_MLOAD, 0), (0x22d, OP_SWAP 2, 0),
     (0x22e, OP_PUSH 1, 0x20), (0x230, OP_ALU ALU_ADD, 0), (0x231, OP_SWAP 2, 0), (0x232, OP_SWAP 4, 0),
     (0x233, OP_SWAP 3, 0), (0x234, OP_SWAP 2, 0), (0x235, OP_EXEC X_POP, 0), (0x236, OP_EXEC X_POP, 0),
     (0x237, OP_EXEC X_POP, 0), (0x238, OP_SWAP 2, 0), (0x239, OP_EXEC X_POP, 0), (0x23a, OP_SWAP 2, 0),
     (0x23b, OP_EXEC X_JUMP, 0), (0x23c, OP_INVALID, 0)]"

lemma decoded_calls:
  "decode_op 0x02 = OP_ALU ALU_MUL" "decode_op 0x0a = OP_ALU ALU_EXP" "decode_op 0x17 = OP_ALU ALU_OR"
  "decode_op 0x19 = OP_ALU ALU_NOT" "decode_op 0x3b = OP_ENV ENV_EXTCODESIZE"
  "decode_op 0x3d = OP_ENV ENV_RETURNDATASIZE" "decode_op 0x3e = OP_ENV ENV_RETURNDATACOPY"
  "decode_op 0x5a = OP_EXEC X_GAS" "decode_op 0x73 = OP_PUSH 20" "decode_op 0x83 = OP_DUP 4"
  "decode_op 0x86 = OP_DUP 7" "decode_op 0x87 = OP_DUP 8" "decode_op 0xf1 = OP_CALLS KIND_CALL"
  "decode_op 0xfa = OP_CALLS KIND_STATICCALL"
  by (simp_all add: decode_op_def opcode_table_def)

lemma invoke_disassembled:
  "disassemble 0 invoke_init = invoke_init_listing" "disassemble 0 invoke_instructions = invoke_listing"
  by (simp_all add: invoke_parts decoded decoded_calls Let_def push_size_def be_nat_def invoke_init_listing_def invoke_listing_def)

lemma invoke_fetch_listings:
  "list_all (\<lambda>(q, i). fetch invoke_code q = Some i) invoke_listing"
  "list_all (\<lambda>(q, i). fetch (invoke_init @ invoke_code @ data) q = Some i) invoke_init_listing"
  using fetch_disassembled [of "[]" invoke_instructions invoke_metadata] fetch_disassembled [of "[]" invoke_init "invoke_code @ data"]
  by (simp_all add: invoke_code_def invoke_disassembled)

lemmas invoke_fetches = invoke_fetch_listings(1) [unfolded invoke_listing_def list.pred_inject prod.case]

lemma invoke_lengths: "length invoke_code = 616" "length invoke_init = 145"
  by (simp_all add: invoke_code_def invoke_parts)

subsection \<open>Its call data and memory\<close>

definition setVal_selector :: bytes where "setVal_selector = [0x3d, 0x41, 0x97, 0xf0]"
definition getVal_selector :: bytes where "getVal_selector = [0xe1, 0xcb, 0x0e, 0x52]"

definition setVal_data :: "word256 \<Rightarrow> bytes" where
  "setVal_data x = setVal_selector @ Word256_Bytes x"

lemma invoke_data:
  "length getVal_selector = 4" "length (setVal_data x) = 36"
  "input_word getVal_selector 0 div 0x100000000000000000000000000000000000000000000000000000000 = 0xe1cb0e52"
  "input_word (setVal_data x) 0 div 0x100000000000000000000000000000000000000000000000000000000 = 0x3d4197f0"
  "input_word (setVal_data x) 4 = x"
proof -
  have sel: "word_of_nat (be_nat getVal_selector) = (0xe1cb0e52 :: word256)" "word_of_nat (be_nat setVal_selector) = (0x3d4197f0 :: word256)"
    and len: "length getVal_selector = 4" "length setVal_selector = 4"
    by (simp_all add: getVal_selector_def setVal_selector_def be_nat_def)
  show "input_word getVal_selector 0 div 0x100000000000000000000000000000000000000000000000000000000 = 0xe1cb0e52"
    using selector_word [of getVal_selector "[]"] by (simp add: len sel)
  show "input_word (setVal_data x) 0 div 0x100000000000000000000000000000000000000000000000000000000 = 0x3d4197f0"
    using selector_word [of setVal_selector "Word256_Bytes x"] by (simp add: len sel setVal_data_def)
  show "input_word (setVal_data x) 4 = x"
    using argument_word [of setVal_selector x "[]"] by (simp add: len setVal_data_def)
qed (simp_all add: getVal_selector_def setVal_selector_def setVal_data_def)

text \<open>The memory at the calls: the free pointer and the call data.\<close>

definition set_memory :: "word256 \<Rightarrow> memory" where
  "set_memory x = mem_put (mem_put (mem_put DefaultDynamicMemory 64 (Word256_Bytes 128)) 128
     (Word256_Bytes 0x60fe47b100000000000000000000000000000000000000000000000000000000)) 132 (Word256_Bytes x)"

definition get_memory :: memory where
  "get_memory = mem_put (mem_put DefaultDynamicMemory 64 (Word256_Bytes 128)) 128
     (Word256_Bytes 0x6d4ce63c00000000000000000000000000000000000000000000000000000000)"

lemma selector_words:
  "Word256_Bytes 0x60fe47b100000000000000000000000000000000000000000000000000000000 = set_selector @ replicate 28 0"
  "Word256_Bytes 0x6d4ce63c00000000000000000000000000000000000000000000000000000000 = get_selector @ replicate 28 0"
proof -
  have "replicate 28 (0 :: byte) = [0, 0, 0, 0, 0, 0, 0, 0, 0, 0, 0, 0, 0, 0, 0, 0, 0, 0, 0, 0, 0, 0, 0, 0, 0, 0, 0, 0]"
    by (simp add: numeral_eq_Suc)
  then show "Word256_Bytes 0x60fe47b100000000000000000000000000000000000000000000000000000000 = set_selector @ replicate 28 0"
    "Word256_Bytes 0x6d4ce63c00000000000000000000000000000000000000000000000000000000 = get_selector @ replicate 28 0"
    using Word256_Bytes_of [of "set_selector @ replicate 28 0"] Word256_Bytes_of [of "get_selector @ replicate 28 0"]
    by (simp_all add: set_selector_def get_selector_def be_nat_def)
qed

lemma set_memory:
  "mem_slice (set_memory x) 128 36 = set_data x" "mem_len (set_memory x) = 0x100000" "mem_word (set_memory x) 64 = 128"
proof -
  have "mem_slice (set_memory x) 128 36 = mem_slice (set_memory x) 128 4 @ mem_slice (set_memory x) 132 32"
    using mem_slice_append [of "set_memory x" 128 4 32] by simp
  also have "mem_slice (set_memory x) 132 32 = Word256_Bytes x"
    by (simp add: set_memory_def mem_slice_word)
  also have "mem_slice (set_memory x) 128 4 = set_selector"
    by (simp add: set_memory_def mem_slice_put_other mem_slice_take selector_words length_selectors)
  finally show "mem_slice (set_memory x) 128 36 = set_data x"
    by (simp add: set_data_def)
  show "mem_len (set_memory x) = 0x100000" "mem_word (set_memory x) 64 = 128"
    by (simp_all add: set_memory_def mem_len_Default mem_word_put)
qed

lemma get_memory:
  "mem_slice get_memory 128 4 = get_selector" "mem_len get_memory = 0x100000" "mem_word get_memory 64 = 128"
proof -
  show "mem_word get_memory 64 = 128"
    by (simp add: get_memory_def mem_word_put)
qed (simp_all add: get_memory_def mem_slice_take selector_words length_selectors mem_len_Default)

subsection \<open>Up to the calls, and from there\<close>

lemmas run_invoke_simps = run_rules run_GAS run_RETURNDATASIZE run_conditions invoke_lengths invoke_data diff_diff_eq
  contract_callD address_bits

lemma setVal_before:
  assumes "st_error (ac_state act) = None" and "es_GetStorage X (ac_state act) b 0 = (Ok w, st1)" and "st_error st1 = None"
    and "AddressFromWord256 w = a" and "es_Exists X st1 a = (True, st2)" and "es_GetCode X st2 a = (Some code, st3)" and "st_error st3 = None"
    and "length code < 2 ^ 62" and "word_of_nat (length code) \<noteq> (0 :: word256)"
    and gas: "1000 \<le> ac_gas act" and "contract_call V F b invoke_code (setVal_data x)"
  shows "execute X V F act = run_instr X V F (OP_CALLS KIND_CALL, 0) (config (ac_sequence act, 0, None) st3 (ac_sink act)
    (set_memory x) 16 (ac_gas act - 178) 346 (ucast (ac_gas act - 177) # Address_Word256 a # 0 # 128 # 36 # 128 # 0 #
    [164, 0x60fe47b1, Address_Word256 a, 0, x, 132, 0x3d4197f0]))"
  using assms
  by (simp add: run_invoke_simps enough_gas [OF gas] invoke_fetches code_bytes_def set_memory_def numeral_2_eq_2 [symmetric]
      run_SLOAD [where st = "ac_state act" and st' = st1 and v = w]
      run_EXTCODESIZE [where st = st1 and ?st1.0 = st2 and ?st2.0 = st3 and code = "Some code"])

lemma setVal_after:
  assumes "st_error st = None" and "1000 \<le> g" and "contract_call V F b invoke_code (setVal_data x)"
    and "mem_len mem = 0x100000" and "mem_word mem 64 = 128"
  shows "run X V F (config (q, 0, r) st sink mem 16 g 347 [1, 164, 0x60fe47b1, Address_Word256 a, 0, x, 132, 0x3d4197f0]) =
    Some (Ok (Some (Word256_Bytes x)), \<lparr>ac_state = st, ac_sink = sink, ac_gas = g - 51, ac_sequence = q\<rparr>)"
  using assms
  by (simp add: run_invoke_simps enough_gas [OF assms(2)] invoke_fetches mem_slice_word numeral_2_eq_2 [symmetric])

lemma getVal_before:
  assumes "st_error (ac_state act) = None" and "es_GetStorage X (ac_state act) b 0 = (Ok w, st1)" and "st_error st1 = None"
    and "AddressFromWord256 w = a" and "es_Exists X st1 a = (True, st2)" and "es_GetCode X st2 a = (Some code, st3)" and "st_error st3 = None"
    and "length code < 2 ^ 62" and "word_of_nat (length code) \<noteq> (0 :: word256)"
    and gas: "1000 \<le> ac_gas act" and "contract_call V F b invoke_code getVal_selector"
  shows "execute X V F act = run_instr X V F (OP_CALLS KIND_STATICCALL, 0) (config (ac_sequence act, 0, None) st3 (ac_sink act)
    get_memory 14 (ac_gas act - 127) 511 (ucast (ac_gas act - 126) # Address_Word256 a # 128 # 4 # 128 # 32 # [132, 0x6d4ce63c, Address_Word256 a, 0, 175, 0xe1cb0e52]))"
  using assms
  by (simp add: run_invoke_simps enough_gas [OF gas] invoke_fetches code_bytes_def get_memory_def numeral_2_eq_2 [symmetric]
      run_SLOAD [where st = "ac_state act" and st' = st1 and v = w]
      run_EXTCODESIZE [where st = st1 and ?st1.0 = st2 and ?st2.0 = st3 and code = "Some code"])

lemma getVal_after:
  assumes "st_error st = None" and "1000 \<le> g" and "contract_call V F b invoke_code getVal_selector"
    and "mem_len mem = 0x100000" and "mem_word mem 64 = 128"
  shows "run X V F (config (q, 0, Some (Word256_Bytes v)) st sink (mem_put mem 128 (Word256_Bytes v)) 14 g 512 [1, 132, 0x6d4ce63c, Address_Word256 a, 0, 175, 0xe1cb0e52]) =
    Some (Ok (Some (Word256_Bytes v)), \<lparr>ac_state = st, ac_sink = sink, ac_gas = g - 86, ac_sequence = q\<rparr>)"
  using assms
  by (simp add: run_invoke_simps enough_gas [OF assms(2)] invoke_fetches mem_slice_word numeral_2_eq_2 [symmetric] code_bytes_def)

subsection \<open>The constructor\<close>

text \<open>The code of a deployment has the argument of the constructor behind it.\<close>

definition invoke_deployment :: "address \<Rightarrow> bytes" where
  "invoke_deployment a = invoke_init @ invoke_code @ Word256_Bytes (Address_Word256 a)"

text \<open>The constructor keeps what stands in the slot above the address.\<close>

definition store_address :: "word256 \<Rightarrow> address \<Rightarrow> word256" where
  "store_address v a = Address_Word256 a OR (NOT 0xffffffffffffffffffffffffffffffffffffffff AND v)"

lemma store_address_read: "AddressFromWord256 (store_address v a) = a"
proof -
  have m: "(0xffffffffffffffffffffffffffffffffffffffff :: word256) = mask 160"
    by (simp add: mask_eq_exp_minus_1)
  show ?thesis
    unfolding store_address_def m
    by (rule bit_word_eqI) (auto simp: Address_Word256_def AddressFromWord256_def bit_simps)
qed

lemma deployment_parts:
  "length (invoke_deployment a) = 793" "take 32 (drop 761 (invoke_deployment a)) = Word256_Bytes (Address_Word256 a)"
  "take 616 (drop 145 (invoke_deployment a)) = invoke_code"
  by (simp_all add: invoke_deployment_def invoke_lengths)

lemma deployment_fetch_listing:
  "list_all (\<lambda>(q, i). fetch (invoke_deployment a) q = Some i) invoke_init_listing"
  using invoke_fetch_listings(2) by (simp add: invoke_deployment_def)

lemmas deployment_fetches = deployment_fetch_listing [unfolded invoke_init_listing_def list.pred_inject prod.case]

lemma invoke_init_run:
  assumes "st_error (ac_state act) = None" and "es_GetStorage X (ac_state act) b 0 = (Ok v, st1)" and "st_error st1 = None"
    and "es_SetStorage X st1 b 0 (store_address v a) = (Ok (), st2)" and "st_error st2 = None"
    and gas: "1000 \<le> ac_gas act" and "contract_call V F b (invoke_deployment a) input"
  shows "run_returns X V F act (Some invoke_code) st2 (ac_sink act)"
  using assms mem_slice_put_same [of _ 0 invoke_code]
  by (simp add: run_invoke_simps enough_gas [OF gas] deployment_fetches deployment_parts numeral_2_eq_2 [symmetric] run_returns_def spends_def
      run_SLOAD [where st = "ac_state act" and st' = st1 and v = v] run_SSTORE [where st = st1 and st' = st2] store_address_def)

end
