(* ===== verification/Linked_Contracts.thy ===== *)
theory Linked_Contracts
  imports Simple_Storage Invoke_Contract
begin

section \<open>One contract behind another\<close>

text \<open>
  InvokeContract in front of a contract that holds a word: what its functions do to a state, and from that
  what the transactions do that call it.
\<close>

subsection \<open>Linked states\<close>

text \<open>A state in which the contract at one address holds the address of the other.\<close>

definition linked :: "('pk, 'z) evm_externals_scheme \<Rightarrow> evm_state \<Rightarrow> address \<Rightarrow> address \<Rightarrow> bytes \<Rightarrow> bool" where
  "linked X st b a code \<longleftrightarrow> calling X st \<and> callable X st a code \<and>
     (\<exists>w. sto_view X (chain st) b 0 = Ok w \<and> AddressFromWord256 w = a) \<and>
     (\<exists>g. acc_view X (chain st) GlobalPermissionsAddress = Inr g) \<and>
     (\<exists>acc. acc_view X (chain st) b = Inr (Some acc) \<and> may_call acc)"

text \<open>Up to the call the contract only reads, then it may call.\<close>

lemma linked_reads:
  assumes "linked X st b a code"
  obtains w st1 st2 st3 where "es_GetStorage X st b 0 = (Ok w, st1)" and "st_error st1 = None" and "AddressFromWord256 w = a"
    and "es_Exists X st1 a = (True, st2)" and "es_GetCode X st2 a = (Some code, st3)" and "st_error st3 = None"
    and "reads_to X st (EnsurePermission X st3 b perm_Call)"
proof -
  obtain w g acc where st: "calling X st" "callable X st a code" "sto_view X (chain st) b 0 = Ok w" "AddressFromWord256 w = a"
    "acc_view X (chain st) GlobalPermissionsAddress = Inr g" "acc_view X (chain st) b = Inr (Some acc)" "may_call acc"
    using assms by (auto simp: linked_def)
  obtain st1 where st1: "es_GetStorage X st b 0 = (Ok w, st1)" "reads_to X st st1"
    using healthy_storage [OF _ st(3)] st(1) by (auto simp: calling_def)
  obtain st2 st3 where st3: "es_Exists X st1 a = (True, st2)" "es_GetCode X st2 a = (Some code, st3)" "reads_to X st1 st3"
    by (rule callable_code [OF calling_read [OF st(1) st1(2)] callable_read [OF st(2) st1(2)]])
  note read = reads_toD [OF reads_to_trans [OF st1(2) st3(3)]]
  have "reads_to X st3 (EnsurePermission X st3 b perm_Call)"
    by (rule healthy_permission [OF read(1) _ _ st(7)]) (use st(5,6) read(3) in auto)
  then have "reads_to X st (EnsurePermission X st3 b perm_Call)"
    using reads_to_trans [OF reads_to_trans [OF st1(2) st3(3)]] by blast
  from that [OF st1(1) reads_toD(2) [OF st1(2)] st(4) st3(1,2) read(2) this] show ?thesis .
qed

context cell_contract
begin

lemma setVal_calls:
  assumes call: "contract_call V F b invoke_code (setVal_data x)" and "\<not> fr_logfree F"
    and linked: "linked X (ac_state act) b a code" and "sto_view X (chain (ac_state act)) a 0 = Ok v"
    and "length code < 2 ^ 62" and "4000 \<le> ac_gas act"
  shows "\<exists>act'. execute X V F act = Some (Ok (Some (Word256_Bytes x)), act') \<and>
    called_to X (ac_state act) (ac_state act') (put_word (sto_view X (chain (ac_state act))) a 0 x) \<and>
    ac_sink act' = (ac_sink act)\<lparr>EventCache := EventCache (ac_sink act) @ map event_of_log (logs a v x)\<rparr>"
proof -
  let ?st = "ac_state act" and ?h = "ac_gas act - 178" and ?l = "ac_gas act - 177"
  obtain w st1 st2 st3 where slot: "es_GetStorage X ?st b 0 = (Ok w, st1)" "st_error st1 = None" "AddressFromWord256 w = a"
    and code: "es_Exists X st1 a = (True, st2)" "es_GetCode X st2 a = (Some code, st3)" "st_error st3 = None"
    and read: "reads_to X ?st (EnsurePermission X st3 b perm_Call)"
    by (rule linked_reads [OF linked])
  let ?st4 = "EnsurePermission X st3 b perm_Call"
  note st4 = reads_toD [OF read]
  have ok: "calling X ?st" "callable X ?st a code" "vm_params V = newParams" "st_error ?st = None" "fr_callee F = b"
    using linked call by (auto simp: linked_def contract_call_def calling_def healthy_def)
  have at: "3000 \<le> ?h" "?h < ?l" "(0 :: 64 word) < 7" "(7 :: 64 word) \<le> 7"
    using gas_at_call [OF assms(6), of 178] by simp_all
  note gas = call_gas_after [OF at]
  have v: "sto_view X (chain ?st4) a 0 = Ok v"
    using assms(4) st4(4) by simp
  obtain act2 st5 d where into: "calls_into X V F KIND_CALL (set_data x) ?st4 (ac_sink act) (call_gas (?h - 7) ?l) (ac_sequence act) a None act2 st5"
    and sink: "ac_sink act2 = (ac_sink act)\<lparr>EventCache := EventCache (ac_sink act) @ map event_of_log (logs a v x)\<rparr>"
    and d: "d < 1000" "ac_gas act2 = call_gas (?h - 7) ?l - d"
    and to: "called_to X ?st4 st5 (put_word (sto_view X (chain ?st4)) a 0 x)"
    by (rule set_called [OF calling_read [OF ok(1) read] callable_read [OF ok(2) read] v ok(3) assms(2) gas(4)]) simp
  let ?g = "?h - 7 - call_gas (?h - 7) ?l - 2 + ac_gas act2"
  have "execute X V F act = run_instr X V F (OP_CALLS KIND_CALL, 0) (config (ac_sequence act, 0, None) st3 (ac_sink act)
      (set_memory x) 16 ?h 346 (ucast ?l # Address_Word256 a # 0 # 128 # 36 # 128 # 0 # [164, 0x60fe47b1, Address_Word256 a, 0, x, 132, 0x3d4197f0]))"
    by (rule setVal_before [OF ok(4) slot code assms(5) code_size_word _ call]) (use assms(5) order_trans [OF _ assms(6), of 1000] code_nonempty in auto)
  also have "\<dots> = run X V F (config (ac_sequence act2, 0, None) st5 (ac_sink act2) (set_memory x) 16 ?g 347
      [1, 164, 0x60fe47b1, Address_Word256 a, 0, x, 132, 0x3d4197f0])"
    using run_CALL [where X = X and V = V and F = F and p = 346 and w = 0 and st = st3 and n = 16 and gl = "ucast ?l" and ad = "Address_Word256 a"
       and io = 128 and il = 36 and ro = 128 and rl = 0 and g = ?h and mem = "set_memory x" and sink = "ac_sink act"
       and c = "(ac_sequence act, 0, None)" and out = None and act = act2 and st' = st5]
     call gas(1,2,3) code(3) st4(2) into ok(3,5) set_memory
    by (simp add: call_words_def contract_callD(2) invoke_fetches going_def newParams_def MaxInt32_def code_bytes_def mem_put_Nil ucast_up_ucast_id is_up)
  also have "\<dots> = Some (Ok (Some (Word256_Bytes x)), \<lparr>ac_state = st5, ac_sink = ac_sink act2, ac_gas = ?g - 51, ac_sequence = ac_sequence act2\<rparr>)"
    by (rule setVal_after [OF _ _ call]) (use to gas(5) [OF d(1)] d(2) set_memory in \<open>simp_all add: called_to_def healthy_def\<close>)
  finally show ?thesis
    using sink to st4 by (auto simp: called_to_def intro: rtranclp_trans)
qed

lemma getVal_calls:
  assumes call: "contract_call V F b invoke_code getVal_selector"
    and linked: "linked X (ac_state act) b a code" and "sto_view X (chain (ac_state act)) a 0 = Ok v"
    and "length code < 2 ^ 62" and "4000 \<le> ac_gas act"
  shows "\<exists>act'. execute X V F act = Some (Ok (Some (Word256_Bytes v)), act') \<and>
    called_to X (ac_state act) (ac_state act') (sto_view X (chain (ac_state act))) \<and> ac_sink act' = ac_sink act"
proof -
  let ?st = "ac_state act" and ?h = "ac_gas act - 127" and ?l = "ac_gas act - 126"
  obtain w st1 st2 st3 where slot: "es_GetStorage X ?st b 0 = (Ok w, st1)" "st_error st1 = None" "AddressFromWord256 w = a"
    and code: "es_Exists X st1 a = (True, st2)" "es_GetCode X st2 a = (Some code, st3)" "st_error st3 = None"
    and read: "reads_to X ?st (EnsurePermission X st3 b perm_Call)"
    by (rule linked_reads [OF linked])
  let ?st4 = "EnsurePermission X st3 b perm_Call"
  note st4 = reads_toD [OF read]
  have ok: "calling X ?st" "callable X ?st a code" "vm_params V = newParams" "st_error ?st = None" "fr_callee F = b"
    using linked call by (auto simp: linked_def contract_call_def calling_def healthy_def)
  have at: "3000 \<le> ?h" "?h < ?l" "(0 :: 64 word) < 6" "(6 :: 64 word) \<le> 7"
    using gas_at_call [OF assms(5), of 127] by simp_all
  note gas = call_gas_after [OF at]
  have v: "sto_view X (chain ?st4) a 0 = Ok v"
    using assms(3) st4(4) by simp
  obtain act2 st5 d where into: "calls_into X V F KIND_STATICCALL get_selector ?st4 (ac_sink act) (call_gas (?h - 6) ?l)
      (ac_sequence act) a (Some (Word256_Bytes v)) act2 st5"
    and sink: "ac_sink act2 = ac_sink act"
    and d: "d < 1000" "ac_gas act2 = call_gas (?h - 6) ?l - d"
    and to: "called_to X ?st4 st5 (sto_view X (chain ?st4))"
    by (rule get_called [OF calling_read [OF ok(1) read] callable_read [OF ok(2) read] v ok(3) gas(4)]) simp
  let ?g = "?h - 6 - call_gas (?h - 6) ?l - 2 + ac_gas act2" and ?mem = "mem_put get_memory 128 (Word256_Bytes v)"
  have "execute X V F act = run_instr X V F (OP_CALLS KIND_STATICCALL, 0) (config (ac_sequence act, 0, None) st3 (ac_sink act)
      get_memory 14 ?h 511 (ucast ?l # Address_Word256 a # 128 # 4 # 128 # 32 # [132, 0x6d4ce63c, Address_Word256 a, 0, 175, 0xe1cb0e52]))"
    by (rule getVal_before [OF ok(4) slot code assms(4) code_size_word _ call])
      (use assms(4) order_trans [OF _ assms(5), of 1000] code_nonempty in auto)
  also have "\<dots> = run X V F (config (ac_sequence act2, 0, Some (Word256_Bytes v)) st5 (ac_sink act2) ?mem 14 ?g 512
      [1, 132, 0x6d4ce63c, Address_Word256 a, 0, 175, 0xe1cb0e52])"
    using run_STATICCALL [where X = X and V = V and F = F and p = 511 and w = 0 and st = st3 and n = 14 and gl = "ucast ?l"
        and ad = "Address_Word256 a" and io = 128 and il = 4 and ro = 128 and rl = 32 and g = ?h and mem = get_memory
        and sink = "ac_sink act" and c = "(ac_sequence act, 0, None)" and out = "Some (Word256_Bytes v)" and act = act2 and st' = st5]
      call gas(1,2,3) code(3) st4(2) into ok(3,5) get_memory
    by (simp add: call_words_def contract_callD(2) invoke_fetches going_def newParams_def MaxInt32_def code_bytes_def
        ucast_up_ucast_id is_up)
  also have "\<dots> = Some (Ok (Some (Word256_Bytes v)), \<lparr>ac_state = st5, ac_sink = ac_sink act2, ac_gas = ?g - 86, ac_sequence = ac_sequence act2\<rparr>)"
    by (rule getVal_after [OF _ _ call]) (use to gas(5) [OF d(1)] d(2) get_memory in \<open>simp_all add: called_to_def healthy_def\<close>)
  finally show ?thesis
    using sink to st4 by (auto simp: called_to_def intro: rtranclp_trans)
qed
end

subsection \<open>Linked contracts on the ledger\<close>

definition links :: "('pk, 'z) evm_externals_scheme \<Rightarrow> (string \<rightharpoonup> bytes) \<Rightarrow> address \<Rightarrow> address \<Rightarrow> bytes \<Rightarrow> bool" where
  "links X L b a code \<longleftrightarrow> \<not> IsRegisteredNativeContract X a \<and> holds_code X L a code \<and>
     (\<exists>acc. ledger_account X L b = Inr (Some acc) \<and> code_bytes (acc_Code acc) = invoke_code \<and> may_call acc) \<and>
     (\<exists>g. ledger_account X L GlobalPermissionsAddress = Inr g) \<and>
     (\<exists>w. ledger_storage X L b 0 = Ok w \<and> AddressFromWord256 w = a)"

lemma links_code: "links X L b a code \<Longrightarrow> holds_code X L b invoke_code"
  by (auto simp: links_def holds_code_def)

lemma links_initial:
  assumes "fresh_stub s" and "links X (ledger s) b a code" and "code \<noteq> []" and read: "reads_to X (initial_state s) st"
  shows "linked X st b a code" and "ledger_storage X (ledger s) a 0 = Ok v \<Longrightarrow> sto_view X (chain st) a 0 = Ok v"
proof -
  have acc: "acc_view X (chain st) = ledger_account X (ledger s)"
    by (simp only: reads_toD(3) [OF read] initial_views [OF assms(1)])
  have sto: "sto_view X (chain st) c = ledger_storage X (ledger s) c" if "ledger_account X (ledger s) c = Inr r" for c r
    by (simp only: reads_toD(4) [OF read] initial_word [OF assms(1) that])
  have "st_options st = []"
    using steps_layer(2) [OF reads_toD(5) [OF read]] by (simp add: initial_state_def NewState_def)
  then have "calling X st"
    using reads_toD(1) [OF read] run_initial(2) [OF reads_toD(5) [OF read]] by (simp add: calling_def)
  moreover obtain acc' where acc': "ledger_account X (ledger s) a = Inr (Some acc')" "code_bytes (acc_Code acc') = code"
    using assms(2) by (auto simp: links_def holds_code_def)
  then have "acc_Code acc' = Some code"
    using assms(3) by (auto simp: code_bytes_def split: option.splits)
  with acc' assms(2,3) acc have "callable X st a code"
    by (simp add: callable_def links_def)
  ultimately show "linked X st b a code"
    using assms(2) sto acc by (auto simp: linked_def links_def)
  show "sto_view X (chain st) a 0 = Ok v" if "ledger_storage X (ledger s) a 0 = Ok v"
    using that sto [OF acc'(1)] by simp
qed

lemma links_kept:
  assumes "links X L b a code" and kept: "\<And>c. kept (ledger_account X L' c) = kept (ledger_account X L c)"
    and "ledger_storage X L' b 0 = ledger_storage X L b 0"
  shows "links X L' b a code"
proof -
  obtain acc where acc: "ledger_account X L b = Inr (Some acc)" "code_bytes (acc_Code acc) = invoke_code" "may_call acc"
    using assms(1) by (auto simp: links_def)
  obtain acc' where acc': "ledger_account X L' b = Inr (Some acc')" "stored_account acc' = stored_account acc"
    using kept [of b] by (auto simp only: acc(1) kept_Inr)
  have "may_call acc'" "code_bytes (acc_Code acc') = invoke_code"
    using acc(2,3) acc'(2) stored_account_simps(2,3) [of acc] stored_account_simps(2,3) [of acc'] by (simp_all add: may_call_def)
  moreover have "\<exists>g. ledger_account X L' GlobalPermissionsAddress = Inr g"
    using assms(1) kept [of GlobalPermissionsAddress] by (cases "ledger_account X L' GlobalPermissionsAddress") (auto simp: links_def kept_def)
  ultimately show ?thesis
    using assms(1,3) acc'(1) holds_code_kept [OF _ kept, of a code] by (simp add: links_def)
qed

context cell_contract
begin

lemma setVal_call:
  assumes "linked X st b a code" and "sto_view X (chain st) a 0 = Ok v" and "length code < 2 ^ 62"
  obtains st' where "NewVM_Call X newParams origin nonce st sink caller b (Some invoke_code) (setVal_data x) 0 10000 =
      (Ok (Some (Word256_Bytes x)), st', sink\<lparr>EventCache := EventCache sink @ map event_of_log (logs a v x)\<rparr>)"
    and "called_to X st st' (put_word (sto_view X (chain st)) a 0 x)"
proof -
  let ?act = "\<lparr>ac_state = st, ac_sink = sink, ac_gas = 10000, ac_sequence = 0\<rparr>"
  from setVal_calls [OF call_of_calls, of ?act b a v origin nonce caller x] assms obtain act
    where run: "execute X (evmcc_vm newParams origin nonce) (call_of caller b invoke_code (setVal_data x)) ?act = Some (Ok (Some (Word256_Bytes x)), act)"
      and act: "called_to X st (ac_state act) (put_word (sto_view X (chain st)) a 0 x)"
        "ac_sink act = sink\<lparr>EventCache := EventCache sink @ map event_of_log (logs a v x)\<rparr>"
    by auto
  have "st_error st = None" "st_error (ac_state act) = None" "invoke_code \<noteq> []"
    using assms(1) act(1) invoke_lengths by (auto simp: linked_def calling_def called_to_def healthy_def)
  from NewVM_Call_executed [OF this(1,3) run this(2)] that act show ?thesis
    by simp
qed

lemma getVal_call:
  assumes "linked X st b a code" and "sto_view X (chain st) a 0 = Ok v" and "length code < 2 ^ 62"
  obtains st' where "NewVM_Call X newParams origin nonce st sink caller b (Some invoke_code) getVal_selector 0 10000 =
      (Ok (Some (Word256_Bytes v)), st', sink)"
    and "called_to X st st' (sto_view X (chain st))"
proof -
  let ?act = "\<lparr>ac_state = st, ac_sink = sink, ac_gas = 10000, ac_sequence = 0\<rparr>"
  from getVal_calls [OF call_of_calls(1), of ?act b a v origin nonce caller] assms obtain act
    where run: "execute X (evmcc_vm newParams origin nonce) (call_of caller b invoke_code getVal_selector) ?act = Some (Ok (Some (Word256_Bytes v)), act)"
      and act: "called_to X st (ac_state act) (sto_view X (chain st))" "ac_sink act = sink"
    by auto
  have "st_error st = None" "st_error (ac_state act) = None" "invoke_code \<noteq> []"
    using assms(1) act(1) invoke_lengths by (auto simp: linked_def calling_def called_to_def healthy_def)
  from NewVM_Call_executed [OF this(1,3) run this(2)] that act show ?thesis
    by simp
qed

text \<open>The transactions succeed, and what they commit.\<close>

lemma setVal_succeeds:
  assumes "ledger_ok X (ledger s)" and "links X (ledger s) b a code" and "calls X s b (setVal_data x)"
    and stored: "ledger_storage X (ledger s) a 0 = Ok v" and "faultless s" and "reencodes X" and "length code < 2 ^ 62"
    and marshals: "logs a v x = [] \<or> (\<exists>bs. json_Marshal_events X (map event_of_log (logs a v x)) = Inr bs)"
  shows "\<exists>s'. evmcc_Invoke X (NewVM_Call X) s = (Ok (shim_Success (Word256_Bytes x)), s')"
proof -
  let ?sink = "\<lparr>EventCache = []\<rparr>\<lparr>EventCache := EventCache \<lparr>EventCache = []\<rparr> @ map event_of_log (logs a v x)\<rparr>"
  have fresh: "fresh_stub s"
    using assms(3) by (simp add: calls_def)
  have "\<exists>s'. evmcc_Invoke X (NewVM_Call X) s = (Ok (shim_Success (code_bytes (Some (Word256_Bytes x)))), s')"
  proof (rule call_succeeds [OF assms(1) links_code [OF assms(2)] _ assms(3) _ assms(5,6), where sink = ?sink])
    fix st1 origin nonce
    assume read: "reads_to X (initial_state s) st1"
    note linked = links_initial [OF fresh assms(2) code_nonempty read]
    show "\<exists>st. NewVM_Call X newParams origin nonce st1 \<lparr>EventCache = []\<rparr> origin b (Some invoke_code) (setVal_data x) 0 10000 =
        (Ok (Some (Word256_Bytes x)), st, ?sink) \<and> st_error st = None \<and> acc_view X (chain st) = acc_view X (chain st1)"
      by (rule setVal_call [OF linked(1) linked(2) [OF stored] assms(7), of origin nonce "\<lparr>EventCache = []\<rparr>" origin x])
        (auto simp: called_to_def healthy_def)
  qed (use marshals invoke_lengths invoke_data(2) in auto)
  then show ?thesis
    by (simp add: code_bytes_def)
qed

lemma getVal_succeeds:
  assumes "ledger_ok X (ledger s)" and "links X (ledger s) b a code" and "calls X s b getVal_selector"
    and stored: "ledger_storage X (ledger s) a 0 = Ok v" and "faultless s" and "reencodes X" and "length code < 2 ^ 62"
  shows "\<exists>s'. evmcc_Invoke X (NewVM_Call X) s = (Ok (shim_Success (Word256_Bytes v)), s')"
proof -
  have fresh: "fresh_stub s"
    using assms(3) by (simp add: calls_def)
  have "\<exists>s'. evmcc_Invoke X (NewVM_Call X) s = (Ok (shim_Success (code_bytes (Some (Word256_Bytes v)))), s')"
  proof (rule call_succeeds [OF assms(1) links_code [OF assms(2)] _ assms(3) _ assms(5,6), where sink = "\<lparr>EventCache = []\<rparr>"])
    fix st1 origin nonce
    assume read: "reads_to X (initial_state s) st1"
    note linked = links_initial [OF fresh assms(2) code_nonempty read]
    show "\<exists>st. NewVM_Call X newParams origin nonce st1 \<lparr>EventCache = []\<rparr> origin b (Some invoke_code) getVal_selector 0 10000 =
        (Ok (Some (Word256_Bytes v)), st, \<lparr>EventCache = []\<rparr>) \<and> st_error st = None \<and> acc_view X (chain st) = acc_view X (chain st1)"
      by (rule getVal_call [OF linked(1) linked(2) [OF stored] assms(7), of origin nonce "\<lparr>EventCache = []\<rparr>" origin])
        (auto simp: called_to_def healthy_def)
  qed (use invoke_lengths invoke_data(1) in auto)
  then show ?thesis
    by (simp add: code_bytes_def)
qed

lemma setVal_transaction:
  assumes "codec_ok X" and "ledger_ok X (ledger s)" and "links X (ledger s) b a code"
    and "calls X s b (setVal_data x)" and stored: "ledger_storage X (ledger s) a 0 = Ok v" and "length code < 2 ^ 62"
    and run: "evmcc_Invoke X (NewVM_Call X) s = (Ok (shim_Success r), s')"
  shows "kept (ledger_account X (commit s') c) = kept (ledger_account X (ledger s) c)"
    and "ledger_account X (ledger s) c = Inr (Some acc) \<Longrightarrow>
      ledger_storage X (commit s') c = (if c = a then (ledger_storage X (ledger s) a)(0 := Ok x) else ledger_storage X (ledger s) c)"
    and "chaincode_event s' = (if logs a v x = [] then None
      else Some (hex_EncodeToString setVal_selector, projr (json_Marshal_events X (map event_of_log (logs a v x)))))"
proof -
  have "invoke_code \<noteq> []" "fresh_stub s"
    using invoke_lengths assms(4) by (auto simp: calls_def)
  obtain origin nonce st1 out st sink rest where read: "reads_to X (initial_state s) st1"
    and call: "NewVM_Call X newParams origin nonce st1 \<lparr>EventCache = []\<rparr> origin b (Some invoke_code) (setVal_data x) 0 10000 = (Ok out, st, sink)"
    and committed: "words_committed X s s' st1 st"
    and event: "chaincode_event s' = (if EventCache sink = [] then None
      else Some (take 8 (hex_EncodeToString (setVal_data x) @ rest), projr (json_Marshal_events X (EventCache sink))))"
    by (rule call_transaction [OF assms(1,2) links_code [OF assms(3)] \<open>invoke_code \<noteq> []\<close> assms(4) run])
  note linked = links_initial [OF \<open>fresh_stub s\<close> assms(3) code_nonempty read]
  obtain st' where set: "NewVM_Call X newParams origin nonce st1 \<lparr>EventCache = []\<rparr> origin b (Some invoke_code) (setVal_data x) 0 10000 =
      (Ok (Some (Word256_Bytes x)), st', \<lparr>EventCache = []\<rparr>\<lparr>EventCache := EventCache \<lparr>EventCache = []\<rparr> @ map event_of_log (logs a v x)\<rparr>)"
    and to: "called_to X st1 st' (put_word (sto_view X (chain st1)) a 0 x)"
    by (rule setVal_call [OF linked(1) linked(2) [OF stored] assms(6)])
  have out: "st = st'" "EventCache sink = map event_of_log (logs a v x)"
    using call set by auto
  have acc': "acc_view X (chain st') = acc_view X (chain st1)" and shown: "acc_view X (chain st1) = ledger_account X (ledger s)"
    using to by (simp_all only: called_to_def reads_toD(3) [OF read] initial_views [OF \<open>fresh_stub s\<close>])
  show "kept (ledger_account X (commit s') c) = kept (ledger_account X (ledger s) c)" for c
    using committed by (simp only: words_committed_def out acc')
  show "ledger_storage X (commit s') c = (if c = a then (ledger_storage X (ledger s) a)(0 := Ok x) else ledger_storage X (ledger s) c)"
    if c: "ledger_account X (ledger s) c = Inr (Some acc)"
  proof -
    have "sto_view X (chain st') c = put_word (sto_view X (chain st1)) a 0 x c"
      using to c by (simp add: called_to_def shown)
    then show ?thesis
      using committed c by (auto simp: words_committed_def out acc' put_word_def)
  qed
  show "chaincode_event s' = (if logs a v x = [] then None
      else Some (hex_EncodeToString setVal_selector, projr (json_Marshal_events X (map event_of_log (logs a v x)))))"
    using event take_selector [of setVal_selector "Word256_Bytes x" rest] by (simp add: out setVal_data_def setVal_selector_def)
qed

text \<open>A word set through the one contract is what both answer from then on.\<close>

lemma linked_remembers:
  assumes ok: "codec_ok X" "reencodes X" and L: "ledger_ok X (ledger s)" and here: "links X (ledger s) b a code" "a \<noteq> b"
    and set: "calls X s b (setVal_data x)" "ledger_storage X (ledger s) a 0 = Ok v" "faultless s" and len: "length code < 2 ^ 62"
    and marshals: "logs a v x = [] \<or> (\<exists>bs. json_Marshal_events X (map event_of_log (logs a v x)) = Inr bs)"
  shows "\<exists>s'. evmcc_Invoke X (NewVM_Call X) s = (Ok (shim_Success (Word256_Bytes x)), s') \<and>
    chaincode_event s' = (if logs a v x = [] then None
      else Some (hex_EncodeToString setVal_selector, projr (json_Marshal_events X (map event_of_log (logs a v x))))) \<and>
    (\<forall>t. ledger t = commit s' \<longrightarrow> calls X t b getVal_selector \<or> calls X t a get_selector \<longrightarrow> faultless t \<longrightarrow>
      (\<exists>t'. evmcc_Invoke X (NewVM_Call X) t = (Ok (shim_Success (Word256_Bytes x)), t')))"
proof -
  obtain s' where run: "evmcc_Invoke X (NewVM_Call X) s = (Ok (shim_Success (Word256_Bytes x)), s')"
    using setVal_succeeds [OF L here(1) set ok(2) len marshals] by blast
  note stored = setVal_transaction [OF ok(1) L here(1) set(1,2) len run]
  obtain acc acc' where acc: "ledger_account X (ledger s) a = Inr (Some acc)" "ledger_account X (ledger s) b = Inr (Some acc')"
    and code: "holds_code X (ledger s) a code"
    using here(1) by (auto simp: links_def holds_code_def)
  have after: "ledger_ok X (commit s')" "holds_code X (commit s') a code" "ledger_storage X (commit s') a 0 = Ok x"
    "ledger_storage X (commit s') b 0 = ledger_storage X (ledger s) b 0"
    using ledger_ok_kept [OF L stored(1)] holds_code_kept [OF code stored(1)] stored(2) [OF acc(1)] stored(2) [OF acc(2)] here(2)
    by simp_all
  note linked = links_kept [OF here(1) stored(1) after(4)]
  have "\<exists>t'. evmcc_Invoke X (NewVM_Call X) t = (Ok (shim_Success (Word256_Bytes x)), t')"
    if t: "ledger t = commit s'" and "calls X t b getVal_selector \<or> calls X t a get_selector" and "faultless t" for t
    using that(2)
  proof
    assume "calls X t b getVal_selector"
    from getVal_succeeds [OF _ _ this _ that(3) ok(2) len] show ?thesis
      using after linked by (simp only: t)
  next
    assume "calls X t a get_selector"
    from get_succeeds [OF _ _ this _ that(3) ok(2)] show ?thesis
      using after by (simp only: t)
  qed
  with run stored(3) show ?thesis
    by blast
qed

end

end
