(* ===== verification/Linked_Deployment.thy ===== *)
theory Linked_Deployment
  imports Linked_Contracts
begin

section \<open>The deployment of a linked contract\<close>

text \<open>
  A deployment whose constructor writes: it succeeds where the constructor returns, and commits the account
  with the code it returned and the words it left. So InvokeContract can be deployed in front of a contract
  that stands on the ledger.
\<close>

subsection \<open>Deployments that write\<close>

text \<open>The state a constructor runs on.\<close>

lemma deploy_state_ok:
  assumes "fresh_stub s" and "ledger_ok X (ledger s)" and free: "ledger_account X (ledger s) a = Inr None"
  shows "deploy_state X s a = new_state s (contract_account a)" and "healthy X (deploy_state X s a)"
    and "\<not> c_readonly (st_cache (deploy_state X s a))"
    and "acc_view X (chain (deploy_state X s a)) = put_account (ledger_account X (ledger s)) a (Some (contract_account a))"
    and "ledger_account X (ledger s) c = Inr r \<Longrightarrow> sto_view X (chain (deploy_state X s a)) c = ledger_storage X (ledger s) c"
proof -
  note writes = new_state_writes [OF free_account [OF assms(1) free]]
  show new: "deploy_state X s a = new_state s (contract_account a)"
    unfolding deploy_state_def contract_account_def writes(1) by (rule writes(2)) (simp add: new_account_def)
  have none: "st_error (deploy_state X s a) = None"
    by (simp add: new new_state_def)
  have "coherent X (chain (deploy_state X s a))"
    using evm_steps_invariant(2) [OF steps_deploy_state initial_coherent [OF assms(1,2)]] .
  moreover have chain: "chain (deploy_state X s a) = Layer \<lparr>c_accounts = [(a, new_info (contract_account a))], c_readonly = False\<rparr> (Manager (NewStateManager s))"
    by (simp add: new new_state_def chain_def)
  ultimately show "healthy X (deploy_state X s a)"
    using none by (simp add: healthy_def new_info_def del: coherent.simps)
  show "\<not> c_readonly (st_cache (deploy_state X s a))"
    by (simp add: new new_state_def)
  show "acc_view X (chain (deploy_state X s a)) = put_account (ledger_account X (ledger s)) a (Some (contract_account a))"
    by (rule deploy_state_views(2) [OF assms(1,2) none])
  show "sto_view X (chain (deploy_state X s a)) c = ledger_storage X (ledger s) c" if "ledger_account X (ledger s) c = Inr r" for c r
    using fun_cong [OF initial_word [OF assms(1) that]] that free_account [OF assms(1) free]
    by (auto simp: chain new_info_def NewCache_def fun_eq_iff split: if_splits)
qed

lemma Invoke_deploy_commits:
  assumes "codec_ok X" and "reencodes X" and fresh: "fresh_stub s" and L: "ledger_ok X (ledger s)" and "faultless s"
    and caller: "getCallerAddress X s = (caller, None)"
    and inv: "invocation s (hex_EncodeToString (Address_Bytes ZeroAddress)) (hex_EncodeToString input)"
    and nonce: "nonce = Nonce (sha256_Sum X) caller (bytes_of (stub_txid s))"
    and a: "a = NewContractAddress (sha256_Sum X) caller nonce" and free: "ledger_account X (ledger s) a = Inr None"
    and vm: "NewVM_Call X newParams caller nonce (deploy_state X s a) \<lparr>EventCache = []\<rparr> caller a (Some input) input 0 10000 =
      (Ok (Some rt), st, \<lparr>EventCache = []\<rparr>)"
    and run: "evm_steps X (deploy_state X s a) st" "healthy X st" "acc_view X (chain st) = acc_view X (chain (deploy_state X s a))"
    and encodes: "account_Encode X ((contract_account a)\<lparr>acc_Code := Some rt\<rparr>) = Inr bs"
  obtains s' where "evmcc_Invoke X (NewVM_Call X) s = (Ok (shim_Success (bytes_of (hex_EncodeToString (Address_Bytes a)))), s')"
    and "\<And>c. kept (ledger_account X (commit s') c) =
      kept (put_account (ledger_account X (ledger s)) a (Some ((contract_account a)\<lparr>acc_Code := Some rt\<rparr>)) c)"
    and "ledger_storage X (commit s') a = sto_view X (chain st) a"
    and "\<And>c acc. c \<noteq> a \<Longrightarrow> ledger_account X (ledger s) c = Inr (Some acc) \<Longrightarrow> ledger_storage X (commit s') c = sto_view X (chain st) c"
proof -
  note start = deploy_state_ok [OF fresh L free]
  let ?acc = "(contract_account a)\<lparr>acc_Code := Some rt\<rparr>" and ?st4 = "es_InitCode X st a (Some rt)"
    and ?name = "hex_EncodeToString (take 4 (Address_Bytes a))" and ?sink = "\<lparr>EventCache = []\<rparr>"
  have rw: "\<not> c_readonly (st_cache st)" and here: "acc_view X (chain st) a = Inr (Some (contract_account a))"
    using steps_layer(1) [OF run(1)] start(3,4) run(3) by (simp_all add: put_account_def)
  note init = healthy_InitCode [OF run(2) rw here contract_account_simps(1,2), of "Some rt"]
  have view: "acc_view X (chain ?st4) = put_account (ledger_account X (ledger s)) a (Some ?acc)"
    using init(2) run(3) start(4) by (simp add: put_account_def)
  have steps: "evm_steps X (initial_state s) ?st4"
    using rtranclp_trans [OF steps_deploy_state run(1)] steps_writes(1) by (rule rtranclp_trans)
  have none: "st_error ?st4 = None" "st_error (deploy_state X s a) = None"
    using init(1) start(2) by (simp_all add: healthy_def)
  have "?name \<noteq> []"
    by (simp only: length_0_conv [symmetric] length_hex) simp
  moreover have "\<exists>bs. account_Encode X acc = Inr bs" if "acc_view X (chain ?st4) c = Inr (Some acc)" for c acc
    using that encodes ledger_reencodes [OF assms(2)] by (auto simp: view put_account_def split: if_splits)
  ultimately have "\<exists>st5 st6. sink_Flush X ?sink ?st4 ?name = (None, st5) \<and> es_Sync X st5 = (Ok (), st6)"
    by (intro flush_sync_succeeds [OF steps fresh assms(5) L none(1)]) auto
  then obtain st5 st6 where fin: "sink_Flush X ?sink ?st4 ?name = (None, st5)" "es_Sync X st5 = (Ok (), st6)"
    by blast
  have created: "st_error (es_CreateAccount X (initial_state s) a) = None"
    using evm_steps_no_error [OF steps_writes(4)] none(2) unfolding deploy_state_def .
  have "evmcc_deploy X (NewVM_Call X newParams caller nonce) (initial_state s) ?sink caller nonce input 10000 =
      (Ok (shim_Success (bytes_of (hex_EncodeToString (Address_Bytes a)))), st6)"
    using created none vm fin by (simp add: evmcc_deploy_def Let_def a [symmetric] deploy_state_def)
  moreover have "evmcc_Invoke X (NewVM_Call X) s = apsnd st_stub (evmcc_deploy X (NewVM_Call X newParams caller nonce)
      (initial_state s) ?sink caller nonce input 10000)"
    using Invoke_two_args [OF inv _ _ _ caller hex_decode_encode, of "Address_Bytes ZeroAddress" "NewVM_Call X"]
    by (simp add: Let_def nonce)
  ultimately have done_to: "evmcc_Invoke X (NewVM_Call X) s = (Ok (shim_Success (bytes_of (hex_EncodeToString (Address_Bytes a)))), st_stub st6)"
    by simp
  note commits = flush_sync [OF assms(1) fresh L steps fin]
  have words: "ledger_storage X (commit (st_stub st6)) c = sto_view X (chain st) c"
    if "acc_view X (chain ?st4) c = Inr (Some acc)" for c acc
    using commits(2) [OF that removed_not_shown [OF that]] by (simp only: init(3))
  show ?thesis
  proof (rule that [OF done_to])
    show "kept (ledger_account X (commit (st_stub st6)) c) = kept (put_account (ledger_account X (ledger s)) a (Some ?acc) c)" for c
      using commits(1) [of c] by (simp only: view)
  qed (use words in \<open>auto simp: view put_account_def\<close>)
qed
subsection \<open>InvokeContract\<close>

lemma contract_may_call: "may_call ((contract_account a)\<lparr>acc_Code := c\<rparr>)"
proof -
  have "(p OR ContractPermFlags) AND perm_Call = perm_Call" for p
    by (rule bit_eqI) (auto simp: ContractPermFlags_def bit_simps)
  then show ?thesis
    by (simp add: may_call_def contract_account_def map_base_def map_permissions_def perm_Set_def ContractPermFlags_def perm_Call_def
        perm_Send_def perm_CreateContract_def)
qed

lemma ledger_ok_of_kept:
  assumes "\<And>c acc. g c = Inr (Some acc) \<Longrightarrow> acc_Address acc = c" and "\<And>c. kept (ledger_account X L c) = kept (g c)"
  shows "ledger_ok X L"
  unfolding ledger_ok_def
proof (intro allI impI)
  fix c acc
  assume "ledger_account X L c = Inr (Some acc)"
  with assms(2) [of c] have "kept (g c) = kept (Inr (Some acc))"
    by simp
  then obtain acc' where "g c = Inr (Some acc')" "stored_account acc' = stored_account acc"
    by (auto simp only: kept_Inr)
  then show "acc_Address acc = c"
    using assms(1) stored_account_simps(1) [of acc'] stored_account_simps(1) [of acc] by metis
qed

lemma invoke_constructed:
  assumes "serves X st b" and "sto_view X (chain st) b 0 = Ok v" and "st_error st = None"
  obtains st' where "NewVM_Call X newParams origin nonce st sink caller b (Some (invoke_deployment a)) (invoke_deployment a) 0 10000 =
      (Ok (Some invoke_code), st', sink)" and "writes_to X st st' b 0 (store_address v a)"
proof -
  let ?act = "\<lparr>ac_state = st, ac_sink = sink, ac_gas = 10000, ac_sequence = 0\<rparr>"
  obtain st1 where st1: "es_GetStorage X st b 0 = (Ok v, st1)" "reads_to X st st1"
    using healthy_storage [OF _ assms(2)] assms(1) unfolding serves_def by blast
  obtain st2 where st2: "es_SetStorage X st1 b 0 (store_address v a) = (Ok (), st2)" "writes_to X st1 st2 b 0 (store_address v a)"
    using serves_write [OF serves_read [OF assms(1) st1(2)]] by blast
  have none: "st_error st1 = None" "st_error st2 = None"
    using reads_toD(2) [OF st1(2)] st2(2) by (simp_all add: writes_to_def healthy_def)
  have "run_returns X (evmcc_vm newParams origin nonce) (call_of caller b (invoke_deployment a) (invoke_deployment a)) ?act (Some invoke_code) st2 sink"
    using invoke_init_run [of ?act X b v st1 a st2, OF _ _ none(1) st2(1) none(2) _ call_of_calls(1)] assms(3) st1(1) by simp
  moreover have "invoke_deployment a \<noteq> []"
    using deployment_parts(1) [of a] by (cases "invoke_deployment a") simp_all
  ultimately show ?thesis
    using that [OF NewVM_Call_run [OF assms(3) _ _ none(2)] writes_after_read [OF st1(2) st2(2)]] by blast
qed

lemma invoke_deployed:
  assumes "codec_ok X" and "reencodes X" and fresh: "fresh_stub s" and L: "ledger_ok X (ledger s)" and "faultless s"
    and "getCallerAddress X s = (caller, None)"
    and "invocation s (hex_EncodeToString (Address_Bytes ZeroAddress)) (hex_EncodeToString (invoke_deployment a))"
    and b: "b = NewContractAddress (sha256_Sum X) caller (Nonce (sha256_Sum X) caller (bytes_of (stub_txid s)))"
    and free: "ledger_account X (ledger s) b = Inr None" and slot: "ledger_storage X (ledger s) b 0 = Ok v"
    and encodes: "account_Encode X ((contract_account b)\<lparr>acc_Code := Some invoke_code\<rparr>) = Inr bs"
    and callee: "\<not> IsRegisteredNativeContract X a" "holds_code X (ledger s) a code"
    and globals: "ledger_account X (ledger s) GlobalPermissionsAddress = Inr g"
  obtains s' where "evmcc_Invoke X (NewVM_Call X) s = (Ok (shim_Success (bytes_of (hex_EncodeToString (Address_Bytes b)))), s')"
    and "ledger_ok X (commit s')" and "links X (commit s') b a code" and "a \<noteq> b"
    and "ledger_storage X (commit s') a = ledger_storage X (ledger s) a"
proof -
  note start = deploy_state_ok [OF fresh L free]
  let ?st = "deploy_state X s b" and ?acc = "(contract_account b)\<lparr>acc_Code := Some invoke_code\<rparr>"
  have st: "serves X ?st b" "sto_view X (chain ?st) b 0 = Ok v" "st_error ?st = None"
    using start(2,3,4) start(5) [OF free] slot by (auto simp: serves_def put_account_def healthy_def)
  obtain st' where vm: "NewVM_Call X newParams caller (Nonce (sha256_Sum X) caller (bytes_of (stub_txid s))) ?st \<lparr>EventCache = []\<rparr> caller b
      (Some (invoke_deployment a)) (invoke_deployment a) 0 10000 = (Ok (Some invoke_code), st', \<lparr>EventCache = []\<rparr>)"
    and to: "writes_to X ?st st' b 0 (store_address v a)"
    by (rule invoke_constructed [OF st])
  then have run: "evm_steps X ?st st'" "healthy X st'" "acc_view X (chain st') = acc_view X (chain ?st)"
    and words: "sto_view X (chain st') = put_word (sto_view X (chain ?st)) b 0 (store_address v a)"
    by (simp_all add: writes_to_def)
  obtain s' where s': "evmcc_Invoke X (NewVM_Call X) s = (Ok (shim_Success (bytes_of (hex_EncodeToString (Address_Bytes b)))), s')"
    and accounts: "\<And>c. kept (ledger_account X (commit s') c) = kept (put_account (ledger_account X (ledger s)) b (Some ?acc) c)"
    and stored: "ledger_storage X (commit s') b = sto_view X (chain st') b"
      "\<And>c acc. c \<noteq> b \<Longrightarrow> ledger_account X (ledger s) c = Inr (Some acc) \<Longrightarrow> ledger_storage X (commit s') c = sto_view X (chain st') c"
    by (rule Invoke_deploy_commits [OF assms(1,2) fresh L assms(5,6,7) refl b free vm run encodes]) blast
  obtain acca where acca: "ledger_account X (ledger s) a = Inr (Some acca)"
    using callee(2) by (auto simp: holds_code_def)
  have ab: "a \<noteq> b"
    using acca free by auto
  have "kept (ledger_account X (commit s') b) = kept (Inr (Some ?acc))"
    using accounts [of b] by (simp add: put_account_def)
  then obtain accb where accb: "ledger_account X (commit s') b = Inr (Some accb)" "stored_account accb = stored_account ?acc"
    by (auto simp only: kept_Inr)
  have "code_bytes (acc_Code accb) = invoke_code" "may_call accb"
    using accb(2) stored_account_simps(2,3) [of accb] stored_account_simps(2,3) [of ?acc] contract_may_call [of "Some invoke_code" b]
    by (simp_all add: may_call_def code_bytes_def)
  moreover have "\<exists>g. ledger_account X (commit s') GlobalPermissionsAddress = Inr g"
    using accounts [of GlobalPermissionsAddress] globals
    by (cases "ledger_account X (commit s') GlobalPermissionsAddress") (auto simp: put_account_def kept_def split: if_splits)
  moreover have "ledger_storage X (commit s') b 0 = Ok (store_address v a)"
    by (simp add: stored(1) words put_word_def)
  moreover have "holds_code X (commit s') a code"
    by (rule holds_code_kept [OF callee(2)]) (use accounts [of a] ab in \<open>simp add: put_account_def\<close>)
  ultimately have "links X (commit s') b a code"
    using accb(1) callee(1) store_address_read by (auto simp: links_def)
  moreover have "ledger_ok X (commit s')"
    by (rule ledger_ok_of_kept [OF _ accounts]) (use L in \<open>auto simp: put_account_def ledger_ok_def split: if_splits\<close>)
  moreover have "ledger_storage X (commit s') a = ledger_storage X (ledger s) a"
    using stored(2) [OF ab acca] start(5) [OF acca] ab by (simp add: words put_word_def)
  ultimately show ?thesis
    using that s' ab by blast
qed

end
