(* ===== verification/Ledger_Words.thy ===== *)
theory Ledger_Words
  imports Account_Invariants Chaincode_Results
begin

section \<open>The words on the ledger can be read\<close>

text \<open>
  The state manager refuses a stored word of more than 32 bytes. On a ledger of the chaincode there is none:
  every write of a transaction is an account under the key of an account, or a word of 32 bytes.
\<close>

definition readable_words :: "('pk, 'z) externals_scheme \<Rightarrow> (string \<rightharpoonup> bytes) \<Rightarrow> bool" where
  "readable_words X L \<longleftrightarrow> (\<forall>a k. \<exists>v. ledger_storage X L a k = Ok v)"

lemma readable_words_at: "readable_words X L \<longleftrightarrow> (\<forall>a k bs. L (storage_key X a k) = Some bs \<longrightarrow> length bs \<le> 32)"
proof -
  have "(\<exists>v. ledger_storage X L a k = Ok v) \<longleftrightarrow> (\<forall>bs. L (storage_key X a k) = Some bs \<longrightarrow> length bs \<le> 32)" for a k
    by (cases "L (storage_key X a k)") (simp_all add: ledger_storage_def LeftPad_Ok_iff)
  then show ?thesis
    by (simp add: readable_words_def)
qed

lemma writes_commit:
  "PutState s k v = (e, t) \<Longrightarrow> commit t = commit s \<or> commit t = (commit s)(k \<mapsto> v)"
  "DelState s k = (e, t) \<Longrightarrow> commit t = commit s \<or> commit t = (commit s)(k := None)"
  using commit_PutState [of s k v t] commit_DelState [of s k t]
  by (auto simp: PutState_def DelState_def split: if_splits option.splits)

lemma readable_words_write:
  assumes "readable_words X (commit s)"
  shows "commit t = commit s \<or> commit t = (commit s)(account_key X a := y) \<Longrightarrow> readable_words X (commit t)"
    and "commit t = commit s \<or> commit t = (commit s)(storage_key X a k := None) \<Longrightarrow> readable_words X (commit t)"
    and "commit t = commit s \<or> commit t = (commit s)(storage_key X a k \<mapsto> Word256_Bytes v) \<Longrightarrow> readable_words X (commit t)"
  using assms by (auto simp: readable_words_at split: if_splits)

lemma sm_UpdateAccount_words:
  assumes "readable_words X (commit (sm_stub s))" and "sm_UpdateAccount X s acc = (r, t)"
  shows "readable_words X (commit (sm_stub t))"
  using assms readable_words_write(1) [OF assms(1) writes_commit(1)]
  by (auto simp: sm_UpdateAccount_def account_key_eq [of X, symmetric] split: option.splits sum.splits prod.splits)

lemma sm_RemoveAccount_words:
  assumes "readable_words X (commit (sm_stub s))" and "sm_RemoveAccount X s a = (r, t)"
  shows "readable_words X (commit (sm_stub t))"
  using assms readable_words_write(1) [OF assms(1) writes_commit(2)]
  by (auto simp: sm_RemoveAccount_def split: prod.splits)

lemma sm_SetStorage_words:
  assumes "readable_words X (commit (sm_stub s))" and "sm_SetStorage X s a k v = (r, t)"
  shows "readable_words X (commit (sm_stub t))"
  using assms readable_words_write(2) [OF assms(1) writes_commit(2)] readable_words_write(3) [OF assms(1) writes_commit(1)]
  by (auto simp: sm_SetStorage_def Let_def split: if_splits prod.splits option.splits)

lemma Sync_words:
  assumes "es_Sync X st = (Ok (), st')" and "st_backend st = Manager m" and "readable_words X (commit (sm_stub m))"
  shows "readable_words X (commit (st_stub st'))"
proof -
  obtain m' where sync: "Cache_Sync (sm_UpdateAccount X) (sm_RemoveAccount X) (sm_SetStorage X) (st_cache st) m = (Ok (), m')"
    and m': "st_stub st' = sm_stub m'"
    using assms(1,2) by (cases "Cache_Sync (sm_UpdateAccount X) (sm_RemoveAccount X) (sm_SetStorage X) (st_cache st) m")
      (auto simp: es_Sync_def backend_Sync_Manager st_stub_def split: option.splits)
  have "readable_words X (commit (sm_stub m'))"
    by (rule Cache_Sync_accounts [OF sync, where I = "\<lambda>m. readable_words X (commit (sm_stub m))" and P = "\<lambda>_ _. True"])
      (use assms(3) in \<open>auto intro: sm_UpdateAccount_words sm_RemoveAccount_words sm_SetStorage_words\<close>)
  then show ?thesis
    by (simp only: m')
qed

text \<open>Up to \<^verbatim>\<open>Sync\<close> a transaction writes no state.\<close>

lemma Flush_Sync_words:
  assumes "evm_steps X (initial_state s) st" and "sink_Flush X sink st name = (e, st5)"
    and "es_Sync X st5 = (Ok (), st6)" and "write_set s = Map.empty" and "readable_words X (ledger s)"
  shows "readable_words X (commit (st_stub st6))"
proof -
  note st = run_initial [OF assms(1)]
  obtain t where t: "em_Flush X sink s name = (e, t)"
    and st5: "st_backend st5 = Manager ((NewStateManager s)\<lparr>sm_stub := t\<rparr>)"
    using assms(2) st by (auto simp: sink_Flush_def split: prod.splits)
  have "commit t = ledger s"
    using em_Flush_context [OF t] em_Flush_writes [OF t] assms(4) by (simp add: commit_def same_context_iff fun_eq_iff)
  with Sync_words [OF assms(3) st5] assms(5) show ?thesis
    by simp
qed

lemma Invoke_words:
  assumes "\<And>c n. vm_ok X (NewVM newParams c n)" and "evmcc_Invoke X NewVM s = (Ok (shim_Success r), s')"
    and fresh: "write_set s = Map.empty" and words: "readable_words X (ledger s)"
  shows "readable_words X (commit s')"
proof -
  have "readable_words X (commit s)"
    using fresh words by (simp add: commit_initial)
  moreover have "readable_words X (commit (st_stub st6))"
    if "evmcc_deploy X (NewVM newParams caller nonce) (initial_state s) sink caller nonce input gas = (Ok (shim_Success q), st6)"
    for caller nonce sink input gas q st6
  proof (rule deploy_Success [OF that refl])
    let ?a = "NewContractAddress (sha256_Sum X) caller nonce"
    fix rt st3 sink3 st5
    assume call: "NewVM newParams caller nonce (deploy_state X s ?a) sink caller ?a (Some input) input 0 gas = (Ok (Some rt), st3, sink3)"
      and fin: "sink_Flush X sink3 (es_InitCode X st3 ?a (Some rt)) (hex_EncodeToString (take 4 (Address_Bytes ?a))) = (None, st5)"
        "es_Sync X st5 = (Ok (), st6)"
    have "evm_steps X (initial_state s) (es_InitCode X st3 ?a (Some rt))"
      using rtranclp_trans [OF steps_deploy_state vm_okD(1) [OF assms(1) call]] steps_writes(1) by (rule rtranclp_trans)
    from Flush_Sync_words [OF this fin fresh words] show ?thesis .
  qed
  moreover have "readable_words X (commit (st_stub st6))"
    if "evmcc_call X (NewVM newParams caller nonce) (initial_state s) sink caller callee arg input gas = (Ok (shim_Success q), st6)"
    for caller nonce sink callee arg input gas q st6
  proof (rule call_Success [OF that])
    fix code st1 out st2 sink2 name st3
    assume code: "es_GetCode X (initial_state s) callee = (code, st1)"
      and call: "NewVM newParams caller nonce st1 sink caller callee code input 0 gas = (Ok out, st2, sink2)"
      and fin: "sink_Flush X sink2 st2 (string_of name) = (None, st3)" "es_Sync X st3 = (Ok (), st6)"
    have "evm_steps X (initial_state s) st1"
      using steps_reads(4) [of X "initial_state s" callee] code by simp
    then have "evm_steps X (initial_state s) st2"
      using vm_okD(1) [OF assms(1) call] by (rule rtranclp_trans)
    from Flush_Sync_words [OF this fin fresh words] show ?thesis .
  qed
  ultimately show ?thesis
    using assms(2) unfolding evmcc_Invoke_def Let_def initial_state_def [symmetric]
    by (auto simp: apsnd_def map_prod_def split: if_splits sum.splits option.splits prod.splits)
qed

lemma evmcc_ledger_words:
  assumes "evmcc_ledger X L"
  shows "readable_words X L"
  using assms
proof induction
  case genesis
  show ?case
    by (simp add: readable_words_at)
next
  case (transaction s payload s')
  then show ?case
    by (intro Invoke_words [OF NewVM_Call_ok])
qed

end
