(* ===== verification/Log_Delivery.thy ===== *)
theory Log_Delivery
  imports Evm_Logs
begin

section \<open>From the logs of the virtual machine to the logs of the service\<close>

text \<open>
  The event manager of the chaincode writes logs as hex text into the event of the transaction, and the
  service reads and filters that text. Here both ends are joined: a filter on addresses and topics, as
  Ethereum defines it on the logs themselves, is what the service's filter on the text computes.
\<close>

text \<open>The filter on the logs: no addresses is any address, and no alternatives is any topic.\<close>

definition evm_log_matches :: "address list \<Rightarrow> word256 list list \<Rightarrow> log_event \<Rightarrow> bool" where
  "evm_log_matches as ts log \<longleftrightarrow>
     (as = [] \<or> log_Address log \<in> set as) \<and> length ts \<le> length (log_Topics log) \<and>
     list_all (\<lambda>(alternatives, t). alternatives = [] \<or> t \<in> set alternatives) (zip ts (log_Topics log))"

definition address_text :: "address \<Rightarrow> string" where
  "address_text a = hex_EncodeToString (Address_Bytes a)"

definition topic_text :: "word256 \<Rightarrow> string" where
  "topic_text t = hex_EncodeToString (Word256_Bytes t)"

lemma address_text_mem: "address_text a \<in> address_text ` A \<longleftrightarrow> a \<in> A"
  by (auto simp: address_text_def hex.print_inject Address_Bytes_inject)

lemma topic_text_mem: "topic_text t \<in> topic_text ` T \<longleftrightarrow> t \<in> T"
  by (auto simp: topic_text_def hex.print_inject Word256_Bytes_inject)

lemma topic_text_nonempty: "[] \<notin> topic_text ` T"
proof -
  have "length (topic_text t) = 64" for t
    by (simp add: topic_text_def)
  then show ?thesis
    by (metis imageE list.size(3) zero_neq_numeral)
qed

lemma log_matches_event_of_log:
  "log_matches (map address_text as) (map (map topic_text) ts) (event_of_log log) = evm_log_matches as ts log"
proof -
  have address: "ev_Address (event_of_log log) = address_text (log_Address log)"
    and topics: "ev_Topics (event_of_log log) = map topic_text (log_Topics log)"
    by (simp_all add: event_of_log_def address_text_def topic_text_def)
  moreover have "topic_matches (map topic_text alts) (topic_text t) \<longleftrightarrow> alts = [] \<or> t \<in> set alts" for alts t
    using topic_text_nonempty [of "set alts"] by (simp add: topic_matches_def topic_text_mem)
  ultimately have "list_all (\<lambda>(f, t). topic_matches f t)
      (zip (map (map topic_text) ts) (ev_Topics (event_of_log log))) =
    list_all (\<lambda>(alts, t). alts = [] \<or> t \<in> set alts) (zip ts (log_Topics log))"
    by (simp only: topics zip_map_map list.pred_map o_def case_prod_unfold) simp
  then show ?thesis
    by (simp add: log_matches_def evm_log_matches_def address topics address_text_mem)
qed

text \<open>The logs of a transaction, as the event manager records them one after the other.\<close>

definition record_logs ::
    "('pk, 'z) externals_scheme \<Rightarrow> log_event list \<Rightarrow> event_manager \<Rightarrow> event_manager" where
  "record_logs X ls em = fold (\<lambda>l m. snd (em_Log X m l)) ls em"

lemma record_logs_cache: "EventCache (record_logs X ls em) = EventCache em @ map event_of_log ls"
  unfolding record_logs_def by (induction ls arbitrary: em) (simp_all add: em_Log_eq)

lemma Flush_recorded:
  assumes "em_Flush X (record_logs X ls \<lparr>EventCache = []\<rparr>) s n = (None, t)" and "ls \<noteq> []"
  shows "\<exists>p. json_Marshal_events X (map event_of_log ls) = Inr p \<and> chaincode_event t = Some (n, p)"
  using assms by (auto simp: em_Flush_def SetEvent_def record_logs_cache split: if_splits sum.splits)

lemma matching_recorded:
  "matching_logs mk (map address_text as) (map (map topic_text) ts) (map event_of_log ls) =
     map (\<lambda>(i, l). mk i (event_of_log l)) (filter (\<lambda>(i, l). evm_log_matches as ts l) (enumerate 0 ls))"
proof -
  have "enumerate n (map event_of_log ls) = map (apsnd event_of_log) (enumerate n ls)" for n
    by (induction ls arbitrary: n) simp_all
  then show ?thesis
    by (simp add: matching_logs_def filter_map o_def case_prod_unfold log_matches_event_of_log)
qed

lemma log_of_event_inject:
  "log_of_event bn th ti bh i (event_of_log l) = log_of_event bn th ti bh i (event_of_log m) \<longleftrightarrow> l = m"
proof
  assume eq: "log_of_event bn th ti bh i (event_of_log l) = log_of_event bn th ti bh i (event_of_log m)"
  have "inj ((@) ''0x'' \<circ> (\<lambda>t. hex_EncodeToString (Word256_Bytes t)))"
    by (simp add: inj_def hex.print_inject)
  with eq have "log_Topics l = log_Topics m"
    by (auto simp: log_of_event_def event_of_log_def nil_slice_def o_def split: if_splits
        dest!: map_injective)
  moreover have "log_Address l = log_Address m" and "log_Data l = log_Data m"
    using eq by (auto simp: log_of_event_def event_of_log_def hex.print_inject split: if_splits)
  ultimately show "l = m"
    by (cases l; cases m) simp
qed simp

text \<open>
  What joins the two ends: the transaction's event is the one the chaincode set, and
  \<^verbatim>\<open>encoding/json\<close> reads back what it wrote for these logs, whose texts are all hexadecimal digits.
\<close>

lemma logs_of_the_transaction:
  assumes "em_Flush X (record_logs X ls \<lparr>EventCache = []\<rparr>) s n = (None, t)" and "ls \<noteq> []"
    and event: "unmarshal_ChaincodeEvent F events = Inr p" and "events \<noteq> []"
    and json: "json_Marshal_events X (map event_of_log ls) = Inr p \<Longrightarrow> json_Unmarshal_events F p = Inr (map event_of_log ls)"
    and p: "chaincode_event t = Some (n, p)"
  shows "fabricEventToEVMLogs F events bn th ti bh (map address_text as) (map (map topic_text) ts) =
    Ok (nil_slice (map (\<lambda>(i, l). log_of_event bn th ti bh i (event_of_log l))
      (filter (\<lambda>(i, l). evm_log_matches as ts l) (enumerate 0 ls))))"
proof -
  have "json_Marshal_events X (map event_of_log ls) = Inr p"
    using Flush_recorded [OF assms(1,2)] p by auto
  from fabricEventToEVMLogs_eq [OF assms(4) event json [OF this]] show ?thesis
    by (simp only: matching_recorded)
qed

end
