(* ===== verification/Contract_Properties.thy ===== *)
theory Contract_Properties
  imports Simple_Storage Linked_Deployment Ledger_Words Log_Delivery Demo_Evm Service_Properties
begin

section \<open>The integration tests' contracts through the chaincode\<close>

text \<open>
  What the end-to-end tests do with the two contracts that hold a word, for every ledger, caller, address
  and word: deploy, read the code back, set, read, and find the change among the logs.
\<close>

subsection \<open>Deployments\<close>

definition deployed_at :: "('pk, 'z) evm_externals_scheme \<Rightarrow> stub \<Rightarrow> contract \<Rightarrow> address \<Rightarrow> stub \<Rightarrow> bool" where
  "deployed_at X s C a s' \<longleftrightarrow> deploys X s C \<and>
     evmcc_Invoke X (NewVM_Call X) s = (Ok (shim_Success (bytes_of (hex_EncodeToString (Address_Bytes a)))), s')"

lemma storage_deployed:
  assumes "codec_ok X" and "evmcc_ledger X (ledger s)" and "deployed_at X s SimpleStorageContract a s'"
  shows "holds_code X (commit s') a storage_code" and "evmcc_ledger X (commit s')"
  using simple.deployed [OF assms(1,2)] assms(3) by (auto simp: deployed_at_def deploys_def storage_texts)

lemma log_deployed:
  assumes "codec_ok X" and "evmcc_ledger X (ledger s)" and "deployed_at X s SimpleStorageWithLog a s'"
  shows "holds_code X (commit s') a log_code" and "evmcc_ledger X (commit s')"
  using logging.deployed [OF assms(1,2)] assms(3) by (auto simp: deployed_at_def deploys_def log_texts)

lemma evmcc_ledger_state:
  assumes "codec_ok X" and "evmcc_ledger X L"
  shows "ledger_ok X L" and "\<exists>v. ledger_storage X L a k = Ok v"
  using evmcc_ledger_addressed [OF assms(2,1)] evmcc_ledger_words [OF assms(2)] by (simp_all add: readable_words_def)

text \<open>The event of the change, and what the service makes of it.\<close>

lemma change_delivered:
  assumes "events \<noteq> []" and "unmarshal_ChaincodeEvent F events = Inr p"
    and "json_Unmarshal_events F p = Inr (map event_of_log ls)"
  shows "fabricEventToEVMLogs F events bn th ti bh (map address_text as) (map (map topic_text) ts) =
    Ok (nil_slice (map (\<lambda>(i, l). log_of_event bn th ti bh i (event_of_log l))
      (filter (\<lambda>(i, l). evm_log_matches as ts l) (enumerate 0 ls))))"
  using fabricEventToEVMLogs_eq [OF assms] matching_recorded [of "log_of_event bn th ti bh" as ts ls] by simp

subsection \<open>Concrete transactions\<close>

definition demo_deployment :: "contract \<Rightarrow> stub" where
  "demo_deployment C = demo_stub (hex_EncodeToString (Address_Bytes ZeroAddress)) (CompiledBytecode C) Map.empty"

definition demo_invocation :: "string \<Rightarrow> (string \<rightharpoonup> bytes) \<Rightarrow> stub" where
  "demo_invocation text L = demo_stub (hex_EncodeToString (Address_Bytes demo_contract)) text L"

lemma demo_stub_caller: "getCallerAddress demo_evm (demo_stub c d L) = (demo_caller, None)"
  using demo_getCallerAddress [of c d L] by (simp add: getCallerAddress_def)

lemma demo_stub_ok: "fresh_stub (demo_stub c d L)" "faultless (demo_stub c d L)" "invocation (demo_stub c d L) c d"
  by (simp_all add: fresh_stub_def faultless_def invocation_def)

lemma demo_deployment_ok:
  "deploys demo_evm (demo_deployment C) C" "ledger (demo_deployment C) = Map.empty" "faultless (demo_deployment C)"
  "evmcc_ledger demo_evm (ledger (demo_deployment C))" "fresh_stub (demo_deployment C)"
  "getCallerAddress demo_evm (demo_deployment C) = (demo_caller, None)"
  "ledger_account demo_evm (ledger (demo_deployment C)) a = Inr None"
  "stub_txid (demo_deployment C) = ''tx1''"
  by (simp_all add: demo_deployment_def deploys_def demo_stub_ok demo_stub_caller evmcc_ledger.genesis ledger_account_def)

lemma demo_invocation_ok:
  "FunctionHashes C f = Some h \<Longrightarrow>
     invokes demo_evm (demo_invocation (h @ concat (map (\<lambda>x. hex_EncodeToString (Word256_Bytes x)) xs)) L) demo_contract C f xs"
  "ledger (demo_invocation text L) = L" "faultless (demo_invocation text L)"
  by (simp_all add: demo_invocation_def invokes_def demo_stub_ok demo_stub_caller)

lemma demo_reencodes: "reencodes demo_evm"
  unfolding reencodes_def
  by (auto simp: demo_encode_def demo_decode_def new_account_def split: if_splits)

lemma demo_encodes_code: "\<exists>bs. account_Encode demo_evm ((contract_account a)\<lparr>acc_Code := Some code\<rparr>) = Inr bs"
  by (simp add: demo_encode_def contract_account_def map_base_def map_permissions_def new_account_def perm_Set_def
      ContractPermFlags_def perm_Call_def perm_Send_def perm_CreateContract_def)

lemma demo_deployed:
  "\<exists>s'. deployed_at demo_evm (demo_deployment SimpleStorageContract) SimpleStorageContract demo_contract s'"
  "\<exists>s'. deployed_at demo_evm (demo_deployment SimpleStorageWithLog) SimpleStorageWithLog demo_contract s'"
proof -
  note ok = demo_deployment_ok
  have inv: "invocation (demo_deployment C) (hex_EncodeToString (Address_Bytes ZeroAddress)) (CompiledBytecode C)" for C
    by (simp add: demo_deployment_def demo_stub_ok)
  have a: "demo_contract = NewContractAddress (sha256_Sum demo_evm) demo_caller
      (Nonce (sha256_Sum demo_evm) demo_caller (bytes_of (stub_txid (demo_deployment C))))" for C
    by simp
  obtain bs bs' where enc: "account_Encode demo_evm ((contract_account demo_contract)\<lparr>acc_Code := Some storage_code\<rparr>) = Inr bs"
    "account_Encode demo_evm ((contract_account demo_contract)\<lparr>acc_Code := Some log_code\<rparr>) = Inr bs'"
    using demo_encodes_code by metis
  show "\<exists>s'. deployed_at demo_evm (demo_deployment SimpleStorageContract) SimpleStorageContract demo_contract s'"
    using simple.init_succeeds [OF ok(5,3,6) inv [of SimpleStorageContract, unfolded storage_texts] a ok(7) enc(1)] ok(1)
    by (simp add: deployed_at_def)
  show "\<exists>s'. deployed_at demo_evm (demo_deployment SimpleStorageWithLog) SimpleStorageWithLog demo_contract s'"
    using logging.init_succeeds [OF ok(5,3,6) inv [of SimpleStorageWithLog, unfolded log_texts] a ok(7) enc(2)] ok(1)
    by (simp add: deployed_at_def)
qed

subsection \<open>The results\<close>

text \<open>C8. Deploying SimpleStorage at a free address succeeds where the peer takes the writes and the codec
  encodes the new account, and from then on \<^verbatim>\<open>getCode\<close> answers the runtime code of
  \<^verbatim>\<open>contracts.go\<close>.\<close>

theorem simple_storage_deploys:
  assumes "codec_ok X" and "evmcc_ledger X (ledger s)" and "deploys X s SimpleStorageContract" and "faultless s"
    and "getCallerAddress X s = (caller, None)"
    and "a = NewContractAddress (sha256_Sum X) caller (Nonce (sha256_Sum X) caller (bytes_of (stub_txid s)))"
    and "ledger_account X (ledger s) a = Inr None"
    and "account_Encode X ((contract_account a)\<lparr>acc_Code := Some storage_code\<rparr>) = Inr bs"
  shows "\<exists>s'. evmcc_Invoke X (NewVM_Call X) s = (Ok (shim_Success (bytes_of (hex_EncodeToString (Address_Bytes a)))), s') \<and>
    (\<forall>t. ledger t = commit s' \<longrightarrow> get_fault t = (\<lambda>_. None) \<longrightarrow>
      evmcc_getCode X t (bytes_of (hex_EncodeToString (Address_Bytes a))) =
        shim_Success (bytes_of (RuntimeBytecode SimpleStorageContract)))"
proof -
  have inv: "fresh_stub s" "invocation s (hex_EncodeToString (Address_Bytes ZeroAddress)) (hex_EncodeToString (storage_init @ storage_code))"
    using assms(3) by (simp_all add: deploys_def storage_texts)
  obtain s' where run: "evmcc_Invoke X (NewVM_Call X) s = (Ok (shim_Success (bytes_of (hex_EncodeToString (Address_Bytes a)))), s')"
    using simple.init_succeeds [OF inv(1) assms(4,5) inv(2) assms(6-8)] by blast
  then have "holds_code X (commit s') a storage_code"
    using storage_deployed(1) [OF assms(1,2)] assms(3) by (simp add: deployed_at_def)
  then have "evmcc_getCode X t (bytes_of (hex_EncodeToString (Address_Bytes a))) =
      shim_Success (bytes_of (RuntimeBytecode SimpleStorageContract))"
    if "ledger t = commit s'" "get_fault t = (\<lambda>_. None)" for t
    using holds_code_served [of X t a storage_code] that by (simp add: storage_texts)
  with run show ?thesis
    by blast
qed

theorem simple_storage_deploys_witness:
  "\<exists>s'. evmcc_Invoke demo_evm (NewVM_Call demo_evm) (demo_deployment SimpleStorageContract) =
      (Ok (shim_Success (bytes_of (hex_EncodeToString (Address_Bytes demo_contract)))), s') \<and>
    (\<forall>t. ledger t = commit s' \<longrightarrow> get_fault t = (\<lambda>_. None) \<longrightarrow>
      evmcc_getCode demo_evm t (bytes_of (hex_EncodeToString (Address_Bytes demo_contract))) =
        shim_Success (bytes_of (RuntimeBytecode SimpleStorageContract)))"
proof -
  obtain bs where enc: "account_Encode demo_evm ((contract_account demo_contract)\<lparr>acc_Code := Some storage_code\<rparr>) = Inr bs"
    using demo_encodes_code by blast
  show ?thesis
    by (rule simple_storage_deploys [OF demo_evm_codec_ok demo_deployment_ok(4,1,3,6) _ demo_deployment_ok(7) enc]) simp
qed

text \<open>C6. Once SimpleStorage is deployed, \<^verbatim>\<open>set\<close> succeeds for every word and every caller, sets no event, and
  \<^verbatim>\<open>get\<close> then succeeds and answers exactly that word: through the interpreter, the caches, the commit
  and the ledger, and whatever the contract held before.\<close>

theorem simple_storage_remembers:
  assumes "codec_ok X" and "reencodes X" and "evmcc_ledger X (ledger s0)"
    and "deployed_at X s0 SimpleStorageContract a s1" and "ledger s = commit s1"
    and "invokes X s a SimpleStorageContract ''set'' [x]" and "faultless s"
  shows "\<exists>s'. evmcc_Invoke X (NewVM_Call X) s = (Ok (shim_Success []), s') \<and> chaincode_event s' = None \<and>
    (\<forall>t. ledger t = commit s' \<longrightarrow> invokes X t a SimpleStorageContract ''get'' [] \<longrightarrow> faultless t \<longrightarrow>
      (\<exists>t'. evmcc_Invoke X (NewVM_Call X) t = (Ok (shim_Success (Word256_Bytes x)), t')))"
proof -
  note here = storage_deployed [OF assms(1,3,4)]
  obtain v where "ledger_storage X (ledger s) a 0 = Ok v"
    using evmcc_ledger_state(2) [OF assms(1) here(2)] unfolding assms(5) by blast
  with simple.contract_remembers [OF assms(1,2) _ _ assms(6)[unfolded invokes_calls] _ assms(7)]
    evmcc_ledger_state(1) [OF assms(1) here(2)] here(1) show ?thesis
    by (simp add: invokes_calls assms(5))
qed

theorem simple_storage_remembers_witness:
  "\<exists>s1 s s' t t'. deployed_at demo_evm (demo_deployment SimpleStorageContract) SimpleStorageContract demo_contract s1 \<and>
    ledger s = commit s1 \<and> evmcc_Invoke demo_evm (NewVM_Call demo_evm) s = (Ok (shim_Success []), s') \<and>
    ledger t = commit s' \<and> evmcc_Invoke demo_evm (NewVM_Call demo_evm) t = (Ok (shim_Success (Word256_Bytes 7)), t')"
proof -
  note inv = demo_invocation_ok
  obtain s1 where s1: "deployed_at demo_evm (demo_deployment SimpleStorageContract) SimpleStorageContract demo_contract s1"
    using demo_deployed(1) by blast
  have hashes: "FunctionHashes SimpleStorageContract ''set'' = Some ''60fe47b1''"
      "FunctionHashes SimpleStorageContract ''get'' = Some ''6d4ce63c''"
    by (simp_all add: SimpleStorageContract_def)
  let ?s = "demo_invocation (''60fe47b1'' @ concat (map (\<lambda>x. hex_EncodeToString (Word256_Bytes x)) [7])) (commit s1)"
  let ?t = "\<lambda>s'. demo_invocation (''6d4ce63c'' @ concat (map (\<lambda>x. hex_EncodeToString (Word256_Bytes x)) [])) (commit s')"
  obtain s' where "evmcc_Invoke demo_evm (NewVM_Call demo_evm) ?s = (Ok (shim_Success []), s')"
    and "\<exists>t'. evmcc_Invoke demo_evm (NewVM_Call demo_evm) (?t s') = (Ok (shim_Success (Word256_Bytes 7)), t')"
    using simple_storage_remembers [OF demo_evm_codec_ok demo_reencodes demo_deployment_ok(4) s1 inv(2) inv(1) [OF hashes(1)] inv(3)]
      inv(1) [OF hashes(2)] inv(2,3) by blast
  with s1 inv(2) show ?thesis
    by blast
qed

text \<open>C7. Once SimpleStorageWithLog is deployed, \<^verbatim>\<open>set\<close> succeeds and its transaction carries the event
  named after the function, from which the service answers, under a filter that selects it, exactly one log:
  that of the contract with the hash of \<^verbatim>\<open>Changed(uint256,uint256)\<close>, the old word and the new one as its
  topics.\<close>

theorem changes_are_logged:
  assumes "codec_ok X" and "reencodes X" and "evmcc_ledger X (ledger s0)"
    and "deployed_at X s0 SimpleStorageWithLog a s1" and "ledger s = commit s1"
    and "invokes X s a SimpleStorageWithLog ''set'' [x]" and "faultless s"
    and "ledger_storage X (ledger s) a 0 = Ok v"
    and "json_Marshal_events X [event_of_log (Changed_log a v x)] = Inr p"
    and "json_Unmarshal_events F p = Inr [event_of_log (Changed_log a v x)]"
    and "events \<noteq> []" and "unmarshal_ChaincodeEvent F events = Inr p"
  shows "\<exists>s'. evmcc_Invoke X (NewVM_Call X) s = (Ok (shim_Success []), s') \<and>
    chaincode_event s' = Some (''60fe47b1'', p) \<and>
    fabricEventToEVMLogs F events bn th ti bh (map address_text as) (map (map topic_text) ts) =
      Ok (if evm_log_matches as ts (Changed_log a v x)
        then Some [log_of_event bn th ti bh 0 (event_of_log (Changed_log a v x))] else None)"
proof -
  note here = log_deployed [OF assms(1,3,4)]
  have "fabricEventToEVMLogs F events bn th ti bh (map address_text as) (map (map topic_text) ts) =
      Ok (if evm_log_matches as ts (Changed_log a v x)
        then Some [log_of_event bn th ti bh 0 (event_of_log (Changed_log a v x))] else None)"
    using change_delivered [OF assms(11,12), of "[Changed_log a v x]"] assms(10) by (simp add: nil_slice_def)
  with logging.contract_remembers [OF assms(1,2) _ _ assms(6)[unfolded invokes_calls] assms(8,7)]
    evmcc_ledger_state(1) [OF assms(1) here(2)] here(1) show ?thesis
    by (auto simp: assms(5,9) selector_texts)
qed

theorem changes_are_logged_witness:
  "\<exists>s1 s s' p v (F :: unit fab_externals). deployed_at demo_evm (demo_deployment SimpleStorageWithLog) SimpleStorageWithLog demo_contract s1 \<and>
    ledger s = commit s1 \<and> evmcc_Invoke demo_evm (NewVM_Call demo_evm) s = (Ok (shim_Success []), s') \<and>
    chaincode_event s' = Some (''60fe47b1'', p) \<and>
    fabricEventToEVMLogs F [1] [] [] [] [] (map address_text [demo_contract]) (map (map topic_text) [[], [], [7]]) =
      Ok (Some [log_of_event [] [] [] [] 0 (event_of_log (Changed_log demo_contract v 7))])"
proof -
  note inv = demo_invocation_ok
  obtain s1 where s1: "deployed_at demo_evm (demo_deployment SimpleStorageWithLog) SimpleStorageWithLog demo_contract s1"
    using demo_deployed(2) by blast
  obtain v where v: "ledger_storage demo_evm (commit s1) demo_contract 0 = Ok v"
    using evmcc_ledger_state(2) [OF demo_evm_codec_ok log_deployed(2) [OF demo_evm_codec_ok demo_deployment_ok(4) s1]] by blast
  have hash: "FunctionHashes SimpleStorageWithLog ''set'' = Some ''60fe47b1''"
    by (simp add: SimpleStorageWithLog_def)
  let ?e = "event_of_log (Changed_log demo_contract v 7)"
  let ?s = "demo_invocation (''60fe47b1'' @ concat (map (\<lambda>x. hex_EncodeToString (Word256_Bytes x)) [7])) (commit s1)"
  obtain p where p: "json_Marshal_events demo_evm [?e] = Inr p"
    by (simp add: demo_marshal_def)
  let ?F = "demo_fab\<lparr>json_Unmarshal_events := \<lambda>_. Inr [?e], unmarshal_ChaincodeEvent := \<lambda>_. Inr p\<rparr>"
  have F: "json_Unmarshal_events ?F p = Inr [?e]" "unmarshal_ChaincodeEvent ?F [1] = Inr p" "[1 :: byte] \<noteq> []"
    by simp_all
  obtain s' where run: "evmcc_Invoke demo_evm (NewVM_Call demo_evm) ?s = (Ok (shim_Success []), s')"
    and event: "chaincode_event s' = Some (''60fe47b1'', p)"
    and logs: "fabricEventToEVMLogs ?F [1] [] [] [] [] (map address_text [demo_contract]) (map (map topic_text) [[], [], [7]]) =
      Ok (if evm_log_matches [demo_contract] [[], [], [7]] (Changed_log demo_contract v 7) then Some [log_of_event [] [] [] [] 0 ?e] else None)"
    using changes_are_logged [OF demo_evm_codec_ok demo_reencodes demo_deployment_ok(4) s1 inv(2) inv(1) [OF hash] inv(3)
      _ p F(1,3,2)] v inv(2) by metis
  have "evm_log_matches [demo_contract] [[], [], [7]] (Changed_log demo_contract v 7)"
    by (simp add: evm_log_matches_def Changed_log_def)
  with logs have "fabricEventToEVMLogs ?F [1] [] [] [] [] (map address_text [demo_contract]) (map (map topic_text) [[], [], [7]]) =
      Ok (Some [log_of_event [] [] [] [] 0 ?e])"
    by (simp only: if_True)
  with s1 inv(2) run event show ?thesis
    by blast
qed

subsection \<open>InvokeContract in front of SimpleStorage\<close>

definition invoke_deploys :: "('pk, 'z) evm_externals_scheme \<Rightarrow> stub \<Rightarrow> address \<Rightarrow> address \<Rightarrow> bool" where
  "invoke_deploys X s a b \<longleftrightarrow> fresh_stub s \<and>
     invocation s (hex_EncodeToString (Address_Bytes ZeroAddress))
       (CompiledBytecode InvokeContract @ hex_EncodeToString (Word256_Bytes (Address_Word256 a))) \<and>
     (\<exists>caller. getCallerAddress X s = (caller, None) \<and>
       b = NewContractAddress (sha256_Sum X) caller (Nonce (sha256_Sum X) caller (bytes_of (stub_txid s))))"

lemma invokes_linked:
  "invokes X s b InvokeContract ''setVal'' [x] \<longleftrightarrow> calls X s b (setVal_data x)"
  "invokes X s b InvokeContract ''getVal'' [] \<longleftrightarrow> calls X s b getVal_selector"
proof -
  have "hex_EncodeToString getVal_selector = ''e1cb0e52''" "hex_EncodeToString setVal_selector = ''3d4197f0''"
    by (simp_all add: getVal_selector_def setVal_selector_def hex_EncodeToString_def hex_digits_def hextable_def)
  then show "invokes X s b InvokeContract ''setVal'' [x] \<longleftrightarrow> calls X s b (setVal_data x)"
    "invokes X s b InvokeContract ''getVal'' [] \<longleftrightarrow> calls X s b getVal_selector"
    by (auto simp: invokes_def calls_def setVal_data_def hex_append InvokeContract_def)
qed

text \<open>A ledger on which SimpleStorage stands at the address of the caller.\<close>

definition demo_callee_ledger :: "string \<rightharpoonup> bytes" where
  "demo_callee_ledger = [hex_EncodeToString (Address_Bytes demo_caller) \<mapsto> 1 # storage_code @ Address_Bytes demo_caller]"

definition demo_invoke_deployment :: stub where
  "demo_invoke_deployment = demo_stub (hex_EncodeToString (Address_Bytes ZeroAddress))
     (CompiledBytecode InvokeContract @ hex_EncodeToString (Word256_Bytes (Address_Word256 demo_caller))) demo_callee_ledger"

lemma demo_caller_bytes: "Address_Bytes demo_caller = replicate 20 7"
  using Address_Bytes_copy [of "replicate 20 7"] by (simp add: demo_caller_def copy_to_address_def)

lemma demo_caller_not_native: "\<not> IsRegisteredNativeContract demo_evm demo_caller"
proof -
  have other: "demo_caller \<noteq> copy_to_address (b # replicate 19 0)" if "b \<noteq> 7" for b
  proof -
    have "hd (Address_Bytes (copy_to_address (b # replicate 19 0))) = b"
      by (subst Address_Bytes_copy) simp_all
    moreover have "hd (Address_Bytes demo_caller) = 7"
      by (simp add: demo_caller_bytes)
    ultimately show ?thesis
      using that by metis
  qed
  have short: "copy_to_address [b] = copy_to_address (b # replicate 19 0)" for b
    by (simp add: copy_to_address_def)
  let ?name = "replicate 4 0 @ replicate 16 5 :: bytes"
  have "SNative_Address demo_evm = copy_to_address ?name"
    by (simp add: SNative_Address_def demo_keccak_def bytes_of_def)
  moreover have "hd (Address_Bytes (copy_to_address ?name)) = 0"
    by (subst Address_Bytes_copy) simp_all
  moreover have "hd (Address_Bytes demo_caller) = 7" "(7 :: byte) \<noteq> 0"
    by (simp_all add: demo_caller_bytes)
  ultimately have "demo_caller \<noteq> SNative_Address demo_evm"
    by metis
  then show ?thesis
    using other [of 2] other [of 3] other [of 4]
    by (simp add: IsRegisteredNativeContract_def registeredNativeContracts_def short)
qed

lemma demo_callee_account:
  "ledger_account demo_evm demo_callee_ledger c =
     Inr (if c = demo_caller then Some ((contract_account demo_caller)\<lparr>acc_Code := Some storage_code\<rparr>) else None)"
  by (simp add: ledger_account_def demo_callee_ledger_def account_key_eq demo_decode_def hex.print_inject
      contract_account_def map_base_def map_permissions_def new_account_def perm_Set_def
      ContractPermFlags_def perm_Call_def perm_Send_def perm_CreateContract_def Address_Bytes_inject)

lemma demo_callee_ok:
  "ledger_ok demo_evm demo_callee_ledger" "readable_words demo_evm demo_callee_ledger"
  "holds_code demo_evm demo_callee_ledger demo_caller storage_code"
  "ledger_account demo_evm demo_callee_ledger demo_contract = Inr None"
proof -
  have "demo_contract \<noteq> demo_caller"
    using demo_contract_bytes demo_caller_bytes by (auto dest: arg_cong [where f = Address_Bytes])
  then show "ledger_account demo_evm demo_callee_ledger demo_contract = Inr None"
    by (simp add: demo_callee_account)
  have "length (storage_key demo_evm a k) \<noteq> length (hex_EncodeToString (Address_Bytes demo_caller))" for a k
    by (simp add: storage_key_eq)
  then have "storage_key demo_evm a k \<noteq> hex_EncodeToString (Address_Bytes demo_caller)" for a k
    by metis
  then show "readable_words demo_evm demo_callee_ledger"
    by (simp add: readable_words_at demo_callee_ledger_def)
qed (simp_all add: ledger_ok_def holds_code_def demo_callee_account code_bytes_def)

lemma demo_invoke_deployment_ok:
  "invoke_deploys demo_evm demo_invoke_deployment demo_caller demo_contract" "faultless demo_invoke_deployment"
  "ledger demo_invoke_deployment = demo_callee_ledger"
  by (simp_all add: demo_invoke_deployment_def invoke_deploys_def demo_stub_ok demo_stub_caller)

text \<open>C9. Deploying InvokeContract with the address of a SimpleStorage on the ledger succeeds, and from then on
  \<^verbatim>\<open>setVal\<close> through it succeeds for every word and answers it, after which \<^verbatim>\<open>getVal\<close> there and
  \<^verbatim>\<open>get\<close> of SimpleStorage itself both answer that word: through the nested call, the cache of the inner
  state synced into the outer one, and the commit.\<close>

theorem invoke_contract_reaches_through:
  assumes "codec_ok X" and "reencodes X" and "ledger_ok X (ledger s0)" and "readable_words X (ledger s0)"
    and "\<not> IsRegisteredNativeContract X a" and "holds_code X (ledger s0) a storage_code"
    and "ledger_account X (ledger s0) GlobalPermissionsAddress = Inr g"
    and "invoke_deploys X s0 a b" and "faultless s0" and "ledger_account X (ledger s0) b = Inr None"
    and "account_Encode X ((contract_account b)\<lparr>acc_Code := Some invoke_code\<rparr>) = Inr bs"
  shows "\<exists>s1. evmcc_Invoke X (NewVM_Call X) s0 = (Ok (shim_Success (bytes_of (hex_EncodeToString (Address_Bytes b)))), s1) \<and>
    (\<forall>s x. ledger s = commit s1 \<longrightarrow> invokes X s b InvokeContract ''setVal'' [x] \<longrightarrow> faultless s \<longrightarrow>
      (\<exists>s2. evmcc_Invoke X (NewVM_Call X) s = (Ok (shim_Success (Word256_Bytes x)), s2) \<and> chaincode_event s2 = None \<and>
        (\<forall>t. ledger t = commit s2 \<longrightarrow>
          invokes X t b InvokeContract ''getVal'' [] \<or> invokes X t a SimpleStorageContract ''get'' [] \<longrightarrow> faultless t \<longrightarrow>
          (\<exists>t'. evmcc_Invoke X (NewVM_Call X) t = (Ok (shim_Success (Word256_Bytes x)), t')))))"
proof -
  obtain v w where words: "ledger_storage X (ledger s0) b 0 = Ok v" "ledger_storage X (ledger s0) a 0 = Ok w"
    using assms(4) unfolding readable_words_def by blast
  obtain caller where fresh: "fresh_stub s0" and caller: "getCallerAddress X s0 = (caller, None)"
    and inv: "invocation s0 (hex_EncodeToString (Address_Bytes ZeroAddress)) (hex_EncodeToString (invoke_deployment a))"
    and b: "b = NewContractAddress (sha256_Sum X) caller (Nonce (sha256_Sum X) caller (bytes_of (stub_txid s0)))"
    using assms(8) by (auto simp: invoke_deploys_def invoke_texts invoke_deployment_def hex_append)
  obtain s1 where run: "evmcc_Invoke X (NewVM_Call X) s0 = (Ok (shim_Success (bytes_of (hex_EncodeToString (Address_Bytes b)))), s1)"
    and L: "ledger_ok X (commit s1)" and here: "links X (commit s1) b a storage_code" "a \<noteq> b"
    and kept: "ledger_storage X (commit s1) a = ledger_storage X (ledger s0) a"
    by (rule invoke_deployed [OF assms(1,2) fresh assms(3,9) caller inv b assms(10) words(1) assms(11,5,6,7)])
  note remembers = simple.linked_remembers [OF assms(1,2), of _ b a _ w]
  have "\<exists>s2. evmcc_Invoke X (NewVM_Call X) s = (Ok (shim_Success (Word256_Bytes x)), s2) \<and> chaincode_event s2 = None \<and>
      (\<forall>t. ledger t = commit s2 \<longrightarrow>
        invokes X t b InvokeContract ''getVal'' [] \<or> invokes X t a SimpleStorageContract ''get'' [] \<longrightarrow> faultless t \<longrightarrow>
        (\<exists>t'. evmcc_Invoke X (NewVM_Call X) t = (Ok (shim_Success (Word256_Bytes x)), t')))"
    if s: "ledger s = commit s1" "invokes X s b InvokeContract ''setVal'' [x]" "faultless s" for s x
    using remembers [OF _ _ here(2) s(2) [unfolded invokes_linked] _ s(3)] L here(1) kept words(2) code_lengths(1)
    by (simp add: s(1) invokes_linked invokes_calls)
  with run show ?thesis
    by blast
qed

theorem invoke_contract_reaches_through_witness:
  "\<exists>s1 s s2 t t'. evmcc_Invoke demo_evm (NewVM_Call demo_evm) demo_invoke_deployment =
      (Ok (shim_Success (bytes_of (hex_EncodeToString (Address_Bytes demo_contract)))), s1) \<and> ledger s = commit s1 \<and>
    invokes demo_evm s demo_contract InvokeContract ''setVal'' [7] \<and>
    evmcc_Invoke demo_evm (NewVM_Call demo_evm) s = (Ok (shim_Success (Word256_Bytes 7)), s2) \<and> ledger t = commit s2 \<and>
    invokes demo_evm t demo_contract InvokeContract ''getVal'' [] \<and>
    evmcc_Invoke demo_evm (NewVM_Call demo_evm) t = (Ok (shim_Success (Word256_Bytes 7)), t')"
proof -
  note inv = demo_invocation_ok and ok = demo_callee_ok [folded demo_invoke_deployment_ok(3)]
  obtain bs where enc: "account_Encode demo_evm ((contract_account demo_contract)\<lparr>acc_Code := Some invoke_code\<rparr>) = Inr bs"
    using demo_encodes_code by blast
  have globals: "\<exists>g. ledger_account demo_evm (ledger demo_invoke_deployment) GlobalPermissionsAddress = Inr g"
    by (simp add: demo_invoke_deployment_ok(3) demo_callee_account)
  have hashes: "FunctionHashes InvokeContract ''setVal'' = Some ''3d4197f0''"
      "FunctionHashes InvokeContract ''getVal'' = Some ''e1cb0e52''"
    by (simp_all add: InvokeContract_def)
  let ?s = "\<lambda>s1. demo_invocation (''3d4197f0'' @ concat (map (\<lambda>x. hex_EncodeToString (Word256_Bytes x)) [7])) (commit s1)"
  let ?t = "\<lambda>s2. demo_invocation (''e1cb0e52'' @ concat (map (\<lambda>x. hex_EncodeToString (Word256_Bytes x)) [])) (commit s2)"
  obtain g s1 where run: "evmcc_Invoke demo_evm (NewVM_Call demo_evm) demo_invoke_deployment =
      (Ok (shim_Success (bytes_of (hex_EncodeToString (Address_Bytes demo_contract)))), s1)"
    and calls: "\<forall>s x. ledger s = commit s1 \<longrightarrow> invokes demo_evm s demo_contract InvokeContract ''setVal'' [x] \<longrightarrow> faultless s \<longrightarrow>
      (\<exists>s2. evmcc_Invoke demo_evm (NewVM_Call demo_evm) s = (Ok (shim_Success (Word256_Bytes x)), s2) \<and> chaincode_event s2 = None \<and>
        (\<forall>t. ledger t = commit s2 \<longrightarrow> invokes demo_evm t demo_contract InvokeContract ''getVal'' [] \<or>
          invokes demo_evm t demo_caller SimpleStorageContract ''get'' [] \<longrightarrow> faultless t \<longrightarrow>
          (\<exists>t'. evmcc_Invoke demo_evm (NewVM_Call demo_evm) t = (Ok (shim_Success (Word256_Bytes x)), t'))))"
    using globals invoke_contract_reaches_through [OF demo_evm_codec_ok demo_reencodes ok(1,2) demo_caller_not_native ok(3) _
      demo_invoke_deployment_ok(1,2) ok(4) enc] by blast
  note set = inv(2) [where L = "commit s1"] inv(1) [OF hashes(1), where L = "commit s1" and xs = "[7]"] inv(3)
  obtain s2 where s2: "evmcc_Invoke demo_evm (NewVM_Call demo_evm) (?s s1) = (Ok (shim_Success (Word256_Bytes 7)), s2)"
    and "\<exists>t'. evmcc_Invoke demo_evm (NewVM_Call demo_evm) (?t s2) = (Ok (shim_Success (Word256_Bytes 7)), t')"
    using calls [rule_format, OF set] inv(1) [OF hashes(2), where xs = "[]"] inv(2,3) by blast
  with run set(1,2) inv(1) [OF hashes(2), where L = "commit s2" and xs = "[]"] inv(2) [where L = "commit s2"] show ?thesis
    by blast
qed

end
