(* ===== verification/Server.thy ===== *)
theory Server
  imports Rpc_Codec
begin

section \<open>The server process\<close>

text \<open>
  \<^verbatim>\<open>fab3/fab3.go\<close> wires the two services into gorilla's RPC server and an HTTP server;
  \<^verbatim>\<open>fab3/cmd/main.go\<close> reads the settings, opens the Fabric SDK and its clients, runs the
  server until it stops or a signal arrives, and closes the SDK. Viper, cobra, the SDK, the logger and the
  HTTP server are parameters; what the process does to them is a list of actions, in their order.
\<close>

subsection \<open>The two services\<close>

datatype rpc_service = Service_EthService | Service_NetService

record fab3 =
  rpc_codecs :: "(string \<times> string) list"
  rpc_services :: "(string \<times> rpc_service) list"
  http_route :: string
  cors_headers :: "string list"
  cors_origins :: "string list"
  cors_methods :: "string list"
  http_Addr :: "string \<times> int"

text \<open>Registering a service returns an error when its name is taken or it has no method to serve: a
  parameter that is given what is registered already. The address is \<^verbatim>\<open>":%d"\<close>.\<close>

type_synonym register = "(string \<times> rpc_service) list \<Rightarrow> string \<Rightarrow> rpc_service \<Rightarrow> go_error option"

definition unreachable_msg :: string where
  "unreachable_msg = ''this panic indicates a programming error, and is unreachable''"

definition NewFab3 :: "register \<Rightarrow> int \<Rightarrow> fab3 res" where
  "NewFab3 RegisterService port =
     (let eth = (''eth'', Service_EthService); net = (''net'', Service_NetService)
      in if RegisterService [] (fst eth) (snd eth) \<noteq> None then Panic unreachable_msg
      else if RegisterService [eth] (fst net) (snd net) \<noteq> None then Panic unreachable_msg
      else Ok \<lparr>rpc_codecs = [(''application/json'', ''RPCCodec'')], rpc_services = [eth, net],
               http_route = ''/'', cors_headers = [''Origin'', ''Content-Type''], cors_origins = [''*''],
               cors_methods = [''POST''], http_Addr = ('':'', port)\<rparr>)"

text \<open>The HTTP server is an option: \<^verbatim>\<open>Shutdown\<close> of a proxy without one does nothing.\<close>

definition fab3_Shutdown :: "'srv option \<Rightarrow> ('srv \<Rightarrow> go_error option) \<Rightarrow> go_error option" where
  "fab3_Shutdown HTTPServer http_Shutdown =
     (case HTTPServer of Some srv \<Rightarrow> http_Shutdown srv | None \<Rightarrow> None)"

subsection \<open>The settings\<close>

record flag_spec =
  fl_name :: string
  fl_short :: char
  fl_default :: string

definition initFlags :: "flag_spec list" where
  "initFlags =
     [\<lparr>fl_name = ''config'', fl_short = CHR ''c'', fl_default = ''''\<rparr>,
      \<lparr>fl_name = ''user'', fl_short = CHR ''u'', fl_default = ''''\<rparr>,
      \<lparr>fl_name = ''org'', fl_short = CHR ''o'', fl_default = ''''\<rparr>,
      \<lparr>fl_name = ''channel'', fl_short = CHR ''C'', fl_default = ''''\<rparr>,
      \<lparr>fl_name = ''ccid'', fl_short = CHR ''i'', fl_default = ''evmcc''\<rparr>,
      \<lparr>fl_name = ''port'', fl_short = CHR ''p'', fl_default = ''5000''\<rparr>]"

record viper =
  viper_GetString :: "string \<Rightarrow> string"
  viper_GetInt :: "string \<Rightarrow> int"

record settings =
  set_cfg :: string
  set_user :: string
  set_org :: string
  set_ch :: string
  set_ccid :: string
  set_port :: int

text \<open>The package's variables are assigned as the checks go.\<close>

definition checkFlags :: "viper \<Rightarrow> settings \<Rightarrow> go_error option \<times> settings" where
  "checkFlags v s =
     (let s1 = s\<lparr>set_cfg := viper_GetString v ''config''\<rparr>
      in if set_cfg s1 = '''' then (Some (Msg ''Missing config. Please use flag --config or set FAB3_CONFIG''), s1)
      else
     (let s2 = s1\<lparr>set_user := viper_GetString v ''user''\<rparr>
      in if set_user s2 = '''' then (Some (Msg ''Missing user. Please use flag --user or set FAB3_USER''), s2)
      else
     (let s3 = s2\<lparr>set_org := viper_GetString v ''org''\<rparr>
      in if set_org s3 = '''' then (Some (Msg ''Missing org. Please use flag --org or set FAB3_ORG''), s3)
      else
     (let s4 = s3\<lparr>set_ch := viper_GetString v ''channel''\<rparr>
      in if set_ch s4 = '''' then (Some (Msg ''Missing channel. Please use flag --channel or set FAB3_CHANNEL''), s4)
      else (None, s4\<lparr>set_ccid := viper_GetString v ''ccid'', set_port := viper_GetInt v ''port''\<rparr>)))))"

subsection \<open>Running\<close>

text \<open>What wakes the process: \<^verbatim>\<open>Start\<close> returned, or a signal arrived.\<close>

datatype wakeup = Start_returned "go_error option" | Signal_arrived

datatype action =
    NewSDK string | NewChannelClient string string string | NewLedgerClient string string string | NewLogger
  | StartServer "string \<times> int" | ShutdownServer | CloseSDK

record outside =
  fabsdk_New :: "string \<Rightarrow> go_error option"
  channel_New :: "string \<Rightarrow> string \<Rightarrow> string \<Rightarrow> go_error option"
  ledger_New :: "string \<Rightarrow> string \<Rightarrow> string \<Rightarrow> go_error option"
  zap_NewProduction :: "go_error option"
  rpc_RegisterService :: register
  select_wakeup :: wakeup
  http_Shutdown :: "go_error option"

definition serve :: "outside \<Rightarrow> fab3 \<Rightarrow> go_error option \<times> action list" where
  "serve W proxy =
     (case select_wakeup W of
        Start_returned e \<Rightarrow> (e, [StartServer (http_Addr proxy)])
      | Signal_arrived \<Rightarrow>
          (fab3_Shutdown (Some ()) (\<lambda>_. http_Shutdown W), [StartServer (http_Addr proxy), ShutdownServer]))"

definition runFab3 :: "outside \<Rightarrow> settings \<Rightarrow> unit res \<times> action list" where
  "runFab3 W s =
     (let opened = [NewSDK (set_cfg s)];
          channel = opened @ [NewChannelClient (set_ch s) (set_user s) (set_org s)];
          ledger = channel @ [NewLedgerClient (set_ch s) (set_user s) (set_org s)];
          logger = ledger @ [NewLogger]
      in case fabsdk_New W (set_cfg s) of
        Some e \<Rightarrow> (Err (Fmt ''Failed to create Fabric SDK Client: %s'' [AErr e]), opened)
      | None \<Rightarrow>
     (case channel_New W (set_ch s) (set_user s) (set_org s) of
        Some e \<Rightarrow> (Err (Fmt ''Failed to create Fabric SDK Channel Client: %s'' [AErr e]), channel @ [CloseSDK])
      | None \<Rightarrow>
     (case ledger_New W (set_ch s) (set_user s) (set_org s) of
        Some e \<Rightarrow> (Err (Fmt ''Failed to create Fabric SDK Ledger Client: %s'' [AErr e]), ledger @ [CloseSDK])
      | None \<Rightarrow>
     (case zap_NewProduction W of
        Some e \<Rightarrow> (Err (Fmt ''Failed to create logger: %s'' [AErr e]), logger @ [CloseSDK])
      | None \<Rightarrow>
     (case NewFab3 (rpc_RegisterService W) (set_port s) of
        Panic p \<Rightarrow> (Panic p, logger)
      | Err e \<Rightarrow> (Err e, logger)
      | Ok proxy \<Rightarrow>
     (case serve W proxy of
        (Some e, acts) \<Rightarrow> (Err e, logger @ acts @ [CloseSDK])
      | (None, acts) \<Rightarrow> (Ok (), logger @ acts @ [CloseSDK])))))))"

text \<open>The command: the usage is silenced once the settings are valid. \<^verbatim>\<open>main\<close> exits with 1 where
  cobra's own checks of the command line or the command return an error.\<close>

definition fab3Cmd_RunE :: "outside \<Rightarrow> viper \<Rightarrow> settings \<Rightarrow> unit res \<times> bool \<times> action list" where
  "fab3Cmd_RunE W v s =
     (case checkFlags v s of
        (Some e, _) \<Rightarrow> (Err e, False, [])
      | (None, s') \<Rightarrow> (case runFab3 W s' of (r, acts) \<Rightarrow> (r, True, acts)))"

definition initial_settings :: settings where
  "initial_settings = \<lparr>set_cfg = '''', set_user = '''', set_org = '''', set_ch = '''', set_ccid = ''evmcc'', set_port = 5000\<rparr>"

definition main_exit :: "go_error option \<Rightarrow> outside \<Rightarrow> viper \<Rightarrow> nat res" where
  "main_exit cobra_check W v =
     (case cobra_check of
        Some _ \<Rightarrow> Ok 1
      | None \<Rightarrow> (case fst (fab3Cmd_RunE W v initial_settings) of Ok _ \<Rightarrow> Ok 0 | Err _ \<Rightarrow> Ok 1 | Panic p \<Rightarrow> Panic p))"

subsection \<open>Results\<close>

text \<open>Viper's precedence: the flag, a variable of the environment that is not empty, the default.\<close>

definition upper_name :: "string \<Rightarrow> string" where
  "upper_name = map ascii_upper"

definition setting_value :: "(string \<rightharpoonup> string) \<Rightarrow> (string \<rightharpoonup> string) \<Rightarrow> flag_spec \<Rightarrow> string" where
  "setting_value cli env f =
     (case cli (fl_name f) of
        Some x \<Rightarrow> x
      | None \<Rightarrow> (case env (''FAB3_'' @ upper_name (fl_name f)) of
          Some x \<Rightarrow> if x = '''' then fl_default f else x
        | None \<Rightarrow> fl_default f))"

definition viper_ok :: "viper \<Rightarrow> (string \<rightharpoonup> string) \<Rightarrow> (string \<rightharpoonup> string) \<Rightarrow> bool" where
  "viper_ok v cli env \<longleftrightarrow> (\<forall>f \<in> set initFlags. viper_GetString v (fl_name f) = setting_value cli env f)"

definition required :: "string list" where
  "required = [''config'', ''user'', ''org'', ''channel'']"

lemma checkFlags_ok:
  "fst (checkFlags v s) = None \<longleftrightarrow> (\<forall>n \<in> set required. viper_GetString v n \<noteq> '''')"
  by (auto simp: checkFlags_def Let_def required_def)

lemma checkFlags_settings:
  assumes "checkFlags v s = (None, s')"
  shows "s' = \<lparr>set_cfg = viper_GetString v ''config'', set_user = viper_GetString v ''user'',
    set_org = viper_GetString v ''org'', set_ch = viper_GetString v ''channel'',
    set_ccid = viper_GetString v ''ccid'', set_port = viper_GetInt v ''port''\<rparr>"
  using assms by (auto simp: checkFlags_def Let_def split: if_splits)

text \<open>What is opened is closed: once, last, on every path that does not panic.\<close>

lemma NewFab3_cases:
  "NewFab3 R p = Panic q \<longleftrightarrow>
     (R [] ''eth'' Service_EthService \<noteq> None \<or>
      R [(''eth'', Service_EthService)] ''net'' Service_NetService \<noteq> None) \<and> q = unreachable_msg"
  "NewFab3 R p \<noteq> Err e" "NewFab3 R p = Ok f \<Longrightarrow> http_Addr f = ('':'', p)"
  by (auto simp: NewFab3_def Let_def split: if_splits)

lemma serve_acts:
  assumes "serve W proxy = (e, acts)"
  shows "CloseSDK \<notin> set acts" and "StartServer a \<in> set acts \<Longrightarrow> a = http_Addr proxy"
  using assms by (auto simp: serve_def split: wakeup.splits)

lemma runFab3_closes:
  assumes "runFab3 W s = (r, acts)" and "\<forall>p. r \<noteq> Panic p"
  shows "fabsdk_New W (set_cfg s) = None \<Longrightarrow> \<exists>before. acts = before @ [CloseSDK] \<and> CloseSDK \<notin> set before"
    and "fabsdk_New W (set_cfg s) \<noteq> None \<Longrightarrow> CloseSDK \<notin> set acts"
    and "StartServer a \<in> set acts \<Longrightarrow> a = ('':'', set_port s)"
  using assms
  by (auto simp: runFab3_def Let_def NewFab3_cases split: option.splits res.splits prod.splits
      dest: serve_acts NewFab3_cases(3))

definition server_ends_well :: "outside \<Rightarrow> bool" where
  "server_ends_well W = (case select_wakeup W of Start_returned e \<Rightarrow> e = None | Signal_arrived \<Rightarrow> http_Shutdown W = None)"

definition opens :: "outside \<Rightarrow> settings \<Rightarrow> bool" where
  "opens W s \<longleftrightarrow> fabsdk_New W (set_cfg s) = None \<and> channel_New W (set_ch s) (set_user s) (set_org s) = None \<and>
     ledger_New W (set_ch s) (set_user s) (set_org s) = None \<and> zap_NewProduction W = None \<and>
     (\<exists>f. NewFab3 (rpc_RegisterService W) (set_port s) = Ok f)"

lemma runFab3_Ok: "fst (runFab3 W s) = Ok () \<longleftrightarrow> opens W s \<and> server_ends_well W"
  by (auto simp: runFab3_def opens_def server_ends_well_def serve_def fab3_Shutdown_def Let_def
      split: option.splits res.splits wakeup.splits)

subsection \<open>Properties\<close>

text \<open>C40. A run of the server that does not panic closes the SDK it opened exactly once and last, closes
  none that it did not open, and listens on the configured port only.\<close>

theorem sdk_is_closed_last:
  assumes "runFab3 W s = (r, acts)" and "\<forall>p. r \<noteq> Panic p"
  shows "(if fabsdk_New W (set_cfg s) = None then \<exists>before. acts = before @ [CloseSDK] \<and> CloseSDK \<notin> set before
      else CloseSDK \<notin> set acts) \<and>
    (\<forall>a. StartServer a \<in> set acts \<longrightarrow> a = ('':'', set_port s))"
  using runFab3_closes [OF assms] by auto

definition demo_outside :: outside where
  "demo_outside = \<lparr>fabsdk_New = (\<lambda>_. None), channel_New = (\<lambda>_ _ _. None), ledger_New = (\<lambda>_ _ _. None),
     zap_NewProduction = None, rpc_RegisterService = (\<lambda>_ _ _. None), select_wakeup = Signal_arrived,
     http_Shutdown = None\<rparr>"

theorem sdk_is_closed_last_witness:
  "\<exists>acts before. runFab3 demo_outside initial_settings = (Ok (), acts) \<and> acts = before @ [CloseSDK] \<and>
     CloseSDK \<notin> set before"
proof -
  obtain acts where run: "runFab3 demo_outside initial_settings = (Ok (), acts)"
    by (simp add: runFab3_def demo_outside_def Let_def NewFab3_def serve_def fab3_Shutdown_def)
  have "fabsdk_New demo_outside (set_cfg initial_settings) = None"
    by (simp add: demo_outside_def)
  with sdk_is_closed_last [OF run] run show ?thesis
    by auto
qed

text \<open>The process exits with 0 exactly when the command line is accepted, the four required settings
  are given, the SDK, its clients, the logger and the services could be set up, and the server ended
  without an error.\<close>

theorem exit_status:
  "main_exit cobra_check W v = Ok 0 \<longleftrightarrow>
     cobra_check = None \<and> list_all (\<lambda>n. viper_GetString v n \<noteq> '''') required \<and>
     opens W (snd (checkFlags v initial_settings)) \<and> server_ends_well W"
proof -
  obtain e s where f: "checkFlags v initial_settings = (e, s)"
    by (cases "checkFlags v initial_settings")
  have valid: "e = None \<longleftrightarrow> list_all (\<lambda>n. viper_GetString v n \<noteq> '''') required"
    using checkFlags_ok [of v initial_settings] f by (simp add: list_all_iff)
  have "main_exit None W v = Ok 0 \<longleftrightarrow> e = None \<and> fst (runFab3 W s) = Ok ()"
    by (cases "runFab3 W s") (auto simp: main_exit_def fab3Cmd_RunE_def f split: option.splits res.splits)
  moreover have "main_exit (Some c) W v \<noteq> Ok 0" for c
    by (simp add: main_exit_def)
  ultimately show ?thesis
    using valid runFab3_Ok [of W s] f by (cases cobra_check) auto
qed

end
