(* ===== verification/Network.thy ===== *)
theory Network
  imports Cell_Contracts Eth_Service
begin

section \<open>The service in front of the chaincode\<close>

text \<open>
  What the service relies on when its channel client talks to a Fabric channel on which the chaincode is
  installed. A query that is answered ran the chaincode, with a success, on the ledger of the state it was
  asked in. A transaction that is answered ran it, with a success, and its writes were committed: perhaps
  after other transactions, and with others since. A request may always fail, and says nothing then.
\<close>

text \<open>The stub that a request of the service's user gives the chaincode.\<close>

definition proposal :: "(go_error + bytes) \<Rightarrow> channel_request \<Rightarrow> stub \<Rightarrow> bool" where
  "proposal creator req s \<longleftrightarrow> fresh_stub s \<and> stub_creator s = creator \<and>
     map contents (stub_args s) = bytes_of (rq_Fcn req) # rq_Args req"

text \<open>The ledgers that transactions of the chaincode, by anybody, lead to from one: a transaction that is
  committed is committed on the ledger it ran on.\<close>

definition committed :: "('pk, 'z) externals_scheme \<Rightarrow> new_vm \<Rightarrow> (string \<rightharpoonup> bytes) \<Rightarrow> (string \<rightharpoonup> bytes) \<Rightarrow> bool" where
  "committed X NewVM L L' \<longleftrightarrow>
     (\<exists>s r s'. fresh_stub s \<and> ledger s = L \<and> evmcc_Invoke X NewVM s = (Ok (shim_Success r), s') \<and> L' = commit s')"

abbreviation follows :: "('pk, 'z) externals_scheme \<Rightarrow> new_vm \<Rightarrow> (string \<rightharpoonup> bytes) \<Rightarrow> (string \<rightharpoonup> bytes) \<Rightarrow> bool" where
  "follows X NewVM \<equiv> (committed X NewVM)\<^sup>*\<^sup>*"

definition serves_chaincode ::
    "('pk, 'z) externals_scheme \<Rightarrow> new_vm \<Rightarrow> 'w channel_client \<Rightarrow> (go_error + bytes) \<Rightarrow>
     ('w \<Rightarrow> string \<rightharpoonup> bytes) \<Rightarrow> bool" where
  "serves_chaincode X NewVM C creator ledger_at \<longleftrightarrow>
     (\<forall>req w resp w'. channel_Query C req w = (Inr resp, w') \<longrightarrow>
        (\<exists>s s'. proposal creator req s \<and> ledger s = ledger_at w \<and>
           evmcc_Invoke X NewVM s = (Ok (shim_Success (rs_Payload resp)), s'))) \<and>
     (\<forall>req w resp w'. channel_Execute C req w = (Inr resp, w') \<longrightarrow>
        (\<exists>s s'. proposal creator req s \<and> stub_txid s = rs_TransactionID resp \<and>
           follows X NewVM (ledger_at w) (ledger s) \<and>
           evmcc_Invoke X NewVM s = (Ok (shim_Success (rs_Payload resp)), s') \<and>
           follows X NewVM (commit s') (ledger_at w')))"

lemma query_served:
  assumes "serves_chaincode X NewVM C creator ledger_at" and "channel_Query C req w = (Inr resp, w')"
  obtains s s' where "proposal creator req s" and "ledger s = ledger_at w"
    and "evmcc_Invoke X NewVM s = (Ok (shim_Success (rs_Payload resp)), s')"
  using assms unfolding serves_chaincode_def by blast

lemma transaction_served:
  assumes "serves_chaincode X NewVM C creator ledger_at" and "channel_Execute C req w = (Inr resp, w')"
  obtains s s' where "proposal creator req s" and "stub_txid s = rs_TransactionID resp"
    and "follows X NewVM (ledger_at w) (ledger s)"
    and "evmcc_Invoke X NewVM s = (Ok (shim_Success (rs_Payload resp)), s')"
    and "follows X NewVM (commit s') (ledger_at w')"
  using assms unfolding serves_chaincode_def by blast

lemma evmcc_ledger_follows:
  assumes "follows X (NewVM_Call X) L L'" and "evmcc_ledger X L"
  shows "evmcc_ledger X L'"
  using assms
  by (induction rule: rtranclp_induct) (auto simp: committed_def fresh_stub_def intro: evmcc_ledger.transaction)

text \<open>The caller is who the creator of the transaction is.\<close>

lemma getCallerAddress_creator:
  "stub_creator s = stub_creator t \<Longrightarrow> getCallerAddress X s = getCallerAddress X t"
  by (simp add: getCallerAddress_def)

subsection \<open>The queries of the chaincode through the service\<close>

lemma Invoke_getCode:
  assumes "map contents (stub_args s) = [bytes_of ''getCode'', a]"
  shows "evmcc_Invoke X NewVM s = (Ok (evmcc_getCode X s a), s)"
  using assms by (auto simp: evmcc_Invoke_def)

lemma Invoke_account:
  assumes "map contents (stub_args s) = [bytes_of ''account'']"
  shows "evmcc_Invoke X NewVM s = (Ok (evmcc_account X s), s)"
  using assms by (auto simp: evmcc_Invoke_def)

text \<open>The address may be written in any case.\<close>

lemma evmcc_getCode_any_case:
  assumes "hex_DecodeString (string_of x) = Inr (Address_Bytes a)"
  shows "evmcc_getCode X s x = evmcc_getCode X s (bytes_of (hex_EncodeToString (Address_Bytes a)))"
  using assms by (simp add: evmcc_getCode_def)

lemma evmcc_getCode_on_ledger:
  assumes "fresh_stub s" and "ledger_account X (ledger s) a = Inr acc"
  shows "evmcc_getCode X s (bytes_of (hex_EncodeToString (Address_Bytes a))) = shim_Success (bytes_of
    (case acc of None \<Rightarrow> [] | Some acc \<Rightarrow> hex_EncodeToString (code_bytes (acc_Code acc))))"
  using assms evmcc_getCode_account [of s X a] evmcc_getCode_ledger [of s X a]
  by (auto simp: fresh_stub_def ledger_account_def bytes_of_def
      split: option.splits if_splits sum.splits list.splits)

lemma eth_GetCode_on_ledger:
  assumes net: "serves_chaincode X NewVM (channelClient S) creator ledger_at"
    and "hex_DecodeString (strip0x arg) = Inr (Address_Bytes a)"
    and "ledger_account X (ledger_at w) a = Inr acc"
    and run: "eth_GetCode S arg w = (Ok code, w')"
  shows "code = (case acc of None \<Rightarrow> [] | Some acc \<Rightarrow> hex_EncodeToString (code_bytes (acc_Code acc)))"
proof -
  let ?req = "\<lparr>rq_ChaincodeID = ccid S, rq_Fcn = ''getCode'', rq_Args = [bytes_of (strip0x arg)]\<rparr>"
  obtain resp where query: "channel_Query (channelClient S) ?req w = (Inr resp, w')" and code: "code = string_of (rs_Payload resp)"
    using run by (auto simp: eth_GetCode_def eth_query_def split: prod.splits sum.splits)
  obtain s s' where s: "proposal creator ?req s" "ledger s = ledger_at w"
    and inv: "evmcc_Invoke X NewVM s = (Ok (shim_Success (rs_Payload resp)), s')"
    by (rule query_served [OF net query])
  have "evmcc_getCode X s (bytes_of (strip0x arg)) = shim_Success (rs_Payload resp)"
    using inv Invoke_getCode [of s "bytes_of (strip0x arg)" X NewVM] s(1) by (simp add: proposal_def)
  moreover have "evmcc_getCode X s (bytes_of (strip0x arg)) = shim_Success (bytes_of
      (case acc of None \<Rightarrow> [] | Some acc \<Rightarrow> hex_EncodeToString (code_bytes (acc_Code acc))))"
    using evmcc_getCode_any_case [of "bytes_of (strip0x arg)" a X s] assms(2,3) s
      evmcc_getCode_on_ledger [of s X a acc] by (simp add: proposal_def)
  ultimately have "rs_Payload resp = bytes_of
      (case acc of None \<Rightarrow> [] | Some acc \<Rightarrow> hex_EncodeToString (code_bytes (acc_Code acc)))"
    by simp
  then show ?thesis
    by (simp only: code string_of_bytes_of)
qed

lemma eth_Accounts_served:
  assumes net: "serves_chaincode X NewVM (channelClient S) creator ledger_at"
    and caller: "\<And>s. stub_creator s = creator \<Longrightarrow> getCallerAddress X s = (a, None)"
    and run: "eth_Accounts uni S w = (Ok answer, w')"
  shows "answer = [''0x'' @ hex_EncodeToString (Address_Bytes a)]"
proof -
  let ?req = "\<lparr>rq_ChaincodeID = ccid S, rq_Fcn = ''account'', rq_Args = []\<rparr>"
  obtain resp where query: "channel_Query (channelClient S) ?req w = (Inr resp, w')"
    and answer: "answer = [''0x'' @ strings_ToLower uni (string_of (rs_Payload resp))]"
    using run by (auto simp: eth_Accounts_def eth_query_def split: prod.splits sum.splits)
  obtain s s' where s: "proposal creator ?req s"
    and inv: "evmcc_Invoke X NewVM s = (Ok (shim_Success (rs_Payload resp)), s')"
    by (rule query_served [OF net query])
  have "rs_Payload resp = bytes_of (Address_String a)"
    using inv Invoke_account [of s X NewVM] s caller [of s] by (simp add: proposal_def evmcc_account_def)
  then show ?thesis
    by (simp add: answer Address_String_def)
qed

subsection \<open>Deploying through the service\<close>

lemma proposal_invocation:
  assumes "proposal creator \<lparr>rq_ChaincodeID = c, rq_Fcn = f, rq_Args = [bytes_of d]\<rparr> s"
  shows "invocation s f d"
proof -
  have "map contents (stub_args s) = [bytes_of f, bytes_of d]"
    using assms by (simp add: proposal_def)
  then obtain x y where "stub_args s = [x, y]" "contents x = bytes_of f" "contents y = bytes_of d"
    by auto
  then show ?thesis
    by (cases x; cases y) (simp add: invocation_def)
qed

lemma zero_hex: "hex_EncodeToString ZeroAddress_bytes = hex_EncodeToString (Address_Bytes ZeroAddress)"
proof -
  have "copy_to_address ZeroAddress_bytes = ZeroAddress"
    by (simp add: copy_to_address_def ZeroAddress_bytes_def ZeroAddress_def flip: replicate_add)
  then show ?thesis
    using Address_Bytes_copy [of ZeroAddress_bytes] by (simp add: ZeroAddress_bytes_def)
qed

lemma strip0x_hex_digit: "c \<noteq> CHR ''x'' \<Longrightarrow> strip0x (b # c # s) = b # c # s"
  by (simp add: strip0x_def strings_TrimPrefix_def strings_HasPrefix_def)

lemma strip0x_hex [simp]: "strip0x (hex_EncodeToString bs) = hex_EncodeToString bs"
proof (cases bs)
  case (Cons b bs')
  have "hextable ! (unat b mod 16) \<in> set hextable"
    by (rule nth_mem) (simp add: hextable_def)
  then have "hextable ! (unat b mod 16) \<noteq> CHR ''x''"
    by (auto simp: hextable_def)
  then show ?thesis
    unfolding Cons hex_Cons by (rule strip0x_hex_digit)
qed (simp add: strip0x_def strings_TrimPrefix_def strings_HasPrefix_def)

lemma deploy_through_the_service:
  assumes "codec_ok X" and net: "serves_chaincode X (NewVM_Call X) (channelClient S) creator ledger_at"
    and L: "evmcc_ledger X (ledger_at w)" and caller: "\<And>s. stub_creator s = creator \<Longrightarrow> getCallerAddress X s = (caller, None)"
    and input: "hex_DecodeString (strip0x (ea_Data args)) = Inr input" and deploys: "ea_To args = []"
    and run: "eth_SendTransaction S args w = (Ok txid, w')"
    and nonce: "nonce = Nonce (sha256_Sum X) caller (bytes_of txid)" and a: "a = NewContractAddress (sha256_Sum X) caller nonce"
  shows "\<exists>s s' r rt st sink. follows X (NewVM_Call X) (ledger_at w) (ledger s) \<and>
    ledger_account X (ledger s) a = Inr None \<and>
    NewVM_Call X newParams caller nonce (deploy_state X s a) \<lparr>EventCache = []\<rparr> caller a (Some input) input 0 10000 =
      (Ok (Some rt), st, sink) \<and>
    evmcc_Invoke X (NewVM_Call X) s = (Ok (shim_Success r), s') \<and> holds_code X (commit s') a rt \<and>
    follows X (NewVM_Call X) (commit s') (ledger_at w')"
proof -
  let ?req = "\<lparr>rq_ChaincodeID = ccid S, rq_Fcn = hex_EncodeToString (Address_Bytes ZeroAddress),
    rq_Args = [bytes_of (strip0x (ea_Data args))]\<rparr>"
  obtain resp where exec: "channel_Execute (channelClient S) ?req w = (Inr resp, w')" and txid: "txid = rs_TransactionID resp"
    using run by (auto simp: eth_SendTransaction_def Let_def zero_hex deploys split: prod.splits sum.splits)
  obtain s s' where s: "proposal creator ?req s" "stub_txid s = rs_TransactionID resp"
    and before: "follows X (NewVM_Call X) (ledger_at w) (ledger s)"
    and inv: "evmcc_Invoke X (NewVM_Call X) s = (Ok (shim_Success (rs_Payload resp)), s')"
    and after: "follows X (NewVM_Call X) (commit s') (ledger_at w')"
    by (rule transaction_served [OF net exec])
  have fresh: "fresh_stub s" and who: "getCallerAddress X s = (caller, None)"
    using s(1) caller by (simp_all add: proposal_def)
  have ok: "ledger_ok X (ledger s)"
    by (rule evmcc_ledger_addressed [OF evmcc_ledger_follows [OF before L] assms(1)])
  have n: "nonce = Nonce (sha256_Sum X) caller (bytes_of (stub_txid s))"
    by (simp add: nonce txid s(2))
  obtain st6 where deploy: "evmcc_deploy X (NewVM_Call X newParams caller nonce) (initial_state s) \<lparr>EventCache = []\<rparr>
      caller nonce input 10000 = (Ok (shim_Success (rs_Payload resp)), st6)" and s': "s' = st_stub st6"
    using inv Invoke_two_args [OF proposal_invocation [OF s(1)] _ _ _ who input, of "Address_Bytes ZeroAddress" "NewVM_Call X"] n
    by (auto simp: apsnd_def map_prod_def Let_def split: prod.splits)
  show ?thesis
  proof (rule deploy_commits [OF assms(1) NewVM_Call_ok fresh ok deploy a])
    fix rt st sink acc
    assume "NewVM_Call X newParams caller nonce (deploy_state X s a) \<lparr>EventCache = []\<rparr> caller a (Some input) input 0
        10000 = (Ok (Some rt), st, sink)" and "ledger_account X (ledger s) a = Inr None"
      and "kept (ledger_account X (commit (st_stub st6)) a) = kept (Inr (Some (acc\<lparr>acc_Code := Some rt\<rparr>)))"
    moreover from this(3) obtain acc' where "ledger_account X (commit s') a = Inr (Some acc')"
      and "stored_account acc' = stored_account (acc\<lparr>acc_Code := Some rt\<rparr>)"
      unfolding s' by (auto simp only: kept_Inr)
    then have "holds_code X (commit s') a rt"
      using stored_account_simps(2) [of acc'] stored_account_simps(2) [of "acc\<lparr>acc_Code := Some rt\<rparr>"]
      by (simp add: holds_code_def code_bytes_def)
    ultimately show ?thesis
      using before inv after by blast
  qed
qed

end
