(* ===== verification/Demo_Network.thy ===== *)
theory Demo_Network
  imports Network Demo_Evm Log_Delivery
begin

section \<open>A network in front of the chaincode\<close>

text \<open>
  A channel client whose network is one ledger: a query runs the chaincode on it, a transaction runs it
  and commits what it wrote, and what fails is an error. It is an instance of \<open>serves_chaincode\<close> and the
  network of the witnesses.
\<close>

definition demo_request :: "channel_request \<Rightarrow> (string \<rightharpoonup> bytes) \<Rightarrow> stub" where
  "demo_request req L = (demo_stub [] [] L)\<lparr>stub_args :=
     map (\<lambda>b. \<lparr>contents = b, spare = []\<rparr>) (bytes_of (rq_Fcn req) # rq_Args req)\<rparr>"

definition demo_channel ::
    "('pk, 'z) externals_scheme \<Rightarrow> new_vm \<Rightarrow> (string \<rightharpoonup> bytes) channel_client" where
  "demo_channel X NewVM =
     \<lparr>channel_Query = (\<lambda>req L. case evmcc_Invoke X NewVM (demo_request req L) of
          (Ok (shim_Success r), _) \<Rightarrow> (Inr \<lparr>rs_Payload = r, rs_TransactionID = ''tx1''\<rparr>, L)
        | _ \<Rightarrow> (Inl (Msg ''endorsement failed''), L)),
      channel_Execute = (\<lambda>req L. case evmcc_Invoke X NewVM (demo_request req L) of
          (Ok (shim_Success r), s) \<Rightarrow> (Inr \<lparr>rs_Payload = r, rs_TransactionID = ''tx1''\<rparr>, commit s)
        | _ \<Rightarrow> (Inl (Msg ''endorsement failed''), L))\<rparr>"

lemma demo_request_ok:
  "proposal (Inr [1]) req (demo_request req L)" "ledger (demo_request req L) = L" "stub_txid (demo_request req L) = ''tx1''"
  by (simp_all add: demo_request_def proposal_def fresh_stub_def o_def)

lemma demo_channel_serves: "serves_chaincode X NewVM (demo_channel X NewVM) (Inr [1]) (\<lambda>L. L)"
  unfolding serves_chaincode_def
proof (intro conjI allI impI)
  fix req L resp L'
  assume "channel_Query (demo_channel X NewVM) req L = (Inr resp, L')"
  then have "\<exists>s'. evmcc_Invoke X NewVM (demo_request req L) = (Ok (shim_Success (rs_Payload resp)), s')"
    by (auto simp: demo_channel_def split: prod.splits res.splits response.splits)
  with demo_request_ok show "\<exists>s s'. proposal (Inr [1]) req s \<and> ledger s = L \<and>
      evmcc_Invoke X NewVM s = (Ok (shim_Success (rs_Payload resp)), s')"
    by blast
next
  fix req L resp L'
  assume "channel_Execute (demo_channel X NewVM) req L = (Inr resp, L')"
  then have "\<exists>s'. evmcc_Invoke X NewVM (demo_request req L) = (Ok (shim_Success (rs_Payload resp)), s') \<and>
      L' = commit s' \<and> rs_TransactionID resp = ''tx1''"
    by (auto simp: demo_channel_def split: prod.splits res.splits response.splits)
  with demo_request_ok show "\<exists>s s'. proposal (Inr [1]) req s \<and> stub_txid s = rs_TransactionID resp \<and>
      follows X NewVM L (ledger s) \<and> evmcc_Invoke X NewVM s = (Ok (shim_Success (rs_Payload resp)), s') \<and>
      follows X NewVM (commit s') L'"
    by (metis rtranclp.rtrancl_refl)
qed

text \<open>The service on that network, with the interpreter for the virtual machine.\<close>

definition demo_chain_service :: "(string \<rightharpoonup> bytes) eth_service" where
  "demo_chain_service =
     \<lparr>channelClient = demo_channel demo_evm (NewVM_Call demo_evm),
      ledgerClient = \<lparr>QueryInfo = (\<lambda>L. (Inr 1, L)), QueryBlock = (\<lambda>_ L. (Inl (Msg ''no block''), L)),
        QueryBlockByTxID = (\<lambda>_ L. (Inl (Msg ''no block''), L)),
        QueryBlockByHash = (\<lambda>_ L. (Inl (Msg ''no block''), L))\<rparr>,
      channelID = ''channel1'', ccid = ''evmcc''\<rparr>"

lemma demo_chain_serves:
  "serves_chaincode demo_evm (NewVM_Call demo_evm) (channelClient demo_chain_service) (Inr [1]) (\<lambda>L. L)"
  by (simp add: demo_chain_service_def demo_channel_serves)

lemma demo_chain_caller: "stub_creator s = Inr [1] \<Longrightarrow> getCallerAddress demo_evm s = (demo_caller, None)"
  using demo_wrapped_caller by (simp add: demo_wrapped_def getCallerAddress_def)

text \<open>Queries on it are answered.\<close>

lemma demo_chain_GetCode:
  assumes "ledger_account demo_evm L a = Inr acc" and "hex_DecodeString (strip0x arg) = Inr (Address_Bytes a)"
  shows "\<exists>code. eth_GetCode demo_chain_service arg L = (Ok code, L)"
proof -
  let ?req = "\<lparr>rq_ChaincodeID = ''evmcc'', rq_Fcn = ''getCode'', rq_Args = [bytes_of (strip0x arg)]\<rparr>"
  have fresh: "fresh_stub (demo_request ?req L)"
    using demo_request_ok(1) [of ?req L] by (simp add: proposal_def)
  have "ledger_account demo_evm (ledger (demo_request ?req L)) a = Inr acc"
    using assms(1) by (simp add: demo_request_ok)
  from evmcc_getCode_on_ledger [OF fresh this]
    evmcc_getCode_any_case [of "bytes_of (strip0x arg)" a demo_evm "demo_request ?req L"] assms(2)
  obtain r where "evmcc_getCode demo_evm (demo_request ?req L) (bytes_of (strip0x arg)) = shim_Success r"
    by (metis string_of_bytes_of)
  moreover have "map contents (stub_args (demo_request ?req L)) = [bytes_of ''getCode'', bytes_of (strip0x arg)]"
    using demo_request_ok(1) [of ?req L] by (simp add: proposal_def)
  ultimately show ?thesis
    by (simp add: eth_GetCode_def eth_query_def demo_chain_service_def demo_channel_def Invoke_getCode)
qed

lemma demo_chain_Accounts: "\<exists>answer. eth_Accounts uni demo_chain_service L = (Ok answer, L)"
proof -
  let ?req = "\<lparr>rq_ChaincodeID = ''evmcc'', rq_Fcn = ''account'', rq_Args = []\<rparr>"
  have "map contents (stub_args (demo_request ?req L)) = [bytes_of ''account'']" and
    "getCallerAddress demo_evm (demo_request ?req L) = (demo_caller, None)"
    using demo_request_ok(1) [of ?req L] demo_chain_caller by (simp_all add: proposal_def)
  then show ?thesis
    by (simp add: eth_Accounts_def eth_query_def demo_chain_service_def demo_channel_def Invoke_account evmcc_account_def)
qed

text \<open>A deployment through that service.\<close>

definition deploy_args :: "string \<Rightarrow> eth_args" where
  "deploy_args data = \<lparr>ea_To = [], ea_From = [], ea_Gas = [], ea_GasPrice = [], ea_Value = [],
     ea_Data = data, ea_Nonce = []\<rparr>"

lemma deploy_args_simps [simp]: "ea_To (deploy_args d) = []" "ea_Data (deploy_args d) = d"
  by (simp_all add: deploy_args_def)

lemma strip0x_zero [simp]: "strip0x (hex_EncodeToString ZeroAddress_bytes) = hex_EncodeToString ZeroAddress_bytes"
  by (rule strip0x_hex)

lemma demo_deploy_request:
  "demo_request \<lparr>rq_ChaincodeID = c, rq_Fcn = hex_EncodeToString ZeroAddress_bytes,
     rq_Args = [bytes_of (hex_EncodeToString (deploy_wrapper [0x5b, 0x00]))]\<rparr> Map.empty = demo_wrapped"
  by (simp add: demo_request_def demo_wrapped_def demo_stub_def zero_hex)

lemma demo_send_run:
  "\<exists>L. eth_SendTransaction demo_chain_service (deploy_args (hex_EncodeToString (deploy_wrapper [0x5b, 0x00]))) Map.empty =
     (Ok ''tx1'', L)"
proof -
  obtain s' where "evmcc_Invoke demo_evm (NewVM_Call demo_evm) demo_wrapped =
      (Ok (shim_Success (bytes_of (hex_EncodeToString (Address_Bytes demo_contract)))), s')"
    using demo_wrapped_run by blast
  then show ?thesis
    by (simp add: eth_SendTransaction_def demo_chain_service_def demo_channel_def demo_deploy_request Let_def)
qed

text \<open>Externals whose event codecs match, and two recorded logs.\<close>

definition demo_recorded :: "log_event list" where
  "demo_recorded = [\<lparr>log_Address = 5, log_Data = [1], log_Topics = [7]\<rparr>,
     \<lparr>log_Address = 6, log_Data = [], log_Topics = [8, 9]\<rparr>]"

definition recording_externals :: "unit externals" where
  "recording_externals = demo_externals\<lparr>json_Marshal_events :=
     (\<lambda>evs. if evs = map event_of_log demo_recorded then Inr [1] else Inl (Msg ''unsupported events''))\<rparr>"

end
