(* ===== verification/Spec2Isabelle.thy ===== *)
theory Spec2Isabelle
  imports Chaincode_Properties Service_Properties Evm_Properties Contract_Properties Server Demo_Network
begin

text \<open>
  \<^bold>\<open>A verification library of the Fabric EVM chaincode and its JSON-RPC service.\<close>

  \<^bold>\<open>The program.\<close> The repository runs Ethereum contracts on Hyperledger Fabric. The chaincode
  (\<^verbatim>\<open>evmcc/\<close>) executes one invocation at a time: it builds an EVM state on top of the
  ledger stub, lets Burrow's virtual machine work on it, sets the collected logs as the event of the
  transaction and syncs the state to the ledger. The service (\<^verbatim>\<open>fab3/\<close>) answers Ethereum's
  JSON-RPC calls: it turns them into queries and transactions of the chaincode, and reads blocks of the
  channel back into Ethereum's blocks, transactions, receipts and logs.

  \<^bold>\<open>The layers of the chaincode, from the ledger upwards.\<close>
  \<^item> \<^verbatim>\<open>Chaincode_Stub\<close>: the calls of \<^verbatim>\<open>shim.ChaincodeStubInterface\<close> the program makes. A
    stub is a committed ledger, the write set of the transaction and its event; which calls the peer
    refuses is arbitrary. \<open>commit\<close> is the ledger after the transaction.
  \<^item> \<^verbatim>\<open>Burrow_Words\<close>, \<^verbatim>\<open>Permissions\<close>, \<^verbatim>\<open>Address_Converter\<close>, \<^verbatim>\<open>Externals\<close>: addresses (160-bit
    words), storage words (256-bit), permissions, the account, and the functions the chaincode takes
    from libraries that are not modelled (account codec, JSON of events, hashes, x509, PEM), as one
    record of parameters with the contract \<open>codec_ok\<close> where one is needed.
  \<^item> \<^verbatim>\<open>State_Manager\<close> (\<^verbatim>\<open>evmcc/statemanager/statemanager.go\<close>): accounts and storage words under
    their hex keys on the ledger, with the cache of words written in this transaction.
  \<^item> \<^verbatim>\<open>Event_Manager\<close> (\<^verbatim>\<open>evmcc/eventmanager/eventmanager.go\<close>): logs collected as text and flushed
    into the event of the transaction.
  \<^item> \<^verbatim>\<open>State_Cache\<close> (Burrow's \<^verbatim>\<open>acm/acmstate/state_cache.go\<close>): a backend is the state manager or a
    cache on a backend; Go's maps are association lists, so that iteration order is explicit.
  \<^item> \<^verbatim>\<open>Evm_State\<close> (Burrow's \<^verbatim>\<open>execution/evm/state.go\<close>): the state the virtual machine works on, with
    its first error kept, and the step relation \<open>evm_step\<close> of everything a virtual machine may do to it,
    nested calls on caches included. \<^verbatim>\<open>Evm_Calls\<close>: permission checks and transfers of
    \<^verbatim>\<open>vm.go\<close>.
  \<^item> \<^verbatim>\<open>Evm_Chaincode\<close> (\<^verbatim>\<open>evmcc/evmcc.go\<close>): \<open>evmcc_Invoke\<close> with its deployment and call branches,
    \<open>evmcc_getCode\<close> and \<open>evmcc_account\<close>. The virtual machine's \<^verbatim>\<open>Call\<close> is a parameter; \<open>vm_ok\<close>
    in \<^verbatim>\<open>Transaction\<close> says that it reaches the state only by \<open>evm_step\<close> and the events only by
    \<open>em_Log\<close>. \<open>NewVM_Call\<close> below is what the chaincode passes for it, and meets it.

  \<^bold>\<open>The virtual machine\<close> (Burrow's \<^verbatim>\<open>execution/evm/\<close>).
  \<^item> \<^verbatim>\<open>Evm_Opcodes\<close>: \<^verbatim>\<open>asm/opcodes.go\<close> and \<^verbatim>\<open>gas.go\<close>; the opcodes are grouped by the ranges of their
    numbers. \<^verbatim>\<open>Evm_Numbers\<close>: the conversions between 256-bit words, \<^verbatim>\<open>big.Int\<close> (an \<open>int\<close>) and
    \<^verbatim>\<open>uint64\<close>/\<^verbatim>\<open>int64\<close>. \<^verbatim>\<open>Evm_Memory\<close>: \<^verbatim>\<open>memory.go\<close>.
  \<^item> \<^verbatim>\<open>Evm_Machine\<close>: the state of a run. An \<open>activation\<close> is what a call hands to the code it runs (EVM
    state, event sink, gas, counter), a \<open>machine\<close> adds the local variables of \<^verbatim>\<open>VM.execute\<close>, a \<open>frame\<close>
    holds its arguments; \<^verbatim>\<open>stack.go\<close> and \<^verbatim>\<open>event_sink.go\<close> as operations on a machine, which return a
    value, an error, a panic, or nothing when they never return.
  \<^item> \<^verbatim>\<open>Abi\<close> (\<^verbatim>\<open>abi/abi.go\<close>): the types, signatures, decoding and encoding of Ethereum's ABI that the secure
    contract and the reasons of reverts use. \<^verbatim>\<open>Secure_Natives\<close> (\<^verbatim>\<open>snative.go\<close>): the contract that reads and
    changes permissions, its seven functions and their dispatch. \<^verbatim>\<open>Evm_Natives\<close>: \<^verbatim>\<open>native.go\<close>.
  \<^item> \<^verbatim>\<open>Evm_Ops\<close>: the cases of the switch in \<^verbatim>\<open>vm.go\<close> that run no other code.
    \<^verbatim>\<open>Evm_Interpreter\<close>: calls and creations, on a cache of the caller's state that is committed or
    dropped (\<open>nested\<close>), and one turn of the loop (\<open>step\<close>), over a parameter for the nested execution.
    \<^verbatim>\<open>Evm_Run\<close>: the loop, a partial function that passes itself, and \<^verbatim>\<open>VM.Call\<close>.

  \<^bold>\<open>The layers of the service.\<close>
  \<^item> \<^verbatim>\<open>Go_Text\<close>: the functions of \<^verbatim>\<open>strings\<close>, \<^verbatim>\<open>strconv\<close> and \<^verbatim>\<open>encoding/hex\<close> the program calls.
  \<^item> \<^verbatim>\<open>Rpc_Codec\<close> (\<^verbatim>\<open>fab3/codec.go\<close>, \<^verbatim>\<open>netservice.go\<close>), \<^verbatim>\<open>Eth_Types\<close> (\<^verbatim>\<open>fab3/types/types.go\<close>):
    method names, and arguments and replies as JSON trees.
  \<^item> \<^verbatim>\<open>Block_Hash\<close>, \<^verbatim>\<open>Fabric_Blocks\<close>, \<^verbatim>\<open>Evm_Logs\<close>, \<^verbatim>\<open>Eth_Filters\<close>, \<^verbatim>\<open>Eth_Service\<close>
    (\<^verbatim>\<open>fab3/ethservice.go\<close>): the DER encoding under the block hash, the walk through a block's
    transactions (protobuf decoders are parameters), the filter loops over logs, the table of filters, and
    every handler. The SDK's ledger and channel clients are functions on a state of the network, which may
    change between any two calls.
  \<^item> \<^verbatim>\<open>Server\<close> (\<^verbatim>\<open>fab3/fab3.go\<close>, \<^verbatim>\<open>fab3/cmd/main.go\<close>): the settings, the wiring of the two services and the
    life of the process, as the list of what it does to the SDK and the HTTP server.

  \<^bold>\<open>What the lemmas show.\<close>
  \<^item> \<^verbatim>\<open>Cache_Views\<close>: what a reader of a stack of caches sees (\<open>acc_view\<close>, \<open>sto_view\<close>), that reading
    does not change it and that a write changes exactly the view of what was written.
  \<^item> \<^verbatim>\<open>Cache_Refinement\<close>: the interface \<open>state_writer\<close> (a locale) of what a cache is synced into, and that
    syncing overlays the cache on the view of the writer, in any order of the map; interpreted on the
    state manager here and on a cache in \<^verbatim>\<open>World_State\<close>, so that both syncs are one proof.
  \<^item> \<^verbatim>\<open>Cache_Coherence\<close>: the invariant that a clean entry agrees with the backend, preserved by every
    operation. \<^verbatim>\<open>World_State\<close>: after a sync the backend shows what the cache showed, down to the
    committed ledger.
  \<^item> \<^verbatim>\<open>Evm_State_Laws\<close>: every step keeps coherence and writes nothing to the stub; each operation's
    result on its error-free path. \<^verbatim>\<open>Transaction\<close>, \<^verbatim>\<open>Chaincode_Results\<close>: whole invocations.
  \<^item> \<^verbatim>\<open>Eth_Filters\<close>: the interface \<open>handle_table\<close> (a locale), interpreted on the service's filters.
    \<^verbatim>\<open>Eth_Results\<close>: the loops over blocks and transactions.
  \<^item> \<^verbatim>\<open>Network\<close>, \<^verbatim>\<open>Log_Delivery\<close>: the two programs together. \<open>serves_chaincode\<close> is what the service relies
    on when its channel client reaches a channel with the chaincode on it: an answered query ran the chaincode
    on the ledger, an answered transaction was committed, with others before and after it (\<open>follows\<close>), and a
    request may always fail; \<^verbatim>\<open>Demo_Network\<close> is an instance.
  \<^item> \<^verbatim>\<open>Evm_Nesting\<close>: what a nested call does to its caller's state is made of steps of that state.
    \<^verbatim>\<open>Evm_Effects\<close>: the locale \<open>state_effects\<close>, a relation between states that every operation of the state and
    every native contract keeps, interpreted on the steps themselves. \<^verbatim>\<open>Evm_Relations\<close>: the locale
    \<open>machine_relation\<close>, which extends it to machines, with one walk over all instructions; interpreted in
    \<^verbatim>\<open>Evm_Contract\<close> (\<open>world\<close>: the state through its interface, logs appended, gas and memory bounded) and in \<^verbatim>\<open>Evm_Termination\<close> (\<open>total\<close>: it returns).
  \<^item> \<^verbatim>\<open>Evm_Termination\<close>: every turn spends gas or only advances, so a loop ends. \<^verbatim>\<open>Evm_Control\<close>: the turns
    as a step relation with its invariant, and where jumps land. \<^verbatim>\<open>Evm_Isolation\<close>: static and failed calls,
    and the permissions of created contracts. \<^verbatim>\<open>Evm_Alu\<close>: the arithmetic against a reference.
    \<^verbatim>\<open>Evm_Deployment\<close>: a deployment executed symbolically, up to \<^verbatim>\<open>getCode\<close>. \<^verbatim>\<open>Revert_Reasons\<close>: a deployment whose
    constructor, whatever its code, comes to a \<^verbatim>\<open>REVERT\<close> (\<open>comes_to_revert\<close>), up to the answer of the chaincode.
  \<^item> \<^verbatim>\<open>Abi_Encoding\<close>: the standard encoding, which the decoder inverts. \<^verbatim>\<open>Native_Results\<close>: what a permitted call
    of the secure contract does.
  \<^item> \<^verbatim>\<open>Account_Invariants\<close>: the locale \<open>account_invariant\<close>, a predicate on the accounts a state shows that
    survives what instructions and native contracts do to an account; a sublocale of both locales above, so
    that one walk carries it through every run, every transaction and along \<open>evmcc_ledger\<close>, the ledgers that
    successful transactions lead to. Two interpretations: in \<^verbatim>\<open>Account_Permissions\<close> every account is ordinary, so
    nobody gains a permission and every call of the secure contract is refused; in \<^verbatim>\<open>Code_Provenance\<close> code
    stands only at derived addresses.
  \<^item> \<^verbatim>\<open>Gas_Termination\<close>: every nested run has less gas than its caller or next to none, and one with next to
    none can only call the zero address; so every run ends where no code can stand there.
  \<^item> \<^verbatim>\<open>Transaction_States\<close>: the states the machine comes to in a transaction, as an inductive predicate, and
    that an invariant of accounts holds in all of them.
  \<^item> \<^verbatim>\<open>Contract_Execution\<close>: the machine as a configuration with one rewrite rule per instruction, so that code
    runs by simplification; a listing says where the instructions of a code stand. \<^verbatim>\<open>Integration_Contracts\<close>
    (\<^verbatim>\<open>integration/helpers/contracts.go\<close>): the compiled contracts of the integration tests, as text and as bytes.
    \<^verbatim>\<open>Contract_States\<close>: the states a contract can work on, in which reading and writing succeed and which can
    be synced into their caller's. \<^verbatim>\<open>Cell_Contracts\<close>: the locale \<open>cell_contract\<close>, what the runs of a contract that
    holds a word do to the state the machine works on, and from that what the transactions do that deploy and call
    it, success included; interpreted in \<^verbatim>\<open>Simple_Storage\<close> on the two contracts with a word, whose constructors
    and functions are executed there for every state, caller and word. \<^verbatim>\<open>Ledger_Words\<close>: every word on a ledger of
    the chaincode can be read.
  \<^item> \<^verbatim>\<open>Contract_Calls\<close>: the rewrite rules of the instructions around a nested call and of the call itself, and
    what a call of a contract with a word does to the state of its caller (once more inside \<open>cell_contract\<close>).
    \<^verbatim>\<open>Invoke_Contract\<close>: InvokeContract of the tests, executed up to its calls and behind them.
    \<^verbatim>\<open>Linked_Contracts\<close>: the transactions that call it in front of any contract with a word; \<^verbatim>\<open>Linked_Deployment\<close>:
    its deployment, whose constructor writes.
  \<^item> \<^verbatim>\<open>Chaincode_Properties\<close>, \<^verbatim>\<open>Evm_Properties\<close>, \<^verbatim>\<open>Contract_Properties\<close>, \<^verbatim>\<open>Service_Properties\<close>, \<^verbatim>\<open>Server\<close> and this theory state the
    properties, C1 to C40, each with a witness on concrete inputs where it has hypotheses (\<^verbatim>\<open>Demo_Run\<close> and
    \<^verbatim>\<open>Demo_Evm\<close> execute the transactions they use).

  \<^bold>\<open>Errors, panics and loops.\<close> A Go error is a value of \<open>go_error\<close>, a call that may panic returns
  \<open>res\<close>. Two recursions may not end and are partial functions: the loop of \<^verbatim>\<open>GetLogs\<close> over block numbers,
  whose counter is a \<^verbatim>\<open>uint64\<close> and may wrap around (proved to end when the last block is not the largest
  number, and when it is never to end with logs, but with an error where the ledger refuses a block), and the virtual machine, which the chaincode runs without a limit on the
  depth of calls (proved to end with a limit, and without one for code that calls and creates nothing; for other
  code its gas ends it unless code comes to stand at the zero address, which no documented property of the
  hashes excludes, so that for a transaction of the chaincode no more is claimed; a recursion without end would exhaust the stack of the goroutine,
  which is a panic of \<open>NewVM_Call\<close>). No fuel is used.

  \<^bold>\<open>What is not modelled.\<close> The parts of Burrow's ABI that nothing here calls (arrays, bytes, events, the JSON of
  specifications); debug output; exhaustion of memory below the limits the code checks (an allocation above 48
  bits of address panics); the text of JSON, protobuf and the account codec; hash functions; locks (every
  operation under a lock is one step); log lines; the generated fakes; the harness of
  the integration tests, of which only the contracts are here.

  \<^bold>\<open>What comes next.\<close> Printing and parsing of JSON, which discharges the codec of events; the test contract
  that creates another, which is here as data only.
\<close>

section \<open>The service and the chaincode together\<close>

text \<open>\<^verbatim>\<open>eth_getCode\<close> through the service, where it is answered, answers what is on the ledger: for an
  address in whatever case, with or without its prefix, the hex of the code of its account, and the empty
  string when the ledger has none.\<close>

theorem code_through_the_service:
  assumes "serves_chaincode X NewVM (channelClient S) creator ledger_at"
    and "hex_DecodeString (strip0x arg) = Inr (Address_Bytes a)"
    and "ledger_account X (ledger_at w) a = Inr acc" and "eth_GetCode S arg w = (Ok code, w')"
  shows "code = (case acc of None \<Rightarrow> [] | Some acc \<Rightarrow> hex_EncodeToString (code_bytes (acc_Code acc)))"
  using assms by (rule eth_GetCode_on_ledger)

theorem code_through_the_service_witness:
  "eth_GetCode demo_chain_service (''0x'' @ hex_EncodeUpperToString (Address_Bytes demo_contract)) Map.empty =
     (Ok [], Map.empty)"
proof -
  have none: "ledger_account demo_evm Map.empty demo_contract = Inr None"
    by (simp add: ledger_account_def)
  have arg: "hex_DecodeString (strip0x (''0x'' @ hex_EncodeUpperToString (Address_Bytes demo_contract))) =
      Inr (Address_Bytes demo_contract)"
    by (simp add: strip0x_0x del: append_Cons append_Nil)
  obtain code where run: "eth_GetCode demo_chain_service (''0x'' @ hex_EncodeUpperToString (Address_Bytes demo_contract))
      Map.empty = (Ok code, Map.empty)"
    using demo_chain_GetCode [OF none arg] by blast
  from code_through_the_service [OF demo_chain_serves arg none run] run show ?thesis
    by simp
qed

text \<open>\<^verbatim>\<open>eth_accounts\<close> through the service, where it is answered, is the one address the chaincode derives
  from the identity of the caller, in lower-case hex behind its prefix.\<close>

theorem accounts_through_the_service:
  assumes "serves_chaincode X NewVM (channelClient S) creator ledger_at"
    and "\<And>s. stub_creator s = creator \<Longrightarrow> getCallerAddress X s = (a, None)"
    and "eth_Accounts uni S w = (Ok answer, w')"
  shows "answer = [''0x'' @ hex_EncodeToString (Address_Bytes a)]"
  using assms by (rule eth_Accounts_served)

theorem accounts_through_the_service_witness:
  "eth_Accounts (\<lambda>s. s) demo_chain_service Map.empty =
     (Ok [''0x'' @ hex_EncodeToString (Address_Bytes demo_caller)], Map.empty)"
proof -
  obtain answer where run: "eth_Accounts (\<lambda>s. s) demo_chain_service Map.empty = (Ok answer, Map.empty)"
    using demo_chain_Accounts by blast
  from accounts_through_the_service [OF demo_chain_serves demo_chain_caller run] run show ?thesis
    by simp
qed

text \<open>C10. A contract sent through the service is deployed: when \<^verbatim>\<open>eth_sendTransaction\<close> without
  a callee answers with a transaction, then on a ledger that followed the one at the time of the request the
  address derived from the sender and that transaction was free, the virtual machine returned the runtime
  code for it, and the ledger after the transaction, which the present one followed, holds an account with that
  code there. In every state whose ledger holds it, now or later, \<^verbatim>\<open>eth_getCode\<close> answers that code
  where it answers at all.\<close>

theorem deployment_through_the_service:
  assumes "codec_ok X" and "serves_chaincode X (NewVM_Call X) (channelClient S) creator ledger_at"
    and "evmcc_ledger X (ledger_at w)" and "\<And>s. stub_creator s = creator \<Longrightarrow> getCallerAddress X s = (caller, None)"
    and "hex_DecodeString (strip0x (ea_Data args)) = Inr input" and "ea_To args = []"
    and "eth_SendTransaction S args w = (Ok txid, w')"
    and "nonce = Nonce (sha256_Sum X) caller (bytes_of txid)" and "a = NewContractAddress (sha256_Sum X) caller nonce"
  shows "\<exists>s s' r rt st sink. follows X (NewVM_Call X) (ledger_at w) (ledger s) \<and>
    ledger_account X (ledger s) a = Inr None \<and>
    NewVM_Call X newParams caller nonce (deploy_state X s a) \<lparr>EventCache = []\<rparr> caller a (Some input) input 0 10000 =
      (Ok (Some rt), st, sink) \<and>
    evmcc_Invoke X (NewVM_Call X) s = (Ok (shim_Success r), s') \<and> holds_code X (commit s') a rt \<and>
    follows X (NewVM_Call X) (commit s') (ledger_at w') \<and>
    (\<forall>w1 w2 code. holds_code X (ledger_at w1) a rt \<longrightarrow>
      eth_GetCode S (''0x'' @ hex_EncodeToString (Address_Bytes a)) w1 = (Ok code, w2) \<longrightarrow> code = hex_EncodeToString rt)"
proof -
  have arg: "hex_DecodeString (strip0x (''0x'' @ hex_EncodeToString (Address_Bytes a))) = Inr (Address_Bytes a)"
    by (simp add: strip0x_0x del: append_Cons append_Nil)
  have "code = hex_EncodeToString rt" if "holds_code X (ledger_at w1) a rt"
    "eth_GetCode S (''0x'' @ hex_EncodeToString (Address_Bytes a)) w1 = (Ok code, w2)" for rt w1 w2 code
    using that(1) eth_GetCode_on_ledger [OF assms(2) arg _ that(2)] by (auto simp: holds_code_def)
  with deploy_through_the_service [OF assms] show ?thesis
    by blast
qed

theorem deployment_through_the_service_witness:
  "\<exists>L L' rt. eth_SendTransaction demo_chain_service
       (deploy_args (hex_EncodeToString (deploy_wrapper [0x5b, 0x00]))) Map.empty = (Ok ''tx1'', L) \<and>
     follows demo_evm (NewVM_Call demo_evm) L' L \<and>
     eth_GetCode demo_chain_service (''0x'' @ hex_EncodeToString (Address_Bytes demo_contract)) L' =
       (Ok (hex_EncodeToString rt), L')"
proof -
  let ?arg = "''0x'' @ hex_EncodeToString (Address_Bytes demo_contract)"
  obtain L where run: "eth_SendTransaction demo_chain_service
      (deploy_args (hex_EncodeToString (deploy_wrapper [0x5b, 0x00]))) Map.empty = (Ok ''tx1'', L)"
    using demo_send_run by blast
  have a: "demo_contract = NewContractAddress (sha256_Sum demo_evm) demo_caller
      (Nonce (sha256_Sum demo_evm) demo_caller (bytes_of ''tx1''))"
    by simp
  obtain L' rt where holds: "holds_code demo_evm L' demo_contract rt" and "follows demo_evm (NewVM_Call demo_evm) L' L"
    and served: "\<And>w1 w2 code. holds_code demo_evm w1 demo_contract rt \<Longrightarrow>
      eth_GetCode demo_chain_service ?arg w1 = (Ok code, w2) \<Longrightarrow> code = hex_EncodeToString rt"
    using deployment_through_the_service [OF demo_evm_codec_ok demo_chain_serves evmcc_ledger.genesis demo_chain_caller
        _ _ run refl a, of "deploy_wrapper [0x5b, 0x00]"] by auto
  moreover have arg: "hex_DecodeString (strip0x ?arg) = Inr (Address_Bytes demo_contract)"
    by (simp add: strip0x_0x del: append_Cons append_Nil)
  obtain acc where "ledger_account demo_evm L' demo_contract = Inr (Some acc)"
    using holds by (auto simp: holds_code_def)
  from demo_chain_GetCode [OF this arg] obtain code where "eth_GetCode demo_chain_service ?arg L' = (Ok code, L')"
    by blast
  ultimately show ?thesis
    using run served [OF holds] by blast
qed

text \<open>C13. What a contract logs reaches the client: when the logs the virtual machine emitted were recorded
  and flushed into the event of the transaction, the service answers, for a filter on addresses and topics,
  exactly the emitted logs that Ethereum's filter selects, in order, each with its place among all of
  them, and each answered log determines the emitted one. Of JSON this needs only that the text of these very
  events, all of it hexadecimal digits, is read back as it was written.\<close>

theorem logs_reach_the_client:
  assumes "em_Flush X (record_logs X ls \<lparr>EventCache = []\<rparr>) s n = (None, t)" and "ls \<noteq> []"
    and "unmarshal_ChaincodeEvent F events = Inr p" and "events \<noteq> []"
    and "json_Marshal_events X (map event_of_log ls) = Inr p \<Longrightarrow> json_Unmarshal_events F p = Inr (map event_of_log ls)"
    and "chaincode_event t = Some (n, p)"
  shows "fabricEventToEVMLogs F events bn th ti bh (map address_text as) (map (map topic_text) ts) =
    Ok (nil_slice (map (\<lambda>(i, l). log_of_event bn th ti bh i (event_of_log l))
      (filter (\<lambda>(i, l). evm_log_matches as ts l) (enumerate 0 ls)))) \<and>
    (log_of_event bn th ti bh i (event_of_log l) = log_of_event bn th ti bh i (event_of_log l') \<longleftrightarrow> l = l')"
  using logs_of_the_transaction [OF assms] log_of_event_inject by blast

theorem logs_reach_the_client_witness:
  "fabricEventToEVMLogs (demo_fab\<lparr>json_Unmarshal_events := \<lambda>_. Inr (map event_of_log demo_recorded)\<rparr>) [1]
     [] [] [] [] (map address_text [6]) (map (map topic_text) [[], [9]]) =
   Ok (Some [log_of_event [] [] [] [] 1 (event_of_log \<lparr>log_Address = 6, log_Data = [], log_Topics = [8, 9]\<rparr>)])"
proof -
  let ?F = "demo_fab\<lparr>json_Unmarshal_events := \<lambda>_. Inr (map event_of_log demo_recorded)\<rparr>"
  have "em_Flush recording_externals (record_logs recording_externals demo_recorded \<lparr>EventCache = []\<rparr>)
      demo_call ''ev'' = (None, demo_call\<lparr>chaincode_event := Some (''ev'', [1])\<rparr>)"
    by (simp add: em_Flush_def record_logs_cache recording_externals_def SetEvent_def demo_recorded_def)
  moreover have "demo_recorded \<noteq> []" and "unmarshal_ChaincodeEvent ?F [1] = Inr [1]" and "[1 :: byte] \<noteq> []"
    by (simp_all add: demo_recorded_def demo_fab_def)
  moreover have "json_Unmarshal_events ?F [1] = Inr (map event_of_log demo_recorded)"
    by simp
  moreover have "chaincode_event (demo_call\<lparr>chaincode_event := Some (''ev'', [1])\<rparr>) = Some (''ev'', [1])"
    by simp
  ultimately have "fabricEventToEVMLogs ?F [1] [] [] [] [] (map address_text [6]) (map (map topic_text) [[], [9]]) =
      Ok (nil_slice (map (\<lambda>(i, l). log_of_event [] [] [] [] i (event_of_log l))
        (filter (\<lambda>(i, l). evm_log_matches [6] [[], [9]] l) (enumerate 0 demo_recorded))))"
    by (rule logs_reach_the_client [THEN conjunct1])
  then show ?thesis
    by (simp add: demo_recorded_def evm_log_matches_def nil_slice_def)
qed

end
